(* ===== verification/Prelude.thy ===== *)
theory Prelude
  imports Main "HOL-Library.List_Lexorder" "HOL-Library.Char_ord"
begin

text \<open>
  What every component shares: the error values of the service, the result
  combinators the Go bodies are written with (a call whose error is returned to
  the caller, a loop that stops at the first error), instants and durations, and
  finite maps listed in key order.

  An error is represented by the sentinel \<open>errors.Is\<close> finds in it: the
  \<open>errors.Wrap\<close> layers of the source add a message and keep the sentinel, so
  a wrapped error is the same value here.
\<close>

named_theorems monad_simps
named_theorems lib_simps
named_theorems vocab_simps

section \<open>Errors\<close>

text \<open>The sentinels of \<open>pkg/errors.go\<close>, the two not-found errors of the
  key-value library, the validation error, and any other failure.\<close>

datatype error =
    ErrItemNotFound
  | ErrIllegalTransition
  | ErrAlreadyAnswered
  | ErrAlreadyEscalated
  | ErrItemNotOpen
  | ErrInvalidSessionID
  | ErrInvalidLivenessRef
  | ErrSessionHeartbeatNotFound
  | ErrPeerUnavailable
  | ErrSessionLedgerEntryNotFound
  | ErrSessionLedgerPatchInvalid
  | ErrPermissionCloseWithoutDecision
  | ErrFlagReasonRequired
  | ErrRatingInvalid
  | ErrMisrouteWeekInvalid
  | ErrKeyNotFound
  | ErrBucketNotFound
  | ValidationError
  | OtherError string

text \<open>\<open>isNotFound\<close>: a missing key and a bucket never created are one answer.\<close>

definition isNotFound :: "error \<Rightarrow> bool" where
  "isNotFound e = (e = ErrKeyNotFound \<or> e = ErrBucketNotFound)"

lemma isNotFound_simps [simp]:
  "isNotFound ErrKeyNotFound" "isNotFound ErrBucketNotFound"
  by (simp_all add: isNotFound_def)

section \<open>Calls that may fail\<close>

definition ebind :: "'e + 'a \<Rightarrow> ('a \<Rightarrow> 'e + 'b) \<Rightarrow> 'e + 'b" where
  "ebind m f = (case m of Inl e \<Rightarrow> Inl e | Inr x \<Rightarrow> f x)"

lemma ebind_simps [simp, monad_simps]:
  "ebind (Inl e) f = Inl e"
  "ebind (Inr x) f = f x"
  by (simp_all add: ebind_def)

lemma ebind_assoc: "ebind (ebind m f) g = ebind m (\<lambda>x. ebind (f x) g)"
  by (cases m) simp_all

lemma ebind_eq_Inr: "ebind m f = Inr y \<longleftrightarrow> (\<exists>x. m = Inr x \<and> f x = Inr y)"
  by (cases m) simp_all

lemma ebind_eq_Inl: "ebind m f = Inl e \<longleftrightarrow> m = Inl e \<or> (\<exists>x. m = Inr x \<and> f x = Inl e)"
  by (cases m) simp_all

lemma ebind_if: "ebind (if c then m else n) f = (if c then ebind m f else ebind n f)"
  by simp

text \<open>A check that yields an error or nothing, before the rest of the body.\<close>

definition guardE :: "'e option \<Rightarrow> 'e + 'a \<Rightarrow> 'e + 'a" where
  "guardE c m = (case c of Some e \<Rightarrow> Inl e | None \<Rightarrow> m)"

lemma guardE_simps [simp, monad_simps]:
  "guardE (Some e) m = Inl e"
  "guardE None m = m"
  by (simp_all add: guardE_def)

lemma guardE_eq_Inr: "guardE c m = Inr x \<longleftrightarrow> c = None \<and> m = Inr x"
  by (cases c) simp_all

text \<open>A loop over a list whose body updates a state and may fail.\<close>

fun efold :: "('s \<Rightarrow> 'k \<Rightarrow> 'e + 's) \<Rightarrow> 's \<Rightarrow> 'k list \<Rightarrow> 'e + 's" where
  "efold f s [] = Inr s"
| "efold f s (k # ks) = ebind (f s k) (\<lambda>s'. efold f s' ks)"

lemma efold_append: "efold f s (xs @ ys) = ebind (efold f s xs) (\<lambda>s'. efold f s' ys)"
  by (induction xs arbitrary: s) (auto simp: ebind_assoc)

text \<open>When every body succeeds, and abstracts to \<open>g\<close>, the loop abstracts to a fold.\<close>

lemma efold_refines:
  assumes "\<And>s k. k \<in> set ks \<Longrightarrow> map_sum id \<alpha> (f s k) = Inr (g k (\<alpha> s))"
  shows "map_sum id \<alpha> (efold f s ks) = Inr (fold g ks (\<alpha> s))"
  using assms
proof (induction ks arbitrary: s)
  case Nil
  then show ?case by simp
next
  case (Cons k ks)
  from Cons.prems[of k s] obtain s' where s': "f s k = Inr s'" "\<alpha> s' = g k (\<alpha> s)"
    by (cases "f s k") auto
  then show ?case using Cons by simp
qed

text \<open>When every body abstracts to the body of another loop, so does the whole loop.\<close>

lemma efold_sim:
  assumes "\<And>acc k. I (\<gamma> acc) \<Longrightarrow> map_sum id \<gamma> (f acc k) = g (\<gamma> acc) k"
    and "\<And>b k b'. I b \<Longrightarrow> g b k = Inr b' \<Longrightarrow> I b'"
    and "I (\<gamma> acc)"
  shows "map_sum id \<gamma> (efold f acc ks) = efold g (\<gamma> acc) ks"
  using assms(3)
proof (induction ks arbitrary: acc)
  case Nil
  then show ?case by simp
next
  case (Cons k ks)
  note step = assms(1)[OF Cons.prems, of k, symmetric]
  show ?case
  proof (cases "f acc k")
    case (Inl e)
    then show ?thesis using step by simp
  next
    case (Inr acc')
    then have g: "g (\<gamma> acc) k = Inr (\<gamma> acc')" using step by simp
    show ?thesis using Cons.IH[OF assms(2)[OF Cons.prems g]] by (simp add: Inr g)
  qed
qed

lemma efold_inv:
  assumes "\<And>b k b'. I b \<Longrightarrow> k \<in> set ks \<Longrightarrow> g b k = Inr b' \<Longrightarrow> I b'" and "I b"
    and "efold g b ks = Inr b'"
  shows "I b'"
  using assms
proof (induction ks arbitrary: b)
  case (Cons k ks)
  from Cons.prems(3) obtain b1 where b1: "g b k = Inr b1" "efold g b1 ks = Inr b'"
    by (auto simp: ebind_eq_Inr)
  have "I b1" using Cons.prems(1)[OF Cons.prems(2) _ b1(1)] by simp
  moreover have "\<And>b k b'. I b \<Longrightarrow> k \<in> set ks \<Longrightarrow> g b k = Inr b' \<Longrightarrow> I b'"
    by (rule Cons.prems(1)) simp_all
  ultimately show ?case using Cons.IH b1(2) by blast
qed simp

text \<open>The first error of a loop of checks.\<close>

fun firstErr :: "('a \<Rightarrow> 'e option) \<Rightarrow> 'a list \<Rightarrow> 'e option" where
  "firstErr f [] = None"
| "firstErr f (x # xs) = (case f x of Some e \<Rightarrow> Some e | None \<Rightarrow> firstErr f xs)"

lemma firstErr_None [simp]: "firstErr f xs = None \<longleftrightarrow> (\<forall>x\<in>set xs. f x = None)"
  by (induction xs) (auto split: option.splits)

text \<open>A loop that keeps the keys it has met in a map and refuses a repeated one.\<close>

fun dupErr :: "'e \<Rightarrow> 'k list \<Rightarrow> 'k list \<Rightarrow> 'e option" where
  "dupErr e seen [] = None"
| "dupErr e seen (k # ks) = (if k \<in> set seen then Some e else dupErr e (k # seen) ks)"

lemma dupErr_None: "dupErr e seen ks = None \<longleftrightarrow> distinct ks \<and> set ks \<inter> set seen = {}"
  by (induction ks arbitrary: seen) auto

section \<open>Instants and durations\<close>

text \<open>An instant is a count of nanoseconds since the Unix epoch in UTC, and a
  duration a signed 64-bit count of nanoseconds. \<open>time.Time.Sub\<close> saturates at
  the bounds of a duration; negating a duration wraps at its lower bound.\<close>

type_synonym instant = int
type_synonym duration = int

definition zeroTime :: instant where
  "zeroTime = -62135596800 * 1000000000"

definition maxDuration :: duration where "maxDuration = 2 ^ 63 - 1"
definition minDuration :: duration where "minDuration = - (2 ^ 63)"

definition timeSub :: "instant \<Rightarrow> instant \<Rightarrow> duration" where
  "timeSub a b = max minDuration (min maxDuration (a - b))"

definition negDuration :: "duration \<Rightarrow> duration" where
  "negDuration d = (if d = minDuration then minDuration else - d)"

section \<open>Finite maps in key order\<close>

definition sorted_entries :: "(string \<rightharpoonup> 'v) \<Rightarrow> (string \<times> 'v) list" where
  "sorted_entries m = map (\<lambda>k. (k, the (m k))) (sorted_list_of_set (dom m))"

lemma set_sorted_entries:
  "finite (dom m) \<Longrightarrow> set (sorted_entries m) = {(k, v). m k = Some v}"
  by (auto simp: sorted_entries_def image_iff domIff)

lemma in_sorted_entries [simp]:
  "finite (dom m) \<Longrightarrow> (k, v) \<in> set (sorted_entries m) \<longleftrightarrow> m k = Some v"
  by (simp add: set_sorted_entries)

lemma keys_sorted_entries [simp]: "map fst (sorted_entries m) = sorted_list_of_set (dom m)"
  by (simp add: sorted_entries_def comp_def)

lemma distinct_sorted_entries: "distinct (map fst (sorted_entries m))"
  by simp

lemma map_of_sorted_entries [simp]: "finite (dom m) \<Longrightarrow> map_of (sorted_entries m) = m"
proof (rule ext)
  fix k
  assume fin: "finite (dom m)"
  show "map_of (sorted_entries m) k = m k"
  proof (cases "m k")
    case None
    with fin show ?thesis by (auto simp: map_of_eq_None_iff)
  next
    case (Some v)
    with fin show ?thesis by (auto intro!: map_of_is_SomeI)
  qed
qed

text \<open>A strictly sorted association list is the entry list of its own map.\<close>

lemma sorted_entries_map_of:
  assumes "sorted_wrt (<) (map fst es)"
  shows "sorted_entries (map_of es) = es"
proof -
  have ks: "sorted_list_of_set (dom (map_of es)) = map fst es"
    using assms
    by (intro sorted_list_of_set.idem_if_sorted_distinct[of "map fst es", simplified, THEN trans[rotated]])
       (auto simp: dom_map_of_conv_image_fst strict_sorted_iff)
  have d: "distinct (map fst es)" using assms by (simp add: strict_sorted_iff)
  have "map (\<lambda>e. (fst e, the (map_of es (fst e)))) es = es"
    using d by (intro map_idI) auto
  then show ?thesis by (simp add: sorted_entries_def ks comp_def)
qed

lemma filter_sorted_entries:
  assumes "finite (dom m)"
  shows "filter (\<lambda>e. fst e \<noteq> k) (sorted_entries m) = sorted_entries (m(k := None))"
proof -
  have "filter (\<lambda>x. x \<noteq> k) (sorted_list_of_set (dom m)) = sorted_list_of_set (dom m - {k})"
    using assms
    by (intro sorted_distinct_set_unique) (auto simp: sorted_wrt_filter)
  moreover have "finite (dom m - {k})" using assms by simp
  ultimately show ?thesis by (auto simp: sorted_entries_def filter_map comp_def)
qed

definition optMap :: "('k \<rightharpoonup> 'v) option \<Rightarrow> ('k \<rightharpoonup> 'v)" where
  "optMap b = (case b of None \<Rightarrow> Map.empty | Some m \<Rightarrow> m)"

lemma optMap_simps [simp]: "optMap None = Map.empty" "optMap (Some m) = m"
  by (simp_all add: optMap_def)

end
