(* ===== verification/Runtime.thy ===== *)
theory Runtime
  imports Prelude
begin

text \<open>
  The libraries the validators are written with, as parameters: collection
  membership (\<open>github.com/bborbe/collection\<close>), the validation combinators
  (\<open>github.com/bborbe/validation\<close>) and the validation of a date-time
  (\<open>github.com/bborbe/time\<close>). None of them is code of the repository, so every
  definition that calls one takes the record \<open>runtime\<close> as an argument, and the
  locale \<open>runtime_lib\<close> states the documented behaviour the source relies on.
  The record also carries the error a cancelled context reports, because the
  same loops that validate check \<open>ctx.Done()\<close>.
\<close>

record runtime =
  ctxErr :: "error option"
  contains :: "string list \<Rightarrow> string \<Rightarrow> bool"
  notEmptyString :: "string \<Rightarrow> error option"
  validateAll :: "(string \<times> error option) list \<Rightarrow> error option"
  validateDateTime :: "instant \<Rightarrow> error option"

locale runtime_lib =
  fixes R :: runtime
  assumes ctx_live [simp]: "ctxErr R = None"
    and contains_iff [simp]: "contains R xs x \<longleftrightarrow> x \<in> set xs"
    and notEmpty_iff [simp]: "notEmptyString R s = None \<longleftrightarrow> s \<noteq> []"
    and validateAll_iff [simp]:
      "validateAll R checks = None \<longleftrightarrow> (\<forall>(name, result) \<in> set checks. result = None)"
    and validateDateTime_ok: "t \<noteq> zeroTime \<Longrightarrow> validateDateTime R t = None"
begin

lemma validateAll_Nil: "validateAll R [] = None"
  by simp

lemma validateAll_Cons:
  "validateAll R ((n, r) # cs) = None \<longleftrightarrow> r = None \<and> validateAll R cs = None"
  by simp

end

text \<open>
  An instance with the documented behaviour: the checks of \<open>validateAll\<close> run in
  order and the first error is reported.
\<close>

definition std_runtime :: runtime where
  "std_runtime = \<lparr>
     ctxErr = None,
     contains = (\<lambda>xs x. x \<in> set xs),
     notEmptyString = (\<lambda>s. if s = [] then Some ValidationError else None),
     validateAll = firstErr snd,
     validateDateTime = (\<lambda>t. if t = zeroTime then Some ValidationError else None)\<rparr>"

interpretation std_rt: runtime_lib std_runtime
  by unfold_locales (auto simp: std_runtime_def)

end
