(* ===== verification/Vocabulary.thy ===== *)
theory Vocabulary
  imports Runtime
begin

text \<open>
  The closed vocabularies of the attention item schema: lifecycle states and
  their transition table (\<open>attention-state.go\<close>, \<open>transition.go\<close>), producer
  kinds, provenance classes, answer mechanisms, answer kinds, cardinalities,
  decisions, ratings, delivery outcomes, risk levels, liveness models and
  session ids. In Go each is a string type with named constants, so a value
  outside the vocabulary exists and \<open>Validate\<close> is what refuses it; the model
  keeps the strings.
\<close>

section \<open>Lifecycle states\<close>

type_synonym State = string

definition OpenState :: State where "OpenState = ''open''"
definition AnsweredState :: State where "AnsweredState = ''answered''"
definition ClosedState :: State where "ClosedState = ''closed''"

lemma State_distinct [simp]:
  "OpenState \<noteq> AnsweredState" "AnsweredState \<noteq> OpenState"
  "OpenState \<noteq> ClosedState" "ClosedState \<noteq> OpenState"
  "AnsweredState \<noteq> ClosedState" "ClosedState \<noteq> AnsweredState"
  by (simp_all add: OpenState_def AnsweredState_def ClosedState_def)

definition AvailableStates :: "State list" where
  "AvailableStates = [OpenState, AnsweredState, ClosedState]"

definition State_Validate :: "runtime \<Rightarrow> State \<Rightarrow> error option" where
  "State_Validate R s = (if \<not> contains R AvailableStates s then Some ValidationError else None)"

section \<open>Transitions\<close>

record Transition =
  From :: State
  To :: State
  Trigger :: string

definition AvailableTransitions :: "Transition list" where
  "AvailableTransitions =
    [\<lparr>From = OpenState, To = AnsweredState,
      Trigger = ''the answer-return path delivers an answer to producer_id''\<rparr>,
     \<lparr>From = OpenState, To = ClosedState,
      Trigger = ''the item is resolved without an answer''\<rparr>,
     \<lparr>From = AnsweredState, To = ClosedState,
      Trigger = ''acknowledgement, or the producer'' @ [CHR 0x27] @ ''s next read''\<rparr>]"

fun Transitions_Find :: "Transition list \<Rightarrow> State \<Rightarrow> State \<Rightarrow> Transition option" where
  "Transitions_Find [] from to = None"
| "Transitions_Find (t # ts) from to =
     (if From t = from \<and> To t = to then Some t else Transitions_Find ts from to)"

definition ValidateTransition :: "State \<Rightarrow> State \<Rightarrow> error option" where
  "ValidateTransition from to =
     (case Transitions_Find AvailableTransitions from to of
        Some _ \<Rightarrow> None
      | None \<Rightarrow> Some ErrIllegalTransition)"

lemma ValidateTransition_None:
  "ValidateTransition from to = None \<longleftrightarrow>
     (from = OpenState \<and> (to = AnsweredState \<or> to = ClosedState)) \<or>
     (from = AnsweredState \<and> to = ClosedState)"
  by (auto simp: ValidateTransition_def AvailableTransitions_def)

lemma ValidateTransition_cases:
  "ValidateTransition from to = None \<or> ValidateTransition from to = Some ErrIllegalTransition"
  by (auto simp: ValidateTransition_def split: option.splits)

lemma ValidateTransition_simps [simp, vocab_simps]:
  "ValidateTransition OpenState ClosedState = None"
  "ValidateTransition OpenState AnsweredState = None"
  "ValidateTransition AnsweredState ClosedState = None"
  "ValidateTransition ClosedState s = Some ErrIllegalTransition"
  using ValidateTransition_cases[of ClosedState s]
  by (auto simp: ValidateTransition_None)

section \<open>Producer kinds and provenance classes\<close>

type_synonym ProducerKind = string

definition AvailableProducerKinds :: "ProducerKind list" where
  "AvailableProducerKinds = [''session'', ''manager'', ''agent'', ''cron'', ''dark-factory'']"

definition ProducerKind_Validate :: "runtime \<Rightarrow> ProducerKind \<Rightarrow> error option" where
  "ProducerKind_Validate R p =
     (if \<not> contains R AvailableProducerKinds p then Some ValidationError else None)"

type_synonym ProvenanceClass = string

definition AvailableProvenanceClasses :: "ProvenanceClass list" where
  "AvailableProvenanceClasses = [''hook'', ''explicit'', ''third_party'']"

definition ProvenanceClass_Validate :: "runtime \<Rightarrow> ProvenanceClass \<Rightarrow> error option" where
  "ProvenanceClass_Validate R p =
     (if p = [] then None
      else if \<not> contains R AvailableProvenanceClasses p then Some ValidationError else None)"

section \<open>Answer vocabularies\<close>

type_synonym AnswerMechanism = string

definition MessageAnswerMechanism :: AnswerMechanism where
  "MessageAnswerMechanism = ''message''"
definition PermissionAnswerMechanism :: AnswerMechanism where
  "PermissionAnswerMechanism = ''permission''"
definition AckAnswerMechanism :: AnswerMechanism where
  "AckAnswerMechanism = ''ack''"

lemma AnswerMechanism_distinct [simp]:
  "MessageAnswerMechanism \<noteq> PermissionAnswerMechanism"
  "PermissionAnswerMechanism \<noteq> MessageAnswerMechanism"
  "MessageAnswerMechanism \<noteq> AckAnswerMechanism"
  "AckAnswerMechanism \<noteq> MessageAnswerMechanism"
  "PermissionAnswerMechanism \<noteq> AckAnswerMechanism"
  "AckAnswerMechanism \<noteq> PermissionAnswerMechanism"
  by (simp_all add: MessageAnswerMechanism_def PermissionAnswerMechanism_def AckAnswerMechanism_def)

definition AvailableAnswerMechanisms :: "AnswerMechanism list" where
  "AvailableAnswerMechanisms =
     [MessageAnswerMechanism, PermissionAnswerMechanism, AckAnswerMechanism]"

definition AnswerMechanism_Validate :: "runtime \<Rightarrow> AnswerMechanism \<Rightarrow> error option" where
  "AnswerMechanism_Validate R a =
     (if \<not> contains R AvailableAnswerMechanisms a then Some ValidationError else None)"

type_synonym AnswerKind = string

definition OptionAnswerKind :: AnswerKind where "OptionAnswerKind = ''option''"
definition SkipAnswerKind :: AnswerKind where "SkipAnswerKind = ''skip''"
definition TextAnswerKind :: AnswerKind where "TextAnswerKind = ''text''"
definition HiddenAnswerKind :: AnswerKind where "HiddenAnswerKind = ''hidden''"

lemmas AnswerKind_defs =
  OptionAnswerKind_def SkipAnswerKind_def TextAnswerKind_def HiddenAnswerKind_def

definition AvailableAnswerKinds :: "AnswerKind list" where
  "AvailableAnswerKinds =
     [OptionAnswerKind, SkipAnswerKind, TextAnswerKind, HiddenAnswerKind]"

definition AnswerKind_Validate :: "runtime \<Rightarrow> AnswerKind \<Rightarrow> error option" where
  "AnswerKind_Validate R a =
     (if a = [] then None
      else if \<not> contains R AvailableAnswerKinds a then Some ValidationError else None)"

type_synonym AnswerCardinality = string

definition SingleAnswerCardinality :: AnswerCardinality where
  "SingleAnswerCardinality = ''single''"
definition MultipleAnswerCardinality :: AnswerCardinality where
  "MultipleAnswerCardinality = ''multiple''"

definition AvailableAnswerCardinalities :: "AnswerCardinality list" where
  "AvailableAnswerCardinalities = [SingleAnswerCardinality, MultipleAnswerCardinality]"

definition AnswerCardinality_Validate :: "runtime \<Rightarrow> AnswerCardinality \<Rightarrow> error option" where
  "AnswerCardinality_Validate R a =
     (if a = [] then None
      else if \<not> contains R AvailableAnswerCardinalities a then Some ValidationError else None)"

type_synonym Decision = string

definition AllowDecision :: Decision where "AllowDecision = ''allow''"
definition DenyDecision :: Decision where "DenyDecision = ''deny''"

definition AvailableDecisions :: "Decision list" where
  "AvailableDecisions = [AllowDecision, DenyDecision]"

definition Decision_Validate :: "runtime \<Rightarrow> Decision \<Rightarrow> error option" where
  "Decision_Validate R d =
     (if d = [] then None
      else if \<not> contains R AvailableDecisions d then Some ValidationError else None)"

section \<open>Ratings and delivery outcomes\<close>

type_synonym Rating = string

definition NoRating :: Rating where "NoRating = []"
definition UpRating :: Rating where "UpRating = ''up''"
definition DownRating :: Rating where "DownRating = ''down''"

definition AvailableRatings :: "Rating list" where
  "AvailableRatings = [NoRating, UpRating, DownRating]"

definition Rating_Validate :: "runtime \<Rightarrow> Rating \<Rightarrow> error option" where
  "Rating_Validate R r = (if \<not> contains R AvailableRatings r then Some ErrRatingInvalid else None)"

type_synonym DeliveryOutcome = string

definition DeliveredOutcome :: DeliveryOutcome where "DeliveredOutcome = ''delivered''"
definition FailedOutcome :: DeliveryOutcome where "FailedOutcome = ''failed''"
definition HeldOutcome :: DeliveryOutcome where "HeldOutcome = ''held''"

lemma DeliveryOutcome_distinct [simp]:
  "DeliveredOutcome \<noteq> FailedOutcome" "FailedOutcome \<noteq> DeliveredOutcome"
  "DeliveredOutcome \<noteq> HeldOutcome" "HeldOutcome \<noteq> DeliveredOutcome"
  "FailedOutcome \<noteq> HeldOutcome" "HeldOutcome \<noteq> FailedOutcome"
  by (simp_all add: DeliveredOutcome_def FailedOutcome_def HeldOutcome_def)

definition AvailableDeliveryOutcomes :: "DeliveryOutcome list" where
  "AvailableDeliveryOutcomes = [DeliveredOutcome, FailedOutcome, HeldOutcome]"

definition DeliveryOutcome_Validate :: "runtime \<Rightarrow> DeliveryOutcome \<Rightarrow> error option" where
  "DeliveryOutcome_Validate R d =
     (if \<not> contains R AvailableDeliveryOutcomes d then Some ValidationError else None)"

section \<open>Liveness references\<close>

type_synonym LivenessModel = string
type_synonym LivenessRef = string

definition SessionLivenessModel :: LivenessModel where "SessionLivenessModel = ''session''"
definition HeartbeatLivenessModel :: LivenessModel where "HeartbeatLivenessModel = ''heartbeat''"
definition OwnerLivenessModel :: LivenessModel where "OwnerLivenessModel = ''owner''"

lemma LivenessModel_distinct [simp]:
  "SessionLivenessModel \<noteq> HeartbeatLivenessModel" "HeartbeatLivenessModel \<noteq> SessionLivenessModel"
  "SessionLivenessModel \<noteq> OwnerLivenessModel" "OwnerLivenessModel \<noteq> SessionLivenessModel"
  "HeartbeatLivenessModel \<noteq> OwnerLivenessModel" "OwnerLivenessModel \<noteq> HeartbeatLivenessModel"
  by (simp_all add: SessionLivenessModel_def HeartbeatLivenessModel_def OwnerLivenessModel_def)

definition AvailableLivenessModels :: "LivenessModel list" where
  "AvailableLivenessModels =
     [SessionLivenessModel, HeartbeatLivenessModel, OwnerLivenessModel]"

definition LivenessModel_Validate :: "runtime \<Rightarrow> LivenessModel \<Rightarrow> error option" where
  "LivenessModel_Validate R l =
     (if \<not> contains R AvailableLivenessModels l then Some ValidationError else None)"

text \<open>\<open>strings.Cut\<close> with a one-byte separator: before, after, found.\<close>

definition stringsCut :: "char \<Rightarrow> string \<Rightarrow> string \<times> string \<times> bool" where
  "stringsCut c s =
     (if c \<in> set s
      then (takeWhile (\<lambda>x. x \<noteq> c) s, tl (dropWhile (\<lambda>x. x \<noteq> c) s), True)
      else (s, [], False))"

lemma stringsCut_split: "stringsCut c (b @ c # a) = (b, a, True)" if "c \<notin> set b"
proof -
  have "takeWhile (\<lambda>x. x \<noteq> c) (b @ c # a) = b" "dropWhile (\<lambda>x. x \<noteq> c) (b @ c # a) = c # a"
    using that by (induction b) auto
  then show ?thesis by (simp add: stringsCut_def)
qed

lemma stringsCut_found:
  "stringsCut c s = (b, a, True) \<longleftrightarrow> s = b @ c # a \<and> c \<notin> set b"
proof
  assume cut: "stringsCut c s = (b, a, True)"
  then have "c \<in> set s" by (simp add: stringsCut_def split: if_split_asm)
  then obtain b' a' where "s = b' @ c # a'" "c \<notin> set b'" by (meson split_list_first)
  then show "s = b @ c # a \<and> c \<notin> set b" using cut stringsCut_split[of c b' a'] by simp
qed (auto simp: stringsCut_split)

lemma stringsCut_not_found: "stringsCut c s = (b, a, False) \<Longrightarrow> c \<notin> set s"
  by (simp add: stringsCut_def split: if_split_asm)

definition LivenessRef_Parse :: "runtime \<Rightarrow> LivenessRef \<Rightarrow> error + (LivenessModel \<times> string)" where
  "LivenessRef_Parse R l =
     (case stringsCut (CHR '':'') l of (model, val, found) \<Rightarrow>
        if \<not> found then Inl ValidationError
        else (case LivenessModel_Validate R model of
                Some e \<Rightarrow> Inl e
              | None \<Rightarrow> (if val = [] then Inl ValidationError else Inr (model, val))))"

definition LivenessRef_Validate :: "runtime \<Rightarrow> LivenessRef \<Rightarrow> error option" where
  "LivenessRef_Validate R l =
     (case LivenessRef_Parse R l of Inl e \<Rightarrow> Some e | Inr _ \<Rightarrow> None)"

section \<open>Session ids\<close>

definition hexLower :: "char \<Rightarrow> bool" where
  "hexLower c \<longleftrightarrow> (CHR ''0'' \<le> c \<and> c \<le> CHR ''9'') \<or> (CHR ''a'' \<le> c \<and> c \<le> CHR ''f'')"

text \<open>The anchored pattern of \<open>sessionIDPattern\<close>, one entry per byte:
  \<open>True\<close> for a lowercase hex digit, \<open>False\<close> for the dash.\<close>

definition sessionIDPattern :: "bool list" where
  "sessionIDPattern =
     replicate 8 True @ [False] @ replicate 4 True @ [False] @ replicate 4 True @ [False]
       @ replicate 4 True @ [False] @ replicate 12 True"

fun matchPattern :: "bool list \<Rightarrow> string \<Rightarrow> bool" where
  "matchPattern [] s = (s = [])"
| "matchPattern (p # ps) [] = False"
| "matchPattern (p # ps) (c # cs) =
     ((if p then hexLower c else c = CHR ''-'') \<and> matchPattern ps cs)"

definition SessionID_Validate :: "string \<Rightarrow> error option" where
  "SessionID_Validate s =
     (if \<not> matchPattern sessionIDPattern s then Some ErrInvalidSessionID else None)"

lemma matchPattern_length: "matchPattern ps s \<Longrightarrow> length s = length ps"
  by (induction ps s rule: matchPattern.induct) auto

lemma SessionID_Validate_length: "SessionID_Validate s = None \<Longrightarrow> length s = 36"
  by (auto simp: SessionID_Validate_def sessionIDPattern_def dest!: matchPattern_length split: if_splits)

section \<open>Validators under the documented library\<close>

context runtime_lib
begin

lemma State_Validate_None [simp]:
  "State_Validate R s = None \<longleftrightarrow> s = OpenState \<or> s = AnsweredState \<or> s = ClosedState"
  by (simp add: State_Validate_def AvailableStates_def)

lemma AnswerMechanism_Validate_None [simp]:
  "AnswerMechanism_Validate R a = None \<longleftrightarrow>
     a = MessageAnswerMechanism \<or> a = PermissionAnswerMechanism \<or> a = AckAnswerMechanism"
  by (simp add: AnswerMechanism_Validate_def AvailableAnswerMechanisms_def)

lemma AnswerKind_Validate_None [simp]:
  "AnswerKind_Validate R a = None \<longleftrightarrow> a = [] \<or> a \<in> set AvailableAnswerKinds"
  by (simp add: AnswerKind_Validate_def)

lemma AnswerCardinality_Validate_None [simp]:
  "AnswerCardinality_Validate R a = None \<longleftrightarrow>
     a = [] \<or> a = SingleAnswerCardinality \<or> a = MultipleAnswerCardinality"
  by (simp add: AnswerCardinality_Validate_def AvailableAnswerCardinalities_def)

lemma Rating_Validate_None [simp]:
  "Rating_Validate R r = None \<longleftrightarrow> r = NoRating \<or> r = UpRating \<or> r = DownRating"
  by (simp add: Rating_Validate_def AvailableRatings_def)

lemma DeliveryOutcome_Validate_None [simp]:
  "DeliveryOutcome_Validate R d = None \<longleftrightarrow>
     d = DeliveredOutcome \<or> d = FailedOutcome \<or> d = HeldOutcome"
  by (simp add: DeliveryOutcome_Validate_def AvailableDeliveryOutcomes_def)

lemma LivenessRef_Parse_Inr:
  "LivenessRef_Parse R l = Inr (m, v) \<longleftrightarrow>
     l = m @ '':'' @ v \<and> v \<noteq> [] \<and>
     (m = SessionLivenessModel \<or> m = HeartbeatLivenessModel \<or> m = OwnerLivenessModel)"
proof -
  have colon: "CHR '':'' \<notin> set SessionLivenessModel" "CHR '':'' \<notin> set HeartbeatLivenessModel"
    "CHR '':'' \<notin> set OwnerLivenessModel"
    by (simp_all add: SessionLivenessModel_def HeartbeatLivenessModel_def OwnerLivenessModel_def)
  obtain m' v' f where cut: "stringsCut (CHR '':'') l = (m', v', f)" by (metis prod_cases3)
  show ?thesis
  proof (cases f)
    case True
    then have l: "l = m' @ CHR '':'' # v'" "CHR '':'' \<notin> set m'" using cut by (simp_all add: stringsCut_found)
    have "l = m @ '':'' @ v \<and> CHR '':'' \<notin> set m \<longleftrightarrow> m = m' \<and> v = v'"
      using stringsCut_found[of "CHR '':''" l m v] cut True by auto
    then show ?thesis
      using cut True colon
      by (auto simp: LivenessRef_Parse_def LivenessModel_Validate_def AvailableLivenessModels_def)
  next
    case False
    then show ?thesis using cut stringsCut_not_found[of "CHR '':''" l m' v']
      by (auto simp: LivenessRef_Parse_def)
  qed
qed

lemma LivenessRef_Validate_None:
  "LivenessRef_Validate R l = None \<longleftrightarrow> (\<exists>m v. LivenessRef_Parse R l = Inr (m, v))"
  by (auto simp: LivenessRef_Validate_def split: sum.splits)

end

end
