(* ===== verification/Answers.thy ===== *)
theory Answers
  imports Vocabulary
begin

text \<open>
  The content of a question and of its answer: option lists
  (\<open>answer-option.go\<close>), questions (\<open>question.go\<close>), an answer (\<open>answer.go\<close>),
  per-question answers (\<open>answers.go\<close>) and the route of an answer
  (\<open>answer-route.go\<close>). Each validator returns the error the Go one returns, or
  \<open>None\<close>; the lemmas of the last section say exactly what passes.
\<close>

section \<open>Options\<close>

record AnswerOption =
  opt_Label :: string
  opt_Description :: string
  opt_Recommended :: bool
  opt_Exclusive :: bool

definition AnswerOption_Validate :: "runtime \<Rightarrow> AnswerOption \<Rightarrow> error option" where
  "AnswerOption_Validate R op =
     validateAll R [(''Label'', notEmptyString R (opt_Label op))]"

definition validateLabels :: "runtime \<Rightarrow> AnswerOption list \<Rightarrow> error option" where
  "validateLabels R ops = firstErr (AnswerOption_Validate R) ops"

definition validateRecommended :: "AnswerOption list \<Rightarrow> AnswerCardinality \<Rightarrow> error option" where
  "validateRecommended ops cardinality =
     (if cardinality = MultipleAnswerCardinality then None
      else (let recommended = length (filter opt_Recommended ops)
            in if recommended > 1 then Some ValidationError else None))"

fun countExclusive :: "runtime \<Rightarrow> AnswerOption list \<Rightarrow> error + nat" where
  "countExclusive R [] = Inr 0"
| "countExclusive R (op # ops) =
     guardE (ctxErr R)
       (ebind (countExclusive R ops) (\<lambda>n. Inr (if opt_Exclusive op then Suc n else n)))"

definition validateExclusive :: "runtime \<Rightarrow> AnswerOption list \<Rightarrow> error option" where
  "validateExclusive R ops =
     (case countExclusive R ops of
        Inl e \<Rightarrow> Some e
      | Inr exclusive \<Rightarrow> (if exclusive > 1 then Some ValidationError else None))"

definition ValidateForCardinality ::
  "runtime \<Rightarrow> AnswerOption list \<Rightarrow> AnswerCardinality \<Rightarrow> error option" where
  "ValidateForCardinality R ops cardinality =
     validateAll R
       [(''Labels'', validateLabels R ops),
        (''Recommended'', validateRecommended ops cardinality),
        (''Exclusive'', validateExclusive R ops)]"

section \<open>Questions\<close>

record Question =
  q_Tab :: string
  q_Payload :: string
  q_Cardinality :: AnswerCardinality
  q_Options :: "AnswerOption list"

definition Question_Validate :: "runtime \<Rightarrow> Question \<Rightarrow> error option" where
  "Question_Validate R q =
     validateAll R
       [(''Tab'', notEmptyString R (q_Tab q)),
        (''Payload'', notEmptyString R (q_Payload q)),
        (''Cardinality'', AnswerCardinality_Validate R (q_Cardinality q)),
        (''Options'', ValidateForCardinality R (q_Options q) (q_Cardinality q))]"

definition validateUniqueTabs :: "Question list \<Rightarrow> error option" where
  "validateUniqueTabs qs = dupErr ValidationError [] (map q_Tab qs)"

definition Questions_Validate :: "runtime \<Rightarrow> Question list \<Rightarrow> error option" where
  "Questions_Validate R qs =
     validateAll R
       [(''Questions'', firstErr (Question_Validate R) qs),
        (''Tabs'', validateUniqueTabs qs)]"

section \<open>Answers\<close>

record Answer =
  ans_Kind :: AnswerKind
  ans_Value :: string
  ans_Values :: "string list"

definition validateValue :: "runtime \<Rightarrow> Answer \<Rightarrow> error option" where
  "validateValue R a =
     (if ans_Kind a = OptionAnswerKind then
        (if ans_Values a \<noteq> [] then None else notEmptyString R (ans_Value a))
      else if ans_Kind a = TextAnswerKind then notEmptyString R (ans_Value a)
      else if ans_Kind a = SkipAnswerKind then
        (if ans_Value a \<noteq> [] then Some ValidationError else None)
      else if ans_Kind a = HiddenAnswerKind then
        (if ans_Value a \<noteq> [] then Some ValidationError else None)
      else None)"

definition validateValues :: "runtime \<Rightarrow> Answer \<Rightarrow> error option" where
  "validateValues R a =
     (if ans_Values a = [] then None
      else if ans_Kind a \<noteq> OptionAnswerKind then Some ValidationError
      else if ans_Value a \<noteq> [] then Some ValidationError
      else firstErr (notEmptyString R) (ans_Values a))"

definition Answer_Validate :: "runtime \<Rightarrow> Answer \<Rightarrow> error option" where
  "Answer_Validate R a =
     validateAll R
       [(''Kind'', AnswerKind_Validate R (ans_Kind a)),
        (''Value'', validateValue R a),
        (''Values'', validateValues R a)]"

record QuestionAnswer =
  qa_Question :: string
  qa_Answer :: Answer

definition QuestionAnswer_Validate :: "runtime \<Rightarrow> QuestionAnswer \<Rightarrow> error option" where
  "QuestionAnswer_Validate R a =
     validateAll R
       [(''Question'', notEmptyString R (qa_Question a)),
        (''Answer'', Answer_Validate R (qa_Answer a))]"

definition validateUniqueQuestions :: "QuestionAnswer list \<Rightarrow> error option" where
  "validateUniqueQuestions as = dupErr ValidationError [] (map qa_Question as)"

definition Answers_Validate :: "runtime \<Rightarrow> QuestionAnswer list \<Rightarrow> error option" where
  "Answers_Validate R as =
     validateAll R
       [(''Answers'', firstErr (QuestionAnswer_Validate R) as),
        (''Questions'', validateUniqueQuestions as)]"

text \<open>The carrier rule: an option answer carries \<open>values\<close> on a multiple-pick
  question and \<open>value\<close> on any other.\<close>

definition validateAnswerCarrier :: "Answer \<Rightarrow> AnswerCardinality \<Rightarrow> error option" where
  "validateAnswerCarrier a cardinality =
     (if ans_Kind a \<noteq> OptionAnswerKind then None
      else if cardinality = MultipleAnswerCardinality then
        (if ans_Values a = [] then Some ValidationError else None)
      else if ans_Value a = [] then Some ValidationError
      else None)"

section \<open>The route of an answer\<close>

record AnswerRoute =
  route_RequestID :: string
  route_Policy :: string

definition emptyRoute :: AnswerRoute where
  "emptyRoute = \<lparr>route_RequestID = [], route_Policy = []\<rparr>"

definition firstRoute :: "AnswerRoute list \<Rightarrow> AnswerRoute" where
  "firstRoute route = (case route of r # _ \<Rightarrow> r | [] \<Rightarrow> emptyRoute)"

section \<open>What passes\<close>

context runtime_lib
begin

lemma AnswerOption_Validate_None [simp]:
  "AnswerOption_Validate R op = None \<longleftrightarrow> opt_Label op \<noteq> []"
  by (simp add: AnswerOption_Validate_def)

lemma countExclusive_eq [simp]:
  "countExclusive R ops = Inr (length (filter opt_Exclusive ops))"
  by (induction ops) auto

lemma ValidateForCardinality_None:
  "ValidateForCardinality R ops c = None \<longleftrightarrow>
     (\<forall>op\<in>set ops. opt_Label op \<noteq> []) \<and>
     (c \<noteq> MultipleAnswerCardinality \<longrightarrow> length (filter opt_Recommended ops) \<le> 1) \<and>
     length (filter opt_Exclusive ops) \<le> 1"
  by (auto simp: ValidateForCardinality_def validateLabels_def validateRecommended_def
      validateExclusive_def Let_def)

lemma Questions_Validate_None:
  "Questions_Validate R qs = None \<longleftrightarrow>
     (\<forall>q\<in>set qs. Question_Validate R q = None) \<and> distinct (map q_Tab qs)"
  by (auto simp: Questions_Validate_def validateUniqueTabs_def dupErr_None)

lemma validateValues_None:
  "validateValues R a = None \<longleftrightarrow>
     ans_Values a = [] \<or>
     (ans_Kind a = OptionAnswerKind \<and> ans_Value a = [] \<and> (\<forall>v\<in>set (ans_Values a). v \<noteq> []))"
  by (auto simp: validateValues_def)

text \<open>An accepted answer has content exactly in the shape its kind declares.\<close>

lemma Answer_Validate_None:
  "Answer_Validate R a = None \<longleftrightarrow>
     (ans_Kind a = [] \<and> ans_Values a = []) \<or>
     (ans_Kind a = OptionAnswerKind \<and>
        ((ans_Values a = [] \<and> ans_Value a \<noteq> []) \<or>
         (ans_Values a \<noteq> [] \<and> ans_Value a = [] \<and> [] \<notin> set (ans_Values a)))) \<or>
     (ans_Kind a = TextAnswerKind \<and> ans_Value a \<noteq> [] \<and> ans_Values a = []) \<or>
     ((ans_Kind a = SkipAnswerKind \<or> ans_Kind a = HiddenAnswerKind) \<and>
        ans_Value a = [] \<and> ans_Values a = [])"
proof -
  have d: "OptionAnswerKind \<noteq> []" "TextAnswerKind \<noteq> []" "SkipAnswerKind \<noteq> []" "HiddenAnswerKind \<noteq> []"
    "OptionAnswerKind \<noteq> TextAnswerKind" "OptionAnswerKind \<noteq> SkipAnswerKind"
    "OptionAnswerKind \<noteq> HiddenAnswerKind" "TextAnswerKind \<noteq> SkipAnswerKind"
    "TextAnswerKind \<noteq> HiddenAnswerKind" "SkipAnswerKind \<noteq> HiddenAnswerKind"
    by (simp_all add: AnswerKind_defs)
  consider "ans_Kind a = []" | "ans_Kind a = OptionAnswerKind" | "ans_Kind a = TextAnswerKind"
    | "ans_Kind a = SkipAnswerKind" | "ans_Kind a = HiddenAnswerKind"
    | "ans_Kind a \<notin> {[], OptionAnswerKind, TextAnswerKind, SkipAnswerKind, HiddenAnswerKind}"
    by blast
  then show ?thesis
    by cases
      (use d in \<open>auto simp: Answer_Validate_def validateValue_def validateValues_None
         AvailableAnswerKinds_def\<close>)
qed

lemma Answers_Validate_None:
  "Answers_Validate R as = None \<longleftrightarrow>
     (\<forall>a\<in>set as. qa_Question a \<noteq> [] \<and> Answer_Validate R (qa_Answer a) = None) \<and>
     distinct (map qa_Question as)"
  by (auto simp: Answers_Validate_def QuestionAnswer_Validate_def validateUniqueQuestions_def
      dupErr_None)

end

end
