(* ===== verification/GoText.thy ===== *)
theory GoText
  imports Prelude
begin

text \<open>
  The string functions of Go's standard library the code calls, on byte strings:
  \<open>strings.TrimSpace\<close> with the white space \<open>unicode.IsSpace\<close> accepts in its
  UTF-8 encodings, and the case-insensitive search of the risk pattern
  \<open>(?i)\b(?:...)\<close>.
\<close>

section \<open>White space\<close>

text \<open>The UTF-8 encodings of the runes \<open>unicode.IsSpace\<close> accepts.\<close>

definition spaceRunes :: "string list" where
  "spaceRunes =
     map (\<lambda>n. [char_of n]) [9::nat, 10, 11, 12, 13, 32] @
     [[CHR 0xC2, CHR 0x85], [CHR 0xC2, CHR 0xA0], [CHR 0xE1, CHR 0x9A, CHR 0x80]] @
     map (\<lambda>n. [CHR 0xE2, CHR 0x80, char_of n]) [0x80..<0x8B::nat] @
     [[CHR 0xE2, CHR 0x80, CHR 0xA8], [CHR 0xE2, CHR 0x80, CHR 0xA9],
      [CHR 0xE2, CHR 0x80, CHR 0xAF], [CHR 0xE2, CHR 0x81, CHR 0x9F],
      [CHR 0xE3, CHR 0x80, CHR 0x80]]"

text \<open>Bytes of the white-space rune a list of runes finds at the front, or 0.\<close>

fun runeAtFront :: "string list \<Rightarrow> string \<Rightarrow> nat" where
  "runeAtFront [] s = 0"
| "runeAtFront (r # rs) s = (if take (length r) s = r then length r else runeAtFront rs s)"

lemma runeAtFront_le: "runeAtFront rs s \<le> length s"
  by (induction rs) (auto dest!: arg_cong[where f = length])

function trimFront :: "string list \<Rightarrow> string \<Rightarrow> string" where
  "trimFront rs s = (let n = runeAtFront rs s in if n = 0 then s else trimFront rs (drop n s))"
  by pat_completeness auto
termination
proof (relation "measure (\<lambda>(rs, s). length s)", goal_cases)
  case (2 rs s n)
  then show ?case using runeAtFront_le[of rs s] by auto
qed auto

declare trimFront.simps [simp del]

definition TrimSpace :: "string \<Rightarrow> string" where
  "TrimSpace s = rev (trimFront (map rev spaceRunes) (rev (trimFront spaceRunes s)))"

lemma trimFront_Nil [simp]: "trimFront rs [] = []"
  using runeAtFront_le[of rs "[]"] by (subst trimFront.simps) simp

lemma trimFront_length: "length (trimFront rs s) \<le> length s"
proof (induction rs s rule: trimFront.induct)
  case (1 rs s)
  then show ?case by (subst trimFront.simps) (fastforce simp: Let_def)
qed

lemma TrimSpace_Nil [simp]: "TrimSpace [] = []"
  by (simp add: TrimSpace_def)

lemma TrimSpace_nonempty: "TrimSpace s \<noteq> [] \<Longrightarrow> s \<noteq> []"
  by auto

section \<open>Case-insensitive search at a word start\<close>

definition asciiLower :: "char \<Rightarrow> char" where
  "asciiLower c = (let n = of_char c :: nat in if 65 \<le> n \<and> n \<le> 90 then char_of (n + 32) else c)"

text \<open>The word class of the pattern's \<open>\b\<close>: ASCII digits, letters and the
  underscore.\<close>

definition isWordChar :: "char \<Rightarrow> bool" where
  "isWordChar c = (let n = of_char c :: nat in
     (48 \<le> n \<and> n \<le> 57) \<or> (65 \<le> n \<and> n \<le> 90) \<or> (97 \<le> n \<and> n \<le> 122) \<or> n = 95)"

text \<open>A lowercase literal under \<open>(?i)\<close>: a letter matches both cases, and an
  \<open>s\<close> matches U+017F (bytes C5 BF) too, the one other rune that folds to a
  letter of the verbs.\<close>

fun ciMatch :: "string \<Rightarrow> string \<Rightarrow> bool" where
  "ciMatch [] t = True"
| "ciMatch (p # ps) [] = False"
| "ciMatch (p # ps) (c # cs) =
     ((asciiLower c = p \<and> ciMatch ps cs) \<or>
      (p = CHR ''s'' \<and> c = CHR 0xC5 \<and> take 1 cs = [CHR 0xBF] \<and> ciMatch ps (drop 1 cs)))"

text \<open>The search: a word boundary at the position, then one of the literals.
  \<open>prev\<close> says whether the byte before the position is a word character.\<close>

fun searchAtWordStart :: "string list \<Rightarrow> bool \<Rightarrow> string \<Rightarrow> bool" where
  "searchAtWordStart vs prev [] = False"
| "searchAtWordStart vs prev (c # cs) =
     ((prev \<noteq> isWordChar c \<and> (\<exists>v\<in>set vs. ciMatch v (c # cs))) \<or>
      searchAtWordStart vs (isWordChar c) cs)"

lemma ciMatch_append: "ciMatch p t \<Longrightarrow> ciMatch p (t @ u)"
proof (induction p t rule: ciMatch.induct)
  case (3 p ps c cs)
  then show ?case by (cases cs) auto
qed auto

lemma searchAtWordStart_append:
  "searchAtWordStart vs prev t \<Longrightarrow> searchAtWordStart vs prev (t @ u)"
proof (induction vs prev t rule: searchAtWordStart.induct)
  case (2 vs prev c cs)
  have "ciMatch v (c # cs) \<Longrightarrow> ciMatch v (c # cs @ u)" for v
    using ciMatch_append[of v "c # cs" u] by simp
  with 2 show ?case by auto
qed simp

section \<open>Strings in JSON\<close>

text \<open>The length of the UTF-8 encoded rune at the front (\<open>unicode/utf8\<close>), 0 when there is none: the
  lead byte decides the length and the range of the second byte.\<close>

definition leadByte :: "nat \<Rightarrow> nat \<times> nat \<times> nat" where
  "leadByte n =
     (if n < 0x80 then (1, 0, 0)
      else if 0xC2 \<le> n \<and> n \<le> 0xDF then (2, 0x80, 0xBF)
      else if n = 0xE0 then (3, 0xA0, 0xBF)
      else if n = 0xED then (3, 0x80, 0x9F)
      else if 0xE1 \<le> n \<and> n \<le> 0xEF then (3, 0x80, 0xBF)
      else if n = 0xF0 then (4, 0x90, 0xBF)
      else if 0xF1 \<le> n \<and> n \<le> 0xF3 then (4, 0x80, 0xBF)
      else if n = 0xF4 then (4, 0x80, 0x8F)
      else (0, 0, 0))"

definition byteIn :: "nat \<Rightarrow> nat \<Rightarrow> char \<Rightarrow> bool" where
  "byteIn lo hi c \<longleftrightarrow> lo \<le> of_char c \<and> of_char c \<le> hi"

definition utf8Len :: "string \<Rightarrow> nat" where
  "utf8Len s =
     (case s of
        [] \<Rightarrow> 0
      | c # cs \<Rightarrow>
          (case leadByte (of_char c) of (n, lo, hi) \<Rightarrow>
             if n \<le> 1 then n
             else if n - 1 \<le> length cs \<and> byteIn lo hi (hd cs) \<and>
               list_all (byteIn 0x80 0xBF) (take (n - 2) (tl cs)) then n
             else 0))"

lemma utf8Len_le: "utf8Len s \<le> length s"
  by (cases s) (auto simp: utf8Len_def split: prod.splits)

lemma utf8Len_append:
  assumes "utf8Len s \<noteq> 0"
  shows "utf8Len (s @ t) = utf8Len s"
proof (cases s)
  case (Cons c cs)
  obtain n lo hi where l: "leadByte (of_char c) = (n, lo, hi)" by (metis prod_cases3)
  show ?thesis
  proof (cases "n \<le> 1")
    case False
    then have "n - 1 \<le> length cs" using assms by (auto simp: Cons utf8Len_def l split: if_splits)
    then have "cs \<noteq> []" "n - 2 - length (tl cs) = 0" using False by auto
    then show ?thesis using assms False by (auto simp: Cons utf8Len_def l split: if_splits)
  qed (simp add: Cons utf8Len_def l)
qed (use assms in \<open>simp add: utf8Len_def\<close>)

text \<open>\<open>json.Marshal\<close> of a string, with its HTML escaping: the body between the quotes.\<close>

definition hexLowerDigit :: "nat \<Rightarrow> char" where
  "hexLowerDigit d = char_of (if d < 10 then 48 + d else 87 + d)"

definition htmlSafe :: "char \<Rightarrow> bool" where
  "htmlSafe c \<longleftrightarrow> 32 \<le> (of_char c :: nat) \<and> c \<notin> {CHR 0x22, CHR 0x5C, CHR ''<'', CHR ''>'', CHR ''&''}"

definition jsonEscape :: "char \<Rightarrow> string" where
  "jsonEscape c =
     (let n = of_char c :: nat in
      if c = CHR 0x22 \<or> c = CHR 0x5C then [CHR 0x5C, c]
      else if n = 8 then [CHR 0x5C, CHR ''b'']
      else if n = 12 then [CHR 0x5C, CHR ''f'']
      else if n = 10 then [CHR 0x5C, CHR ''n'']
      else if n = 13 then [CHR 0x5C, CHR ''r'']
      else if n = 9 then [CHR 0x5C, CHR ''t'']
      else CHR 0x5C # ''u00'' @ [hexLowerDigit (n div 16), hexLowerDigit (n mod 16)])"

function jsonBody :: "string \<Rightarrow> string" where
  "jsonBody s =
     (if s = [] then []
      else let n = utf8Len s in
        if n = 0 then CHR 0x5C # ''ufffd'' @ jsonBody (drop 1 s)
        else if n = 1 then (if htmlSafe (hd s) then [hd s] else jsonEscape (hd s)) @ jsonBody (drop 1 s)
        else if take n s = [CHR 0xE2, CHR 0x80, CHR 0xA8] then CHR 0x5C # ''u2028'' @ jsonBody (drop n s)
        else if take n s = [CHR 0xE2, CHR 0x80, CHR 0xA9] then CHR 0x5C # ''u2029'' @ jsonBody (drop n s)
        else take n s @ jsonBody (drop n s))"
  by pat_completeness auto
termination
proof (relation "measure length", goal_cases)
  case (2 s n)
  then show ?case by (cases s) auto
qed (auto simp: Let_def)

declare jsonBody.simps [simp del]

lemma jsonBody_Nil [simp]: "jsonBody [] = []"
  by (subst jsonBody.simps) simp

definition jsonString :: "string \<Rightarrow> string" where
  "jsonString s = CHR 0x22 # jsonBody s @ [CHR 0x22]"

text \<open>A string of whole runes: its encoding is a prefix of the encoding of anything it starts.\<close>

function validUTF8 :: "string \<Rightarrow> bool" where
  "validUTF8 s =
     (if s = [] then True else if utf8Len s = 0 then False else validUTF8 (drop (utf8Len s) s))"
  by pat_completeness auto
termination
proof (relation "measure length", goal_cases)
  case (2 s)
  then show ?case by (cases s) auto
qed auto

declare validUTF8.simps [simp del]

lemma jsonBody_append: "validUTF8 p \<Longrightarrow> jsonBody (p @ r) = jsonBody p @ jsonBody r"
proof (induction p rule: validUTF8.induct)
  case (1 p)
  show ?case
  proof (cases "p = []")
    case False
    then have n: "utf8Len p \<noteq> 0" "validUTF8 (drop (utf8Len p) p)"
      using "1.prems" validUTF8.simps[of p] by (auto split: if_splits)
    have IH: "jsonBody (drop (utf8Len p) p @ r) = jsonBody (drop (utf8Len p) p) @ jsonBody r"
      using "1.IH" False n by blast
    have same: "utf8Len (p @ r) = utf8Len p" "take (utf8Len p) (p @ r) = take (utf8Len p) p"
      "drop (utf8Len p) (p @ r) = drop (utf8Len p) p @ r" "hd (p @ r) = hd p"
      using n(1) utf8Len_append utf8Len_le[of p] False by simp_all
    have le: "utf8Len p - length p = 0" using utf8Len_le[of p] by simp
    show ?thesis
    proof (cases "utf8Len p = 1")
      case True
      then show ?thesis
        using False IH same unfolding jsonBody.simps[of "p @ r"] jsonBody.simps[of p] by (simp add: Let_def)
    next
      case more: False
      then show ?thesis
        using False n(1) IH unfolding jsonBody.simps[of "p @ r"] jsonBody.simps[of p]
        by (simp add: Let_def same(1) le)
    qed
  qed simp
qed

section \<open>Search in bytes\<close>

fun bytesContains :: "string \<Rightarrow> string \<Rightarrow> bool" where
  "bytesContains [] needle = (needle = [])"
| "bytesContains (c # cs) needle = (take (length needle) (c # cs) = needle \<or> bytesContains cs needle)"

lemma bytesContains_iff: "bytesContains v needle \<longleftrightarrow> (\<exists>pre post. v = pre @ needle @ post)"
proof (induction v needle rule: bytesContains.induct)
  case (2 c cs needle)
  have "(\<exists>pre post. c # cs = pre @ needle @ post) \<longleftrightarrow>
      (\<exists>post. c # cs = needle @ post) \<or> (\<exists>pre post. cs = pre @ needle @ post)"
    by (auto simp: Cons_eq_append_conv)
  moreover have "take (length needle) (c # cs) = needle \<longleftrightarrow> (\<exists>post. c # cs = needle @ post)"
    by (metis append_take_drop_id append_eq_conv_conj)
  ultimately show ?case using 2 by simp
qed auto

end
