(* ===== verification/ItemModel.thy ===== *)
theory ItemModel
  imports Answers GoText
begin

text \<open>
  The attention item (\<open>attention-item.go\<close>), the push request
  (\<open>attention-store.go\<close>) and their validation, the answered client
  (\<open>answered-client.go\<close>), and the render-time risk (\<open>risk.go\<close>). The fields
  keep the Go names; a pointer field is an option and an empty string is the Go
  zero value, which the code reads as absent.
\<close>

record AnsweredClient =
  client_UserAgent :: string
  client_RemoteAddr :: string
  client_Automation :: "bool option"

type_synonym ItemID = string

record Item =
  ItemID :: ItemID
  ProducerID :: string
  ProducerKind :: ProducerKind
  ProvenanceClass :: ProvenanceClass
  LivenessRef :: LivenessRef
  DedupKey :: string
  InterruptClass :: string
  Risk :: string
  Payload :: string
  Context :: string
  AnswerMechanism :: AnswerMechanism
  Options :: "AnswerOption list"
  AnswerCardinality :: AnswerCardinality
  Questions :: "Question list"
  State :: State
  CreatedAt :: instant
  AnsweredAt :: "instant option"
  AnsweredBy :: string
  AnsweredClient :: "AnsweredClient option"
  EscalatedBy :: string
  EscalatedAt :: "instant option"
  FlagReason :: string
  FlaggedAt :: "instant option"
  Rating :: Rating
  RatedAt :: "instant option"
  ResolvedBy :: string
  Decision :: Decision
  RequestID :: string
  Policy :: string
  Answer :: "Answer option"
  Answers :: "QuestionAnswer list"
  ClosedAt :: "instant option"
  ExpiresAt :: "instant option"

text \<open>Go's zero value \<open>Item{}\<close>, which the index markers carry.\<close>

definition emptyItem :: Item where
  "emptyItem = \<lparr>ItemID = [], ProducerID = [], ProducerKind = [], ProvenanceClass = [],
     LivenessRef = [], DedupKey = [], InterruptClass = [], Risk = [], Payload = [], Context = [],
     AnswerMechanism = [], Options = [], AnswerCardinality = [], Questions = [], State = [],
     CreatedAt = zeroTime, AnsweredAt = None, AnsweredBy = [], AnsweredClient = None,
     EscalatedBy = [], EscalatedAt = None, FlagReason = [], FlaggedAt = None, Rating = NoRating,
     RatedAt = None, ResolvedBy = [], Decision = [], RequestID = [], Policy = [], Answer = None,
     Answers = [], ClosedAt = None, ExpiresAt = None\<rparr>"

section \<open>Risk\<close>

definition RoutineRisk :: string where "RoutineRisk = ''routine''"
definition DecisionRisk :: string where "DecisionRisk = ''decision''"
definition ElevatedRisk :: string where "ElevatedRisk = ''risk''"

definition AvailableRisks :: "string list" where
  "AvailableRisks = [RoutineRisk, DecisionRisk, ElevatedRisk]"

definition Risk_Validate :: "runtime \<Rightarrow> string \<Rightarrow> error option" where
  "Risk_Validate R r =
     (if r = [] then None
      else if \<not> contains R AvailableRisks r then Some ValidationError else None)"

definition OrDefault :: "string \<Rightarrow> string" where
  "OrDefault r = (if r = [] then DecisionRisk else r)"

definition irreversibleRiskVerbs :: "string list" where
  "irreversibleRiskVerbs =
     [''delete'', ''drop'', ''rm'', ''merge'', ''deploy'', ''release'', ''trade'', ''force'']"

definition irreversibleRiskVerbPattern :: "string \<Rightarrow> bool" where
  "irreversibleRiskVerbPattern s = searchAtWordStart irreversibleRiskVerbs False s"

definition RiskOf :: "Item \<Rightarrow> bool \<Rightarrow> string" where
  "RiskOf item productionTouching =
     (let declared = OrDefault (Risk item) in
      if declared = ElevatedRisk then ElevatedRisk
      else if productionTouching then ElevatedRisk
      else if irreversibleRiskVerbPattern (Payload item) then ElevatedRisk
      else if irreversibleRiskVerbPattern (Context item) then ElevatedRisk
      else declared)"

section \<open>Item validation\<close>

definition validateExpiresAt :: "instant option \<Rightarrow> error option" where
  "validateExpiresAt expiresAt =
     (case expiresAt of
        None \<Rightarrow> None
      | Some t \<Rightarrow> (if t = zeroTime then Some ValidationError else None))"

definition Item_validateOptions :: "runtime \<Rightarrow> Item \<Rightarrow> error option" where
  "Item_validateOptions R i =
     (if Options i = [] then None
      else if AnswerMechanism i \<noteq> MessageAnswerMechanism then Some ValidationError
      else ValidateForCardinality R (Options i) (AnswerCardinality i))"

definition Item_validateAnswerCardinality :: "runtime \<Rightarrow> Item \<Rightarrow> error option" where
  "Item_validateAnswerCardinality R i =
     (if AnswerCardinality i = [] then None
      else if AnswerMechanism i \<noteq> MessageAnswerMechanism then Some ValidationError
      else AnswerCardinality_Validate R (AnswerCardinality i))"

definition Item_validateQuestions :: "runtime \<Rightarrow> Item \<Rightarrow> error option" where
  "Item_validateQuestions R i =
     (if Questions i = [] then None
      else if AnswerMechanism i \<noteq> MessageAnswerMechanism then Some ValidationError
      else Questions_Validate R (Questions i))"

text \<open>The Go map \<open>cardinalityOf\<close>: a later question with the same tab wins.\<close>

definition cardinalityOf :: "Question list \<Rightarrow> string \<Rightarrow> AnswerCardinality option" where
  "cardinalityOf qs = foldl (\<lambda>m q. m(q_Tab q \<mapsto> q_Cardinality q)) Map.empty qs"

definition validateAnswersMatchQuestions :: "Item \<Rightarrow> error option" where
  "validateAnswersMatchQuestions i =
     firstErr
       (\<lambda>a. case cardinalityOf (Questions i) (qa_Question a) of
              None \<Rightarrow> Some ValidationError
            | Some cardinality \<Rightarrow> validateAnswerCarrier (qa_Answer a) cardinality)
       (Answers i)"

definition validateAnswers :: "runtime \<Rightarrow> Item \<Rightarrow> error option" where
  "validateAnswers R i =
     (if Answers i = [] then None
      else if Answer i \<noteq> None then Some ValidationError
      else (case Answers_Validate R (Answers i) of
              Some e \<Rightarrow> Some e
            | None \<Rightarrow> validateAnswersMatchQuestions i))"

definition validateAnswer :: "runtime \<Rightarrow> Item \<Rightarrow> error option" where
  "validateAnswer R i =
     (case Answer i of
        None \<Rightarrow> None
      | Some a \<Rightarrow>
          (if Questions i \<noteq> [] then Some ValidationError
           else (case Answer_Validate R a of
                   Some e \<Rightarrow> Some e
                 | None \<Rightarrow> validateAnswerCarrier a (AnswerCardinality i))))"

definition Item_Validate :: "runtime \<Rightarrow> Item \<Rightarrow> error option" where
  "Item_Validate R i =
     validateAll R
       [(''ItemID'', notEmptyString R (ItemID i)),
        (''ProducerID'', notEmptyString R (ProducerID i)),
        (''ProducerKind'', ProducerKind_Validate R (ProducerKind i)),
        (''ProvenanceClass'', ProvenanceClass_Validate R (ProvenanceClass i)),
        (''LivenessRef'', LivenessRef_Validate R (LivenessRef i)),
        (''DedupKey'', notEmptyString R (DedupKey i)),
        (''InterruptClass'', notEmptyString R (InterruptClass i)),
        (''Risk'', Risk_Validate R (Risk i)),
        (''Payload'', notEmptyString R (Payload i)),
        (''Options'', Item_validateOptions R i),
        (''AnswerCardinality'', Item_validateAnswerCardinality R i),
        (''Questions'', Item_validateQuestions R i),
        (''AnswerMechanism'', AnswerMechanism_Validate R (AnswerMechanism i)),
        (''Decision'', Decision_Validate R (Decision i)),
        (''Answer'', validateAnswer R i),
        (''Answers'', validateAnswers R i),
        (''State'', State_Validate R (State i)),
        (''CreatedAt'', validateDateTime R (CreatedAt i)),
        (''ExpiresAt'', validateExpiresAt (ExpiresAt i))]"

section \<open>Push requests\<close>

record PushRequest =
  req_ProducerID :: string
  req_ProducerKind :: ProducerKind
  req_ProvenanceClass :: ProvenanceClass
  req_LivenessRef :: LivenessRef
  req_DedupKey :: string
  req_InterruptClass :: string
  req_Risk :: string
  req_Payload :: string
  req_Context :: string
  req_AnswerMechanism :: AnswerMechanism
  req_Options :: "AnswerOption list"
  req_AnswerCardinality :: AnswerCardinality
  req_Questions :: "Question list"
  req_ExpiresAt :: "instant option"

definition Push_validateOptions :: "runtime \<Rightarrow> PushRequest \<Rightarrow> error option" where
  "Push_validateOptions R p =
     (if req_Options p = [] then None
      else if req_AnswerMechanism p \<noteq> MessageAnswerMechanism then Some ValidationError
      else ValidateForCardinality R (req_Options p) (req_AnswerCardinality p))"

definition Push_validateAnswerCardinality :: "runtime \<Rightarrow> PushRequest \<Rightarrow> error option" where
  "Push_validateAnswerCardinality R p =
     (if req_AnswerCardinality p = [] then None
      else if req_AnswerMechanism p \<noteq> MessageAnswerMechanism then Some ValidationError
      else AnswerCardinality_Validate R (req_AnswerCardinality p))"

definition Push_validateQuestions :: "runtime \<Rightarrow> PushRequest \<Rightarrow> error option" where
  "Push_validateQuestions R p =
     (if req_Questions p = [] then None
      else if req_AnswerMechanism p \<noteq> MessageAnswerMechanism then Some ValidationError
      else Questions_Validate R (req_Questions p))"

definition PushRequest_Validate :: "runtime \<Rightarrow> PushRequest \<Rightarrow> error option" where
  "PushRequest_Validate R p =
     validateAll R
       [(''ProducerID'', notEmptyString R (req_ProducerID p)),
        (''ProducerKind'', ProducerKind_Validate R (req_ProducerKind p)),
        (''ProvenanceClass'', ProvenanceClass_Validate R (req_ProvenanceClass p)),
        (''LivenessRef'', LivenessRef_Validate R (req_LivenessRef p)),
        (''DedupKey'', notEmptyString R (req_DedupKey p)),
        (''InterruptClass'', notEmptyString R (req_InterruptClass p)),
        (''Risk'', Risk_Validate R (req_Risk p)),
        (''Payload'', notEmptyString R (req_Payload p)),
        (''Options'', Push_validateOptions R p),
        (''AnswerCardinality'', Push_validateAnswerCardinality R p),
        (''Questions'', Push_validateQuestions R p),
        (''AnswerMechanism'', AnswerMechanism_Validate R (req_AnswerMechanism p)),
        (''ExpiresAt'', validateExpiresAt (req_ExpiresAt p))]"

text \<open>The item a valid push creates: the store's fields and the producer's.\<close>

definition itemOfRequest :: "ItemID \<Rightarrow> instant \<Rightarrow> PushRequest \<Rightarrow> Item" where
  "itemOfRequest itemID now p = emptyItem\<lparr>
     ItemID := itemID, ProducerID := req_ProducerID p, ProducerKind := req_ProducerKind p,
     ProvenanceClass := req_ProvenanceClass p, LivenessRef := req_LivenessRef p,
     DedupKey := req_DedupKey p, InterruptClass := req_InterruptClass p, Risk := req_Risk p,
     Payload := req_Payload p, Context := req_Context p,
     AnswerMechanism := req_AnswerMechanism p, Options := req_Options p,
     AnswerCardinality := req_AnswerCardinality p, Questions := req_Questions p,
     State := OpenState, CreatedAt := now, ExpiresAt := req_ExpiresAt p\<rparr>"

end
