(* ===== verification/Kv.thy ===== *)
theory Kv
  imports ItemModel
begin

text \<open>
  The key-value library (\<open>github.com/bborbe/kv\<close> over bbolt) the store keeps its
  items in, as a parameter. A typed store is the record \<open>StoreTx\<close> of its
  operations inside a transaction; \<open>libkv\<close> is the library: the typed store over
  a bucket name, the bucket check, the reverse cursor over raw entries, and the
  commit of a write transaction. Nothing of the library is defined here: every
  operation of the store takes the record as an argument, and the locale
  \<open>kv_lib\<close> states the documented behaviour in terms of what a transaction sees
  (\<open>ib\<close>: the item buckets, \<open>ab\<close>: the delivery-attempt bucket).

  \<open>db_Update\<close> and \<open>db_View\<close> run a Go closure against the current state: an
  update is committed when the closure and the commit succeed and rolled back
  otherwise, which is the atomicity the source's comments rely on.
\<close>

section \<open>Delivery attempts\<close>

record DeliveryAttempt =
  att_ItemID :: ItemID
  att_Carrier :: string
  att_Outcome :: DeliveryOutcome
  att_AttemptedAt :: instant

definition DeliveryAttempt_Validate :: "runtime \<Rightarrow> DeliveryAttempt \<Rightarrow> error option" where
  "DeliveryAttempt_Validate R d =
     validateAll R
       [(''ItemID'', notEmptyString R (att_ItemID d)),
        (''Carrier'', notEmptyString R (att_Carrier d)),
        (''Outcome'', DeliveryOutcome_Validate R (att_Outcome d))]"

section \<open>Buckets\<close>

definition AttentionStoreBucketName :: string where
  "AttentionStoreBucketName = ''attention-items''"
definition attentionLiveIndexBucketName :: string where
  "attentionLiveIndexBucketName = ''attention-live-index''"
definition attentionOpenIndexBucketName :: string where
  "attentionOpenIndexBucketName = ''attention-open-index''"
definition attentionHistoryIndexBucketName :: string where
  "attentionHistoryIndexBucketName = ''attention-history-index''"
definition attentionDedupIndexBucketName :: string where
  "attentionDedupIndexBucketName = ''attention-dedup-index''"
definition deliveryAttemptBucketName :: string where
  "deliveryAttemptBucketName = ''attention-delivery-attempts''"

lemmas bucket_name_defs =
  AttentionStoreBucketName_def attentionLiveIndexBucketName_def attentionOpenIndexBucketName_def
  attentionHistoryIndexBucketName_def attentionDedupIndexBucketName_def deliveryAttemptBucketName_def

lemma bucket_names_distinct [simp]:
  "distinct [AttentionStoreBucketName, attentionLiveIndexBucketName, attentionOpenIndexBucketName,
     attentionHistoryIndexBucketName, attentionDedupIndexBucketName, deliveryAttemptBucketName]"
  by (simp add: bucket_name_defs)

lemma bucket_names_neq [simp]:
  "AttentionStoreBucketName \<noteq> attentionLiveIndexBucketName"
  "AttentionStoreBucketName \<noteq> attentionOpenIndexBucketName"
  "AttentionStoreBucketName \<noteq> attentionHistoryIndexBucketName"
  "AttentionStoreBucketName \<noteq> attentionDedupIndexBucketName"
  "AttentionStoreBucketName \<noteq> deliveryAttemptBucketName"
  "attentionLiveIndexBucketName \<noteq> attentionOpenIndexBucketName"
  "attentionLiveIndexBucketName \<noteq> attentionHistoryIndexBucketName"
  "attentionLiveIndexBucketName \<noteq> attentionDedupIndexBucketName"
  "attentionLiveIndexBucketName \<noteq> deliveryAttemptBucketName"
  "attentionOpenIndexBucketName \<noteq> attentionHistoryIndexBucketName"
  "attentionOpenIndexBucketName \<noteq> attentionDedupIndexBucketName"
  "attentionOpenIndexBucketName \<noteq> deliveryAttemptBucketName"
  "attentionHistoryIndexBucketName \<noteq> attentionDedupIndexBucketName"
  "attentionHistoryIndexBucketName \<noteq> deliveryAttemptBucketName"
  "attentionDedupIndexBucketName \<noteq> deliveryAttemptBucketName"
  using bucket_names_distinct by auto

lemmas bucket_names_neq' [simp] = bucket_names_neq[symmetric]

section \<open>The library's interface\<close>

record ('tx, 'v) StoreTx =
  stGet :: "'tx \<Rightarrow> string \<Rightarrow> error + 'v"
  stAdd :: "'tx \<Rightarrow> string \<Rightarrow> 'v \<Rightarrow> error + 'tx"
  stRemove :: "'tx \<Rightarrow> string \<Rightarrow> error + 'tx"
  stExists :: "'tx \<Rightarrow> string \<Rightarrow> error + bool"
  stMap :: "'tx \<Rightarrow> error + (string \<times> 'v) list"

text \<open>One entry a raw cursor shows: its key, what reading its value gives, and what
  \<open>json.Unmarshal\<close> of that value gives.\<close>

record kvItem =
  it_Key :: string
  it_Value :: "error + string"
  it_Item :: "error + Item"

record 'tx libkv =
  itemStoreTx :: "string \<Rightarrow> ('tx, Item) StoreTx"
  attemptStoreTx :: "string \<Rightarrow> ('tx, DeliveryAttempt) StoreTx"
  txBucket :: "'tx \<Rightarrow> string \<Rightarrow> error option"
  txReverse :: "'tx \<Rightarrow> string \<Rightarrow> kvItem list"
  txCommit :: "'tx \<Rightarrow> error option"

definition db_Update :: "'tx libkv \<Rightarrow> 'tx \<Rightarrow> ('tx \<Rightarrow> error + 'tx \<times> 'r) \<Rightarrow> 'tx \<times> (error + 'r)" where
  "db_Update K s body =
     (case body s of
        Inl e \<Rightarrow> (s, Inl e)
      | Inr (s', r) \<Rightarrow> (case txCommit K s' of Some e \<Rightarrow> (s, Inl e) | None \<Rightarrow> (s', Inr r)))"

definition db_View :: "'tx \<Rightarrow> ('tx \<Rightarrow> error + 'r) \<Rightarrow> error + 'r" where
  "db_View s body = body s"

lemma db_Update_error: "snd (db_Update K s body) = Inl e \<Longrightarrow> fst (db_Update K s body) = s"
  by (auto simp: db_Update_def split: sum.splits option.splits prod.splits)

lemma db_Update_simps [simp]:
  "body s = Inl e \<Longrightarrow> db_Update K s body = (s, Inl e)"
  "body s = Inr (s', r) \<Longrightarrow> txCommit K s' = None \<Longrightarrow> db_Update K s body = (s', Inr r)"
  by (simp_all add: db_Update_def)

text \<open>The transaction an \<open>Add\<close> or a \<open>Remove\<close> that succeeds continues with.\<close>

definition added :: "('tx, 'v) StoreTx \<Rightarrow> string \<Rightarrow> 'v \<Rightarrow> 'tx \<Rightarrow> 'tx" where
  "added S k v tx = projr (stAdd S tx k v)"

definition removed :: "('tx, 'v) StoreTx \<Rightarrow> string \<Rightarrow> 'tx \<Rightarrow> 'tx" where
  "removed S k tx = projr (stRemove S tx k)"

locale kv_lib =
  fixes K :: "'tx libkv"
    and ib :: "'tx \<Rightarrow> string \<Rightarrow> (string \<rightharpoonup> Item) option"
    and ab :: "'tx \<Rightarrow> (string \<rightharpoonup> DeliveryAttempt) option"
  assumes commit_ok [simp]: "txCommit K tx = None"
    and finite_ib [simp]: "finite (dom (optMap (ib tx b)))"
    and item_Get: "b \<noteq> deliveryAttemptBucketName \<Longrightarrow> stGet (itemStoreTx K b) tx k =
      (case ib tx b of
         None \<Rightarrow> Inl ErrBucketNotFound
       | Some m \<Rightarrow> (case m k of None \<Rightarrow> Inl ErrKeyNotFound | Some v \<Rightarrow> Inr v))"
    and item_Exists: "b \<noteq> deliveryAttemptBucketName \<Longrightarrow>
      stExists (itemStoreTx K b) tx k = Inr (optMap (ib tx b) k \<noteq> None)"
    and item_Add: "b \<noteq> deliveryAttemptBucketName \<Longrightarrow> k \<noteq> [] \<Longrightarrow>
      stAdd (itemStoreTx K b) tx k v = Inr (added (itemStoreTx K b) k v tx)"
    and ib_added: "b \<noteq> deliveryAttemptBucketName \<Longrightarrow> k \<noteq> [] \<Longrightarrow>
      ib (added (itemStoreTx K b) k v tx) = (ib tx)(b \<mapsto> (optMap (ib tx b))(k \<mapsto> v))"
    and ab_added: "b \<noteq> deliveryAttemptBucketName \<Longrightarrow> k \<noteq> [] \<Longrightarrow>
      ab (added (itemStoreTx K b) k v tx) = ab tx"
    and item_Remove: "b \<noteq> deliveryAttemptBucketName \<Longrightarrow>
      stRemove (itemStoreTx K b) tx k = Inr (removed (itemStoreTx K b) k tx)"
    and ib_removed: "b \<noteq> deliveryAttemptBucketName \<Longrightarrow>
      ib (removed (itemStoreTx K b) k tx) = (ib tx)(b \<mapsto> (optMap (ib tx b))(k := None))"
    and ab_removed: "b \<noteq> deliveryAttemptBucketName \<Longrightarrow>
      ab (removed (itemStoreTx K b) k tx) = ab tx"
    and item_Map: "b \<noteq> deliveryAttemptBucketName \<Longrightarrow>
      stMap (itemStoreTx K b) tx = Inr (sorted_entries (optMap (ib tx b)))"
    and bucket_check: "b \<noteq> deliveryAttemptBucketName \<Longrightarrow>
      txBucket K tx b = (if ib tx b = None then Some ErrBucketNotFound else None)"
    and attempt_Get: "stGet (attemptStoreTx K deliveryAttemptBucketName) tx k =
      (case ab tx of
         None \<Rightarrow> Inl ErrBucketNotFound
       | Some m \<Rightarrow> (case m k of None \<Rightarrow> Inl ErrKeyNotFound | Some v \<Rightarrow> Inr v))"
    and attempt_Exists: "stExists (attemptStoreTx K deliveryAttemptBucketName) tx k =
      Inr (optMap (ab tx) k \<noteq> None)"
    and attempt_Add: "k \<noteq> [] \<Longrightarrow> stAdd (attemptStoreTx K deliveryAttemptBucketName) tx k a =
      Inr (added (attemptStoreTx K deliveryAttemptBucketName) k a tx)"
    and attempt_added: "k \<noteq> [] \<Longrightarrow>
      ib (added (attemptStoreTx K deliveryAttemptBucketName) k a tx) = ib tx"
      "k \<noteq> [] \<Longrightarrow> ab (added (attemptStoreTx K deliveryAttemptBucketName) k a tx) =
         Some ((optMap (ab tx))(k \<mapsto> a))"
    and attempt_Remove: "stRemove (attemptStoreTx K deliveryAttemptBucketName) tx k =
      Inr (removed (attemptStoreTx K deliveryAttemptBucketName) k tx)"
    and attempt_removed:
      "ib (removed (attemptStoreTx K deliveryAttemptBucketName) k tx) = ib tx"
      "ab (removed (attemptStoreTx K deliveryAttemptBucketName) k tx) =
         Some ((optMap (ab tx))(k := None))"
begin

lemmas kv_laws =
  item_Get item_Exists item_Add ib_added ab_added item_Remove ib_removed ab_removed item_Map
  bucket_check attempt_Get attempt_Exists attempt_Add attempt_added attempt_Remove attempt_removed

end

section \<open>An in-memory database\<close>

text \<open>
  A concrete instance: each bucket is an association list, newest entry first,
  and a scan lists the keys in order. Its raw values are JSON objects with the two
  fields the raw search of a filtered history reads.
\<close>

record memdb =
  mem_items :: "string \<Rightarrow> (string \<times> Item) list option"
  mem_attempts :: "(string \<times> DeliveryAttempt) list option"

definition alist_of :: "'a list option \<Rightarrow> 'a list" where
  "alist_of b = (case b of None \<Rightarrow> [] | Some es \<Rightarrow> es)"

definition alist_Get :: "(string \<times> 'v) list option \<Rightarrow> string \<Rightarrow> error + 'v" where
  "alist_Get b k =
     (case b of
        None \<Rightarrow> Inl ErrBucketNotFound
      | Some es \<Rightarrow> (case map_of es k of None \<Rightarrow> Inl ErrKeyNotFound | Some v \<Rightarrow> Inr v))"

definition alist_entries :: "(string \<times> 'v) list \<Rightarrow> (string \<times> 'v) list" where
  "alist_entries es = map (\<lambda>k. (k, the (map_of es k))) (sort (remdups (map fst es)))"

definition mem_itemStore :: "string \<Rightarrow> (memdb, Item) StoreTx" where
  "mem_itemStore b = \<lparr>
     stGet = (\<lambda>s k. alist_Get (mem_items s b) k),
     stAdd = (\<lambda>s k v. if k = [] then Inl (OtherError ''key required'')
       else Inr (s\<lparr>mem_items := (mem_items s)(b \<mapsto> (k, v) # alist_of (mem_items s b))\<rparr>)),
     stRemove = (\<lambda>s k. Inr (s\<lparr>mem_items :=
       (mem_items s)(b \<mapsto> filter (\<lambda>e. fst e \<noteq> k) (alist_of (mem_items s b)))\<rparr>)),
     stExists = (\<lambda>s k. Inr (map_of (alist_of (mem_items s b)) k \<noteq> None)),
     stMap = (\<lambda>s. Inr (alist_entries (alist_of (mem_items s b))))\<rparr>"

definition mem_attemptStore :: "string \<Rightarrow> (memdb, DeliveryAttempt) StoreTx" where
  "mem_attemptStore b = \<lparr>
     stGet = (\<lambda>s k. alist_Get (mem_attempts s) k),
     stAdd = (\<lambda>s k v. if k = [] then Inl (OtherError ''key required'')
       else Inr (s\<lparr>mem_attempts := Some ((k, v) # alist_of (mem_attempts s))\<rparr>)),
     stRemove = (\<lambda>s k. Inr (s\<lparr>mem_attempts :=
       Some (filter (\<lambda>e. fst e \<noteq> k) (alist_of (mem_attempts s)))\<rparr>)),
     stExists = (\<lambda>s k. Inr (map_of (alist_of (mem_attempts s)) k \<noteq> None)),
     stMap = (\<lambda>s. Inr (alist_entries (alist_of (mem_attempts s))))\<rparr>"

text \<open>A raw value shows the two fields a history filter searches for, as JSON.\<close>

definition jsonField :: "string \<Rightarrow> string \<Rightarrow> string" where
  "jsonField name val = [CHR 0x22] @ name @ [CHR 0x22] @ '':'' @ jsonString val"

definition mem_item :: "string \<times> Item \<Rightarrow> kvItem" where
  "mem_item e = \<lparr>it_Key = fst e,
     it_Value = Inr (''{'' @ jsonField ''producer_id'' (ProducerID (snd e)) @ '','' @
       jsonField ''dedup_key'' (DedupKey (snd e)) @ ''}''),
     it_Item = Inr (snd e)\<rparr>"

definition mem_kv :: "memdb libkv" where
  "mem_kv = \<lparr>
     itemStoreTx = mem_itemStore,
     attemptStoreTx = mem_attemptStore,
     txBucket = (\<lambda>s b. if mem_items s b = None then Some ErrBucketNotFound else None),
     txReverse = (\<lambda>s b. map mem_item (rev (alist_entries (alist_of (mem_items s b))))),
     txCommit = (\<lambda>s. None)\<rparr>"

definition mem_ib :: "memdb \<Rightarrow> string \<Rightarrow> (string \<rightharpoonup> Item) option" where
  "mem_ib s b = map_option map_of (mem_items s b)"

definition mem_ab :: "memdb \<Rightarrow> (string \<rightharpoonup> DeliveryAttempt) option" where
  "mem_ab s = map_option map_of (mem_attempts s)"

definition mem_empty :: memdb where
  "mem_empty = \<lparr>mem_items = (\<lambda>_. None), mem_attempts = None\<rparr>"

lemma optMap_map_of [simp]: "optMap (map_option map_of b) = map_of (alist_of b)"
  by (cases b) (simp_all add: alist_of_def)

lemma alist_entries_sorted: "alist_entries es = sorted_entries (map_of es)"
proof -
  have "sorted_list_of_set (dom (map_of es)) = sort (remdups (map fst es))"
    by (metis dom_map_of_conv_image_fst list.set_map sorted_list_of_set_sort_remdups)
  then show ?thesis by (simp add: alist_entries_def sorted_entries_def)
qed

lemma map_of_filter_key: "map_of (filter (\<lambda>e. fst e \<noteq> k) es) = (map_of es)(k := None)"
  by (induction es) auto

lemma alist_Get_eq:
  "alist_Get b k = (case map_option map_of b of
      None \<Rightarrow> Inl ErrBucketNotFound
    | Some m \<Rightarrow> (case m k of None \<Rightarrow> Inl ErrKeyNotFound | Some v \<Rightarrow> Inr v))"
  by (cases b) (simp_all add: alist_Get_def)

interpretation mem: kv_lib mem_kv mem_ib mem_ab
  by unfold_locales
    (auto simp: mem_kv_def mem_itemStore_def mem_attemptStore_def mem_ib_def mem_ab_def added_def
      removed_def alist_Get_eq alist_entries_sorted map_of_filter_key finite_dom_map_of fun_eq_iff
      alist_of_def split: option.splits)

end
