(* ===== verification/TimeKey.thy ===== *)
theory TimeKey
  imports Prelude
begin

text \<open>
  \<open>time.Time.UTC().Format(historyIndexKeyLayout)\<close> with the layout
  \<open>2006-01-02T15:04:05.000000000Z\<close>: the civil date of an instant, its time of
  day, and the fixed-width text the history index is keyed by. The result the
  index rests on is that for years 0 to 9999 the text order is the time order.
\<close>

section \<open>Decimal digits\<close>

definition digitChar :: "int \<Rightarrow> char" where
  "digitChar d = char_of (48 + nat d)"

fun padDigits :: "nat \<Rightarrow> int \<Rightarrow> string" where
  "padDigits 0 x = []"
| "padDigits (Suc k) x = padDigits k (x div 10) @ [digitChar (x mod 10)]"

fun decLen :: "nat \<Rightarrow> nat" where
  "decLen n = (if n < 10 then 1 else Suc (decLen (n div 10)))"

declare decLen.simps [simp del]

text \<open>Go's \<open>appendInt\<close>: zero-padded to a width, wider when the number is.\<close>

definition appendInt :: "nat \<Rightarrow> int \<Rightarrow> string" where
  "appendInt w x =
     (let body = padDigits (max w (decLen (nat \<bar>x\<bar>))) \<bar>x\<bar>
      in if x < 0 then CHR ''-'' # body else body)"

section \<open>Civil dates\<close>

definition isLeap :: "int \<Rightarrow> bool" where
  "isLeap y \<longleftrightarrow> y mod 4 = 0 \<and> (y mod 100 \<noteq> 0 \<or> y mod 400 = 0)"

text \<open>Year and day of the year of a day counted from 0001-01-01.\<close>

definition yearOfDay :: "int \<Rightarrow> int \<times> int" where
  "yearOfDay d =
     (let n400 = d div 146097; r = d mod 146097;
          n100 = min 3 (r div 36524); r1 = r - 36524 * n100;
          n4 = r1 div 1461; r2 = r1 mod 1461;
          n1 = min 3 (r2 div 365)
      in (400 * n400 + 100 * n100 + 4 * n4 + n1 + 1, r2 - 365 * n1))"

definition monthStarts :: "bool \<Rightarrow> int list" where
  "monthStarts leap =
     (let l = (if leap then 1 else 0)
      in [0, 31, 59 + l, 90 + l, 120 + l, 151 + l, 181 + l, 212 + l, 243 + l, 273 + l, 304 + l, 334 + l])"

fun monthDay :: "int \<Rightarrow> int \<Rightarrow> int list \<Rightarrow> int \<times> int" where
  "monthDay m yday [] = (m, yday + 1)"
| "monthDay m yday [s] = (m, yday - s + 1)"
| "monthDay m yday (s # s' # ss) =
     (if yday < s' then (m, yday - s + 1) else monthDay (m + 1) yday (s' # ss))"

definition nsPerSecond :: int where "nsPerSecond = 1000000000"
definition nsPerDay :: int where "nsPerDay = 86400 * nsPerSecond"

text \<open>Days from 0001-01-01 to the Unix epoch.\<close>

definition epochDay :: int where "epochDay = 719162"

definition yearOf :: "instant \<Rightarrow> int" where
  "yearOf t = fst (yearOfDay (t div nsPerDay + epochDay))"

definition formatHistoryKey :: "instant \<Rightarrow> string" where
  "formatHistoryKey t =
     (let (y, yday) = yearOfDay (t div nsPerDay + epochDay);
          (m, d) = monthDay 1 yday (monthStarts (isLeap y));
          nsod = t mod nsPerDay; sod = nsod div nsPerSecond
      in appendInt 4 y @ ''-'' @ padDigits 2 m @ ''-'' @ padDigits 2 d @ ''T'' @
         padDigits 2 (sod div 3600) @ '':'' @ padDigits 2 (sod div 60 mod 60) @ '':'' @
         padDigits 2 (sod mod 60) @ ''.'' @ padDigits 9 (nsod mod nsPerSecond) @ ''Z'')"

section \<open>The text has no separator in it\<close>

lemma digitChar_cases: "0 \<le> d \<Longrightarrow> d < 10 \<Longrightarrow> of_char (digitChar d) = 48 + nat d"
  by (simp add: digitChar_def)

lemma padDigits_chars: "c \<in> set (padDigits k x) \<Longrightarrow> 48 \<le> (of_char c :: nat) \<and> (of_char c :: nat) \<le> 57"
proof (induction k arbitrary: x)
  case (Suc k)
  have "0 \<le> x mod 10" "x mod 10 < 10" by simp_all
  then have "of_char (digitChar (x mod 10)) = 48 + nat (x mod 10)" by (rule digitChar_cases)
  moreover have "nat (x mod 10) \<le> 9" using \<open>x mod 10 < 10\<close> by linarith
  ultimately show ?case using Suc by auto
qed simp

lemma padDigits_no_char:
  "(of_char c :: nat) < 48 \<or> 57 < (of_char c :: nat) \<Longrightarrow> c \<notin> set (padDigits k x)"
  using padDigits_chars by fastforce

lemma bar_notin_padDigits [simp]: "CHR ''|'' \<notin> set (padDigits k x)"
  by (rule padDigits_no_char) simp

lemma bar_notin_formatHistoryKey: "CHR ''|'' \<notin> set (formatHistoryKey t)"
  by (auto simp: formatHistoryKey_def appendInt_def Let_def split: prod.splits)

section \<open>Text order is time order\<close>

lemma length_padDigits [simp]: "length (padDigits k x) = k"
  by (induction k arbitrary: x) auto

lemma lex_append_left: "length u = length u' \<Longrightarrow> u < u' \<Longrightarrow> u @ v < u' @ (v' :: string)"
  by (induction u u' rule: list_induct2) auto

lemma lex_append_same: "v < v' \<Longrightarrow> u @ v < u @ (v' :: string)"
  by (induction u) auto

lemma digitChar_less: "0 \<le> a \<Longrightarrow> a < b \<Longrightarrow> b < 10 \<Longrightarrow> digitChar a < digitChar b"
  by (simp add: less_char_def digitChar_cases)

lemma padDigits_less:
  "0 \<le> x \<Longrightarrow> x < y \<Longrightarrow> y < 10 ^ k \<Longrightarrow> padDigits k x < padDigits k y"
proof (induction k arbitrary: x y)
  case (Suc k)
  have "x div 10 < y div 10 \<or> (x div 10 = y div 10 \<and> x mod 10 < y mod 10)"
    using Suc.prems(2) by presburger
  then consider "x div 10 < y div 10" | "x div 10 = y div 10" "x mod 10 < y mod 10" by blast
  then show ?case
  proof cases
    case 1
    have "padDigits k (x div 10) < padDigits k (y div 10)"
      using Suc.prems 1 by (intro Suc.IH) auto
    then show ?thesis by (simp add: lex_append_left)
  next
    case 2
    then show ?thesis by (simp add: lex_append_same digitChar_less)
  qed
qed simp

text \<open>A numeric field followed by the rest: the field decides, or the rest does.\<close>

lemma field_less:
  assumes "0 \<le> x" "y < 10 ^ k" "x < y \<or> (x = y \<and> u < v)"
  shows "padDigits k x @ c # u < padDigits k y @ c # (v :: string)"
  using assms padDigits_less[of x y k] by (auto intro: lex_append_left lex_append_same)

lemma appendInt_4: "0 \<le> y \<Longrightarrow> y \<le> 9999 \<Longrightarrow> appendInt 4 y = padDigits 4 y"
proof -
  assume "0 \<le> y" "y \<le> 9999"
  then have "nat y div 10 div 10 div 10 < 10" by linarith
  then have "decLen (nat y) \<le> 4"
    by (subst decLen.simps, subst decLen.simps, subst decLen.simps, subst decLen.simps) auto
  then have "max 4 (decLen (nat y)) = 4" by simp
  with \<open>0 \<le> y\<close> show ?thesis by (simp add: appendInt_def)
qed

text \<open>The capped divisions of the calendar: four equal parts, the last one
  unit longer.\<close>

lemma capped_div:
  fixes x q :: int
  assumes "0 \<le> x" "x \<le> 4 * q" "0 < q"
  shows "0 \<le> min 3 (x div q)" "min 3 (x div q) \<le> 3"
    "0 \<le> x - q * min 3 (x div q)" "x - q * min 3 (x div q) \<le> q"
proof -
  have m: "x - q * (x div q) = x mod q" by (simp add: minus_mult_div_eq_mod)
  have b: "0 \<le> x mod q" "x mod q < q" using assms by simp_all
  moreover have "3 * q \<le> x" if "3 \<le> x div q"
  proof -
    have "q * 3 \<le> q * (x div q)" using that assms by (intro mult_left_mono) auto
    then show ?thesis using m b by linarith
  qed
  moreover have "0 \<le> x div q" using assms by (simp add: pos_imp_zdiv_nonneg_iff)
  ultimately have cases: "0 \<le> min 3 (x div q) \<and> min 3 (x div q) \<le> 3 \<and>
      0 \<le> x - q * min 3 (x div q) \<and> x - q * min 3 (x div q) \<le> q"
  proof (cases "3 \<le> x div q")
    case True
    then have "min 3 (x div q) = 3" by simp
    then show ?thesis using \<open>3 \<le> x div q \<Longrightarrow> 3 * q \<le> x\<close> True assms by simp
  next
    case False
    then have "min 3 (x div q) = x div q" by simp
    then show ?thesis using m b False \<open>0 \<le> x div q\<close> by simp
  qed
  then show "0 \<le> min 3 (x div q)" "min 3 (x div q) \<le> 3"
    "0 \<le> x - q * min 3 (x div q)" "x - q * min 3 (x div q) \<le> q"
    by blast+
qed

lemma capped_div_mono:
  fixes x x' q :: int
  assumes "x < x'" "0 < q"
  shows "min 3 (x div q) < min 3 (x' div q) \<or>
    (min 3 (x div q) = min 3 (x' div q) \<and> x - q * min 3 (x div q) < x' - q * min 3 (x' div q))"
  using zdiv_mono1[of x x' q] assms by (auto simp: min_def)

lemma div_mod_mono:
  fixes x x' q :: int
  assumes "x < x'" "0 < q"
  shows "x div q < x' div q \<or> (x div q = x' div q \<and> x mod q < x' mod q)"
proof -
  have "x div q \<le> x' div q" using assms by (simp add: zdiv_mono1)
  moreover have "x mod q < x' mod q" if "x div q = x' div q"
    using assms that by (simp flip: minus_mult_div_eq_mod)
  ultimately show ?thesis by linarith
qed

text \<open>The parts of a day number, with their bounds.\<close>

definition part100 :: "int \<Rightarrow> int" where
  "part100 d = min 3 ((d mod 146097) div 36524)"

definition rest100 :: "int \<Rightarrow> int" where
  "rest100 d = d mod 146097 - 36524 * part100 d"

definition part1 :: "int \<Rightarrow> int" where
  "part1 d = min 3 (rest100 d mod 1461 div 365)"

definition rest1 :: "int \<Rightarrow> int" where
  "rest1 d = rest100 d mod 1461 - 365 * part1 d"

lemma yearOfDay_parts:
  "yearOfDay d =
     (400 * (d div 146097) + 100 * part100 d + 4 * (rest100 d div 1461) + part1 d + 1, rest1 d)"
  by (simp only: yearOfDay_def Let_def part100_def rest100_def part1_def rest1_def)

lemma part100_bounds: "0 \<le> part100 d" "part100 d \<le> 3" "0 \<le> rest100 d" "rest100 d \<le> 36524"
proof -
  have "0 \<le> d mod 146097" "d mod 146097 \<le> 4 * 36524"
    using pos_mod_sign[of 146097 d] pos_mod_bound[of 146097 d] by linarith+
  note c = capped_div[OF this, folded part100_def, folded rest100_def]
  show "0 \<le> part100 d" "part100 d \<le> 3" "0 \<le> rest100 d" "rest100 d \<le> 36524"
    by (rule c, simp)+
qed

lemma part4_bounds: "0 \<le> rest100 d div 1461" "rest100 d div 1461 \<le> 24"
proof -
  show "0 \<le> rest100 d div 1461" using part100_bounds(3)[of d] by (simp add: pos_imp_zdiv_nonneg_iff)
  have "rest100 d div 1461 \<le> 36524 div 1461"
    using part100_bounds(4)[of d] by (intro zdiv_mono1) simp_all
  then show "rest100 d div 1461 \<le> 24" by simp
qed

lemma part1_bounds: "0 \<le> part1 d" "part1 d \<le> 3" "0 \<le> rest1 d" "rest1 d \<le> 365"
proof -
  have "0 \<le> rest100 d mod 1461" "rest100 d mod 1461 \<le> 4 * 365"
    using pos_mod_sign[of 1461 "rest100 d"] pos_mod_bound[of 1461 "rest100 d"] by linarith+
  note c = capped_div[OF this, folded part1_def, folded rest1_def]
  show "0 \<le> part1 d" "part1 d \<le> 3" "0 \<le> rest1 d" "rest1 d \<le> 365"
    by (rule c, simp)+
qed

lemma year_lex:
  fixes n b c e z n' b' c' e' z' :: int
  assumes "n < n' \<or> (n = n' \<and> (b < b' \<or> (b = b' \<and> (c < c' \<or> (c = c' \<and>
      (e < e' \<or> (e = e' \<and> z < z')))))))"
    and "0 \<le> b" "b \<le> 3" "0 \<le> c" "c \<le> 24" "0 \<le> e" "e \<le> 3"
    and "0 \<le> b'" "b' \<le> 3" "0 \<le> c'" "c' \<le> 24" "0 \<le> e'" "e' \<le> 3"
  shows "400 * n + 100 * b + 4 * c + e + 1 < 400 * n' + 100 * b' + 4 * c' + e' + 1 \<or>
    (400 * n + 100 * b + 4 * c + e + 1 = 400 * n' + 100 * b' + 4 * c' + e' + 1 \<and> z < z')"
  using assms by (elim disjE conjE) linarith+

lemma yearOfDay_mono:
  assumes "d < d'" "yearOfDay d = (y, yd)" "yearOfDay d' = (y', yd')"
  shows "y < y' \<or> (y = y' \<and> yd < yd')"
proof -
  have s1: "d div 146097 < d' div 146097 \<or>
      (d div 146097 = d' div 146097 \<and> d mod 146097 < d' mod 146097)"
    using div_mod_mono[OF assms(1), of 146097] by simp
  have s2: "part100 d < part100 d' \<or> (part100 d = part100 d' \<and> rest100 d < rest100 d')"
    if "d mod 146097 < d' mod 146097"
    unfolding rest100_def part100_def by (rule capped_div_mono[OF that]) simp
  have s3: "rest100 d div 1461 < rest100 d' div 1461 \<or>
      (rest100 d div 1461 = rest100 d' div 1461 \<and> rest100 d mod 1461 < rest100 d' mod 1461)"
    if "rest100 d < rest100 d'"
    by (rule div_mod_mono[OF that]) simp
  have s4: "part1 d < part1 d' \<or> (part1 d = part1 d' \<and> rest1 d < rest1 d')"
    if "rest100 d mod 1461 < rest100 d' mod 1461"
    unfolding rest1_def part1_def by (rule capped_div_mono[OF that]) simp
  have y: "y = 400 * (d div 146097) + 100 * part100 d + 4 * (rest100 d div 1461) + part1 d + 1"
      "yd = rest1 d"
      "y' = 400 * (d' div 146097) + 100 * part100 d' + 4 * (rest100 d' div 1461) + part1 d' + 1"
      "yd' = rest1 d'"
    using assms(2,3) unfolding yearOfDay_parts by simp_all
  note b = part100_bounds(1,2)[of d] part100_bounds(1,2)[of d'] part4_bounds[of d]
    part4_bounds[of d'] part1_bounds(1,2)[of d] part1_bounds(1,2)[of d']
  from s1 s2 s3 s4 show ?thesis unfolding y by (intro year_lex b) blast
qed

lemma yearOfDay_yday: "yearOfDay d = (y, yd) \<Longrightarrow> 0 \<le> yd \<and> yd \<le> 365"
  using part1_bounds(3,4)[of d] by (simp add: yearOfDay_parts)

lemma monthDay_ge: "monthDay m yd ss = (a, b) \<Longrightarrow> m \<le> a"
  by (induction m yd ss rule: monthDay.induct) (auto split: if_splits)

lemma monthDay_mono:
  "yd < yd' \<Longrightarrow> monthDay m yd ss = (a, b) \<Longrightarrow> monthDay m yd' ss = (a', b') \<Longrightarrow>
     a < a' \<or> (a = a' \<and> b < b')"
proof (induction m yd ss rule: monthDay.induct)
  case (3 m yd s s' ss)
  show ?case
  proof (cases "yd < s'")
    case True
    then show ?thesis using 3 monthDay_ge[of "m + 1" yd' "s' # ss" a' b'] by (auto split: if_splits)
  next
    case False
    then show ?thesis using 3 by simp
  qed
qed auto

lemma monthDay_range:
  assumes "0 \<le> yd" "yd \<le> 365" "monthDay 1 yd (monthStarts l) = (m, d)"
  shows "1 \<le> m \<and> m \<le> 12 \<and> 1 \<le> d \<and> d \<le> 32"
  using assms by (cases l) (auto simp: monthStarts_def Let_def split: if_splits)

text \<open>The seven fields of the text, compared in order.\<close>

lemma nsPerDay_pos: "0 < nsPerDay" "0 < nsPerSecond"
  by (simp_all add: nsPerDay_def nsPerSecond_def)

lemma timeOfDay_lex:
  fixes a b :: int
  assumes "a < b" "0 \<le> a" "b < 86400"
  shows "a div 3600 < b div 3600 \<or> (a div 3600 = b div 3600 \<and>
    (a div 60 mod 60 < b div 60 mod 60 \<or>
      (a div 60 mod 60 = b div 60 mod 60 \<and> a mod 60 < b mod 60)))"
proof -
  have q: "x div 3600 = x div 60 div 60" for x :: int
    by (simp add: zdiv_zmult2_eq)
  have "a div 60 < b div 60 \<or> (a div 60 = b div 60 \<and> a mod 60 < b mod 60)"
    using div_mod_mono[OF assms(1), of 60] by simp
  then show ?thesis
    using div_mod_mono[of "a div 60" "b div 60" 60] by (auto simp: q)
qed

definition keyFields :: "instant \<Rightarrow> int \<times> int \<times> int \<times> int \<times> int \<times> int \<times> int" where
  "keyFields t =
     (let (y, yday) = yearOfDay (t div nsPerDay + epochDay);
          (m, d) = monthDay 1 yday (monthStarts (isLeap y));
          nsod = t mod nsPerDay; sod = nsod div nsPerSecond
      in (y, m, d, sod div 3600, sod div 60 mod 60, sod mod 60, nsod mod nsPerSecond))"

lemma formatHistoryKey_fields:
  assumes "keyFields t = (y, m, d, h, mi, s, ns)" "0 \<le> y" "y \<le> 9999"
  shows "formatHistoryKey t =
    padDigits 4 y @ CHR ''-'' # padDigits 2 m @ CHR ''-'' # padDigits 2 d @ CHR ''T'' #
    padDigits 2 h @ CHR '':'' # padDigits 2 mi @ CHR '':'' # padDigits 2 s @ CHR ''.'' #
    padDigits 9 ns @ ''Z''"
  using assms by (auto simp: keyFields_def formatHistoryKey_def Let_def appendInt_4 split: prod.splits)

text \<open>The fields of an instant, one equation each.\<close>

lemma keyFields_elim:
  assumes "keyFields t = (y, m, d, h, mi, s, ns)"
  obtains yd a where "yearOfDay (t div nsPerDay + epochDay) = (y, yd)"
    "monthDay 1 yd (monthStarts (isLeap y)) = (m, d)"
    "a = t mod nsPerDay div nsPerSecond" "h = a div 3600" "mi = a div 60 mod 60" "s = a mod 60"
    "ns = t mod nsPerDay mod nsPerSecond"
proof -
  obtain y' yd where y: "yearOfDay (t div nsPerDay + epochDay) = (y', yd)" by fastforce
  obtain m' d' where md: "monthDay 1 yd (monthStarts (isLeap y')) = (m', d')" by fastforce
  define a where "a = t mod nsPerDay div nsPerSecond"
  have "(y, m, d, h, mi, s, ns) =
      (y', m', d', a div 3600, a div 60 mod 60, a mod 60, t mod nsPerDay mod nsPerSecond)"
    using assms y md by (simp only: keyFields_def Let_def prod.case a_def)
  then show thesis using that[of yd a] y md a_def by blast
qed

lemma keyFields_ranges:
  assumes "keyFields t = (y, m, d, h, mi, s, ns)"
  shows "y = yearOf t" "0 \<le> m" "m < 100" "0 \<le> d" "d < 100" "0 \<le> h" "h < 100" "0 \<le> mi"
    "mi < 100" "0 \<le> s" "s < 100" "0 \<le> ns" "ns < 1000000000"
proof -
  obtain yd sod where y: "yearOfDay (t div nsPerDay + epochDay) = (y, yd)"
    and md: "monthDay 1 yd (monthStarts (isLeap y)) = (m, d)"
    and sod_def: "sod = t mod nsPerDay div nsPerSecond"
    and eq: "h = sod div 3600" "mi = sod div 60 mod 60" "s = sod mod 60"
      "ns = t mod nsPerDay mod nsPerSecond"
    using assms by (rule keyFields_elim)
  have "0 \<le> t mod nsPerDay" "t mod nsPerDay < nsPerDay" using nsPerDay_pos by simp_all
  then have "0 \<le> sod" "sod \<le> (nsPerDay - 1) div nsPerSecond"
    using nsPerDay_pos by (auto simp: sod_def pos_imp_zdiv_nonneg_iff intro!: zdiv_mono1)
  then have sod: "0 \<le> sod" "sod \<le> 86399" by (simp_all add: nsPerDay_def nsPerSecond_def)
  show "y = yearOf t" using y by (simp add: yearOf_def)
  have "1 \<le> m \<and> m \<le> 12 \<and> 1 \<le> d \<and> d \<le> 32"
    using yearOfDay_yday[OF y] md by (intro monthDay_range) auto
  then show "0 \<le> m" "m < 100" "0 \<le> d" "d < 100" by simp_all
  show "0 \<le> h" using sod by (simp add: eq pos_imp_zdiv_nonneg_iff)
  have "sod div 3600 \<le> 86399 div 3600" using sod by (intro zdiv_mono1) simp_all
  then show "h < 100" by (simp add: eq)
  have "sod div 60 mod 60 < 60" "sod mod 60 < 60" by simp_all
  then show "mi < 100" "s < 100" unfolding eq by linarith+
  show "0 \<le> mi" "0 \<le> s" "0 \<le> ns" using nsPerDay_pos by (simp_all add: eq)
  have "ns < nsPerSecond" using nsPerDay_pos by (simp add: eq)
  then show "ns < 1000000000" by (simp add: nsPerSecond_def)
qed

lemma keyFields_lex:
  assumes "t < t'" "keyFields t = (y, m, d, h, mi, s, ns)" "keyFields t' = (y', m', d', h', mi', s', ns')"
  shows "y < y' \<or> (y = y' \<and> (m < m' \<or> (m = m' \<and> (d < d' \<or> (d = d' \<and> (h < h' \<or> (h = h' \<and>
    (mi < mi' \<or> (mi = mi' \<and> (s < s' \<or> (s = s' \<and> ns < ns')))))))))))"
proof -
  obtain yd a where yd: "yearOfDay (t div nsPerDay + epochDay) = (y, yd)"
    and md: "monthDay 1 yd (monthStarts (isLeap y)) = (m, d)"
    and a_def: "a = t mod nsPerDay div nsPerSecond"
    and f: "h = a div 3600" "mi = a div 60 mod 60" "s = a mod 60" "ns = t mod nsPerDay mod nsPerSecond"
    using assms(2) by (rule keyFields_elim)
  obtain yd' a' where yd': "yearOfDay (t' div nsPerDay + epochDay) = (y', yd')"
    and md': "monthDay 1 yd' (monthStarts (isLeap y')) = (m', d')"
    and a'_def: "a' = t' mod nsPerDay div nsPerSecond"
    and f': "h' = a' div 3600" "mi' = a' div 60 mod 60" "s' = a' mod 60"
      "ns' = t' mod nsPerDay mod nsPerSecond"
    using assms(3) by (rule keyFields_elim)
  have a': "a' < 86400"
  proof -
    have "t' mod nsPerDay \<le> nsPerDay - 1" using nsPerDay_pos by simp
    then have "a' \<le> (nsPerDay - 1) div nsPerSecond"
      unfolding a'_def using nsPerDay_pos by (intro zdiv_mono1) auto
    then show ?thesis by (simp add: nsPerDay_def nsPerSecond_def)
  qed
  have a: "0 \<le> a" using nsPerDay_pos by (simp add: a_def pos_imp_zdiv_nonneg_iff)
  consider "t div nsPerDay + epochDay < t' div nsPerDay + epochDay"
    | "t div nsPerDay = t' div nsPerDay" "t mod nsPerDay < t' mod nsPerDay"
    using div_mod_mono[OF assms(1) nsPerDay_pos(1)] by auto
  then show ?thesis
  proof cases
    case 1
    then have "y < y' \<or> (y = y' \<and> yd < yd')" using yd yd' by (intro yearOfDay_mono)
    then show ?thesis using monthDay_mono[of yd yd' 1 "monthStarts (isLeap y)" m d m' d'] md md' by auto
  next
    case 2
    then have "y = y'" "m = m'" "d = d'" using yd md yd' md' by simp_all
    moreover have "a < a' \<or> (a = a' \<and> ns < ns')"
      using div_mod_mono[OF 2(2) nsPerDay_pos(2)] by (simp add: f f' a_def a'_def)
    then have "h < h' \<or> (h = h' \<and> (mi < mi' \<or> (mi = mi' \<and> (s < s' \<or> (s = s' \<and> ns < ns')))))"
      using timeOfDay_lex[of a a'] a a' by (auto simp only: f f')
    ultimately show ?thesis by simp
  qed
qed

theorem formatHistoryKey_less:
  assumes "t < t'" "0 \<le> yearOf t" "yearOf t \<le> 9999" "0 \<le> yearOf t'" "yearOf t' \<le> 9999"
  shows "formatHistoryKey t < formatHistoryKey t'"
proof -
  obtain y m d h mi s ns where k: "keyFields t = (y, m, d, h, mi, s, ns)" by (metis prod_cases7)
  obtain y' m' d' h' mi' s' ns' where k': "keyFields t' = (y', m', d', h', mi', s', ns')"
    by (metis prod_cases7)
  note r = keyFields_ranges[OF k] and r' = keyFields_ranges[OF k']
  have y: "0 \<le> y" "y \<le> 9999" "0 \<le> y'" "y' \<le> 9999" using r(1) r'(1) assms by simp_all
  show ?thesis
    unfolding formatHistoryKey_fields[OF k y(1,2)] formatHistoryKey_fields[OF k' y(3,4)]
    using keyFields_lex[OF assms(1) k k'] y r r'
    by (elim disjE conjE) (simp_all add: lex_append_left lex_append_same padDigits_less)
qed

lemma formatHistoryKey_inj:
  assumes "formatHistoryKey t = formatHistoryKey t'"
    and "0 \<le> yearOf t" "yearOf t \<le> 9999" "0 \<le> yearOf t'" "yearOf t' \<le> 9999"
  shows "t = t'"
  using formatHistoryKey_less[of t t'] formatHistoryKey_less[of t' t] assms
  by (metis less_irrefl linorder_less_linear)

lemma length_formatHistoryKey:
  assumes "0 \<le> yearOf t" "yearOf t \<le> 9999"
  shows "length (formatHistoryKey t) = 30"
proof -
  obtain y m d h mi s ns where k: "keyFields t = (y, m, d, h, mi, s, ns)" by (metis prod_cases7)
  show ?thesis
    using formatHistoryKey_fields[OF k] keyFields_ranges(1)[OF k] assms by simp
qed

end
