(* ===== verification/StoreIndex.thy ===== *)
theory StoreIndex
  imports Kv TimeKey
begin

text \<open>
  The store's derived indexes (\<open>attention-store-index.go\<close>): the built markers,
  the key functions, which items belong to which index, and the reconcile and
  remove helpers. The store itself is the record \<open>attentionStore\<close> of
  \<open>attention-store-impl.go\<close>; its clock, item-id generator and liveness checker
  are not fields here, because each reading is an argument of the operation
  that takes it.
\<close>

section \<open>The store\<close>

record 'tx attentionStore =
  store :: "('tx, Item) StoreTx"
  liveIndex :: "('tx, Item) StoreTx"
  openIndex :: "('tx, Item) StoreTx"
  historyIndex :: "('tx, Item) StoreTx"
  dedupIndex :: "('tx, Item) StoreTx"
  attempts :: "('tx, DeliveryAttempt) StoreTx"
  db :: "'tx libkv"
  heartbeatWindow :: duration

definition NewAttentionStore :: "'tx libkv \<Rightarrow> duration \<Rightarrow> 'tx attentionStore" where
  "NewAttentionStore K window = \<lparr>
     store = itemStoreTx K AttentionStoreBucketName,
     liveIndex = itemStoreTx K attentionLiveIndexBucketName,
     openIndex = itemStoreTx K attentionOpenIndexBucketName,
     historyIndex = itemStoreTx K attentionHistoryIndexBucketName,
     dedupIndex = itemStoreTx K attentionDedupIndexBucketName,
     attempts = attemptStoreTx K deliveryAttemptBucketName,
     db = K,
     heartbeatWindow = window\<rparr>"

lemma NewAttentionStore_simps [simp]:
  "store (NewAttentionStore K w) = itemStoreTx K AttentionStoreBucketName"
  "liveIndex (NewAttentionStore K w) = itemStoreTx K attentionLiveIndexBucketName"
  "openIndex (NewAttentionStore K w) = itemStoreTx K attentionOpenIndexBucketName"
  "historyIndex (NewAttentionStore K w) = itemStoreTx K attentionHistoryIndexBucketName"
  "dedupIndex (NewAttentionStore K w) = itemStoreTx K attentionDedupIndexBucketName"
  "attempts (NewAttentionStore K w) = attemptStoreTx K deliveryAttemptBucketName"
  "db (NewAttentionStore K w) = K"
  "heartbeatWindow (NewAttentionStore K w) = w"
  by (simp_all add: NewAttentionStore_def)

section \<open>Markers and keys\<close>

definition liveIndexMarkerKey :: string where "liveIndexMarkerKey = ''!''"
definition openIndexMarkerKey :: string where "openIndexMarkerKey = ''!''"
definition historyIndexMarkerKey :: string where "historyIndexMarkerKey = ''!''"
definition dedupIndexMarkerKey :: string where "dedupIndexMarkerKey = ''!''"

lemma marker_keys [simp]:
  "openIndexMarkerKey = liveIndexMarkerKey"
  "historyIndexMarkerKey = liveIndexMarkerKey"
  "dedupIndexMarkerKey = liveIndexMarkerKey"
  by (simp_all add: liveIndexMarkerKey_def openIndexMarkerKey_def historyIndexMarkerKey_def
      dedupIndexMarkerKey_def)

lemma marker_nonempty [simp]: "liveIndexMarkerKey \<noteq> []"
  by (simp add: liveIndexMarkerKey_def)

definition historyIndexSeparator :: string where "historyIndexSeparator = ''|''"
definition dedupIndexSeparator :: string where "dedupIndexSeparator = [CHR 0x00]"

type_synonym indexKeyFunc = "string \<Rightarrow> Item \<Rightarrow> string"

definition itemIDIndexKey :: indexKeyFunc where
  "itemIDIndexKey bucketKey item = bucketKey"

definition timeOrderedIndexKey :: indexKeyFunc where
  "timeOrderedIndexKey bucketKey item =
     formatHistoryKey (CreatedAt item) @ historyIndexSeparator @ ItemID item"

definition dedupIndexKeyOf :: "string \<Rightarrow> string \<Rightarrow> string" where
  "dedupIndexKeyOf producerID dedupKey = producerID @ dedupIndexSeparator @ dedupKey"

definition dedupIndexKey :: indexKeyFunc where
  "dedupIndexKey bucketKey item = dedupIndexKeyOf (ProducerID item) (DedupKey item)"

definition liveIndexWorthy :: "Item \<Rightarrow> bool" where
  "liveIndexWorthy item = (State item \<noteq> ClosedState)"

definition openIndexWorthy :: "Item \<Rightarrow> bool" where
  "openIndexWorthy item = (State item = OpenState)"

section \<open>Removing entries\<close>

definition removeIndexKey :: "('tx, Item) StoreTx \<Rightarrow> string \<Rightarrow> 'tx \<Rightarrow> error + 'tx" where
  "removeIndexKey index key tx =
     ebind (stExists index tx key) (\<lambda>exists.
       if \<not> exists then Inr tx else stRemove index tx key)"

definition removeDedupIndexEntry ::
  "'tx attentionStore \<Rightarrow> string \<Rightarrow> ItemID \<Rightarrow> 'tx \<Rightarrow> error + 'tx" where
  "removeDedupIndexEntry A key itemID tx =
     (case stGet (dedupIndex A) tx key of
        Inl e \<Rightarrow> (if isNotFound e then Inr tx else Inl e)
      | Inr entry \<Rightarrow>
          (if ItemID entry \<noteq> itemID then Inr tx else stRemove (dedupIndex A) tx key))"

definition removeIndexEntry ::
  "'tx attentionStore \<Rightarrow> string \<Rightarrow> Item option \<Rightarrow> 'tx \<Rightarrow> error + 'tx" where
  "removeIndexEntry A key item tx =
     ebind (removeIndexKey (liveIndex A) key tx) (\<lambda>tx.
     ebind (removeIndexKey (openIndex A) key tx) (\<lambda>tx.
       case item of
         None \<Rightarrow> Inr tx
       | Some item \<Rightarrow>
           ebind (removeDedupIndexEntry A
                    (dedupIndexKeyOf (ProducerID item) (DedupKey item)) (ItemID item) tx)
             (\<lambda>tx. removeIndexKey (historyIndex A) (timeOrderedIndexKey key item) tx)))"

section \<open>Reconciling one item\<close>

definition reconcileIndex ::
  "('tx, Item) StoreTx \<Rightarrow> Item \<Rightarrow> bool \<Rightarrow> indexKeyFunc \<Rightarrow> 'tx \<Rightarrow> error + 'tx" where
  "reconcileIndex index item worthy keyOf tx =
     (let key = keyOf (ItemID item) item in
      if worthy then stAdd index tx key item else removeIndexKey index key tx)"

definition reconcileDedupIndex :: "'tx attentionStore \<Rightarrow> Item \<Rightarrow> 'tx \<Rightarrow> error + 'tx" where
  "reconcileDedupIndex A item tx =
     (let key = dedupIndexKeyOf (ProducerID item) (DedupKey item) in
      if openIndexWorthy item then stAdd (dedupIndex A) tx key item
      else removeDedupIndexEntry A key (ItemID item) tx)"

definition reconcileIndexes ::
  "'tx attentionStore \<Rightarrow> Item \<Rightarrow> Item option \<Rightarrow> 'tx \<Rightarrow> error + 'tx" where
  "reconcileIndexes A item previous tx =
     ebind (reconcileIndex (liveIndex A) item (liveIndexWorthy item) itemIDIndexKey tx) (\<lambda>tx.
     ebind (reconcileIndex (openIndex A) item (openIndexWorthy item) itemIDIndexKey tx) (\<lambda>tx.
     ebind (reconcileDedupIndex A item tx) (\<lambda>tx.
     ebind
       (case previous of
          None \<Rightarrow> Inr tx
        | Some previous \<Rightarrow>
            (let oldKey = timeOrderedIndexKey [] previous; newKey = timeOrderedIndexKey [] item in
             if oldKey \<noteq> newKey then removeIndexKey (historyIndex A) oldKey tx else Inr tx))
       (\<lambda>tx. reconcileIndex (historyIndex A) item True timeOrderedIndexKey tx))))"

section \<open>Key lemmas\<close>

lemma itemIDIndexKey_simp [simp]: "itemIDIndexKey k i = k"
  by (simp add: itemIDIndexKey_def)

lemma timeOrderedIndexKey_nonempty [simp]: "timeOrderedIndexKey k i \<noteq> []"
  by (simp add: timeOrderedIndexKey_def historyIndexSeparator_def)

lemma timeOrderedIndexKey_any: "timeOrderedIndexKey k i = timeOrderedIndexKey k' i"
  by (simp add: timeOrderedIndexKey_def)

lemma timeOrderedIndexKey_neq_marker [simp]: "timeOrderedIndexKey k i \<noteq> liveIndexMarkerKey"
proof
  assume "timeOrderedIndexKey k i = liveIndexMarkerKey"
  moreover have "CHR ''|'' \<in> set (timeOrderedIndexKey k i)"
    by (simp add: timeOrderedIndexKey_def historyIndexSeparator_def)
  ultimately show False by (simp add: liveIndexMarkerKey_def)
qed

text \<open>The time prefix holds no separator, so the key determines the item id.\<close>

lemma split_at_bar:
  "CHR ''|'' \<notin> set p \<Longrightarrow> CHR ''|'' \<notin> set p' \<Longrightarrow>
   p @ CHR ''|'' # q = p' @ CHR ''|'' # q' \<longleftrightarrow> p = p' \<and> q = q'"
proof (induction p arbitrary: p')
  case Nil
  then show ?case by (cases p') auto
next
  case (Cons c p)
  then show ?case by (cases p') auto
qed

lemma timeOrderedIndexKey_eq:
  assumes "timeOrderedIndexKey k i = timeOrderedIndexKey k' j"
  shows "ItemID i = ItemID j" and "formatHistoryKey (CreatedAt i) = formatHistoryKey (CreatedAt j)"
  using assms bar_notin_formatHistoryKey
  by (simp_all add: timeOrderedIndexKey_def historyIndexSeparator_def split_at_bar)

lemma dedupIndexKeyOf_nonempty [simp]: "dedupIndexKeyOf p d \<noteq> []"
  by (simp add: dedupIndexKeyOf_def dedupIndexSeparator_def)

lemma dedupIndexKeyOf_neq_marker [simp]: "dedupIndexKeyOf p d \<noteq> liveIndexMarkerKey"
  by (cases p) (auto simp: dedupIndexKeyOf_def dedupIndexSeparator_def liveIndexMarkerKey_def)

end
