(* ===== verification/StoreCore.thy ===== *)
theory StoreCore
  imports StoreIndex
begin

text \<open>
  The writes and scans every operation of the store is made of
  (\<open>attention-store-impl.go\<close>): putting and removing an item together with its
  derived index entries, rebuilding an index from the items bucket, the
  lazily-built check of each index, and the two scans a read starts from.
\<close>

section \<open>Putting an item\<close>

definition itemsBucketAbsent :: "'tx attentionStore \<Rightarrow> 'tx \<Rightarrow> error + bool" where
  "itemsBucketAbsent A tx =
     (case txBucket (db A) tx AttentionStoreBucketName of
        Some e \<Rightarrow> (if e = ErrBucketNotFound then Inr True else Inl e)
      | None \<Rightarrow> Inr False)"

definition storedItem :: "'tx attentionStore \<Rightarrow> string \<Rightarrow> 'tx \<Rightarrow> error + Item option" where
  "storedItem A key tx =
     (case stGet (store A) tx key of
        Inl e \<Rightarrow> (if isNotFound e then Inr None else Inl e)
      | Inr item \<Rightarrow> Inr (Some item))"

definition markBuilt :: "'tx attentionStore \<Rightarrow> 'tx \<Rightarrow> error + 'tx" where
  "markBuilt A tx =
     ebind (stAdd (liveIndex A) tx liveIndexMarkerKey emptyItem) (\<lambda>tx.
     ebind (stAdd (openIndex A) tx openIndexMarkerKey emptyItem) (\<lambda>tx.
     stAdd (dedupIndex A) tx dedupIndexMarkerKey emptyItem))"

definition putItem :: "'tx attentionStore \<Rightarrow> Item \<Rightarrow> 'tx \<Rightarrow> error + 'tx" where
  "putItem A item tx =
     ebind (itemsBucketAbsent A tx) (\<lambda>firstEver.
     ebind (storedItem A (ItemID item) tx) (\<lambda>previous.
     ebind (stAdd (store A) tx (ItemID item) item) (\<lambda>tx.
     ebind (if firstEver then markBuilt A tx else Inr tx) (\<lambda>tx.
     reconcileIndexes A item previous tx))))"

section \<open>Removing an item\<close>

definition removeAttemptEntry :: "'tx attentionStore \<Rightarrow> string \<Rightarrow> 'tx \<Rightarrow> error + 'tx" where
  "removeAttemptEntry A key tx =
     ebind (stExists (attempts A) tx key) (\<lambda>exists.
       if \<not> exists then Inr tx else stRemove (attempts A) tx key)"

definition removeItem :: "'tx attentionStore \<Rightarrow> string \<Rightarrow> 'tx \<Rightarrow> error + 'tx" where
  "removeItem A key tx =
     ebind (storedItem A key tx) (\<lambda>item.
     ebind (stRemove (store A) tx key) (\<lambda>tx.
     ebind (removeIndexEntry A key item tx) (\<lambda>tx.
     removeAttemptEntry A key tx)))"

section \<open>Rebuilding an index\<close>

text \<open>The first pass copies every worthy item, the second drops every entry
  the items bucket does not account for. The result also carries the wanted
  keys, which the Go map \<open>want\<close> holds.\<close>

definition rebuildAdd ::
  "('tx, Item) StoreTx \<Rightarrow> (Item \<Rightarrow> bool) \<Rightarrow> indexKeyFunc \<Rightarrow>
   string set \<times> 'tx \<Rightarrow> string \<times> Item \<Rightarrow> error + string set \<times> 'tx" where
  "rebuildAdd index worthy keyOf acc e =
     (case acc of (want, tx) \<Rightarrow>
      (case e of (bucketKey, item) \<Rightarrow>
        if \<not> worthy item then Inr (want, tx)
        else (let key = keyOf bucketKey item in
              ebind (stAdd index tx key item) (\<lambda>tx. Inr (insert key want, tx)))))"

definition rebuildDrop ::
  "runtime \<Rightarrow> ('tx, Item) StoreTx \<Rightarrow> 'tx \<Rightarrow> string \<Rightarrow> error + 'tx" where
  "rebuildDrop R index tx key = guardE (ctxErr R) (stRemove index tx key)"

definition rebuildIndex ::
  "runtime \<Rightarrow> 'tx attentionStore \<Rightarrow> ('tx, Item) StoreTx \<Rightarrow> string \<Rightarrow> (Item \<Rightarrow> bool) \<Rightarrow>
   indexKeyFunc \<Rightarrow> 'tx \<Rightarrow> error + 'tx" where
  "rebuildIndex R A index markerKey worthy keyOf tx =
     ebind (stMap (store A) tx) (\<lambda>entries.
     ebind (efold (rebuildAdd index worthy keyOf) ({}, tx) entries) (\<lambda>(want, tx).
     ebind (stMap index tx) (\<lambda>indexed.
     let stale = filter (\<lambda>key. key \<noteq> markerKey \<and> key \<notin> want) (map fst indexed)
     in efold (rebuildDrop R index) tx stale)))"

section \<open>Building an index once\<close>

definition indexBuilt :: "('tx, Item) StoreTx \<Rightarrow> string \<Rightarrow> 'tx \<Rightarrow> error + bool" where
  "indexBuilt index markerKey s = db_View s (\<lambda>tx. stExists index tx markerKey)"

definition liveIndexBuilt :: "'tx attentionStore \<Rightarrow> 'tx \<Rightarrow> error + bool" where
  "liveIndexBuilt A s = indexBuilt (liveIndex A) liveIndexMarkerKey s"
definition openIndexBuilt :: "'tx attentionStore \<Rightarrow> 'tx \<Rightarrow> error + bool" where
  "openIndexBuilt A s = indexBuilt (openIndex A) openIndexMarkerKey s"
definition historyIndexBuilt :: "'tx attentionStore \<Rightarrow> 'tx \<Rightarrow> error + bool" where
  "historyIndexBuilt A s = indexBuilt (historyIndex A) historyIndexMarkerKey s"

text \<open>The body of the update each \<open>ensure\<close> runs: the marker is read again inside
  the write transaction, because another read may have built the index since.\<close>

definition buildOnce ::
  "runtime \<Rightarrow> 'tx attentionStore \<Rightarrow> ('tx, Item) StoreTx \<Rightarrow> string \<Rightarrow> (Item \<Rightarrow> bool) \<Rightarrow>
   indexKeyFunc \<Rightarrow> 'tx \<Rightarrow> error + 'tx" where
  "buildOnce R A index markerKey worthy keyOf tx =
     ebind (stExists index tx markerKey) (\<lambda>built.
       if built then Inr tx
       else ebind (rebuildIndex R A index markerKey worthy keyOf tx)
              (\<lambda>tx. stAdd index tx markerKey emptyItem))"

definition ensureWith ::
  "'tx attentionStore \<Rightarrow> error + bool \<Rightarrow> ('tx \<Rightarrow> error + 'tx) \<Rightarrow> 'tx \<Rightarrow> 'tx \<times> (error + unit)" where
  "ensureWith A checked build s =
     (case checked of
        Inl e \<Rightarrow> (s, Inl e)
      | Inr built \<Rightarrow>
          (if built then (s, Inr ())
           else db_Update (db A) s (\<lambda>tx. ebind (build tx) (\<lambda>tx. Inr (tx, ())))))"

definition ensureLiveIndex :: "runtime \<Rightarrow> 'tx attentionStore \<Rightarrow> 'tx \<Rightarrow> 'tx \<times> (error + unit)" where
  "ensureLiveIndex R A s =
     ensureWith A (liveIndexBuilt A s)
       (buildOnce R A (liveIndex A) liveIndexMarkerKey liveIndexWorthy itemIDIndexKey) s"

definition ensureOpenIndex :: "runtime \<Rightarrow> 'tx attentionStore \<Rightarrow> 'tx \<Rightarrow> 'tx \<times> (error + unit)" where
  "ensureOpenIndex R A s =
     ensureWith A (openIndexBuilt A s)
       (buildOnce R A (openIndex A) openIndexMarkerKey openIndexWorthy itemIDIndexKey) s"

definition ensureHistoryIndex :: "runtime \<Rightarrow> 'tx attentionStore \<Rightarrow> 'tx \<Rightarrow> 'tx \<times> (error + unit)" where
  "ensureHistoryIndex R A s =
     ensureWith A (historyIndexBuilt A s)
       (buildOnce R A (historyIndex A) historyIndexMarkerKey (\<lambda>_. True) timeOrderedIndexKey) s"

text \<open>The dedup index is built in the transaction of the push that needs it.\<close>

definition ensureDedupIndex :: "runtime \<Rightarrow> 'tx attentionStore \<Rightarrow> 'tx \<Rightarrow> error + 'tx" where
  "ensureDedupIndex R A tx =
     buildOnce R A (dedupIndex A) dedupIndexMarkerKey openIndexWorthy dedupIndexKey tx"

section \<open>The scans of a read\<close>

text \<open>A \<open>storedItem\<close> of the Go code is a pair of a bucket key and an item.\<close>

definition scanIndex :: "('tx, Item) StoreTx \<Rightarrow> string \<Rightarrow> 'tx \<Rightarrow> error + (string \<times> Item) list" where
  "scanIndex index markerKey s =
     db_View s (\<lambda>tx. ebind (stMap index tx) (\<lambda>es. Inr (filter (\<lambda>e. fst e \<noteq> markerKey) es)))"

definition readOpenItems ::
  "runtime \<Rightarrow> 'tx attentionStore \<Rightarrow> 'tx \<Rightarrow> 'tx \<times> (error + (string \<times> Item) list)" where
  "readOpenItems R A s =
     (case ensureOpenIndex R A s of
        (s, Inl e) \<Rightarrow> (s, Inl e)
      | (s, Inr _) \<Rightarrow> (s, scanIndex (openIndex A) openIndexMarkerKey s))"

definition readItems ::
  "runtime \<Rightarrow> 'tx attentionStore \<Rightarrow> 'tx \<Rightarrow> 'tx \<times> (error + (string \<times> Item) list)" where
  "readItems R A s =
     (case ensureLiveIndex R A s of
        (s, Inl e) \<Rightarrow> (s, Inl e)
      | (s, Inr _) \<Rightarrow> (s, scanIndex (liveIndex A) liveIndexMarkerKey s))"

end
