(* ===== verification/StoreSpec.thy ===== *)
theory StoreSpec
  imports StoreCore
begin

text \<open>
  What the store's writes promise, without transactions, buckets or errors: an
  abstract store of five finite maps and the delivery attempts, the effect of
  each write on it, and the refinement lemmas that the code's definitions have
  exactly that effect. \<open>absStore\<close> reads the abstract store off a transaction.
  An index is described apart from its built marker by \<open>entries\<close>.
\<close>

section \<open>The abstract store\<close>

record astore =
  aPresent :: bool
  aItems :: "string \<rightharpoonup> Item"
  aLive :: "string \<rightharpoonup> Item"
  aOpen :: "string \<rightharpoonup> Item"
  aHist :: "string \<rightharpoonup> Item"
  aDedup :: "string \<rightharpoonup> Item"
  aAttempts :: "string \<rightharpoonup> DeliveryAttempt"

definition absStore ::
  "('tx \<Rightarrow> string \<Rightarrow> (string \<rightharpoonup> Item) option) \<Rightarrow> ('tx \<Rightarrow> (string \<rightharpoonup> DeliveryAttempt) option) \<Rightarrow>
   'tx \<Rightarrow> astore" where
  "absStore ib ab tx = \<lparr>
     aPresent = (ib tx AttentionStoreBucketName \<noteq> None),
     aItems = optMap (ib tx AttentionStoreBucketName),
     aLive = optMap (ib tx attentionLiveIndexBucketName),
     aOpen = optMap (ib tx attentionOpenIndexBucketName),
     aHist = optMap (ib tx attentionHistoryIndexBucketName),
     aDedup = optMap (ib tx attentionDedupIndexBucketName),
     aAttempts = optMap (ab tx)\<rparr>"

definition hkey :: "Item \<Rightarrow> string" where "hkey i = timeOrderedIndexKey [] i"
definition dkey :: "Item \<Rightarrow> string" where "dkey i = dedupIndexKeyOf (ProducerID i) (DedupKey i)"

text \<open>The entries of an index are what a scan shows: everything but the marker.\<close>

definition entries :: "(string \<rightharpoonup> Item) \<Rightarrow> (string \<rightharpoonup> Item)" where
  "entries idx = idx(liveIndexMarkerKey := None)"

definition built :: "(string \<rightharpoonup> Item) \<Rightarrow> bool" where
  "built idx \<longleftrightarrow> idx liveIndexMarkerKey \<noteq> None"

section \<open>The effect of each write\<close>

definition setEntry :: "bool \<Rightarrow> string \<Rightarrow> Item \<Rightarrow> (string \<rightharpoonup> Item) \<Rightarrow> (string \<rightharpoonup> Item)" where
  "setEntry worthy key item idx = (if worthy then idx(key \<mapsto> item) else idx(key := None))"

definition dropOwn :: "string \<Rightarrow> ItemID \<Rightarrow> (string \<rightharpoonup> Item) \<Rightarrow> (string \<rightharpoonup> Item)" where
  "dropOwn key itemID idx =
     (case idx key of
        None \<Rightarrow> idx
      | Some e \<Rightarrow> (if ItemID e = itemID then idx(key := None) else idx))"

definition spec_markBuilt :: "astore \<Rightarrow> astore" where
  "spec_markBuilt s = s\<lparr>
     aLive := (aLive s)(liveIndexMarkerKey \<mapsto> emptyItem),
     aOpen := (aOpen s)(liveIndexMarkerKey \<mapsto> emptyItem),
     aDedup := (aDedup s)(liveIndexMarkerKey \<mapsto> emptyItem)\<rparr>"

definition spec_reconcile :: "Item \<Rightarrow> Item option \<Rightarrow> astore \<Rightarrow> astore" where
  "spec_reconcile item previous s = s\<lparr>
     aLive := setEntry (liveIndexWorthy item) (ItemID item) item (aLive s),
     aOpen := setEntry (openIndexWorthy item) (ItemID item) item (aOpen s),
     aDedup := (if openIndexWorthy item then (aDedup s)(dkey item \<mapsto> item)
                else dropOwn (dkey item) (ItemID item) (aDedup s)),
     aHist := (case previous of
                 None \<Rightarrow> (aHist s)(hkey item \<mapsto> item)
               | Some p \<Rightarrow> ((aHist s)(hkey p := None))(hkey item \<mapsto> item))\<rparr>"

definition spec_put :: "Item \<Rightarrow> astore \<Rightarrow> astore" where
  "spec_put item s =
     (let s1 = s\<lparr>aPresent := True, aItems := (aItems s)(ItemID item \<mapsto> item)\<rparr>;
          s2 = (if aPresent s then s1 else spec_markBuilt s1)
      in spec_reconcile item (aItems s (ItemID item)) s2)"

definition spec_removeIndexEntry :: "string \<Rightarrow> Item option \<Rightarrow> astore \<Rightarrow> astore" where
  "spec_removeIndexEntry key item s =
     (let s1 = s\<lparr>aLive := (aLive s)(key := None), aOpen := (aOpen s)(key := None)\<rparr>
      in (case item of
            None \<Rightarrow> s1
          | Some i \<Rightarrow> s1\<lparr>aDedup := dropOwn (dkey i) (ItemID i) (aDedup s1),
                         aHist := (aHist s1)(hkey i := None)\<rparr>))"

definition spec_remove :: "string \<Rightarrow> astore \<Rightarrow> astore" where
  "spec_remove key s =
     (let s1 = s\<lparr>aPresent := True, aItems := (aItems s)(key := None)\<rparr>;
          s2 = spec_removeIndexEntry key (aItems s key) s1
      in s2\<lparr>aAttempts := (aAttempts s2)(key := None)\<rparr>)"

text \<open>What the first pass of a rebuild writes, and the index a rebuild leaves.\<close>

definition wantStep ::
  "(Item \<Rightarrow> bool) \<Rightarrow> indexKeyFunc \<Rightarrow> string \<times> Item \<Rightarrow> (string \<rightharpoonup> Item) \<Rightarrow> (string \<rightharpoonup> Item)" where
  "wantStep worthy keyOf e m =
     (if worthy (snd e) then m(keyOf (fst e) (snd e) \<mapsto> snd e) else m)"

definition wanted ::
  "(Item \<Rightarrow> bool) \<Rightarrow> indexKeyFunc \<Rightarrow> (string \<rightharpoonup> Item) \<Rightarrow> (string \<rightharpoonup> Item)" where
  "wanted worthy keyOf items = fold (wantStep worthy keyOf) (sorted_entries items) Map.empty"

definition spec_rebuild ::
  "(Item \<Rightarrow> bool) \<Rightarrow> indexKeyFunc \<Rightarrow> (string \<rightharpoonup> Item) \<Rightarrow> (string \<rightharpoonup> Item) \<Rightarrow> (string \<rightharpoonup> Item)" where
  "spec_rebuild worthy keyOf items idx =
     (idx |` {liveIndexMarkerKey}) ++ wanted worthy keyOf items"

definition spec_build ::
  "(Item \<Rightarrow> bool) \<Rightarrow> indexKeyFunc \<Rightarrow> (string \<rightharpoonup> Item) \<Rightarrow> (string \<rightharpoonup> Item) \<Rightarrow> (string \<rightharpoonup> Item)" where
  "spec_build worthy keyOf items idx =
     (if built idx then idx
      else (spec_rebuild worthy keyOf items idx)(liveIndexMarkerKey \<mapsto> emptyItem))"

lemma fold_wantStep:
  "fold (wantStep worthy keyOf) es m = m ++ fold (wantStep worthy keyOf) es Map.empty"
proof (induction es arbitrary: m rule: rev_induct)
  case Nil
  then show ?case by simp
next
  case (snoc e es)
  have "wantStep worthy keyOf e (m ++ m') = m ++ wantStep worthy keyOf e m'" for m'
    by (simp add: wantStep_def)
  then show ?case using snoc[of m] by simp
qed

lemma dom_fold_wantStep:
  "dom (fold (wantStep worthy keyOf) es Map.empty) =
     (\<lambda>e. keyOf (fst e) (snd e)) ` {e \<in> set es. worthy (snd e)}"
  by (induction es rule: rev_induct) (auto simp: wantStep_def)

lemma wanted_Some:
  assumes "finite (dom items)" and "wanted worthy keyOf items key = Some i"
  obtains k where "items k = Some i" "worthy i" "key = keyOf k i"
proof -
  have "\<exists>e \<in> set es. worthy (snd e) \<and> snd e = i \<and> key = keyOf (fst e) (snd e)"
    if "fold (wantStep worthy keyOf) es Map.empty key = Some i" for es
    using that by (induction es rule: rev_induct) (auto simp: wantStep_def split: if_splits)
  from this[OF assms(2)[unfolded wanted_def]] show thesis
    using assms(1) that by (auto simp: set_sorted_entries)
qed

lemma dom_wanted:
  "finite (dom items) \<Longrightarrow>
   dom (wanted worthy keyOf items) = {keyOf k i | k i. items k = Some i \<and> worthy i}"
  by (simp add: wanted_def dom_fold_wantStep set_sorted_entries image_def) metis

section \<open>Refinement of a fallible step\<close>

text \<open>The step succeeds and its result abstracts to \<open>s\<close>.\<close>

definition yields :: "('tx \<Rightarrow> 's) \<Rightarrow> error + 'tx \<Rightarrow> 's \<Rightarrow> bool" where
  "yields \<alpha> m s \<longleftrightarrow> (\<exists>tx. m = Inr tx \<and> \<alpha> tx = s)"

lemma yieldsI: "\<alpha> tx = s \<Longrightarrow> yields \<alpha> (Inr tx) s"
  by (simp add: yields_def)

lemma yieldsE:
  assumes "yields \<alpha> m s"
  obtains tx where "m = Inr tx" "\<alpha> tx = s"
  using assms by (auto simp: yields_def)

lemma yields_bind:
  assumes "yields \<alpha> m s1" and "\<And>tx. \<alpha> tx = s1 \<Longrightarrow> yields \<alpha> (f tx) s2"
  shows "yields \<alpha> (ebind m f) s2"
  using assms by (auto simp: yields_def)

lemma yields_eq: "yields \<alpha> m s \<Longrightarrow> s = t \<Longrightarrow> yields \<alpha> m t"
  by simp

lemma yields_efold:
  assumes "\<And>tx k. k \<in> set ks \<Longrightarrow> yields \<alpha> (f tx k) (g k (\<alpha> tx))"
  shows "yields \<alpha> (efold f tx ks) (fold g ks (\<alpha> tx))"
  using assms
proof (induction ks arbitrary: tx)
  case Nil
  then show ?case by (simp add: yields_def)
next
  case (Cons k ks)
  have "yields \<alpha> (efold f tx' ks) (fold g ks (\<alpha> tx'))" for tx' using Cons by simp
  then have "yields \<alpha> (efold f tx' ks) (fold g ks (g k (\<alpha> tx)))" if "\<alpha> tx' = g k (\<alpha> tx)" for tx'
    using that by metis
  moreover have "yields \<alpha> (f tx k) (g k (\<alpha> tx))" using Cons.prems by simp
  ultimately show ?case by (simp add: yields_bind)
qed

context kv_lib
begin

abbreviation \<alpha> :: "'tx \<Rightarrow> astore" where "\<alpha> \<equiv> absStore ib ab"

lemma abs_added:
  "k \<noteq> [] \<Longrightarrow> \<alpha> (added (itemStoreTx K AttentionStoreBucketName) k v tx) =
     (\<alpha> tx)\<lparr>aPresent := True, aItems := (aItems (\<alpha> tx))(k \<mapsto> v)\<rparr>"
  "k \<noteq> [] \<Longrightarrow> \<alpha> (added (itemStoreTx K attentionLiveIndexBucketName) k v tx) =
     (\<alpha> tx)\<lparr>aLive := (aLive (\<alpha> tx))(k \<mapsto> v)\<rparr>"
  "k \<noteq> [] \<Longrightarrow> \<alpha> (added (itemStoreTx K attentionOpenIndexBucketName) k v tx) =
     (\<alpha> tx)\<lparr>aOpen := (aOpen (\<alpha> tx))(k \<mapsto> v)\<rparr>"
  "k \<noteq> [] \<Longrightarrow> \<alpha> (added (itemStoreTx K attentionHistoryIndexBucketName) k v tx) =
     (\<alpha> tx)\<lparr>aHist := (aHist (\<alpha> tx))(k \<mapsto> v)\<rparr>"
  "k \<noteq> [] \<Longrightarrow> \<alpha> (added (itemStoreTx K attentionDedupIndexBucketName) k v tx) =
     (\<alpha> tx)\<lparr>aDedup := (aDedup (\<alpha> tx))(k \<mapsto> v)\<rparr>"
  "k \<noteq> [] \<Longrightarrow> \<alpha> (added (attemptStoreTx K deliveryAttemptBucketName) k a tx) =
     (\<alpha> tx)\<lparr>aAttempts := (aAttempts (\<alpha> tx))(k \<mapsto> a)\<rparr>"
  by (simp_all add: absStore_def ib_added ab_added attempt_added)

lemma abs_removed:
  "\<alpha> (removed (itemStoreTx K AttentionStoreBucketName) k tx) =
     (\<alpha> tx)\<lparr>aPresent := True, aItems := (aItems (\<alpha> tx))(k := None)\<rparr>"
  "\<alpha> (removed (itemStoreTx K attentionLiveIndexBucketName) k tx) =
     (\<alpha> tx)\<lparr>aLive := (aLive (\<alpha> tx))(k := None)\<rparr>"
  "\<alpha> (removed (itemStoreTx K attentionOpenIndexBucketName) k tx) =
     (\<alpha> tx)\<lparr>aOpen := (aOpen (\<alpha> tx))(k := None)\<rparr>"
  "\<alpha> (removed (itemStoreTx K attentionHistoryIndexBucketName) k tx) =
     (\<alpha> tx)\<lparr>aHist := (aHist (\<alpha> tx))(k := None)\<rparr>"
  "\<alpha> (removed (itemStoreTx K attentionDedupIndexBucketName) k tx) =
     (\<alpha> tx)\<lparr>aDedup := (aDedup (\<alpha> tx))(k := None)\<rparr>"
  "\<alpha> (removed (attemptStoreTx K deliveryAttemptBucketName) k tx) =
     (\<alpha> tx)\<lparr>aAttempts := (aAttempts (\<alpha> tx))(k := None)\<rparr>"
  by (simp_all add: absStore_def ib_removed ab_removed attempt_removed)

lemma abs_sel:
  "optMap (ib tx AttentionStoreBucketName) = aItems (\<alpha> tx)"
  "optMap (ib tx attentionLiveIndexBucketName) = aLive (\<alpha> tx)"
  "optMap (ib tx attentionOpenIndexBucketName) = aOpen (\<alpha> tx)"
  "optMap (ib tx attentionHistoryIndexBucketName) = aHist (\<alpha> tx)"
  "optMap (ib tx attentionDedupIndexBucketName) = aDedup (\<alpha> tx)"
  "optMap (ab tx) = aAttempts (\<alpha> tx)"
  "ib tx AttentionStoreBucketName = None \<longleftrightarrow> \<not> aPresent (\<alpha> tx)"
  by (simp_all add: absStore_def)

lemma finite_abs [simp]:
  "finite (dom (aItems (\<alpha> tx)))" "finite (dom (aLive (\<alpha> tx)))" "finite (dom (aOpen (\<alpha> tx)))"
  "finite (dom (aHist (\<alpha> tx)))" "finite (dom (aDedup (\<alpha> tx)))"
  using finite_ib by (simp_all add: absStore_def)

text \<open>One rewrite system for the library calls the store makes.\<close>

lemmas call_simps =
  item_Add item_Remove item_Exists item_Map bucket_check attempt_Exists attempt_Add attempt_Remove
  abs_sel abs_added abs_removed

text \<open>Reading one item.\<close>

lemma item_Get_abs:
  "stGet (itemStoreTx K AttentionStoreBucketName) tx k =
     (case aItems (\<alpha> tx) k of
        Some v \<Rightarrow> Inr v
      | None \<Rightarrow> Inl (if aPresent (\<alpha> tx) then ErrKeyNotFound else ErrBucketNotFound))"
  by (auto simp: item_Get absStore_def split: option.splits)

lemma dedup_Get_cases:
  "stGet (itemStoreTx K attentionDedupIndexBucketName) tx k =
     (case aDedup (\<alpha> tx) k of
        Some v \<Rightarrow> Inr v
      | None \<Rightarrow> Inl (if ib tx attentionDedupIndexBucketName = None
                      then ErrBucketNotFound else ErrKeyNotFound))"
  by (auto simp: item_Get absStore_def split: option.splits)

lemma attempt_Get_abs:
  "stGet (attemptStoreTx K deliveryAttemptBucketName) tx k =
     (case aAttempts (\<alpha> tx) k of
        Some v \<Rightarrow> Inr v
      | None \<Rightarrow> Inl (if ab tx = None then ErrBucketNotFound else ErrKeyNotFound))"
  by (auto simp: attempt_Get absStore_def split: option.splits)

lemma storedItem_abs [simp]:
  "storedItem (NewAttentionStore K w) k tx = Inr (aItems (\<alpha> tx) k)"
  by (simp add: storedItem_def item_Get_abs split: option.splits)

lemma itemsBucketAbsent_abs [simp]:
  "itemsBucketAbsent (NewAttentionStore K w) tx = Inr (\<not> aPresent (\<alpha> tx))"
  by (simp add: itemsBucketAbsent_def call_simps)

lemma removeIndexKey_yields:
  "yields \<alpha> (removeIndexKey (itemStoreTx K attentionLiveIndexBucketName) k tx)
     ((\<alpha> tx)\<lparr>aLive := (aLive (\<alpha> tx))(k := None)\<rparr>)"
  "yields \<alpha> (removeIndexKey (itemStoreTx K attentionOpenIndexBucketName) k tx)
     ((\<alpha> tx)\<lparr>aOpen := (aOpen (\<alpha> tx))(k := None)\<rparr>)"
  "yields \<alpha> (removeIndexKey (itemStoreTx K attentionHistoryIndexBucketName) k tx)
     ((\<alpha> tx)\<lparr>aHist := (aHist (\<alpha> tx))(k := None)\<rparr>)"
  by (simp_all add: removeIndexKey_def call_simps yields_def fun_upd_idem)

lemma reconcileIndex_yields:
  assumes "keyOf (ItemID i) i \<noteq> []"
  shows "yields \<alpha> (reconcileIndex (itemStoreTx K attentionLiveIndexBucketName) i w keyOf tx)
           ((\<alpha> tx)\<lparr>aLive := setEntry w (keyOf (ItemID i) i) i (aLive (\<alpha> tx))\<rparr>)"
    and "yields \<alpha> (reconcileIndex (itemStoreTx K attentionOpenIndexBucketName) i w keyOf tx)
           ((\<alpha> tx)\<lparr>aOpen := setEntry w (keyOf (ItemID i) i) i (aOpen (\<alpha> tx))\<rparr>)"
    and "yields \<alpha> (reconcileIndex (itemStoreTx K attentionHistoryIndexBucketName) i w keyOf tx)
           ((\<alpha> tx)\<lparr>aHist := setEntry w (keyOf (ItemID i) i) i (aHist (\<alpha> tx))\<rparr>)"
  using assms
  by (auto simp: reconcileIndex_def Let_def setEntry_def call_simps removeIndexKey_yields
      intro: yieldsI)

lemma removeDedupIndexEntry_yields:
  "yields \<alpha> (removeDedupIndexEntry (NewAttentionStore K w) k itemID tx)
     ((\<alpha> tx)\<lparr>aDedup := dropOwn k itemID (aDedup (\<alpha> tx))\<rparr>)"
  by (auto simp: removeDedupIndexEntry_def dedup_Get_cases dropOwn_def call_simps
      intro: yieldsI split: option.splits)

lemma reconcileDedupIndex_yields:
  "yields \<alpha> (reconcileDedupIndex (NewAttentionStore K w) i tx)
     ((\<alpha> tx)\<lparr>aDedup := (if openIndexWorthy i then (aDedup (\<alpha> tx))(dkey i \<mapsto> i)
                        else dropOwn (dkey i) (ItemID i) (aDedup (\<alpha> tx)))\<rparr>)"
  by (auto simp: reconcileDedupIndex_def Let_def dkey_def call_simps removeDedupIndexEntry_yields
      intro: yieldsI)

lemma markBuilt_yields:
  "yields \<alpha> (markBuilt (NewAttentionStore K w) tx) (spec_markBuilt (\<alpha> tx))"
  by (auto simp: markBuilt_def spec_markBuilt_def call_simps intro: yieldsI)

lemma reconcileIndexes_yields:
  assumes "ItemID i \<noteq> []"
  shows "yields \<alpha> (reconcileIndexes (NewAttentionStore K w) i previous tx)
           (spec_reconcile i previous (\<alpha> tx))"
proof -
  obtain tx1 where 1:
    "reconcileIndex (itemStoreTx K attentionLiveIndexBucketName) i (liveIndexWorthy i) itemIDIndexKey tx = Inr tx1"
    "\<alpha> tx1 = (\<alpha> tx)\<lparr>aLive := setEntry (liveIndexWorthy i) (ItemID i) i (aLive (\<alpha> tx))\<rparr>"
    by (rule yieldsE[OF reconcileIndex_yields(1)[of itemIDIndexKey i]]) (use assms in auto)
  obtain tx2 where 2:
    "reconcileIndex (itemStoreTx K attentionOpenIndexBucketName) i (openIndexWorthy i) itemIDIndexKey tx1 = Inr tx2"
    "\<alpha> tx2 = (\<alpha> tx1)\<lparr>aOpen := setEntry (openIndexWorthy i) (ItemID i) i (aOpen (\<alpha> tx1))\<rparr>"
    by (rule yieldsE[OF reconcileIndex_yields(2)[of itemIDIndexKey i]]) (use assms in auto)
  obtain tx3 where 3: "reconcileDedupIndex (NewAttentionStore K w) i tx2 = Inr tx3"
    "\<alpha> tx3 = (\<alpha> tx2)\<lparr>aDedup := (if openIndexWorthy i then (aDedup (\<alpha> tx2))(dkey i \<mapsto> i)
                                else dropOwn (dkey i) (ItemID i) (aDedup (\<alpha> tx2)))\<rparr>"
    by (rule yieldsE[OF reconcileDedupIndex_yields]) auto
  let ?moved = "\<lambda>p. timeOrderedIndexKey [] p \<noteq> timeOrderedIndexKey [] i"
  let ?drop = "case previous of None \<Rightarrow> Inr tx3
      | Some p \<Rightarrow> if ?moved p
          then removeIndexKey (itemStoreTx K attentionHistoryIndexBucketName) (timeOrderedIndexKey [] p) tx3
          else Inr tx3"
  have "yields \<alpha> ?drop ((\<alpha> tx3)\<lparr>aHist := (case previous of None \<Rightarrow> aHist (\<alpha> tx3)
       | Some p \<Rightarrow> if ?moved p then (aHist (\<alpha> tx3))(hkey p := None) else aHist (\<alpha> tx3))\<rparr>)"
    by (auto simp: hkey_def intro: yieldsI removeIndexKey_yields split: option.splits)
  then obtain tx4 where 4: "?drop = Inr tx4"
    "\<alpha> tx4 = (\<alpha> tx3)\<lparr>aHist := (case previous of None \<Rightarrow> aHist (\<alpha> tx3)
       | Some p \<Rightarrow> if ?moved p then (aHist (\<alpha> tx3))(hkey p := None) else aHist (\<alpha> tx3))\<rparr>"
    by (rule yieldsE)
  obtain tx5 where 5:
    "reconcileIndex (itemStoreTx K attentionHistoryIndexBucketName) i True timeOrderedIndexKey tx4 = Inr tx5"
    "\<alpha> tx5 = (\<alpha> tx4)\<lparr>aHist := (aHist (\<alpha> tx4))(hkey i \<mapsto> i)\<rparr>"
    using reconcileIndex_yields(3)[of timeOrderedIndexKey i True tx4]
    by (auto elim: yieldsE simp: hkey_def setEntry_def timeOrderedIndexKey_any[of "ItemID i" i "[]"])
  have "reconcileIndexes (NewAttentionStore K w) i previous tx = Inr tx5"
    using 4(1)
    by (cases previous) (simp_all add: reconcileIndexes_def 1(1) 2(1) 3(1) 5(1) Let_def split: if_splits)
  moreover have "\<alpha> tx5 = spec_reconcile i previous (\<alpha> tx)"
    by (auto simp: spec_reconcile_def 1(2) 2(2) 3(2) 4(2) 5(2) hkey_def split: option.splits)
  ultimately show ?thesis by (simp add: yields_def)
qed

lemma putItem_yields:
  assumes "ItemID i \<noteq> []"
  shows "yields \<alpha> (putItem (NewAttentionStore K w) i tx) (spec_put i (\<alpha> tx))"
proof -
  let ?tx1 = "added (itemStoreTx K AttentionStoreBucketName) (ItemID i) i tx"
  let ?s1 = "(\<alpha> tx)\<lparr>aPresent := True, aItems := (aItems (\<alpha> tx))(ItemID i \<mapsto> i)\<rparr>"
  have mark: "yields \<alpha> (if \<not> aPresent (\<alpha> tx) then markBuilt (NewAttentionStore K w) ?tx1 else Inr ?tx1)
     (if aPresent (\<alpha> tx) then ?s1 else spec_markBuilt ?s1)"
    using markBuilt_yields[of w ?tx1] assms by (auto simp: abs_added intro: yieldsI)
  then obtain tx2 where tx2:
    "(if \<not> aPresent (\<alpha> tx) then markBuilt (NewAttentionStore K w) ?tx1 else Inr ?tx1) = Inr tx2"
    "\<alpha> tx2 = (if aPresent (\<alpha> tx) then ?s1 else spec_markBuilt ?s1)"
    by (rule yieldsE)
  have "putItem (NewAttentionStore K w) i tx =
      reconcileIndexes (NewAttentionStore K w) i (aItems (\<alpha> tx) (ItemID i)) tx2"
    using assms tx2(1) by (simp add: putItem_def item_Add)
  then show ?thesis
    using reconcileIndexes_yields[OF assms, of w _ tx2] by (simp add: spec_put_def Let_def tx2(2))
qed

lemma removeIndexEntry_yields:
  "yields \<alpha> (removeIndexEntry (NewAttentionStore K w) key item tx)
     (spec_removeIndexEntry key item (\<alpha> tx))"
proof -
  obtain tx1 where 1: "removeIndexKey (itemStoreTx K attentionLiveIndexBucketName) key tx = Inr tx1"
    "\<alpha> tx1 = (\<alpha> tx)\<lparr>aLive := (aLive (\<alpha> tx))(key := None)\<rparr>"
    by (rule yieldsE[OF removeIndexKey_yields(1)])
  obtain tx2 where 2: "removeIndexKey (itemStoreTx K attentionOpenIndexBucketName) key tx1 = Inr tx2"
    "\<alpha> tx2 = (\<alpha> tx1)\<lparr>aOpen := (aOpen (\<alpha> tx1))(key := None)\<rparr>"
    by (rule yieldsE[OF removeIndexKey_yields(2)])
  show ?thesis
  proof (cases item)
    case None
    then show ?thesis by (simp add: removeIndexEntry_def spec_removeIndexEntry_def 1 2 yieldsI)
  next
    case (Some i)
    obtain tx3 where 3: "removeDedupIndexEntry (NewAttentionStore K w) (dkey i) (ItemID i) tx2 = Inr tx3"
      "\<alpha> tx3 = (\<alpha> tx2)\<lparr>aDedup := dropOwn (dkey i) (ItemID i) (aDedup (\<alpha> tx2))\<rparr>"
      by (rule yieldsE[OF removeDedupIndexEntry_yields])
    show ?thesis
      using removeIndexKey_yields(3)[of "hkey i" tx3] 3(1)
      by (simp add: removeIndexEntry_def spec_removeIndexEntry_def 1 2 3(2) Some Let_def
          dkey_def hkey_def timeOrderedIndexKey_any[of key i "[]"])
  qed
qed

lemma removeItem_yields:
  "yields \<alpha> (removeItem (NewAttentionStore K w) key tx) (spec_remove key (\<alpha> tx))"
proof -
  let ?tx1 = "removed (itemStoreTx K AttentionStoreBucketName) key tx"
  obtain tx2 where 2: "removeIndexEntry (NewAttentionStore K w) key (aItems (\<alpha> tx) key) ?tx1 = Inr tx2"
    "\<alpha> tx2 = spec_removeIndexEntry key (aItems (\<alpha> tx) key) (\<alpha> ?tx1)"
    by (rule yieldsE[OF removeIndexEntry_yields])
  have "yields \<alpha> (removeAttemptEntry (NewAttentionStore K w) key tx2)
     ((\<alpha> tx2)\<lparr>aAttempts := (aAttempts (\<alpha> tx2))(key := None)\<rparr>)"
    by (simp add: removeAttemptEntry_def call_simps yields_def fun_upd_idem)
  then show ?thesis
    using 2 by (simp add: removeItem_def spec_remove_def Let_def item_Remove abs_removed)
qed

end

section \<open>The store over the libraries\<close>

text \<open>The key-value library and the runtime together: what every operation of
  the store may rely on.\<close>

locale store_lib = kv_lib K ib ab + runtime_lib R
  for K :: "'tx libkv" and ib ab R

interpretation mem_store: store_lib mem_kv mem_ib mem_ab std_runtime ..

context store_lib
begin

definition sameElsewhere :: "string \<Rightarrow> 'tx \<Rightarrow> 'tx \<Rightarrow> bool" where
  "sameElsewhere b tx tx' \<longleftrightarrow> (\<forall>b'. b' \<noteq> b \<longrightarrow> ib tx' b' = ib tx b') \<and> ab tx' = ab tx"

lemma sameElsewhere_refl [simp]: "sameElsewhere b tx tx"
  by (simp add: sameElsewhere_def)

lemma sameElsewhere_trans: "sameElsewhere b x y \<Longrightarrow> sameElsewhere b y z \<Longrightarrow> sameElsewhere b x z"
  by (simp add: sameElsewhere_def)

lemma sameElsewhere_calls:
  assumes "b \<noteq> deliveryAttemptBucketName"
  shows "k \<noteq> [] \<Longrightarrow> sameElsewhere b tx (added (itemStoreTx K b) k v tx)"
    and "sameElsewhere b tx (removed (itemStoreTx K b) k tx)"
  using assms by (simp_all add: sameElsewhere_def ib_added ab_added ib_removed ab_removed)

lemma rebuildAdd_step:
  "b \<noteq> deliveryAttemptBucketName \<Longrightarrow> keyOf k i \<noteq> [] \<Longrightarrow> worthy i \<Longrightarrow>
   rebuildAdd (itemStoreTx K b) worthy keyOf (W, tx) (k, i) =
     Inr (insert (keyOf k i) W, added (itemStoreTx K b) (keyOf k i) i tx)"
  "\<not> worthy i \<Longrightarrow> rebuildAdd (itemStoreTx K b) worthy keyOf (W, tx) (k, i) = Inr (W, tx)"
  by (simp_all add: rebuildAdd_def item_Add Let_def)

lemma wantStep_step:
  "worthy i \<Longrightarrow> wantStep worthy keyOf (k, i) m = m(keyOf k i \<mapsto> i)"
  "\<not> worthy i \<Longrightarrow> wantStep worthy keyOf (k, i) m = m"
  by (simp_all add: wantStep_def)

lemma worthy_Cons:
  "{e \<in> set ((k, i) # es). P (snd e)} =
     (if P i then insert (k, i) {e \<in> set es. P (snd e)} else {e \<in> set es. P (snd e)})"
  by auto

lemma rebuildAdd_loop:
  assumes "b \<noteq> deliveryAttemptBucketName"
    and "\<And>k i. (k, i) \<in> set es \<Longrightarrow> worthy i \<Longrightarrow> keyOf k i \<noteq> []"
  shows "\<exists>tx'. efold (rebuildAdd (itemStoreTx K b) worthy keyOf) (W, tx) es =
             Inr (W \<union> (\<lambda>e. keyOf (fst e) (snd e)) ` {e \<in> set es. worthy (snd e)}, tx') \<and>
           optMap (ib tx' b) = fold (wantStep worthy keyOf) es (optMap (ib tx b)) \<and>
           sameElsewhere b tx tx'"
  using assms(2)
proof (induction es arbitrary: W tx)
  case Nil
  then show ?case by simp
next
  case (Cons e es)
  obtain k i where e: "e = (k, i)" by (cases e)
  show ?case
  proof (cases "worthy i")
    case False
    then show ?thesis
      using Cons.IH[of W tx, OF Cons.prems[OF list.set_intros(2)]]
      by (simp add: e rebuildAdd_step wantStep_step worthy_Cons del: set_simps)
  next
    case True
    let ?tx = "added (itemStoreTx K b) (keyOf k i) i tx"
    have key: "keyOf k i \<noteq> []" using Cons.prems[of k i] True by (simp add: e)
    obtain tx' where
      "efold (rebuildAdd (itemStoreTx K b) worthy keyOf) (insert (keyOf k i) W, ?tx) es =
         Inr (insert (keyOf k i) W \<union> (\<lambda>e. keyOf (fst e) (snd e)) ` {e \<in> set es. worthy (snd e)}, tx')"
      "optMap (ib tx' b) = fold (wantStep worthy keyOf) es (optMap (ib ?tx b))"
      "sameElsewhere b ?tx tx'"
      using Cons.IH[of "insert (keyOf k i) W" ?tx] Cons.prems by auto
    then show ?thesis
      using True key assms(1) sameElsewhere_trans[OF sameElsewhere_calls(1)[OF assms(1) key]]
      by (intro exI[of _ tx'])
         (simp add: e rebuildAdd_step wantStep_step worthy_Cons ib_added del: set_simps)
  qed
qed

lemma rebuildDrop_step:
  "b \<noteq> deliveryAttemptBucketName \<Longrightarrow>
   rebuildDrop R (itemStoreTx K b) tx k = Inr (removed (itemStoreTx K b) k tx)"
  by (simp add: rebuildDrop_def item_Remove)

lemma rebuildDrop_loop:
  assumes "b \<noteq> deliveryAttemptBucketName"
  shows "\<exists>tx'. efold (rebuildDrop R (itemStoreTx K b)) tx ks = Inr tx' \<and>
           optMap (ib tx' b) = optMap (ib tx b) |` (- set ks) \<and> sameElsewhere b tx tx'"
proof (induction ks arbitrary: tx)
  case Nil
  then show ?case by (simp add: restrict_map_def)
next
  case (Cons k ks)
  let ?tx = "removed (itemStoreTx K b) k tx"
  obtain tx' where "efold (rebuildDrop R (itemStoreTx K b)) ?tx ks = Inr tx'"
    "optMap (ib tx' b) = optMap (ib ?tx b) |` (- set ks)" "sameElsewhere b ?tx tx'"
    using Cons.IH by blast
  then show ?case
    using assms sameElsewhere_trans[OF sameElsewhere_calls(2)[OF assms]]
    by (intro exI[of _ tx'])
       (auto simp: rebuildDrop_step[OF assms, of tx k] ib_removed restrict_map_def fun_eq_iff)
qed

text \<open>A rebuild leaves the marker and exactly the entries the items account for.\<close>

lemma rebuildIndex_ok:
  assumes b: "b \<noteq> deliveryAttemptBucketName" "b \<noteq> AttentionStoreBucketName"
    and keys: "\<And>k i. aItems (\<alpha> tx) k = Some i \<Longrightarrow> worthy i \<Longrightarrow> keyOf k i \<noteq> []"
  shows "\<exists>tx'. rebuildIndex R (NewAttentionStore K w) (itemStoreTx K b) liveIndexMarkerKey worthy keyOf tx =
             Inr tx' \<and>
           optMap (ib tx' b) = spec_rebuild worthy keyOf (aItems (\<alpha> tx)) (optMap (ib tx b)) \<and>
           sameElsewhere b tx tx'"
proof -
  let ?es = "sorted_entries (aItems (\<alpha> tx))"
  let ?W = "(\<lambda>e. keyOf (fst e) (snd e)) ` {e \<in> set ?es. worthy (snd e)}"
  let ?m = "fold (wantStep worthy keyOf) ?es (optMap (ib tx b))"
  obtain tx1 where 1:
    "efold (rebuildAdd (itemStoreTx K b) worthy keyOf) ({}, tx) ?es = Inr (?W, tx1)"
    "optMap (ib tx1 b) = ?m" "sameElsewhere b tx tx1"
    using rebuildAdd_loop[OF b(1), of ?es worthy keyOf "{}" tx] keys by auto
  let ?stale = "filter (\<lambda>key. key \<noteq> liveIndexMarkerKey \<and> key \<notin> ?W) (map fst (sorted_entries ?m))"
  obtain tx2 where 2: "efold (rebuildDrop R (itemStoreTx K b)) tx1 ?stale = Inr tx2"
    "optMap (ib tx2 b) = ?m |` (- set ?stale)" "sameElsewhere b tx1 tx2"
    using rebuildDrop_loop[OF b(1), of tx1 ?stale] 1(2) by auto
  have fin: "finite (dom ?m)" using finite_ib[of tx1 b] 1(2) by simp
  have W: "dom (wanted worthy keyOf (aItems (\<alpha> tx))) = ?W"
    by (simp add: wanted_def dom_fold_wantStep)
  have m: "?m = optMap (ib tx b) ++ wanted worthy keyOf (aItems (\<alpha> tx))"
    unfolding wanted_def by (rule fold_wantStep)
  have "?m |` (- set ?stale) = spec_rebuild worthy keyOf (aItems (\<alpha> tx)) (optMap (ib tx b))"
  proof (rule ext)
    fix k
    have stale: "k \<in> set ?stale \<longleftrightarrow> ?m k \<noteq> None \<and> k \<noteq> liveIndexMarkerKey \<and> k \<notin> ?W"
      using fin by auto
    show "(?m |` (- set ?stale)) k = spec_rebuild worthy keyOf (aItems (\<alpha> tx)) (optMap (ib tx b)) k"
      unfolding restrict_map_def Compl_iff stale unfolding m W[symmetric]
      by (auto simp: spec_rebuild_def restrict_map_def map_add_def domIff split: option.splits)
  qed
  moreover have "rebuildIndex R (NewAttentionStore K w) (itemStoreTx K b) liveIndexMarkerKey worthy keyOf tx
      = Inr tx2"
    using 1(1) 2(1) by (simp add: rebuildIndex_def item_Map abs_sel(1) b(1) 1(2) del: filter_map)
  ultimately show ?thesis
    using 2 sameElsewhere_trans[OF 1(3) 2(3)] by auto
qed

lemma buildOnce_ok:
  assumes b: "b \<noteq> deliveryAttemptBucketName" "b \<noteq> AttentionStoreBucketName"
    and keys: "\<And>k i. aItems (\<alpha> tx) k = Some i \<Longrightarrow> worthy i \<Longrightarrow> keyOf k i \<noteq> []"
  shows "\<exists>tx'. buildOnce R (NewAttentionStore K w) (itemStoreTx K b) liveIndexMarkerKey worthy keyOf tx =
             Inr tx' \<and>
           optMap (ib tx' b) = spec_build worthy keyOf (aItems (\<alpha> tx)) (optMap (ib tx b)) \<and>
           sameElsewhere b tx tx'"
proof (cases "built (optMap (ib tx b))")
  case True
  then show ?thesis by (simp add: buildOnce_def item_Exists b(1) built_def spec_build_def)
next
  case False
  obtain tx1 where 1:
    "rebuildIndex R (NewAttentionStore K w) (itemStoreTx K b) liveIndexMarkerKey worthy keyOf tx = Inr tx1"
    "optMap (ib tx1 b) = spec_rebuild worthy keyOf (aItems (\<alpha> tx)) (optMap (ib tx b))"
    "sameElsewhere b tx tx1"
    using rebuildIndex_ok[of b tx worthy keyOf w, OF b keys] by auto
  let ?tx2 = "added (itemStoreTx K b) liveIndexMarkerKey emptyItem tx1"
  have "buildOnce R (NewAttentionStore K w) (itemStoreTx K b) liveIndexMarkerKey worthy keyOf tx = Inr ?tx2"
    using False by (simp add: buildOnce_def item_Exists[OF b(1)] 1(1) item_Add[OF b(1)] built_def)
  moreover have "optMap (ib ?tx2 b) = spec_build worthy keyOf (aItems (\<alpha> tx)) (optMap (ib tx b))"
    using False by (simp add: ib_added[OF b(1)] 1(2) spec_build_def)
  moreover have "sameElsewhere b tx ?tx2"
    by (rule sameElsewhere_trans[OF 1(3) sameElsewhere_calls(1)[OF b(1) marker_nonempty]])
  ultimately show ?thesis by blast
qed

definition okKeys :: "astore \<Rightarrow> bool" where
  "okKeys s \<longleftrightarrow> (\<forall>k i. aItems s k = Some i \<longrightarrow> k \<noteq> [])"


text \<open>What an update of one index bucket does to the abstract store.\<close>

lemma abs_sameElsewhere:
  "sameElsewhere attentionLiveIndexBucketName tx tx' \<Longrightarrow>
     \<alpha> tx' = (\<alpha> tx)\<lparr>aLive := optMap (ib tx' attentionLiveIndexBucketName)\<rparr>"
  "sameElsewhere attentionOpenIndexBucketName tx tx' \<Longrightarrow>
     \<alpha> tx' = (\<alpha> tx)\<lparr>aOpen := optMap (ib tx' attentionOpenIndexBucketName)\<rparr>"
  "sameElsewhere attentionHistoryIndexBucketName tx tx' \<Longrightarrow>
     \<alpha> tx' = (\<alpha> tx)\<lparr>aHist := optMap (ib tx' attentionHistoryIndexBucketName)\<rparr>"
  "sameElsewhere attentionDedupIndexBucketName tx tx' \<Longrightarrow>
     \<alpha> tx' = (\<alpha> tx)\<lparr>aDedup := optMap (ib tx' attentionDedupIndexBucketName)\<rparr>"
  by (simp_all add: absStore_def sameElsewhere_def)

lemma buildOnce_yields:
  "okKeys (\<alpha> tx) \<Longrightarrow>
   yields \<alpha> (buildOnce R (NewAttentionStore K w) (itemStoreTx K attentionLiveIndexBucketName)
       liveIndexMarkerKey liveIndexWorthy itemIDIndexKey tx)
     ((\<alpha> tx)\<lparr>aLive := spec_build liveIndexWorthy itemIDIndexKey (aItems (\<alpha> tx)) (aLive (\<alpha> tx))\<rparr>)"
  "okKeys (\<alpha> tx) \<Longrightarrow>
   yields \<alpha> (buildOnce R (NewAttentionStore K w) (itemStoreTx K attentionOpenIndexBucketName)
       liveIndexMarkerKey openIndexWorthy itemIDIndexKey tx)
     ((\<alpha> tx)\<lparr>aOpen := spec_build openIndexWorthy itemIDIndexKey (aItems (\<alpha> tx)) (aOpen (\<alpha> tx))\<rparr>)"
  "yields \<alpha> (buildOnce R (NewAttentionStore K w) (itemStoreTx K attentionHistoryIndexBucketName)
       liveIndexMarkerKey (\<lambda>_. True) timeOrderedIndexKey tx)
     ((\<alpha> tx)\<lparr>aHist := spec_build (\<lambda>_. True) timeOrderedIndexKey (aItems (\<alpha> tx)) (aHist (\<alpha> tx))\<rparr>)"
  "yields \<alpha> (buildOnce R (NewAttentionStore K w) (itemStoreTx K attentionDedupIndexBucketName)
       liveIndexMarkerKey openIndexWorthy dedupIndexKey tx)
     ((\<alpha> tx)\<lparr>aDedup := spec_build openIndexWorthy dedupIndexKey (aItems (\<alpha> tx)) (aDedup (\<alpha> tx))\<rparr>)"
proof -
  assume ok: "okKeys (\<alpha> tx)"
  show "yields \<alpha> (buildOnce R (NewAttentionStore K w) (itemStoreTx K attentionLiveIndexBucketName)
       liveIndexMarkerKey liveIndexWorthy itemIDIndexKey tx)
     ((\<alpha> tx)\<lparr>aLive := spec_build liveIndexWorthy itemIDIndexKey (aItems (\<alpha> tx)) (aLive (\<alpha> tx))\<rparr>)"
    using buildOnce_ok[of attentionLiveIndexBucketName tx liveIndexWorthy itemIDIndexKey w] ok
    by (simp add: okKeys_def) (metis abs_sameElsewhere(1) abs_sel(2) yields_def)
  show "yields \<alpha> (buildOnce R (NewAttentionStore K w) (itemStoreTx K attentionOpenIndexBucketName)
       liveIndexMarkerKey openIndexWorthy itemIDIndexKey tx)
     ((\<alpha> tx)\<lparr>aOpen := spec_build openIndexWorthy itemIDIndexKey (aItems (\<alpha> tx)) (aOpen (\<alpha> tx))\<rparr>)"
    using buildOnce_ok[of attentionOpenIndexBucketName tx openIndexWorthy itemIDIndexKey w] ok
    by (simp add: okKeys_def) (metis abs_sameElsewhere(2) abs_sel(3) yields_def)
next
  show "yields \<alpha> (buildOnce R (NewAttentionStore K w) (itemStoreTx K attentionHistoryIndexBucketName)
       liveIndexMarkerKey (\<lambda>_. True) timeOrderedIndexKey tx)
     ((\<alpha> tx)\<lparr>aHist := spec_build (\<lambda>_. True) timeOrderedIndexKey (aItems (\<alpha> tx)) (aHist (\<alpha> tx))\<rparr>)"
    using buildOnce_ok[of attentionHistoryIndexBucketName tx "\<lambda>_. True" timeOrderedIndexKey w]
    by simp (metis abs_sameElsewhere(3) abs_sel(4) yields_def)
  show "yields \<alpha> (buildOnce R (NewAttentionStore K w) (itemStoreTx K attentionDedupIndexBucketName)
       liveIndexMarkerKey openIndexWorthy dedupIndexKey tx)
     ((\<alpha> tx)\<lparr>aDedup := spec_build openIndexWorthy dedupIndexKey (aItems (\<alpha> tx)) (aDedup (\<alpha> tx))\<rparr>)"
    using buildOnce_ok[of attentionDedupIndexBucketName tx openIndexWorthy dedupIndexKey w]
    by (simp add: dedupIndexKey_def) (metis abs_sameElsewhere(4) abs_sel(5) yields_def)
qed

text \<open>Each \<open>ensure\<close> succeeds, and builds the index exactly when its marker is missing.\<close>

lemma ensureWith_ok:
  assumes "checked = Inr (built idx)" and "yields \<alpha> (build s) t" and "built idx \<Longrightarrow> t = \<alpha> s"
  shows "\<exists>s'. ensureWith (NewAttentionStore K w) checked build s = (s', Inr ()) \<and> \<alpha> s' = t"
proof (cases "built idx")
  case True
  then show ?thesis using assms by (simp add: ensureWith_def)
next
  case False
  obtain tx where tx: "build s = Inr tx" "\<alpha> tx = t" using assms(2) by (rule yieldsE)
  then have "db_Update K s (\<lambda>tx. ebind (build tx) (\<lambda>tx. Inr (tx, ()))) = (tx, Inr ())"
    by (intro db_Update_simps(2)) simp_all
  then show ?thesis using False tx assms(1) by (simp add: ensureWith_def)
qed

lemma indexBuilt_eq:
  "b \<noteq> deliveryAttemptBucketName \<Longrightarrow>
   indexBuilt (itemStoreTx K b) liveIndexMarkerKey s = Inr (built (optMap (ib s b)))"
  by (simp add: indexBuilt_def db_View_def item_Exists built_def)

lemma spec_build_idem: "built idx \<Longrightarrow> spec_build worthy keyOf items idx = idx"
  by (simp add: spec_build_def)

lemma ensureLiveIndex_ok:
  assumes "okKeys (\<alpha> s)"
  shows "\<exists>s'. ensureLiveIndex R (NewAttentionStore K w) s = (s', Inr ()) \<and>
     \<alpha> s' = (\<alpha> s)\<lparr>aLive := spec_build liveIndexWorthy itemIDIndexKey (aItems (\<alpha> s)) (aLive (\<alpha> s))\<rparr>"
  unfolding ensureLiveIndex_def NewAttentionStore_simps
  by (rule ensureWith_ok[where idx = "aLive (\<alpha> s)"])
     (simp_all add: liveIndexBuilt_def indexBuilt_eq abs_sel buildOnce_yields(1) assms spec_build_idem)

lemma ensureOpenIndex_ok:
  assumes "okKeys (\<alpha> s)"
  shows "\<exists>s'. ensureOpenIndex R (NewAttentionStore K w) s = (s', Inr ()) \<and>
     \<alpha> s' = (\<alpha> s)\<lparr>aOpen := spec_build openIndexWorthy itemIDIndexKey (aItems (\<alpha> s)) (aOpen (\<alpha> s))\<rparr>"
  unfolding ensureOpenIndex_def NewAttentionStore_simps
  by (rule ensureWith_ok[where idx = "aOpen (\<alpha> s)"])
     (simp_all add: openIndexBuilt_def indexBuilt_eq abs_sel buildOnce_yields(2) assms spec_build_idem)

lemma ensureHistoryIndex_ok:
  shows "\<exists>s'. ensureHistoryIndex R (NewAttentionStore K w) s = (s', Inr ()) \<and>
     \<alpha> s' = (\<alpha> s)\<lparr>aHist := spec_build (\<lambda>_. True) timeOrderedIndexKey (aItems (\<alpha> s)) (aHist (\<alpha> s))\<rparr>"
  unfolding ensureHistoryIndex_def NewAttentionStore_simps
  by (rule ensureWith_ok[where idx = "aHist (\<alpha> s)"])
     (simp_all add: historyIndexBuilt_def indexBuilt_eq abs_sel buildOnce_yields(3) spec_build_idem)

lemma ensureDedupIndex_yields:
  "yields \<alpha> (ensureDedupIndex R (NewAttentionStore K w) tx)
     ((\<alpha> tx)\<lparr>aDedup := spec_build openIndexWorthy dedupIndexKey (aItems (\<alpha> tx)) (aDedup (\<alpha> tx))\<rparr>)"
  unfolding ensureDedupIndex_def NewAttentionStore_simps marker_keys by (rule buildOnce_yields(4))

lemma scanIndex_eq:
  "scanIndex (itemStoreTx K attentionLiveIndexBucketName) liveIndexMarkerKey s =
     Inr (sorted_entries (entries (aLive (\<alpha> s))))"
  "scanIndex (itemStoreTx K attentionOpenIndexBucketName) liveIndexMarkerKey s =
     Inr (sorted_entries (entries (aOpen (\<alpha> s))))"
  by (simp_all add: scanIndex_def db_View_def item_Map abs_sel entries_def filter_sorted_entries)

text \<open>The scan of a read: the entries of the index, built first when its marker is missing.\<close>

lemma readItems_ok:
  assumes "okKeys (\<alpha> s)"
  shows "\<exists>s'. readItems R (NewAttentionStore K w) s =
       (s', Inr (sorted_entries (entries (aLive (\<alpha> s'))))) \<and>
     \<alpha> s' = (\<alpha> s)\<lparr>aLive := spec_build liveIndexWorthy itemIDIndexKey (aItems (\<alpha> s)) (aLive (\<alpha> s))\<rparr>"
  using ensureLiveIndex_ok[OF assms, of w] by (auto simp: readItems_def scanIndex_eq)

lemma readOpenItems_ok:
  assumes "okKeys (\<alpha> s)"
  shows "\<exists>s'. readOpenItems R (NewAttentionStore K w) s =
       (s', Inr (sorted_entries (entries (aOpen (\<alpha> s'))))) \<and>
     \<alpha> s' = (\<alpha> s)\<lparr>aOpen := spec_build openIndexWorthy itemIDIndexKey (aItems (\<alpha> s)) (aOpen (\<alpha> s))\<rparr>"
  using ensureOpenIndex_ok[OF assms, of w] by (auto simp: readOpenItems_def scanIndex_eq)

end

end
