(* ===== verification/IndexLaws.thy ===== *)
theory IndexLaws
  imports StoreSpec
begin

text \<open>
  The contract of a derived index, as a locale: which items it holds and under
  which key, with the two laws a key must satisfy. Its lemmas show that putting
  an item, removing one and rebuilding keep the index an exact copy of the
  worthy items. The live, open and history indexes of the source are its
  interpretations. The dedup index is not one of them, because two open items may
  share its key; it keeps soundness only, and its lemmas are stated apart.
\<close>

section \<open>Soundness and completeness of an index\<close>

definition keyable :: "Item \<Rightarrow> bool" where
  "keyable i \<longleftrightarrow> ItemID i \<noteq> [] \<and> ItemID i \<noteq> liveIndexMarkerKey"

definition wfItems :: "(string \<rightharpoonup> Item) \<Rightarrow> bool" where
  "wfItems items \<longleftrightarrow> (\<forall>k i. items k = Some i \<longrightarrow> ItemID i = k \<and> keyable i)"

definition idxSound ::
  "(Item \<Rightarrow> bool) \<Rightarrow> (Item \<Rightarrow> string) \<Rightarrow> (string \<rightharpoonup> Item) \<Rightarrow> (string \<rightharpoonup> Item) \<Rightarrow> bool" where
  "idxSound worthy key items idx \<longleftrightarrow>
     (\<forall>k e. entries idx k = Some e \<longrightarrow> k = key e \<and> worthy e \<and> items (ItemID e) = Some e)"

definition idxComplete ::
  "(Item \<Rightarrow> bool) \<Rightarrow> (Item \<Rightarrow> string) \<Rightarrow> (string \<rightharpoonup> Item) \<Rightarrow> (string \<rightharpoonup> Item) \<Rightarrow> bool" where
  "idxComplete worthy key items idx \<longleftrightarrow>
     (built idx \<longrightarrow> (\<forall>k i. items k = Some i \<longrightarrow> worthy i \<longrightarrow> entries idx (key i) = Some i))"

definition put_entry ::
  "(Item \<Rightarrow> bool) \<Rightarrow> (Item \<Rightarrow> string) \<Rightarrow> Item option \<Rightarrow> Item \<Rightarrow> (string \<rightharpoonup> Item) \<Rightarrow> (string \<rightharpoonup> Item)" where
  "put_entry worthy key previous item idx =
     setEntry (worthy item) (key item) item
       (case previous of None \<Rightarrow> idx | Some p \<Rightarrow> idx(key p := None))"

definition agreesOn :: "indexKeyFunc \<Rightarrow> (Item \<Rightarrow> string) \<Rightarrow> bool" where
  "agreesOn keyOf key \<longleftrightarrow> (\<forall>i. keyable i \<longrightarrow> keyOf (ItemID i) i = key i)"

lemma wfItemsD: "wfItems items \<Longrightarrow> items k = Some i \<Longrightarrow> ItemID i = k \<and> keyable i"
  by (simp add: wfItems_def)

lemma wfItems_put: "wfItems items \<Longrightarrow> keyable i \<Longrightarrow> wfItems (items(ItemID i \<mapsto> i))"
  by (simp add: wfItems_def)

lemma wfItems_remove: "wfItems items \<Longrightarrow> wfItems (items(k := None))"
  by (simp add: wfItems_def)

lemma idxSoundD:
  "idxSound worthy key items idx \<Longrightarrow> entries idx k = Some e \<Longrightarrow>
   k = key e \<and> worthy e \<and> items (ItemID e) = Some e"
  by (simp add: idxSound_def)

lemma entries_upd:
  "k \<noteq> liveIndexMarkerKey \<Longrightarrow> entries (idx(k := v)) = (entries idx)(k := v)"
  by (auto simp: entries_def)

lemma entries_marker [simp]: "entries (idx(liveIndexMarkerKey := v)) = entries idx"
  by (simp add: entries_def)

lemma entries_at: "k \<noteq> liveIndexMarkerKey \<Longrightarrow> entries idx k = idx k"
  by (simp add: entries_def)

lemma entries_marker_None [simp]: "entries idx liveIndexMarkerKey = None"
  by (simp add: entries_def)

lemma built_upd: "k \<noteq> liveIndexMarkerKey \<Longrightarrow> built (idx(k := v)) = built idx"
  by (auto simp: built_def)

lemma built_marker [simp]: "built (idx(liveIndexMarkerKey \<mapsto> e))"
  by (simp add: built_def)

section \<open>The contract\<close>

locale derived_index =
  fixes worthy :: "Item \<Rightarrow> bool"
    and key :: "Item \<Rightarrow> string"
  assumes key_inj: "keyable i \<Longrightarrow> keyable j \<Longrightarrow> key i = key j \<Longrightarrow> ItemID i = ItemID j"
    and key_neq_marker: "keyable i \<Longrightarrow> key i \<noteq> liveIndexMarkerKey"
begin

abbreviation sound where "sound \<equiv> idxSound worthy key"
abbreviation complete where "complete \<equiv> idxComplete worthy key"

lemma entries_put:
  assumes "keyable i" and "\<And>p. previous = Some p \<Longrightarrow> keyable p"
  shows "entries (put_entry worthy key previous i idx) =
    (case previous of None \<Rightarrow> entries idx | Some p \<Rightarrow> (entries idx)(key p := None))
      (key i := (if worthy i then Some i else None))"
  using assms key_neq_marker
  by (cases previous) (simp_all add: put_entry_def setEntry_def entries_upd)

lemma built_put:
  assumes "keyable i" and "\<And>p. previous = Some p \<Longrightarrow> keyable p"
  shows "built (put_entry worthy key previous i idx) = built idx"
  using assms key_neq_marker
  by (cases previous) (simp_all add: put_entry_def setEntry_def built_upd)

lemma sound_put:
  assumes wf: "wfItems items" and i: "keyable i" and s: "sound items idx"
  shows "sound (items(ItemID i \<mapsto> i)) (put_entry worthy key (items (ItemID i)) i idx)"
  unfolding idxSound_def
proof (intro allI impI)
  fix k e
  assume *: "entries (put_entry worthy key (items (ItemID i)) i idx) k = Some e"
  have prev: "\<And>p. items (ItemID i) = Some p \<Longrightarrow> keyable p"
    using wfItemsD[OF wf] by blast
  show "k = key e \<and> worthy e \<and> (items(ItemID i \<mapsto> i)) (ItemID e) = Some e"
  proof (cases "k = key i")
    case True
    then show ?thesis using * by (auto simp: entries_put[OF i prev] split: if_splits)
  next
    case False
    then have old: "entries idx k = Some e" and "\<And>p. items (ItemID i) = Some p \<Longrightarrow> k \<noteq> key p"
      using * by (auto simp: entries_put[OF i prev] split: option.splits if_splits)
    moreover note idxSoundD[OF s old]
    ultimately show ?thesis by auto
  qed
qed

lemma complete_put:
  assumes wf: "wfItems items" and i: "keyable i" and c: "complete items idx"
  shows "complete (items(ItemID i \<mapsto> i)) (put_entry worthy key (items (ItemID i)) i idx)"
  unfolding idxComplete_def
proof (intro allI impI)
  fix k j
  assume b: "built (put_entry worthy key (items (ItemID i)) i idx)"
    and j: "(items(ItemID i \<mapsto> i)) k = Some j" and w: "worthy j"
  have prev: "\<And>p. items (ItemID i) = Some p \<Longrightarrow> keyable p"
    using wfItemsD[OF wf] by blast
  note e = entries_put[OF i prev]
  show "entries (put_entry worthy key (items (ItemID i)) i idx) (key j) = Some j"
  proof (cases "k = ItemID i")
    case True
    then have "j = i" using j by simp
    then show ?thesis using w by (simp add: e)
  next
    case False
    then have j': "items k = Some j" "ItemID j = k" "keyable j" using j wfItemsD[OF wf] by auto
    have "key j \<noteq> key i" using False j' key_inj[OF j'(3) i] by auto
    moreover have "\<And>p. items (ItemID i) = Some p \<Longrightarrow> key j \<noteq> key p"
      using False j' key_inj[OF j'(3)] wfItemsD[OF wf] by metis
    moreover have "entries idx (key j) = Some j"
      using c b j' w by (simp add: idxComplete_def built_put[OF i prev])
    ultimately show ?thesis by (simp add: e split: option.splits)
  qed
qed

lemma sound_remove:
  assumes wf: "wfItems items" and p: "items k = Some p" and s: "sound items idx"
  shows "sound (items(k := None)) (idx(key p := None))"
proof -
  have "keyable p" "ItemID p = k" using wfItemsD[OF wf p] by auto
  then have e: "entries (idx(key p := None)) = (entries idx)(key p := None)"
    using key_neq_marker by (simp add: entries_upd)
  show ?thesis
    unfolding idxSound_def e
  proof (intro allI impI)
    fix k' x
    assume "((entries idx)(key p := None)) k' = Some x"
    then have "k' \<noteq> key p" "entries idx k' = Some x" by (auto split: if_splits)
    then show "k' = key x \<and> worthy x \<and> (items(k := None)) (ItemID x) = Some x"
      using idxSoundD[OF s, of k' x] p by auto
  qed
qed

lemma complete_remove:
  assumes wf: "wfItems items" and p: "items k = Some p" and c: "complete items idx"
  shows "complete (items(k := None)) (idx(key p := None))"
  unfolding idxComplete_def
proof (intro allI impI)
  fix k' j
  assume b: "built (idx(key p := None))" and j: "(items(k := None)) k' = Some j" and w: "worthy j"
  have p': "keyable p" "ItemID p = k" using wfItemsD[OF wf p] by auto
  have j': "items k' = Some j" "k' \<noteq> k" "ItemID j = k'" "keyable j"
    using j wfItemsD[OF wf] by (auto split: if_splits)
  have "key j \<noteq> key p" using key_inj[OF j'(4) p'(1)] j' p' by auto
  moreover have "entries idx (key j) = Some j"
    using c b j' w key_neq_marker[OF p'(1)] by (simp add: idxComplete_def built_upd)
  ultimately show "entries (idx(key p := None)) (key j) = Some j"
    using key_neq_marker[OF p'(1)] by (simp add: entries_upd)
qed

text \<open>Whatever the index held, a rebuild leaves exactly the worthy items.\<close>

lemma rebuild_exact:
  assumes fin: "finite (dom items)" and wf: "wfItems items" and keyOf: "agreesOn keyOf key"
  shows "entries (spec_rebuild worthy keyOf items idx) k = Some e \<longleftrightarrow>
     items (ItemID e) = Some e \<and> worthy e \<and> k = key e"
proof -
  have keys: "keyOf k' i = key i \<and> keyable i \<and> ItemID i = k'" if "items k' = Some i" for k' i
    using wfItemsD[OF wf that] keyOf by (auto simp: agreesOn_def)
  have from_wanted: "items (ItemID i) = Some i \<and> worthy i \<and> key i = k'"
    if "wanted worthy keyOf items k' = Some i" for k' i
    using that by (rule wanted_Some[OF fin]) (use keys in auto)
  have no_marker: "wanted worthy keyOf items liveIndexMarkerKey = None"
  proof (rule ccontr)
    assume "wanted worthy keyOf items liveIndexMarkerKey \<noteq> None"
    then obtain i where "wanted worthy keyOf items liveIndexMarkerKey = Some i" by blast
    then show False using from_wanted keys key_neq_marker by metis
  qed
  have eq: "entries (spec_rebuild worthy keyOf items idx) k = wanted worthy keyOf items k"
    using no_marker
    by (cases "k = liveIndexMarkerKey")
       (auto simp: entries_def spec_rebuild_def map_add_def restrict_map_def split: option.splits)
  have "wanted worthy keyOf items (key e) = Some e" if "items (ItemID e) = Some e" "worthy e"
  proof -
    have "key e \<in> dom (wanted worthy keyOf items)"
      unfolding dom_wanted[OF fin] using that keys[OF that(1), THEN conjunct1, symmetric] by blast
    then obtain j where j: "wanted worthy keyOf items (key e) = Some j" by blast
    have j': "items (ItemID j) = Some j" "key j = key e"
      using from_wanted[OF j] by simp_all
    have "ItemID j = ItemID e"
      by (rule key_inj[OF keys[OF j'(1), THEN conjunct2, THEN conjunct1]
            keys[OF that(1), THEN conjunct2, THEN conjunct1] j'(2)])
    then have "Some j = Some e" using j'(1) that(1) by metis
    then show ?thesis using j by (simp only:)
  qed
  then show ?thesis using from_wanted[of k e] unfolding eq by blast
qed

lemma sound_build:
  assumes "finite (dom items)" "wfItems items" "agreesOn keyOf key" and "sound items idx"
  shows "sound items (spec_build worthy keyOf items idx)"
  using assms(4) rebuild_exact[OF assms(1-3)] by (simp add: spec_build_def idxSound_def)

lemma complete_build:
  assumes "finite (dom items)" "wfItems items" "agreesOn keyOf key" and "complete items idx"
  shows "complete items (spec_build worthy keyOf items idx)"
  using assms(4) rebuild_exact[OF assms(1-3)] wfItemsD[OF assms(2)]
  by (auto simp: spec_build_def idxComplete_def)

lemma build_exact:
  assumes "finite (dom items)" "wfItems items" "agreesOn keyOf key"
    and "sound items idx" "complete items idx"
  shows "entries (spec_build worthy keyOf items idx) k = Some e \<longleftrightarrow>
     items (ItemID e) = Some e \<and> worthy e \<and> k = key e"
proof (cases "built idx")
  case True
  then show ?thesis using assms by (auto simp: spec_build_def idxSound_def idxComplete_def)
next
  case False
  then show ?thesis using rebuild_exact[OF assms(1-3)] by (simp add: spec_build_def)
qed

end

section \<open>The three indexes that satisfy it\<close>

lemma agreesOn_itemID: "agreesOn itemIDIndexKey ItemID"
  by (simp add: agreesOn_def)

lemma agreesOn_time: "agreesOn timeOrderedIndexKey hkey"
  by (simp add: agreesOn_def hkey_def timeOrderedIndexKey_def)

interpretation live: derived_index liveIndexWorthy ItemID
  by unfold_locales (simp_all add: keyable_def)

interpretation opened: derived_index openIndexWorthy ItemID
  by unfold_locales (simp_all add: keyable_def)

interpretation hist: derived_index "\<lambda>_. True" hkey
  by unfold_locales (auto simp: hkey_def dest: timeOrderedIndexKey_eq)

section \<open>The dedup index\<close>

lemma dkey_neq_marker [simp]: "dkey i \<noteq> liveIndexMarkerKey"
  by (simp add: dkey_def)

lemma entries_dropOwn:
  "k \<noteq> liveIndexMarkerKey \<Longrightarrow> entries (dropOwn k itemID idx) k' =
     (if k' = k \<and> (\<exists>e. entries idx k = Some e \<and> ItemID e = itemID) then None else entries idx k')"
  by (auto simp: dropOwn_def entries_upd entries_at split: option.splits)

lemma dedup_sound_put:
  assumes s: "idxSound openIndexWorthy dkey items idx"
    and same: "\<And>p. items (ItemID i) = Some p \<Longrightarrow> dkey p = dkey i"
  shows "idxSound openIndexWorthy dkey (items(ItemID i \<mapsto> i))
     (if openIndexWorthy i then idx(dkey i \<mapsto> i) else dropOwn (dkey i) (ItemID i) idx)"
  unfolding idxSound_def
proof (intro allI impI)
  fix k e
  assume *: "entries (if openIndexWorthy i then idx(dkey i \<mapsto> i)
      else dropOwn (dkey i) (ItemID i) idx) k = Some e"
  show "k = dkey e \<and> openIndexWorthy e \<and> (items(ItemID i \<mapsto> i)) (ItemID e) = Some e"
  proof (cases "openIndexWorthy i \<and> k = dkey i")
    case True
    then show ?thesis using * by (simp add: entries_upd)
  next
    case False
    then have old: "entries idx k = Some e"
      using * by (auto simp: entries_upd entries_dropOwn split: if_splits)
    note e = idxSoundD[OF s old]
    have "ItemID e \<noteq> ItemID i"
    proof
      assume eq: "ItemID e = ItemID i"
      then have k: "k = dkey i" using e same[of e] by simp
      then have "\<not> openIndexWorthy i" using False by simp
      then show False using * old k eq by (simp add: entries_dropOwn)
    qed
    then show ?thesis using e by simp
  qed
qed

lemma dedup_sound_remove:
  assumes s: "idxSound openIndexWorthy dkey items idx" and p: "items k = Some p" "ItemID p = k"
  shows "idxSound openIndexWorthy dkey (items(k := None)) (dropOwn (dkey p) k idx)"
  unfolding idxSound_def
proof (intro allI impI)
  fix k' e
  assume *: "entries (dropOwn (dkey p) k idx) k' = Some e"
  then have old: "entries idx k' = Some e"
    by (auto simp: entries_dropOwn split: if_splits)
  note e = idxSoundD[OF s old]
  have "ItemID e \<noteq> k"
  proof
    assume eq: "ItemID e = k"
    then have "e = p" using e p by simp
    then show False using * old e eq by (simp add: entries_dropOwn)
  qed
  then show "k' = dkey e \<and> openIndexWorthy e \<and> (items(k := None)) (ItemID e) = Some e"
    using e by simp
qed

lemma dedup_rebuild_sound:
  assumes fin: "finite (dom items)" and wf: "wfItems items"
  shows "idxSound openIndexWorthy dkey items (spec_rebuild openIndexWorthy dedupIndexKey items idx)"
  unfolding idxSound_def
proof (intro allI impI)
  fix k e
  assume "entries (spec_rebuild openIndexWorthy dedupIndexKey items idx) k = Some e"
  then have "wanted openIndexWorthy dedupIndexKey items k = Some e"
    by (auto simp: entries_def spec_rebuild_def map_add_def restrict_map_def
        split: option.splits if_splits)
  then obtain k' where "items k' = Some e" "openIndexWorthy e" "k = dedupIndexKey k' e"
    by (rule wanted_Some[OF fin])
  then show "k = dkey e \<and> openIndexWorthy e \<and> items (ItemID e) = Some e"
    using wfItemsD[OF wf] by (simp add: dedupIndexKey_def dkey_def)
qed

lemma dedup_build_sound:
  assumes "finite (dom items)" "wfItems items" "idxSound openIndexWorthy dkey items idx"
  shows "idxSound openIndexWorthy dkey items (spec_build openIndexWorthy dedupIndexKey items idx)"
  using assms(3) dedup_rebuild_sound[OF assms(1,2)] by (simp add: spec_build_def idxSound_def)

text \<open>After a rebuild every open item's key is taken, by it or by a sibling.\<close>

lemma dedup_rebuild_covers:
  assumes "finite (dom items)" and "items k = Some i" and "openIndexWorthy i"
  shows "entries (spec_rebuild openIndexWorthy dedupIndexKey items idx) (dkey i) \<noteq> None"
proof -
  have "dkey i \<in> dom (wanted openIndexWorthy dedupIndexKey items)"
    unfolding dom_wanted[OF assms(1)] dedupIndexKey_def dkey_def using assms(2,3) by blast
  then show ?thesis
    by (auto simp: entries_def spec_rebuild_def map_add_def)
qed

section \<open>The invariant of the store\<close>

definition storeInv :: "astore \<Rightarrow> bool" where
  "storeInv s \<longleftrightarrow>
     finite (dom (aItems s)) \<and> wfItems (aItems s) \<and> (aPresent s \<or> aItems s = Map.empty) \<and>
     idxSound liveIndexWorthy ItemID (aItems s) (aLive s) \<and>
     idxComplete liveIndexWorthy ItemID (aItems s) (aLive s) \<and>
     idxSound openIndexWorthy ItemID (aItems s) (aOpen s) \<and>
     idxComplete openIndexWorthy ItemID (aItems s) (aOpen s) \<and>
     idxSound (\<lambda>_. True) hkey (aItems s) (aHist s) \<and>
     idxComplete (\<lambda>_. True) hkey (aItems s) (aHist s) \<and>
     idxSound openIndexWorthy dkey (aItems s) (aDedup s) \<and>
     (\<forall>k a. aAttempts s k = Some a \<longrightarrow> aItems s k \<noteq> None \<and> att_ItemID a = k)"

lemma idxSound_marker [simp]:
  "idxSound worthy key items (idx(liveIndexMarkerKey \<mapsto> e)) = idxSound worthy key items idx"
  by (simp add: idxSound_def)

lemma idxComplete_empty [simp]: "idxComplete worthy key Map.empty idx"
  by (simp add: idxComplete_def)

lemma spec_put_items [simp]:
  "aItems (spec_put i s) = (aItems s)(ItemID i \<mapsto> i)"
  "aPresent (spec_put i s)"
  "aAttempts (spec_put i s) = aAttempts s"
  by (simp_all add: spec_put_def spec_reconcile_def spec_markBuilt_def Let_def)

definition marked :: "bool \<Rightarrow> (string \<rightharpoonup> Item) \<Rightarrow> (string \<rightharpoonup> Item)" where
  "marked present idx = (if present then idx else idx(liveIndexMarkerKey \<mapsto> emptyItem))"

lemma spec_put_indexes:
  assumes "wfItems (aItems s)"
  shows "aLive (spec_put i s) =
      put_entry liveIndexWorthy ItemID (aItems s (ItemID i)) i (marked (aPresent s) (aLive s))"
    and "aOpen (spec_put i s) =
      put_entry openIndexWorthy ItemID (aItems s (ItemID i)) i (marked (aPresent s) (aOpen s))"
    and "aHist (spec_put i s) = put_entry (\<lambda>_. True) hkey (aItems s (ItemID i)) i (aHist s)"
    and "aDedup (spec_put i s) =
      (if openIndexWorthy i then (marked (aPresent s) (aDedup s))(dkey i \<mapsto> i)
       else dropOwn (dkey i) (ItemID i) (marked (aPresent s) (aDedup s)))"
proof -
  have upd: "setEntry w (ItemID i) i idx = setEntry w (ItemID i) i
      (case aItems s (ItemID i) of None \<Rightarrow> idx | Some p \<Rightarrow> idx(ItemID p := None))" for w idx
  proof (cases "aItems s (ItemID i)")
    case (Some p)
    have "ItemID p = ItemID i" using wfItemsD[OF assms Some] by simp
    then show ?thesis by (simp add: setEntry_def Some)
  qed simp
  have fields: "aLive (spec_put i s) = setEntry (liveIndexWorthy i) (ItemID i) i (marked (aPresent s) (aLive s))"
    "aOpen (spec_put i s) = setEntry (openIndexWorthy i) (ItemID i) i (marked (aPresent s) (aOpen s))"
    by (simp_all add: spec_put_def spec_reconcile_def spec_markBuilt_def Let_def marked_def)
  show "aLive (spec_put i s) =
      put_entry liveIndexWorthy ItemID (aItems s (ItemID i)) i (marked (aPresent s) (aLive s))"
    unfolding fields put_entry_def by (rule upd)
  show "aOpen (spec_put i s) =
      put_entry openIndexWorthy ItemID (aItems s (ItemID i)) i (marked (aPresent s) (aOpen s))"
    unfolding fields put_entry_def by (rule upd)
  show "aHist (spec_put i s) = put_entry (\<lambda>_. True) hkey (aItems s (ItemID i)) i (aHist s)"
    by (cases "aItems s (ItemID i)")
       (simp_all add: spec_put_def spec_reconcile_def spec_markBuilt_def Let_def put_entry_def setEntry_def)
  show "aDedup (spec_put i s) =
      (if openIndexWorthy i then (marked (aPresent s) (aDedup s))(dkey i \<mapsto> i)
       else dropOwn (dkey i) (ItemID i) (marked (aPresent s) (aDedup s)))"
    by (simp add: spec_put_def spec_reconcile_def spec_markBuilt_def Let_def marked_def)
qed

lemma storeInv_put:
  assumes inv: "storeInv s" and i: "keyable i"
    and same: "\<And>p. aItems s (ItemID i) = Some p \<Longrightarrow> dkey p = dkey i"
  shows "storeInv (spec_put i s)"
proof -
  have wf: "wfItems (aItems s)" and att: "\<forall>k a. aAttempts s k = Some a \<longrightarrow> aItems s k \<noteq> None \<and> att_ItemID a = k"
    using inv by (simp_all add: storeInv_def)
  have m: "idxSound worthy key (aItems s) (marked (aPresent s) idx) = idxSound worthy key (aItems s) idx"
    for worthy key idx by (simp add: marked_def)
  have mc: "idxComplete worthy key (aItems s) idx \<Longrightarrow>
      idxComplete worthy key (aItems s) (marked (aPresent s) idx)" for worthy key idx
    using inv by (auto simp: marked_def storeInv_def)
  have "idxSound liveIndexWorthy ItemID ((aItems s)(ItemID i \<mapsto> i)) (aLive (spec_put i s))"
    unfolding spec_put_indexes[OF wf]
    by (rule live.sound_put[OF wf i]) (use inv in \<open>simp add: m storeInv_def\<close>)
  moreover have "idxComplete liveIndexWorthy ItemID ((aItems s)(ItemID i \<mapsto> i)) (aLive (spec_put i s))"
    unfolding spec_put_indexes[OF wf]
    by (rule live.complete_put[OF wf i mc]) (use inv in \<open>simp add: storeInv_def\<close>)
  moreover have "idxSound openIndexWorthy ItemID ((aItems s)(ItemID i \<mapsto> i)) (aOpen (spec_put i s))"
    unfolding spec_put_indexes[OF wf]
    by (rule opened.sound_put[OF wf i]) (use inv in \<open>simp add: m storeInv_def\<close>)
  moreover have "idxComplete openIndexWorthy ItemID ((aItems s)(ItemID i \<mapsto> i)) (aOpen (spec_put i s))"
    unfolding spec_put_indexes[OF wf]
    by (rule opened.complete_put[OF wf i mc]) (use inv in \<open>simp add: storeInv_def\<close>)
  moreover have "idxSound (\<lambda>_. True) hkey ((aItems s)(ItemID i \<mapsto> i)) (aHist (spec_put i s))"
    unfolding spec_put_indexes[OF wf]
    by (rule hist.sound_put[OF wf i]) (use inv in \<open>simp add: storeInv_def\<close>)
  moreover have "idxComplete (\<lambda>_. True) hkey ((aItems s)(ItemID i \<mapsto> i)) (aHist (spec_put i s))"
    unfolding spec_put_indexes[OF wf]
    by (rule hist.complete_put[OF wf i]) (use inv in \<open>simp add: storeInv_def\<close>)
  moreover have "idxSound openIndexWorthy dkey ((aItems s)(ItemID i \<mapsto> i)) (aDedup (spec_put i s))"
    unfolding spec_put_indexes[OF wf]
    by (rule dedup_sound_put[OF _ same]) (use inv in \<open>simp_all add: m storeInv_def\<close>)
  ultimately show ?thesis
    using inv i wfItems_put[OF wf i] att by (auto simp: storeInv_def)
qed

lemma storeInv_remove:
  assumes inv: "storeInv s" and p: "aItems s k = Some p"
  shows "storeInv (spec_remove k s)"
proof -
  have wf: "wfItems (aItems s)" using inv by (simp add: storeInv_def)
  have p': "ItemID p = k" using wfItemsD[OF wf p] by simp
  have eqs: "aItems (spec_remove k s) = (aItems s)(k := None)" "aPresent (spec_remove k s)"
    "aLive (spec_remove k s) = (aLive s)(ItemID p := None)"
    "aOpen (spec_remove k s) = (aOpen s)(ItemID p := None)"
    "aHist (spec_remove k s) = (aHist s)(hkey p := None)"
    "aDedup (spec_remove k s) = dropOwn (dkey p) k (aDedup s)"
    "aAttempts (spec_remove k s) = (aAttempts s)(k := None)"
    by (simp_all add: spec_remove_def spec_removeIndexEntry_def p p' Let_def)
  note laws = live.sound_remove[OF wf p] live.complete_remove[OF wf p]
    opened.sound_remove[OF wf p] opened.complete_remove[OF wf p] hist.sound_remove[OF wf p]
    hist.complete_remove[OF wf p] dedup_sound_remove[where items = "aItems s" and idx = "aDedup s", OF _ p p']
  show ?thesis
    unfolding storeInv_def eqs
    using inv wfItems_remove[OF wf] by (simp add: storeInv_def laws eqs(2))
qed

lemma storeInv_build:
  assumes "storeInv s"
  shows "storeInv (s\<lparr>aLive := spec_build liveIndexWorthy itemIDIndexKey (aItems s) (aLive s)\<rparr>)"
    and "storeInv (s\<lparr>aOpen := spec_build openIndexWorthy itemIDIndexKey (aItems s) (aOpen s)\<rparr>)"
    and "storeInv (s\<lparr>aHist := spec_build (\<lambda>_. True) timeOrderedIndexKey (aItems s) (aHist s)\<rparr>)"
    and "storeInv (s\<lparr>aDedup := spec_build openIndexWorthy dedupIndexKey (aItems s) (aDedup s)\<rparr>)"
  using assms
  by (simp_all add: storeInv_def live.sound_build live.complete_build opened.sound_build
      opened.complete_build hist.sound_build hist.complete_build agreesOn_itemID agreesOn_time
      dedup_build_sound)

lemma storeInv_attempt:
  "storeInv s \<Longrightarrow> aItems s k \<noteq> None \<Longrightarrow> att_ItemID a = k \<Longrightarrow>
   storeInv (s\<lparr>aAttempts := (aAttempts s)(k \<mapsto> a)\<rparr>)"
  by (auto simp: storeInv_def)

lemma storeInv_okKeys: "storeInv s \<Longrightarrow> aItems s k = Some i \<Longrightarrow> k \<noteq> []"
  by (auto simp: storeInv_def wfItems_def keyable_def)

end
