(* ===== verification/Liveness.thy ===== *)
theory Liveness
  imports ItemModel "HOL-Library.Word"
begin

text \<open>
  Whether the producer of an item is still there
  (\<open>attention-store-impl.go\<close>, \<open>session-liveness-checker.go\<close>), and the random
  ids of new items (\<open>item-id-generator.go\<close>).

  What the process reads from outside is an argument: the two listings of the
  session registry a caller may see, the modification time of a heartbeat file
  and the clock reading that goes with it. \<open>readSessionLiveness\<close> is the
  per-caller source of the Go code: it resolves one listing on its first lookup
  and, once, lists afresh before it answers that a session is gone.
\<close>

section \<open>Random item ids\<close>

unbundle bit_operations_syntax

definition hexDigit :: "8 word \<Rightarrow> char" where
  "hexDigit d = (if d < 10 then char_of (48 + unat d) else char_of (87 + unat d))"

fun hexEncode :: "8 word list \<Rightarrow> string" where
  "hexEncode [] = []"
| "hexEncode (b # bs) = hexDigit (drop_bit 4 b) # hexDigit (b AND 15) # hexEncode bs"

definition Generate :: "error + 8 word list \<Rightarrow> error + ItemID" where
  "Generate randRead = ebind randRead (\<lambda>buf. Inr (hexEncode buf))"

lemma length_hexEncode [simp]: "length (hexEncode bs) = 2 * length bs"
  by (induction bs) auto

lemma hexDigit_inj: "d < 16 \<Longrightarrow> d' < 16 \<Longrightarrow> hexDigit d = hexDigit d' \<Longrightarrow> d = d'"
proof -
  assume "d < 16" "d' < 16" "hexDigit d = hexDigit d'"
  then have lt: "unat d < 16" "unat d' < 16" by (simp_all add: word_less_nat_alt)
  have ch: "(of_char (hexDigit x) :: nat) = (if unat x < 10 then 48 + unat x else 87 + unat x)"
    if "unat x < 16" for x :: "8 word"
    using that by (auto simp: hexDigit_def word_less_nat_alt)
  have "(if unat d < 10 then 48 + unat d else 87 + unat d) =
      (if unat d' < 10 then 48 + unat d' else 87 + unat d')"
    using ch[OF lt(1)] ch[OF lt(2)] \<open>hexDigit d = hexDigit d'\<close> by metis
  then have "unat d = unat d'" using lt by (simp split: if_splits)
  then show "d = d'" by (rule unsigned_word_eqI)
qed

lemma nibbles_inj:
  fixes b c :: "8 word"
  assumes "drop_bit 4 b = drop_bit 4 c" and "b AND 15 = c AND 15"
  shows "b = c"
proof -
  have "mask 4 = (15 :: 8 word)" by (simp add: mask_eq_exp_minus_1)
  then have "take_bit 4 b = take_bit 4 c" using assms(2) by (simp add: take_bit_eq_mask)
  then show ?thesis using assms(1) by (metis bits_ident)
qed

lemma nibble_bounds: "drop_bit 4 b < (16 :: 8 word)" "b AND 15 < (16 :: 8 word)"
proof -
  have "unat b < 256" using unsigned_less[of b] by simp
  then show "drop_bit 4 b < (16 :: 8 word)"
    by (simp add: word_less_nat_alt drop_bit_eq_div unat_div_distrib less_mult_imp_div_less)
  have "b AND 15 \<le> (15 :: 8 word)" by (rule word_and_le1)
  also have "(15 :: 8 word) < 16" by simp
  finally show "b AND 15 < (16 :: 8 word)" .
qed

lemma hexEncode_inj: "hexEncode bs = hexEncode cs \<Longrightarrow> bs = cs"
proof (induction bs arbitrary: cs)
  case Nil
  then show ?case by (cases cs) simp_all
next
  case (Cons b bs)
  then obtain c cs' where cs: "cs = c # cs'" by (cases cs) auto
  have "hexDigit (drop_bit 4 b) = hexDigit (drop_bit 4 c)" "hexDigit (b AND 15) = hexDigit (c AND 15)"
    and "hexEncode bs = hexEncode cs'"
    using Cons.prems by (simp_all only: cs hexEncode.simps list.inject)
  then have "b = c" "bs = cs'"
    using nibbles_inj[of b c] hexDigit_inj[OF nibble_bounds(1) nibble_bounds(1)]
      hexDigit_inj[OF nibble_bounds(2) nibble_bounds(2)] Cons.IH by blast+
  then show ?case by (simp add: cs)
qed

text \<open>An id of 16 random bytes is neither empty nor the marker of an index.\<close>

lemma Generate_length:
  "Generate (Inr buf) = Inr itemID \<Longrightarrow> length buf = 16 \<Longrightarrow> length itemID = 32"
  by (auto simp: Generate_def)

section \<open>One caller's view of the session registry\<close>

record sessionSnapshot =
  snap_ids :: "string list"
  snap_readable :: bool

definition SessionIDs_Contains :: "runtime \<Rightarrow> string list \<Rightarrow> string \<Rightarrow> bool" where
  "SessionIDs_Contains R ids sessionID = (if sessionID = [] then False else contains R ids sessionID)"

definition snapshot_IsLive :: "runtime \<Rightarrow> sessionSnapshot \<Rightarrow> string \<Rightarrow> bool" where
  "snapshot_IsLive R s sessionID =
     (if sessionID = [] then False
      else if \<not> snap_readable s then True
      else SessionIDs_Contains R (snap_ids s) sessionID)"

text \<open>What the checker behind a source answers: a checker that can list the
  registry hands out a snapshot, another one is asked directly, and one that can
  list afresh has a second listing.\<close>

record livenessChecker =
  chk_IsLive :: "string \<Rightarrow> bool"
  chk_LiveSessions :: "sessionSnapshot option"
  chk_LiveSessionsFresh :: "sessionSnapshot option"

record readSessionLiveness =
  checker :: livenessChecker
  resolved :: "(string \<Rightarrow> bool) option"
  rechecked :: bool

definition newReadSessionLiveness :: "livenessChecker \<Rightarrow> readSessionLiveness" where
  "newReadSessionLiveness c = \<lparr>checker = c, resolved = None, rechecked = False\<rparr>"

definition resolve :: "runtime \<Rightarrow> livenessChecker \<Rightarrow> string \<Rightarrow> bool" where
  "resolve R c = (case chk_LiveSessions c of None \<Rightarrow> chk_IsLive c | Some s \<Rightarrow> snapshot_IsLive R s)"

definition resolveNow :: "runtime \<Rightarrow> readSessionLiveness \<Rightarrow> readSessionLiveness" where
  "resolveNow R r =
     (case resolved r of None \<Rightarrow> r\<lparr>resolved := Some (resolve R (checker r))\<rparr> | Some _ \<Rightarrow> r)"

definition read_IsLive :: "runtime \<Rightarrow> readSessionLiveness \<Rightarrow> string \<Rightarrow> bool \<times> readSessionLiveness" where
  "read_IsLive R r0 sessionID =
     (let r = resolveNow R r0 in
      case resolved r of
        None \<Rightarrow> (False, r)
      | Some live \<Rightarrow>
          (if live sessionID then (True, r)
           else if rechecked r then (False, r)
           else (let r = r\<lparr>rechecked := True\<rparr> in
                 case chk_LiveSessionsFresh (checker r) of
                   None \<Rightarrow> (False, r)
                 | Some fresh \<Rightarrow>
                     (snapshot_IsLive R fresh sessionID, r\<lparr>resolved := Some (snapshot_IsLive R fresh)\<rparr>))))"

text \<open>The strongest view a caller can get: the fresh listing when there is one.\<close>

definition bestView :: "runtime \<Rightarrow> livenessChecker \<Rightarrow> string \<Rightarrow> bool" where
  "bestView R c = (case chk_LiveSessionsFresh c of None \<Rightarrow> resolve R c | Some s \<Rightarrow> snapshot_IsLive R s)"

definition readLivenessInv :: "runtime \<Rightarrow> readSessionLiveness \<Rightarrow> bool" where
  "readLivenessInv R r \<longleftrightarrow>
     (rechecked r \<longrightarrow> resolved r = Some (bestView R (checker r))) \<and>
     (\<not> rechecked r \<longrightarrow> resolved r = None \<or> resolved r = Some (resolve R (checker r)))"

lemma readLivenessInv_new: "readLivenessInv R (newReadSessionLiveness c)"
  by (simp add: readLivenessInv_def newReadSessionLiveness_def)

lemma resolveNow_keeps [simp]:
  "checker (resolveNow R r) = checker r" "rechecked (resolveNow R r) = rechecked r"
  "readLivenessInv R r \<Longrightarrow> readLivenessInv R (resolveNow R r)"
  by (auto simp: resolveNow_def readLivenessInv_def split: option.splits)

lemma read_IsLive_keeps:
  assumes "readLivenessInv R r" and "read_IsLive R r sid = (v, r')"
  shows "readLivenessInv R r'" and "checker r' = checker r"
  using assms
  by (auto simp: read_IsLive_def resolveNow_def Let_def readLivenessInv_def bestView_def
      split: option.splits if_splits)

text \<open>A session is called gone only when the strongest view says so.\<close>

lemma read_IsLive_gone:
  assumes "readLivenessInv R r" and "read_IsLive R r sid = (False, r')"
  shows "\<not> bestView R (checker r) sid"
  using assms
  by (auto simp: read_IsLive_def resolveNow_def Let_def readLivenessInv_def bestView_def
      split: option.splits if_splits)

section \<open>The liveness of an item's producer\<close>

record probes =
  statMTime :: "ItemID \<Rightarrow> string \<Rightarrow> instant option"
  probeNow :: "ItemID \<Rightarrow> instant"

definition isHeartbeatFresh :: "duration \<Rightarrow> probes \<Rightarrow> ItemID \<Rightarrow> string \<Rightarrow> bool" where
  "isHeartbeatFresh window P itemID path =
     (case statMTime P itemID path of
        None \<Rightarrow> False
      | Some mtime \<Rightarrow> timeSub (probeNow P itemID) mtime \<le> window)"

definition isProducerLiveWith ::
  "runtime \<Rightarrow> duration \<Rightarrow> probes \<Rightarrow> ('l \<Rightarrow> string \<Rightarrow> bool \<times> 'l) \<Rightarrow> Item \<Rightarrow> 'l \<Rightarrow>
   error + bool \<times> 'l" where
  "isProducerLiveWith R window P IsLive item liveness =
     ebind (LivenessRef_Parse R (LivenessRef item)) (\<lambda>(model, val).
       if model = SessionLivenessModel then Inr (IsLive liveness val)
       else if model = OwnerLivenessModel then Inr (True, liveness)
       else if model = HeartbeatLivenessModel then
         Inr (isHeartbeatFresh window P (ItemID item) val, liveness)
       else Inl ErrInvalidLivenessRef)"

text \<open>The push path asks the checker itself, which keeps no per-call state here.\<close>

definition isProducerLive ::
  "runtime \<Rightarrow> duration \<Rightarrow> probes \<Rightarrow> livenessChecker \<Rightarrow> Item \<Rightarrow> error + bool" where
  "isProducerLive R window P c item =
     map_sum id fst
       (isProducerLiveWith R window P (\<lambda>_ sid. (chk_IsLive c sid, ())) item ())"

definition isAsked :: "Item \<Rightarrow> bool" where
  "isAsked item = (AnswerMechanism item \<noteq> AckAnswerMechanism)"

end
