(* ===== verification/StoreWrite.thy ===== *)
theory StoreWrite
  imports IndexLaws Liveness
begin

text \<open>
  The operations that write one item: \<open>Push\<close>, \<open>Answer\<close>, \<open>Escalate\<close>, \<open>Close\<close>
  (\<open>attention-store-impl.go\<close>), \<open>Flag\<close> and \<open>Unflag\<close>
  (\<open>attention-store-flag.go\<close>), \<open>Rate\<close> (\<open>attention-store-rate.go\<close>) and
  \<open>RecordAttempt\<close> (\<open>attention-store-attempt.go\<close>), with \<open>Get\<close>. Each is a
  function from the state of the database to the state after it and the result;
  the clock reading, the generated id and the liveness verdict of a call are its
  arguments.
\<close>

section \<open>Reading one item\<close>

definition getItem :: "'tx attentionStore \<Rightarrow> ItemID \<Rightarrow> 'tx \<Rightarrow> error + Item" where
  "getItem A itemID tx =
     (case stGet (store A) tx itemID of
        Inl e \<Rightarrow> Inl (if isNotFound e then ErrItemNotFound else e)
      | Inr item \<Rightarrow> Inr item)"

definition store_Get :: "'tx attentionStore \<Rightarrow> ItemID \<Rightarrow> 'tx \<Rightarrow> error + Item" where
  "store_Get A itemID s = db_View s (getItem A itemID)"

definition writeBack :: "'tx attentionStore \<Rightarrow> Item \<Rightarrow> 'tx \<Rightarrow> error + 'tx \<times> Item" where
  "writeBack A item tx = ebind (putItem A item tx) (\<lambda>tx. Inr (tx, item))"

section \<open>Push\<close>

definition newItem :: "runtime \<Rightarrow> error + ItemID \<Rightarrow> instant \<Rightarrow> PushRequest \<Rightarrow> error + Item" where
  "newItem R generated now request =
     ebind generated (\<lambda>itemID.
       let item = itemOfRequest itemID now request
       in guardE (Item_Validate R item) (Inr item))"

definition findOpenByDedupKey :: "'tx attentionStore \<Rightarrow> PushRequest \<Rightarrow> 'tx \<Rightarrow> error + Item option" where
  "findOpenByDedupKey A request tx =
     (case stGet (dedupIndex A) tx (dedupIndexKeyOf (req_ProducerID request) (req_DedupKey request)) of
        Inl e \<Rightarrow> (if isNotFound e then Inr None else Inl e)
      | Inr item \<Rightarrow> Inr (Some item))"

definition repushed :: "PushRequest \<Rightarrow> instant \<Rightarrow> Item \<Rightarrow> Item" where
  "repushed request now existing = existing\<lparr>
     Payload := req_Payload request,
     Context := req_Context request,
     Options := req_Options request,
     InterruptClass := req_InterruptClass request,
     ProvenanceClass := req_ProvenanceClass request,
     ExpiresAt := req_ExpiresAt request,
     CreatedAt := now\<rparr>"

definition updateExistingIfLive ::
  "runtime \<Rightarrow> 'tx attentionStore \<Rightarrow> probes \<Rightarrow> livenessChecker \<Rightarrow> instant \<Rightarrow> PushRequest \<Rightarrow> 'tx \<Rightarrow>
   error + 'tx \<times> Item option" where
  "updateExistingIfLive R A P c now request tx =
     ebind (findOpenByDedupKey A request tx) (\<lambda>existing.
       case existing of
         None \<Rightarrow> Inr (tx, None)
       | Some existing \<Rightarrow>
           ebind (isProducerLive R (heartbeatWindow A) P c existing) (\<lambda>live.
             if \<not> live then Inr (tx, None)
             else ebind (writeBack A (repushed request now existing) tx)
                    (\<lambda>(tx, item). Inr (tx, Some item))))"

definition store_Push ::
  "runtime \<Rightarrow> 'tx attentionStore \<Rightarrow> probes \<Rightarrow> livenessChecker \<Rightarrow> error + ItemID \<Rightarrow> instant \<Rightarrow>
   PushRequest \<Rightarrow> 'tx \<Rightarrow> 'tx \<times> (error + Item)" where
  "store_Push R A P c generated now request s =
     (case PushRequest_Validate R request of
        Some e \<Rightarrow> (s, Inl e)
      | None \<Rightarrow> db_Update (db A) s (\<lambda>tx.
          ebind (ensureDedupIndex R A tx) (\<lambda>tx.
          ebind (updateExistingIfLive R A P c now request tx) (\<lambda>(tx, updated).
            case updated of
              Some item \<Rightarrow> Inr (tx, item)
            | None \<Rightarrow> ebind (newItem R generated now request) (\<lambda>item. writeBack A item tx)))))"

section \<open>Answer\<close>

definition stampAnswerRoute :: "AnswerRoute \<Rightarrow> Item \<Rightarrow> Item" where
  "stampAnswerRoute route i =
     (let i = (if route_RequestID route \<noteq> [] then i\<lparr>RequestID := route_RequestID route\<rparr> else i)
      in (if route_Policy route \<noteq> [] then i\<lparr>Policy := route_Policy route\<rparr> else i))"

text \<open>The stamping between the state check and the write.\<close>

definition answeredItem ::
  "instant \<Rightarrow> string \<Rightarrow> string \<Rightarrow> Decision \<Rightarrow> Answer option \<Rightarrow> QuestionAnswer list \<Rightarrow>
   AnsweredClient option \<Rightarrow> AnswerRoute \<Rightarrow> Item \<Rightarrow> Item" where
  "answeredItem now answeredBy resolvedBy decision answer answers answeredClient route item =
     (let item = item\<lparr>State := AnsweredState, AnsweredAt := Some now, AnsweredBy := answeredBy,
                      ResolvedBy := resolvedBy\<rparr>;
          item = stampAnswerRoute route item;
          item = (if Decision item = [] then item\<lparr>Decision := decision\<rparr> else item)
      in item\<lparr>Answer := answer, Answers := answers, AnsweredClient := answeredClient\<rparr>)"

definition store_Answer ::
  "runtime \<Rightarrow> 'tx attentionStore \<Rightarrow> instant \<Rightarrow> ItemID \<Rightarrow> string \<Rightarrow> string \<Rightarrow> Decision \<Rightarrow>
   Answer option \<Rightarrow> QuestionAnswer list \<Rightarrow> AnsweredClient option \<Rightarrow> AnswerRoute list \<Rightarrow> 'tx \<Rightarrow>
   'tx \<times> (error + Item option)" where
  "store_Answer R A now itemID answeredBy resolvedBy decision answer answers answeredClient route s =
     (let answerRoute = firstRoute route in
      db_Update (db A) s (\<lambda>tx.
        ebind (getItem A itemID tx) (\<lambda>item.
          let transition =
            (let item = answeredItem now answeredBy resolvedBy decision answer answers answeredClient
                          answerRoute item
             in guardE (validateAnswer R item)
                 (guardE (validateAnswers R item)
                   (ebind (writeBack A item tx) (\<lambda>(tx, item). Inr (tx, Some item)))))
          in if State item = OpenState then transition
             else if State item = AnsweredState then
               (if AnswerMechanism item \<noteq> PermissionAnswerMechanism \<or> resolvedBy = []
                then Inl ErrAlreadyAnswered else transition)
             else guardE (ValidateTransition (State item) AnsweredState) (Inr (tx, None)))))"

section \<open>Escalate\<close>

definition store_Escalate ::
  "'tx attentionStore \<Rightarrow> instant \<Rightarrow> ItemID \<Rightarrow> string \<Rightarrow> 'tx \<Rightarrow> 'tx \<times> (error + Item)" where
  "store_Escalate A now itemID escalatedBy s =
     (case SessionID_Validate escalatedBy of
        Some e \<Rightarrow> (s, Inl e)
      | None \<Rightarrow> db_Update (db A) s (\<lambda>tx.
          ebind (getItem A itemID tx) (\<lambda>item.
            if State item \<noteq> OpenState then Inl ErrItemNotOpen
            else if EscalatedBy item \<noteq> [] then
              (if EscalatedBy item = escalatedBy then Inr (tx, item) else Inl ErrAlreadyEscalated)
            else writeBack A (item\<lparr>EscalatedBy := escalatedBy, EscalatedAt := Some now\<rparr>) tx)))"

section \<open>Flag, unflag and rate\<close>

definition store_Flag ::
  "'tx attentionStore \<Rightarrow> instant \<Rightarrow> ItemID \<Rightarrow> string \<Rightarrow> 'tx \<Rightarrow> 'tx \<times> (error + Item)" where
  "store_Flag A now itemID reason s =
     (if TrimSpace reason = [] then (s, Inl ErrFlagReasonRequired)
      else db_Update (db A) s (\<lambda>tx.
        ebind (getItem A itemID tx) (\<lambda>item.
          if State item \<noteq> OpenState then Inl ErrItemNotOpen
          else writeBack A (item\<lparr>FlagReason := reason, FlaggedAt := Some now\<rparr>) tx)))"

definition store_Unflag :: "'tx attentionStore \<Rightarrow> ItemID \<Rightarrow> 'tx \<Rightarrow> 'tx \<times> (error + Item)" where
  "store_Unflag A itemID s =
     db_Update (db A) s (\<lambda>tx.
       ebind (getItem A itemID tx) (\<lambda>item.
         writeBack A (item\<lparr>FlagReason := [], FlaggedAt := None\<rparr>) tx))"

definition store_Rate ::
  "runtime \<Rightarrow> 'tx attentionStore \<Rightarrow> instant \<Rightarrow> ItemID \<Rightarrow> Rating \<Rightarrow> 'tx \<Rightarrow> 'tx \<times> (error + Item)" where
  "store_Rate R A now itemID rating s =
     (case Rating_Validate R rating of
        Some e \<Rightarrow> (s, Inl e)
      | None \<Rightarrow> db_Update (db A) s (\<lambda>tx.
          ebind (getItem A itemID tx) (\<lambda>item.
            let item = item\<lparr>Rating := rating\<rparr>;
                item = (if rating = NoRating then item\<lparr>RatedAt := None\<rparr>
                        else item\<lparr>RatedAt := Some now\<rparr>)
            in writeBack A item tx)))"

section \<open>Close\<close>

definition store_Close ::
  "'tx attentionStore \<Rightarrow> instant \<Rightarrow> ItemID \<Rightarrow> string \<Rightarrow> AnsweredClient option \<Rightarrow> 'tx \<Rightarrow>
   'tx \<times> (error + Item)" where
  "store_Close A now itemID answeredBy answeredClient s =
     db_Update (db A) s (\<lambda>tx.
       ebind (getItem A itemID tx) (\<lambda>item.
         let from = State item in
         guardE (ValidateTransition from ClosedState)
          (let item = item\<lparr>State := ClosedState, ClosedAt := Some now\<rparr> in
           if from = OpenState then
             (if AnswerMechanism item = PermissionAnswerMechanism \<and> answeredBy \<noteq> []
              then Inl ErrPermissionCloseWithoutDecision
              else (let item = item\<lparr>AnsweredBy := answeredBy\<rparr>;
                        item = (if answeredBy \<noteq> [] then item\<lparr>AnsweredClient := answeredClient\<rparr> else item)
                    in writeBack A item tx))
           else writeBack A item tx)))"

section \<open>Delivery attempts\<close>

definition store_RecordAttempt ::
  "runtime \<Rightarrow> 'tx attentionStore \<Rightarrow> instant \<Rightarrow> ItemID \<Rightarrow> string \<Rightarrow> DeliveryOutcome \<Rightarrow> 'tx \<Rightarrow>
   'tx \<times> (error + DeliveryAttempt)" where
  "store_RecordAttempt R A now itemID carrier outcome s =
     db_Update (db A) s (\<lambda>tx.
       ebind (getItem A itemID tx) (\<lambda>_.
         let attempt = \<lparr>att_ItemID = itemID, att_Carrier = carrier, att_Outcome = outcome,
                        att_AttemptedAt = now\<rparr>
         in guardE (DeliveryAttempt_Validate R attempt)
              (ebind (stAdd (attempts A) tx itemID attempt) (\<lambda>tx. Inr (tx, attempt)))))"

record DeliveryReport =
  rep_ItemID :: ItemID
  rep_Status :: string
  rep_Carrier :: string
  rep_AttemptedAt :: "instant option"

definition DeliveredStatus :: string where "DeliveredStatus = ''delivered''"
definition FailedStatus :: string where "FailedStatus = ''failed''"
definition NeverAttemptedStatus :: string where "NeverAttemptedStatus = ''never_attempted''"
definition PreTrailUnknownStatus :: string where "PreTrailUnknownStatus = ''pre_trail_unknown''"
definition HeldStatus :: string where "HeldStatus = ''held''"

text \<open>2026-09-29T19:44:38Z\<close>

definition DeliveryTrailEpoch :: instant where
  "DeliveryTrailEpoch = 1790711078 * 1000000000"

definition store_Delivery ::
  "'tx attentionStore \<Rightarrow> ItemID \<Rightarrow> 'tx \<Rightarrow> error + DeliveryReport" where
  "store_Delivery A itemID s =
     db_View s (\<lambda>tx.
       ebind (getItem A itemID tx) (\<lambda>item.
         let report = \<lparr>rep_ItemID = itemID, rep_Status = [], rep_Carrier = [], rep_AttemptedAt = None\<rparr>
         in (case stGet (attempts A) tx itemID of
               Inr attempt \<Rightarrow>
                 Inr (report\<lparr>rep_Carrier := att_Carrier attempt,
                             rep_AttemptedAt := Some (att_AttemptedAt attempt),
                             rep_Status :=
                               (if att_Outcome attempt = DeliveredOutcome then DeliveredStatus
                                else if att_Outcome attempt = HeldOutcome then HeldStatus
                                else FailedStatus)\<rparr>)
             | Inl e \<Rightarrow>
                 (if isNotFound e then
                    (let since = (case AnsweredAt item of Some t \<Rightarrow> t | None \<Rightarrow> CreatedAt item)
                     in Inr (report\<lparr>rep_Status :=
                          (if since < DeliveryTrailEpoch then PreTrailUnknownStatus
                           else NeverAttemptedStatus)\<rparr>))
                  else Inl e))))"

end
