(* ===== verification/StoreRead.thy ===== *)
theory StoreRead
  imports StoreWrite
begin

text \<open>
  The two reads of the store and the prune that ends each of them, and the
  sweep that closes what no read needs any more (\<open>attention-store-impl.go\<close>).
  A read scans an index, classifies every entry against one clock reading and
  one liveness source, and removes what is gone in a second transaction that
  checks again, with readings of its own.
\<close>

section \<open>Classifying one entry\<close>

record readings =
  rd_probes :: probes
  rd_checker :: livenessChecker
  rd_now :: instant

record readDisposition =
  disp_keep :: bool
  disp_remove :: bool

definition keepIt :: readDisposition where "keepIt = \<lparr>disp_keep = True, disp_remove = False\<rparr>"
definition removeIt :: readDisposition where "removeIt = \<lparr>disp_keep = False, disp_remove = True\<rparr>"
definition ignoreIt :: readDisposition where "ignoreIt = \<lparr>disp_keep = False, disp_remove = False\<rparr>"

lemmas dispositions [simp] = keepIt_def removeIt_def ignoreIt_def

definition isExpired :: "Item \<Rightarrow> instant \<Rightarrow> bool" where
  "isExpired item now = (case ExpiresAt item of None \<Rightarrow> False | Some t \<Rightarrow> \<not> now < t)"

definition classifyForRead ::
  "runtime \<Rightarrow> duration \<Rightarrow> probes \<Rightarrow> bool \<Rightarrow> instant \<Rightarrow> Item \<Rightarrow> readSessionLiveness \<Rightarrow>
   error + readDisposition \<times> readSessionLiveness" where
  "classifyForRead R window P includeAnswered now item liveness =
     (if State item = AnsweredState \<and> includeAnswered then Inr (keepIt, liveness)
      else if State item \<noteq> OpenState then Inr (ignoreIt, liveness)
      else if isExpired item now then Inr (removeIt, liveness)
      else ebind (isProducerLiveWith R window P (read_IsLive R) item liveness) (\<lambda>(live, liveness).
        if live then Inr (keepIt, liveness)
        else if isAsked item then Inr (removeIt, liveness)
        else Inr (keepIt, liveness)))"

text \<open>The loop of a read: the kept items and the keys of the dead ones, in scan order.\<close>

fun classifyAll ::
  "runtime \<Rightarrow> duration \<Rightarrow> probes \<Rightarrow> bool \<Rightarrow> instant \<Rightarrow> (string \<times> Item) list \<Rightarrow>
   readSessionLiveness \<Rightarrow> error + Item list \<times> string list" where
  "classifyAll R window P includeAnswered now [] liveness = Inr ([], [])"
| "classifyAll R window P includeAnswered now (stored # rest) liveness =
     ebind (classifyForRead R window P includeAnswered now (snd stored) liveness) (\<lambda>(d, liveness).
     ebind (classifyAll R window P includeAnswered now rest liveness) (\<lambda>(kept, dead).
       Inr (if disp_keep d then snd stored # kept else kept,
            if disp_remove d then fst stored # dead else dead)))"

section \<open>Answered twins\<close>

definition askIdentity :: "Item \<Rightarrow> string" where
  "askIdentity item = ProducerID item @ [CHR 0x00] @ DedupKey item @ [CHR 0x00] @ Payload item"

definition suppressAnsweredTwins :: "Item list \<Rightarrow> Item list" where
  "suppressAnsweredTwins items =
     (let answered = askIdentity ` set (filter (\<lambda>i. State i = AnsweredState) items) in
      if answered = {} then items
      else filter (\<lambda>i. \<not> (State i = OpenState \<and> askIdentity i \<in> answered)) items)"

section \<open>Pruning\<close>

definition stillRemovable ::
  "runtime \<Rightarrow> 'tx attentionStore \<Rightarrow> probes \<Rightarrow> instant \<Rightarrow> 'tx \<Rightarrow> string \<Rightarrow> readSessionLiveness \<Rightarrow>
   error + bool \<times> readSessionLiveness" where
  "stillRemovable R A P now tx key liveness =
     (case stGet (store A) tx key of
        Inl e \<Rightarrow> (if isNotFound e then Inr (False, liveness) else Inl e)
      | Inr item \<Rightarrow>
          (if State item \<noteq> OpenState then Inr (False, liveness)
           else if isExpired item now then Inr (True, liveness)
           else ebind (isProducerLiveWith R (heartbeatWindow A) P (read_IsLive R) item liveness)
                  (\<lambda>(live, liveness). Inr (\<not> live, liveness))))"

definition pruneStep ::
  "runtime \<Rightarrow> 'tx attentionStore \<Rightarrow> probes \<Rightarrow> instant \<Rightarrow> 'tx \<times> readSessionLiveness \<Rightarrow> string \<Rightarrow>
   error + 'tx \<times> readSessionLiveness" where
  "pruneStep R A P now acc key =
     (case acc of (tx, liveness) \<Rightarrow>
      ebind (stillRemovable R A P now tx key liveness) (\<lambda>(remove, liveness).
        if \<not> remove then Inr (tx, liveness)
        else ebind (removeItem A key tx) (\<lambda>tx. Inr (tx, liveness))))"

definition pruneDead ::
  "runtime \<Rightarrow> 'tx attentionStore \<Rightarrow> readings \<Rightarrow> string list \<Rightarrow> 'tx \<Rightarrow> 'tx \<times> (error + unit)" where
  "pruneDead R A rd keys s =
     (if keys = [] then (s, Inr ())
      else (let liveness = resolveNow R (newReadSessionLiveness (rd_checker rd)) in
            db_Update (db A) s (\<lambda>tx.
              ebind (efold (pruneStep R A (rd_probes rd) (rd_now rd)) (tx, liveness) keys)
                (\<lambda>(tx, _). Inr (tx, ())))))"

section \<open>The reads\<close>

definition store_read ::
  "runtime \<Rightarrow> 'tx attentionStore \<Rightarrow> bool \<Rightarrow> readings \<Rightarrow> readings \<Rightarrow> 'tx \<Rightarrow>
   'tx \<times> (error + Item list)" where
  "store_read R A includeAnswered rd rdPrune s =
     (case (if includeAnswered then readItems R A s else readOpenItems R A s) of
        (s, Inl e) \<Rightarrow> (s, Inl e)
      | (s, Inr items) \<Rightarrow>
          (case classifyAll R (heartbeatWindow A) (rd_probes rd) includeAnswered (rd_now rd) items
                  (newReadSessionLiveness (rd_checker rd)) of
             Inl e \<Rightarrow> (s, Inl e)
           | Inr (kept, dead) \<Rightarrow>
               (let kept = (if includeAnswered then suppressAnsweredTwins kept else kept) in
                case pruneDead R A rdPrune dead s of
                  (s, Inl e) \<Rightarrow> (s, Inl e)
                | (s, Inr _) \<Rightarrow> (s, Inr kept))))"

definition store_Read ::
  "runtime \<Rightarrow> 'tx attentionStore \<Rightarrow> readings \<Rightarrow> readings \<Rightarrow> 'tx \<Rightarrow> 'tx \<times> (error + Item list)" where
  "store_Read R A rd rdPrune s = store_read R A False rd rdPrune s"

definition store_ReadBoard ::
  "runtime \<Rightarrow> 'tx attentionStore \<Rightarrow> readings \<Rightarrow> readings \<Rightarrow> 'tx \<Rightarrow> 'tx \<times> (error + Item list)" where
  "store_ReadBoard R A rd rdPrune s = store_read R A True rd rdPrune s"

section \<open>The sweep\<close>

text \<open>The clock reading that closes the item under a key is a function of the key.\<close>

definition dueAnsweredKeys :: "'tx attentionStore \<Rightarrow> instant \<Rightarrow> 'tx \<Rightarrow> error + string list" where
  "dueAnsweredKeys A cutoff tx =
     ebind (stMap (liveIndex A) tx) (\<lambda>es.
       Inr (map fst (filter
         (\<lambda>(key, item). \<not> (key = liveIndexMarkerKey \<or> State item \<noteq> AnsweredState) \<and>
            (case AnsweredAt item of None \<Rightarrow> False | Some t \<Rightarrow> t < cutoff)) es)))"

definition closeItemIn ::
  "'tx attentionStore \<Rightarrow> State \<Rightarrow> instant \<Rightarrow> string \<Rightarrow> 'tx \<Rightarrow> error + 'tx \<times> bool" where
  "closeItemIn A expected now key tx =
     (case stGet (store A) tx key of
        Inl e \<Rightarrow> (if isNotFound e then Inr (tx, False) else Inl e)
      | Inr item \<Rightarrow>
          (if State item \<noteq> expected then Inr (tx, False)
           else guardE (ValidateTransition (State item) ClosedState)
             (ebind (putItem A (item\<lparr>State := ClosedState, ClosedAt := Some now\<rparr>) tx)
               (\<lambda>tx. Inr (tx, True)))))"

definition closeAnsweredItem ::
  "'tx attentionStore \<Rightarrow> instant \<Rightarrow> string \<Rightarrow> 'tx \<Rightarrow> error + 'tx \<times> bool" where
  "closeAnsweredItem A now key tx = closeItemIn A AnsweredState now key tx"

definition closeOpenItem ::
  "'tx attentionStore \<Rightarrow> instant \<Rightarrow> string \<Rightarrow> 'tx \<Rightarrow> error + 'tx \<times> bool" where
  "closeOpenItem A now key tx = closeItemIn A OpenState now key tx"

text \<open>A loop that closes each due key and counts the items it did close.\<close>

definition closeLoop ::
  "(string \<Rightarrow> 'tx \<Rightarrow> error + 'tx \<times> bool) \<Rightarrow> string list \<Rightarrow> 'tx \<times> nat \<Rightarrow> error + 'tx \<times> nat" where
  "closeLoop close due acc =
     efold (\<lambda>(tx, closed) key.
       ebind (close key tx) (\<lambda>(tx, didClose).
         Inr (tx, if didClose then Suc closed else closed))) acc due"

definition closeRedundantReraises ::
  "'tx attentionStore \<Rightarrow> (string \<Rightarrow> instant) \<Rightarrow> 'tx \<Rightarrow> error + 'tx \<times> nat" where
  "closeRedundantReraises A nowAt tx =
     ebind (stMap (liveIndex A) tx) (\<lambda>es.
       let answered = (askIdentity \<circ> snd) ` set (filter
             (\<lambda>(key, item). \<not> (key = liveIndexMarkerKey \<or> State item \<noteq> AnsweredState)) es)
       in if answered = {} then Inr (tx, 0)
          else ebind (stMap (liveIndex A) tx) (\<lambda>es.
            let due = map fst (filter
                  (\<lambda>(key, item). \<not> (key = liveIndexMarkerKey \<or> State item \<noteq> OpenState) \<and>
                     askIdentity item \<in> answered) es)
            in closeLoop (\<lambda>key. closeOpenItem A (nowAt key) key) due (tx, 0)))"

definition sweepTx ::
  "'tx attentionStore \<Rightarrow> instant \<Rightarrow> (string \<Rightarrow> instant) \<Rightarrow> (string \<Rightarrow> instant) \<Rightarrow> 'tx \<Rightarrow>
   error + 'tx \<times> nat" where
  "sweepTx A cutoff nowAnswered nowOpen tx =
     ebind (dueAnsweredKeys A cutoff tx) (\<lambda>due.
     ebind (closeLoop (\<lambda>key. closeAnsweredItem A (nowAnswered key) key) due (tx, 0)) (\<lambda>(tx, closed).
     ebind (closeRedundantReraises A nowOpen tx) (\<lambda>(tx, reraises). Inr (tx, closed + reraises))))"

definition store_SweepAnswered ::
  "runtime \<Rightarrow> 'tx attentionStore \<Rightarrow> instant \<Rightarrow> (string \<Rightarrow> instant) \<Rightarrow> (string \<Rightarrow> instant) \<Rightarrow>
   duration \<Rightarrow> 'tx \<Rightarrow> 'tx \<times> (error + nat)" where
  "store_SweepAnswered R A now nowAnswered nowOpen maxAge s =
     (case ensureLiveIndex R A s of
        (s, Inl e) \<Rightarrow> (s, Inl e)
      | (s, Inr _) \<Rightarrow>
          (let cutoff = now + negDuration maxAge in
           db_Update (db A) s (sweepTx A cutoff nowAnswered nowOpen)))"

end
