(* ===== verification/WriteSpec.thy ===== *)
theory WriteSpec
  imports StoreRead
begin

text \<open>
  What the writing operations promise. An operation that changes one item is a
  function from that item to a verdict: refuse, keep the item as it is, or write
  another one. The abstract operation looks the item up, asks for the verdict and
  puts what is written; the refinement lemmas show that the transaction of the
  code, with its buckets, markers and four derived indexes, does exactly that.
\<close>

section \<open>Verdicts\<close>

datatype verdict = Refuse error | Keep Item | Write Item

definition spec_update ::
  "ItemID \<Rightarrow> (Item \<Rightarrow> verdict) \<Rightarrow> astore \<Rightarrow> astore \<times> (error + Item)" where
  "spec_update itemID f s =
     (case aItems s itemID of
        None \<Rightarrow> (s, Inl ErrItemNotFound)
      | Some i \<Rightarrow>
          (case f i of
             Refuse e \<Rightarrow> (s, Inl e)
           | Keep j \<Rightarrow> (s, Inr j)
           | Write j \<Rightarrow> (spec_put j s, Inr j)))"

definition answerVerdict ::
  "runtime \<Rightarrow> instant \<Rightarrow> string \<Rightarrow> string \<Rightarrow> Decision \<Rightarrow> Answer option \<Rightarrow> QuestionAnswer list \<Rightarrow>
   AnsweredClient option \<Rightarrow> AnswerRoute list \<Rightarrow> Item \<Rightarrow> verdict" where
  "answerVerdict R now by rby decision answer answers client route i =
     (let j = answeredItem now by rby decision answer answers client (firstRoute route) i in
      if State i = OpenState \<or>
         (State i = AnsweredState \<and> AnswerMechanism i = PermissionAnswerMechanism \<and> rby \<noteq> [])
      then (case validateAnswer R j of
              Some e \<Rightarrow> Refuse e
            | None \<Rightarrow> (case validateAnswers R j of Some e \<Rightarrow> Refuse e | None \<Rightarrow> Write j))
      else if State i = AnsweredState then Refuse ErrAlreadyAnswered
      else Refuse ErrIllegalTransition)"

definition escalateVerdict :: "instant \<Rightarrow> string \<Rightarrow> Item \<Rightarrow> verdict" where
  "escalateVerdict now by i =
     (if State i \<noteq> OpenState then Refuse ErrItemNotOpen
      else if EscalatedBy i = [] then Write (i\<lparr>EscalatedBy := by, EscalatedAt := Some now\<rparr>)
      else if EscalatedBy i = by then Keep i
      else Refuse ErrAlreadyEscalated)"

definition flagVerdict :: "instant \<Rightarrow> string \<Rightarrow> Item \<Rightarrow> verdict" where
  "flagVerdict now reason i =
     (if State i = OpenState then Write (i\<lparr>FlagReason := reason, FlaggedAt := Some now\<rparr>)
      else Refuse ErrItemNotOpen)"

definition unflagVerdict :: "Item \<Rightarrow> verdict" where
  "unflagVerdict i = Write (i\<lparr>FlagReason := [], FlaggedAt := None\<rparr>)"

definition rateVerdict :: "instant \<Rightarrow> Rating \<Rightarrow> Item \<Rightarrow> verdict" where
  "rateVerdict now rating i =
     Write (i\<lparr>Rating := rating, RatedAt := (if rating = NoRating then None else Some now)\<rparr>)"

definition closedItem :: "instant \<Rightarrow> string \<Rightarrow> AnsweredClient option \<Rightarrow> Item \<Rightarrow> Item" where
  "closedItem now by client i =
     (if State i = OpenState
      then i\<lparr>State := ClosedState, ClosedAt := Some now, AnsweredBy := by,
             AnsweredClient := (if by = [] then AnsweredClient i else client)\<rparr>
      else i\<lparr>State := ClosedState, ClosedAt := Some now\<rparr>)"

definition closeVerdict :: "instant \<Rightarrow> string \<Rightarrow> AnsweredClient option \<Rightarrow> Item \<Rightarrow> verdict" where
  "closeVerdict now by client i =
     (if State i \<noteq> OpenState \<and> State i \<noteq> AnsweredState then Refuse ErrIllegalTransition
      else if State i = OpenState \<and> AnswerMechanism i = PermissionAnswerMechanism \<and> by \<noteq> []
      then Refuse ErrPermissionCloseWithoutDecision
      else Write (closedItem now by client i))"

text \<open>Every written item is the same item: its id and dedup identity are kept.\<close>

definition sameAsk :: "Item \<Rightarrow> Item \<Rightarrow> bool" where
  "sameAsk i j \<longleftrightarrow> ItemID j = ItemID i \<and> ProducerID j = ProducerID i \<and> DedupKey j = DedupKey i \<and>
     ProducerKind j = ProducerKind i \<and> LivenessRef j = LivenessRef i \<and>
     AnswerMechanism j = AnswerMechanism i \<and> Risk j = Risk i \<and>
     AnswerCardinality j = AnswerCardinality i \<and> Questions j = Questions i"

lemma sameAskD:
  "sameAsk i j \<Longrightarrow> ItemID j = ItemID i" "sameAsk i j \<Longrightarrow> dkey j = dkey i"
  by (simp_all add: sameAsk_def dkey_def)

lemma stampAnswerRoute_fields [simp]:
  "State (stampAnswerRoute r i) = State i"
  "AnsweredAt (stampAnswerRoute r i) = AnsweredAt i"
  "AnsweredBy (stampAnswerRoute r i) = AnsweredBy i"
  "ResolvedBy (stampAnswerRoute r i) = ResolvedBy i"
  "Decision (stampAnswerRoute r i) = Decision i"
  "ClosedAt (stampAnswerRoute r i) = ClosedAt i"
  "sameAsk i (stampAnswerRoute r j) = sameAsk i j"
  by (simp_all add: stampAnswerRoute_def Let_def sameAsk_def)

lemma answeredItem_fields [simp]:
  "State (answeredItem now by rby d a as c r i) = AnsweredState"
  "AnsweredAt (answeredItem now by rby d a as c r i) = Some now"
  "AnsweredBy (answeredItem now by rby d a as c r i) = by"
  "ResolvedBy (answeredItem now by rby d a as c r i) = rby"
  "Decision (answeredItem now by rby d a as c r i) = (if Decision i = [] then d else Decision i)"
  "Answer (answeredItem now by rby d a as c r i) = a"
  "Answers (answeredItem now by rby d a as c r i) = as"
  "ClosedAt (answeredItem now by rby d a as c r i) = ClosedAt i"
  by (simp_all add: answeredItem_def Let_def)

lemma sameAsk_answeredItem: "sameAsk i (answeredItem now by rby d a as c r i)"
proof -
  have "sameAsk i (stampAnswerRoute r (i\<lparr>State := AnsweredState, AnsweredAt := Some now,
      AnsweredBy := by, ResolvedBy := rby\<rparr>))"
    unfolding stampAnswerRoute_fields by (simp add: sameAsk_def)
  then show ?thesis by (simp add: answeredItem_def Let_def sameAsk_def)
qed

lemma verdict_sameAsk:
  "answerVerdict R now by rby d a as c route i = Write j \<Longrightarrow> sameAsk i j"
  "escalateVerdict now by i = Write j \<Longrightarrow> sameAsk i j"
  "flagVerdict now reason i = Write j \<Longrightarrow> sameAsk i j"
  "unflagVerdict i = Write j \<Longrightarrow> sameAsk i j"
  "rateVerdict now rating i = Write j \<Longrightarrow> sameAsk i j"
  "closeVerdict now by c i = Write j \<Longrightarrow> sameAsk i j"
proof -
  show "answerVerdict R now by rby d a as c route i = Write j \<Longrightarrow> sameAsk i j"
    using sameAsk_answeredItem
    by (auto simp: answerVerdict_def Let_def split: if_splits option.splits)
qed (auto simp: escalateVerdict_def flagVerdict_def unflagVerdict_def rateVerdict_def
      closeVerdict_def closedItem_def sameAsk_def split: if_splits)

definition spec_Push ::
  "runtime \<Rightarrow> duration \<Rightarrow> probes \<Rightarrow> livenessChecker \<Rightarrow> error + ItemID \<Rightarrow> instant \<Rightarrow> PushRequest \<Rightarrow>
   astore \<Rightarrow> astore \<times> (error + Item)" where
  "spec_Push R w P c generated now req s =
     (case PushRequest_Validate R req of
        Some e \<Rightarrow> (s, Inl e)
      | None \<Rightarrow>
          (let s1 = s\<lparr>aDedup := spec_build openIndexWorthy dedupIndexKey (aItems s) (aDedup s)\<rparr>;
               create = (case newItem R generated now req of
                           Inl e \<Rightarrow> (s, Inl e)
                         | Inr i \<Rightarrow> (spec_put i s1, Inr i))
           in (case aDedup s1 (dedupIndexKeyOf (req_ProducerID req) (req_DedupKey req)) of
                 None \<Rightarrow> create
               | Some e \<Rightarrow>
                   (case isProducerLive R w P c e of
                      Inl err \<Rightarrow> (s, Inl err)
                    | Inr live \<Rightarrow>
                        (if live then (spec_put (repushed req now e) s1, Inr (repushed req now e))
                         else create)))))"

definition spec_RecordAttempt ::
  "runtime \<Rightarrow> instant \<Rightarrow> ItemID \<Rightarrow> string \<Rightarrow> DeliveryOutcome \<Rightarrow> astore \<Rightarrow>
   astore \<times> (error + DeliveryAttempt)" where
  "spec_RecordAttempt R now itemID carrier outcome s =
     (let attempt = \<lparr>att_ItemID = itemID, att_Carrier = carrier, att_Outcome = outcome,
                     att_AttemptedAt = now\<rparr> in
      if aItems s itemID = None then (s, Inl ErrItemNotFound)
      else (case DeliveryAttempt_Validate R attempt of
              Some e \<Rightarrow> (s, Inl e)
            | None \<Rightarrow> (s\<lparr>aAttempts := (aAttempts s)(itemID \<mapsto> attempt)\<rparr>, Inr attempt)))"

definition deliveryStatus :: "Item \<Rightarrow> DeliveryAttempt option \<Rightarrow> string" where
  "deliveryStatus item attempt =
     (case attempt of
        Some a \<Rightarrow> (if att_Outcome a = DeliveredOutcome then DeliveredStatus
                   else if att_Outcome a = HeldOutcome then HeldStatus else FailedStatus)
      | None \<Rightarrow>
          (if (case AnsweredAt item of Some t \<Rightarrow> t | None \<Rightarrow> CreatedAt item) < DeliveryTrailEpoch
           then PreTrailUnknownStatus else NeverAttemptedStatus))"

definition spec_Delivery :: "ItemID \<Rightarrow> astore \<Rightarrow> error + DeliveryReport" where
  "spec_Delivery itemID s =
     (case aItems s itemID of
        None \<Rightarrow> Inl ErrItemNotFound
      | Some item \<Rightarrow>
          Inr \<lparr>rep_ItemID = itemID, rep_Status = deliveryStatus item (aAttempts s itemID),
               rep_Carrier = (case aAttempts s itemID of Some a \<Rightarrow> att_Carrier a | None \<Rightarrow> []),
               rep_AttemptedAt = map_option att_AttemptedAt (aAttempts s itemID)\<rparr>)"

section \<open>Refinement\<close>

context store_lib
begin

lemma getItem_abs:
  "getItem (NewAttentionStore K w) itemID tx =
     (case aItems (\<alpha> tx) itemID of None \<Rightarrow> Inl ErrItemNotFound | Some i \<Rightarrow> Inr i)"
  by (simp add: getItem_def item_Get_abs split: option.splits)

lemma writeBack_ok:
  assumes "ItemID i \<noteq> []"
  shows "\<exists>tx'. writeBack (NewAttentionStore K w) i tx = Inr (tx', i) \<and> \<alpha> tx' = spec_put i (\<alpha> tx)"
  using putItem_yields[OF assms, of w tx] by (auto simp: writeBack_def yields_def)

lemma db_Update_abs:
  "map_prod \<alpha> id (db_Update K s body) =
     (case body s of Inl e \<Rightarrow> (\<alpha> s, Inl e) | Inr (s', r) \<Rightarrow> (\<alpha> s', Inr r))"
  by (simp add: db_Update_def split: sum.splits prod.splits)

lemma update_refines:
  assumes wf: "wfItems (aItems (\<alpha> s))"
    and h: "\<And>i. aItems (\<alpha> s) itemID = Some i \<Longrightarrow> h i s =
      (case f i of Refuse e \<Rightarrow> Inl e | Keep j \<Rightarrow> Inr (s, j)
       | Write j \<Rightarrow> writeBack (NewAttentionStore K w) j s)"
    and same: "\<And>i j. f i = Write j \<Longrightarrow> sameAsk i j"
  shows "map_prod \<alpha> id (db_Update K s (\<lambda>tx. ebind (getItem (NewAttentionStore K w) itemID tx) (\<lambda>i. h i tx)))
     = spec_update itemID f (\<alpha> s)"
proof (cases "aItems (\<alpha> s) itemID")
  case None
  then show ?thesis by (simp add: db_Update_abs getItem_abs spec_update_def)
next
  case (Some i)
  show ?thesis
  proof (cases "f i")
    case (Write j)
    have "ItemID j \<noteq> []"
      using wfItemsD[OF wf Some] sameAskD(1)[OF same[OF Write]] by (auto simp: keyable_def)
    then show ?thesis
      using writeBack_ok[of j w s] Some Write
      by (auto simp: db_Update_abs getItem_abs spec_update_def h[OF Some])
  qed (simp_all add: db_Update_abs getItem_abs spec_update_def h[OF Some] Some)
qed

lemma store_Flag_refines:
  assumes "wfItems (aItems (\<alpha> s))"
  shows "map_prod \<alpha> id (store_Flag (NewAttentionStore K w) now itemID reason s) =
    (if TrimSpace reason = [] then (\<alpha> s, Inl ErrFlagReasonRequired)
     else spec_update itemID (flagVerdict now reason) (\<alpha> s))"
proof (cases "TrimSpace reason = []")
  case False
  then show ?thesis
    unfolding store_Flag_def NewAttentionStore_simps if_not_P[OF False]
    by (intro update_refines[OF assms _ verdict_sameAsk(3)]) (auto simp: flagVerdict_def)
qed (simp add: store_Flag_def)

lemma store_Unflag_refines:
  assumes "wfItems (aItems (\<alpha> s))"
  shows "map_prod \<alpha> id (store_Unflag (NewAttentionStore K w) itemID s) =
    spec_update itemID unflagVerdict (\<alpha> s)"
  unfolding store_Unflag_def NewAttentionStore_simps
  by (intro update_refines[OF assms _ verdict_sameAsk(4)]) (auto simp: unflagVerdict_def)

lemma store_Rate_refines:
  assumes "wfItems (aItems (\<alpha> s))"
  shows "map_prod \<alpha> id (store_Rate R (NewAttentionStore K w) now itemID rating s) =
    (case Rating_Validate R rating of Some e \<Rightarrow> (\<alpha> s, Inl e)
     | None \<Rightarrow> spec_update itemID (rateVerdict now rating) (\<alpha> s))"
proof (cases "Rating_Validate R rating")
  case None
  show ?thesis
    unfolding store_Rate_def NewAttentionStore_simps None option.case
    by (intro update_refines[OF assms _ verdict_sameAsk(5)]) (auto simp: rateVerdict_def Let_def)
qed (simp add: store_Rate_def)

lemma store_Escalate_refines:
  assumes "wfItems (aItems (\<alpha> s))"
  shows "map_prod \<alpha> id (store_Escalate (NewAttentionStore K w) now itemID by s) =
    (case SessionID_Validate by of Some e \<Rightarrow> (\<alpha> s, Inl e)
     | None \<Rightarrow> spec_update itemID (escalateVerdict now by) (\<alpha> s))"
proof (cases "SessionID_Validate by")
  case None
  show ?thesis
    unfolding store_Escalate_def NewAttentionStore_simps None option.case
    by (intro update_refines[OF assms _ verdict_sameAsk(2)]) (auto simp: escalateVerdict_def)
qed (simp add: store_Escalate_def)

lemma store_Close_refines:
  assumes "wfItems (aItems (\<alpha> s))"
  shows "map_prod \<alpha> id (store_Close (NewAttentionStore K w) now itemID by client s) =
    spec_update itemID (closeVerdict now by client) (\<alpha> s)"
proof -
  have illegal: "ValidateTransition st ClosedState = Some ErrIllegalTransition"
    if "st \<noteq> OpenState" "st \<noteq> AnsweredState" for st
    using that ValidateTransition_cases[of st ClosedState] by (auto simp: ValidateTransition_None)
  show ?thesis
    unfolding store_Close_def NewAttentionStore_simps
    by (intro update_refines[OF assms _ verdict_sameAsk(6)])
       (auto simp: closeVerdict_def closedItem_def Let_def illegal)
qed

lemma store_Answer_refines:
  assumes "wfItems (aItems (\<alpha> s))"
  shows "map_prod \<alpha> id (store_Answer R (NewAttentionStore K w) now itemID by rby d a as c route s) =
    map_prod id (map_sum id Some)
      (spec_update itemID (answerVerdict R now by rby d a as c route) (\<alpha> s))"
proof (cases "aItems (\<alpha> s) itemID")
  case None
  then show ?thesis by (simp add: store_Answer_def db_Update_abs getItem_abs spec_update_def)
next
  case (Some i)
  let ?j = "answeredItem now by rby d a as c (firstRoute route) i"
  have "ItemID ?j \<noteq> []"
    using wfItemsD[OF assms Some] sameAskD(1)[OF sameAsk_answeredItem[of i]]
    by (auto simp: keyable_def)
  then obtain tx' where wb: "writeBack (NewAttentionStore K w) ?j s = Inr (tx', ?j)"
    "\<alpha> tx' = spec_put ?j (\<alpha> s)"
    using writeBack_ok by blast
  have illegal: "ValidateTransition st AnsweredState = Some ErrIllegalTransition"
    if "st \<noteq> OpenState" for st
    using that ValidateTransition_cases[of st AnsweredState] by (auto simp: ValidateTransition_None)
  show ?thesis
    by (cases "validateAnswer R ?j"; cases "validateAnswers R ?j")
       (auto simp: store_Answer_def Let_def db_Update_abs getItem_abs spec_update_def Some
        answerVerdict_def illegal wb)
qed

lemma store_Get_abs:
  "store_Get (NewAttentionStore K w) itemID s =
     (case aItems (\<alpha> s) itemID of None \<Rightarrow> Inl ErrItemNotFound | Some i \<Rightarrow> Inr i)"
  by (simp add: store_Get_def db_View_def getItem_abs)

lemma findOpenByDedupKey_abs:
  "findOpenByDedupKey (NewAttentionStore K w) req tx =
     Inr (aDedup (\<alpha> tx) (dedupIndexKeyOf (req_ProducerID req) (req_DedupKey req)))"
  by (simp add: findOpenByDedupKey_def dedup_Get_cases split: option.splits)

lemma newItem_Inr:
  "newItem R generated now req = Inr i \<Longrightarrow>
   \<exists>itemID. generated = Inr itemID \<and> i = itemOfRequest itemID now req \<and> Item_Validate R i = None \<and>
     itemID \<noteq> []"
  by (auto simp: newItem_def ebind_eq_Inr guardE_eq_Inr Let_def Item_Validate_def itemOfRequest_def)

lemma store_Push_refines:
  assumes wf: "wfItems (aItems (\<alpha> s))"
    and sound: "idxSound openIndexWorthy dkey (aItems (\<alpha> s)) (aDedup (\<alpha> s))"
  shows "map_prod \<alpha> id (store_Push R (NewAttentionStore K w) P c generated now req s) =
    spec_Push R w P c generated now req (\<alpha> s)"
proof (cases "PushRequest_Validate R req")
  case None
  let ?k = "dedupIndexKeyOf (req_ProducerID req) (req_DedupKey req)"
  let ?idx = "spec_build openIndexWorthy dedupIndexKey (aItems (\<alpha> s)) (aDedup (\<alpha> s))"
  obtain tx1 where tx1: "ensureDedupIndex R (NewAttentionStore K w) s = Inr tx1"
    "\<alpha> tx1 = (\<alpha> s)\<lparr>aDedup := ?idx\<rparr>"
    by (rule yieldsE[OF ensureDedupIndex_yields])
  let ?body = "\<lambda>(tx, updated). case updated of Some item \<Rightarrow> Inr (tx, item)
      | None \<Rightarrow> ebind (newItem R generated now req) (\<lambda>item. writeBack (NewAttentionStore K w) item tx)"
  have create: "(case ?body (tx1, None) of Inl e \<Rightarrow> (\<alpha> s, Inl e) | Inr (s', r) \<Rightarrow> (\<alpha> s', Inr r)) =
      (case newItem R generated now req of Inl e \<Rightarrow> (\<alpha> s, Inl e)
       | Inr i \<Rightarrow> (spec_put i ((\<alpha> s)\<lparr>aDedup := ?idx\<rparr>), Inr i))"
  proof (cases "newItem R generated now req")
    case (Inr i)
    then have "ItemID i \<noteq> []" using newItem_Inr[OF Inr] by (auto simp: itemOfRequest_def)
    then show ?thesis using writeBack_ok[of i w tx1] Inr tx1(2) by auto
  qed simp
  have push: "map_prod \<alpha> id (store_Push R (NewAttentionStore K w) P c generated now req s) =
      (case ebind (updateExistingIfLive R (NewAttentionStore K w) P c now req tx1) ?body of
         Inl e \<Rightarrow> (\<alpha> s, Inl e) | Inr (s', r) \<Rightarrow> (\<alpha> s', Inr r))"
    by (simp add: store_Push_def None db_Update_abs tx1(1))
  show ?thesis
  proof (cases "?idx ?k")
    case None
    then have "updateExistingIfLive R (NewAttentionStore K w) P c now req tx1 = Inr (tx1, None)"
      by (simp add: updateExistingIfLive_def findOpenByDedupKey_abs tx1(2))
    then show ?thesis
      using create None \<open>PushRequest_Validate R req = None\<close> by (simp add: push spec_Push_def Let_def)
  next
    case (Some e)
    have "entries ?idx ?k = Some e" using Some by (simp add: entries_at)
    then have "aItems (\<alpha> s) (ItemID e) = Some e"
      using idxSoundD[OF dedup_build_sound[OF finite_abs(1) wf sound]] by blast
    then have "keyable e" using wfItemsD[OF wf] by blast
    then have "ItemID (repushed req now e) \<noteq> []" by (simp add: repushed_def keyable_def)
    then obtain tx2 where wb:
      "writeBack (NewAttentionStore K w) (repushed req now e) tx1 = Inr (tx2, repushed req now e)"
      "\<alpha> tx2 = spec_put (repushed req now e) (\<alpha> tx1)"
      using writeBack_ok by blast
    have upd: "updateExistingIfLive R (NewAttentionStore K w) P c now req tx1 =
        ebind (isProducerLive R w P c e) (\<lambda>live.
          if \<not> live then Inr (tx1, None) else Inr (tx2, Some (repushed req now e)))"
      by (cases "isProducerLive R w P c e")
         (simp_all add: updateExistingIfLive_def findOpenByDedupKey_abs tx1(2) Some wb(1))
    show ?thesis
      using create Some \<open>PushRequest_Validate R req = None\<close> wb(2) tx1(2)
      by (cases "isProducerLive R w P c e") (simp_all add: push spec_Push_def Let_def upd)
  qed
qed (simp add: store_Push_def spec_Push_def)

lemma store_RecordAttempt_refines:
  assumes wf: "wfItems (aItems (\<alpha> s))"
  shows "map_prod \<alpha> id (store_RecordAttempt R (NewAttentionStore K w) now itemID carrier outcome s) =
    spec_RecordAttempt R now itemID carrier outcome (\<alpha> s)"
proof (cases "aItems (\<alpha> s) itemID")
  case None
  then show ?thesis
    by (simp add: store_RecordAttempt_def spec_RecordAttempt_def db_Update_abs getItem_abs Let_def)
next
  case (Some i)
  then have "itemID \<noteq> []" using wfItemsD[OF wf Some] by (auto simp: keyable_def)
  then show ?thesis
    using Some
    by (cases "DeliveryAttempt_Validate R \<lparr>att_ItemID = itemID, att_Carrier = carrier,
          att_Outcome = outcome, att_AttemptedAt = now\<rparr>")
       (simp_all add: store_RecordAttempt_def spec_RecordAttempt_def db_Update_abs getItem_abs
        Let_def attempt_Add abs_added)
qed

lemma store_Delivery_refines:
  "store_Delivery (NewAttentionStore K w) itemID s = spec_Delivery itemID (\<alpha> s)"
  by (simp add: store_Delivery_def spec_Delivery_def db_View_def getItem_abs attempt_Get_abs
      deliveryStatus_def Let_def split: option.splits)

end

end
