(* ===== verification/ReadSpec.thy ===== *)
theory ReadSpec
  imports WriteSpec
begin

text \<open>
  What the reads, the prune and the sweep promise, on the abstract store: a read
  classifies exactly the worthy items in key order, a prune removes a key only
  after it has checked the item again, and the sweep closes the answered items
  past their age and the open re-raises of an answered ask. Each abstract
  operation is refined by the code's, transactions and indexes included.
\<close>

section \<open>Pruning and reading\<close>

definition spec_pruneStep ::
  "runtime \<Rightarrow> duration \<Rightarrow> probes \<Rightarrow> instant \<Rightarrow> astore \<times> readSessionLiveness \<Rightarrow> string \<Rightarrow>
   error + astore \<times> readSessionLiveness" where
  "spec_pruneStep R w P now acc key =
     (case acc of (s, l) \<Rightarrow>
      (case aItems s key of
         None \<Rightarrow> Inr (s, l)
       | Some i \<Rightarrow>
           (if State i \<noteq> OpenState then Inr (s, l)
            else if isExpired i now then Inr (spec_remove key s, l)
            else ebind (isProducerLiveWith R w P (read_IsLive R) i l) (\<lambda>(live, l).
              Inr (if live then s else spec_remove key s, l)))))"

definition spec_pruneDead ::
  "runtime \<Rightarrow> duration \<Rightarrow> readings \<Rightarrow> string list \<Rightarrow> astore \<Rightarrow> astore \<times> (error + unit)" where
  "spec_pruneDead R w rd keys s =
     (case efold (spec_pruneStep R w (rd_probes rd) (rd_now rd))
             (s, resolveNow R (newReadSessionLiveness (rd_checker rd))) keys of
        Inl e \<Rightarrow> (s, Inl e)
      | Inr (s', _) \<Rightarrow> (s', Inr ()))"

definition worthyItems :: "(Item \<Rightarrow> bool) \<Rightarrow> (string \<rightharpoonup> Item) \<Rightarrow> (string \<rightharpoonup> Item)" where
  "worthyItems worthy items k =
     (case items k of None \<Rightarrow> None | Some i \<Rightarrow> (if worthy i then Some i else None))"

definition built_for_read :: "bool \<Rightarrow> astore \<Rightarrow> astore" where
  "built_for_read includeAnswered s =
     (if includeAnswered
      then s\<lparr>aLive := spec_build liveIndexWorthy itemIDIndexKey (aItems s) (aLive s)\<rparr>
      else s\<lparr>aOpen := spec_build openIndexWorthy itemIDIndexKey (aItems s) (aOpen s)\<rparr>)"

text \<open>The reference read: a scan of every item, with no index.\<close>

definition spec_read ::
  "runtime \<Rightarrow> duration \<Rightarrow> bool \<Rightarrow> readings \<Rightarrow> readings \<Rightarrow> astore \<Rightarrow> astore \<times> (error + Item list)" where
  "spec_read R w includeAnswered rd rdPrune s =
     (let s1 = built_for_read includeAnswered s;
          worthy = (if includeAnswered then liveIndexWorthy else openIndexWorthy) in
      case classifyAll R w (rd_probes rd) includeAnswered (rd_now rd)
             (sorted_entries (worthyItems worthy (aItems s)))
             (newReadSessionLiveness (rd_checker rd)) of
        Inl e \<Rightarrow> (s1, Inl e)
      | Inr (kept, dead) \<Rightarrow>
          (let (s2, res) = spec_pruneDead R w rdPrune dead s1 in
           (s2, map_sum id (\<lambda>_. if includeAnswered then suppressAnsweredTwins kept else kept) res)))"

section \<open>Closing in bulk\<close>

definition spec_closeIn :: "State \<Rightarrow> instant \<Rightarrow> string \<Rightarrow> astore \<Rightarrow> astore \<times> bool" where
  "spec_closeIn expected now key s =
     (case aItems s key of
        None \<Rightarrow> (s, False)
      | Some i \<Rightarrow>
          (if State i = expected then (spec_put (i\<lparr>State := ClosedState, ClosedAt := Some now\<rparr>) s, True)
           else (s, False)))"

definition spec_closeLoop ::
  "State \<Rightarrow> (string \<Rightarrow> instant) \<Rightarrow> string list \<Rightarrow> astore \<times> nat \<Rightarrow> astore \<times> nat" where
  "spec_closeLoop expected nowAt due acc =
     fold (\<lambda>key (s, n). case spec_closeIn expected (nowAt key) key s of
             (s', did) \<Rightarrow> (s', if did then Suc n else n)) due acc"

definition isDue :: "instant \<Rightarrow> Item \<Rightarrow> bool" where
  "isDue cutoff i \<longleftrightarrow> State i = AnsweredState \<and> (\<exists>t. AnsweredAt i = Some t \<and> t < cutoff)"

definition answeredAsks :: "(string \<rightharpoonup> Item) \<Rightarrow> string set" where
  "answeredAsks items = {askIdentity i | k i. items k = Some i \<and> State i = AnsweredState}"

definition isReraise :: "string set \<Rightarrow> Item \<Rightarrow> bool" where
  "isReraise asks i \<longleftrightarrow> State i = OpenState \<and> askIdentity i \<in> asks"

definition dueKeys :: "(Item \<Rightarrow> bool) \<Rightarrow> (string \<rightharpoonup> Item) \<Rightarrow> string list" where
  "dueKeys P items = map fst (sorted_entries (worthyItems P items))"

definition spec_sweep ::
  "instant \<Rightarrow> (string \<Rightarrow> instant) \<Rightarrow> (string \<Rightarrow> instant) \<Rightarrow> astore \<Rightarrow> astore \<times> nat" where
  "spec_sweep cutoff nowAnswered nowOpen s =
     (let (s1, n) = spec_closeLoop AnsweredState nowAnswered (dueKeys (isDue cutoff) (aItems s)) (s, 0);
          (s2, m) = spec_closeLoop OpenState nowOpen
                      (dueKeys (isReraise (answeredAsks (aItems s1))) (aItems s1)) (s1, 0)
      in (s2, n + m))"

section \<open>Exact indexes\<close>

lemma worthyItems_Some [simp]:
  "worthyItems worthy items k = Some i \<longleftrightarrow> items k = Some i \<and> worthy i"
  by (auto simp: worthyItems_def split: option.splits)

lemma finite_worthyItems [simp]: "finite (dom items) \<Longrightarrow> finite (dom (worthyItems worthy items))"
  by (rule finite_subset[of _ "dom items"]) (auto simp: worthyItems_def split: option.splits)

text \<open>A sound and complete index keyed by item id is the worthy part of the items.\<close>

lemma index_is_worthyItems:
  assumes "wfItems items" and "idxSound worthy ItemID items idx" "idxComplete worthy ItemID items idx"
    and "built idx"
  shows "entries idx = worthyItems worthy items"
proof (rule ext)
  fix k
  have "entries idx k = Some i \<longleftrightarrow> worthyItems worthy items k = Some i" for i
    using assms wfItemsD[OF assms(1), of k i] idxSoundD[OF assms(2), of k i]
    by (auto simp: idxComplete_def)
  then show "entries idx k = worthyItems worthy items k" by (metis option.exhaust)
qed

lemma built_build [simp]: "built (spec_build worthy keyOf items idx)"
  by (simp add: spec_build_def)

lemma storeInv_built_for_read: "storeInv s \<Longrightarrow> storeInv (built_for_read b s)"
  by (simp add: built_for_read_def storeInv_build)

lemma storeInv_wf: "storeInv s \<Longrightarrow> wfItems (aItems s)"
  by (simp add: storeInv_def)

lemma aItems_built_for_read [simp]: "aItems (built_for_read b s) = aItems s"
  by (simp add: built_for_read_def)

lemma built_for_read_entries:
  assumes "storeInv s"
  shows "entries (aLive (built_for_read True s)) = worthyItems liveIndexWorthy (aItems s)"
    and "entries (aOpen (built_for_read False s)) = worthyItems openIndexWorthy (aItems s)"
proof -
  note inv = storeInv_built_for_read[OF assms, of True] storeInv_built_for_read[OF assms, of False]
  show "entries (aLive (built_for_read True s)) = worthyItems liveIndexWorthy (aItems s)"
    using inv(1) by (intro index_is_worthyItems) (simp_all add: storeInv_def built_for_read_def)
  show "entries (aOpen (built_for_read False s)) = worthyItems openIndexWorthy (aItems s)"
    using inv(2) by (intro index_is_worthyItems) (simp_all add: storeInv_def built_for_read_def)
qed

section \<open>Refinement of the prune and the reads\<close>

context store_lib
begin

lemma stillRemovable_abs:
  "stillRemovable R (NewAttentionStore K w) P now tx key l =
     (case aItems (\<alpha> tx) key of
        None \<Rightarrow> Inr (False, l)
      | Some i \<Rightarrow>
          (if State i \<noteq> OpenState then Inr (False, l)
           else if isExpired i now then Inr (True, l)
           else ebind (isProducerLiveWith R w P (read_IsLive R) i l) (\<lambda>(live, l). Inr (\<not> live, l))))"
  by (simp add: stillRemovable_def item_Get_abs split: option.splits)

lemma pruneStep_refines:
  "map_sum id (map_prod \<alpha> id) (pruneStep R (NewAttentionStore K w) P now acc key) =
     spec_pruneStep R w P now (map_prod \<alpha> id acc) key"
proof -
  obtain tx l where acc: "acc = (tx, l)" by (cases acc)
  obtain tx' where rm: "removeItem (NewAttentionStore K w) key tx = Inr tx'"
    "\<alpha> tx' = spec_remove key (\<alpha> tx)"
    by (rule yieldsE[OF removeItem_yields])
  show ?thesis
  proof (cases "aItems (\<alpha> tx) key")
    case None
    then show ?thesis by (simp add: acc pruneStep_def stillRemovable_abs spec_pruneStep_def)
  next
    case (Some i)
    then show ?thesis
      by (cases "isProducerLiveWith R w P (read_IsLive R) i l")
         (auto simp: acc pruneStep_def stillRemovable_abs spec_pruneStep_def rm)
  qed
qed

lemma pruneDead_refines:
  "map_prod \<alpha> id (pruneDead R (NewAttentionStore K w) rd keys s) = spec_pruneDead R w rd keys (\<alpha> s)"
proof (cases "keys = []")
  case False
  let ?l = "resolveNow R (newReadSessionLiveness (rd_checker rd))"
  have "map_sum id (map_prod \<alpha> id) (efold (pruneStep R (NewAttentionStore K w) (rd_probes rd) (rd_now rd)) (s, ?l) keys)
      = efold (spec_pruneStep R w (rd_probes rd) (rd_now rd)) (\<alpha> s, ?l) keys"
    by (subst efold_sim[where I = "\<lambda>_. True" and
          g = "spec_pruneStep R w (rd_probes rd) (rd_now rd)"])
       (simp_all add: pruneStep_refines)
  note loop = this[symmetric]
  show ?thesis
    using False
    by (cases "efold (pruneStep R (NewAttentionStore K w) (rd_probes rd) (rd_now rd)) (s, ?l) keys")
       (auto simp: pruneDead_def spec_pruneDead_def db_Update_abs Let_def loop split: prod.splits)
qed (simp add: pruneDead_def spec_pruneDead_def)

lemma store_read_refines:
  assumes inv: "storeInv (\<alpha> s)"
  shows "map_prod \<alpha> id (store_read R (NewAttentionStore K w) b rd rdP s) = spec_read R w b rd rdP (\<alpha> s)"
proof -
  have ok: "okKeys (\<alpha> s)" using inv storeInv_okKeys by (simp add: okKeys_def)
  let ?worthy = "if b then liveIndexWorthy else openIndexWorthy"
  let ?es = "sorted_entries (worthyItems ?worthy (aItems (\<alpha> s)))"
  have "\<exists>s1. (if b then readItems R (NewAttentionStore K w) s else readOpenItems R (NewAttentionStore K w) s)
      = (s1, Inr ?es) \<and> \<alpha> s1 = built_for_read b (\<alpha> s)"
    using readItems_ok[OF ok, of w] readOpenItems_ok[OF ok, of w] built_for_read_entries[OF inv]
    by (cases b) (auto simp: built_for_read_def)
  then obtain s1 where s1: "(if b then readItems R (NewAttentionStore K w) s
      else readOpenItems R (NewAttentionStore K w) s) = (s1, Inr ?es)" "\<alpha> s1 = built_for_read b (\<alpha> s)"
    by blast
  let ?c = "classifyAll R w (rd_probes rd) b (rd_now rd) ?es (newReadSessionLiveness (rd_checker rd))"
  show ?thesis
  proof (cases ?c)
    case (Inl e)
    then show ?thesis
      unfolding store_read_def s1(1) by (simp add: spec_read_def s1(2) Let_def)
  next
    case (Inr kd)
    obtain kept dead where kd: "kd = (kept, dead)" by (cases kd)
    obtain s2 res where pd: "pruneDead R (NewAttentionStore K w) rdP dead s1 = (s2, res)"
      by (cases "pruneDead R (NewAttentionStore K w) rdP dead s1")
    have "spec_pruneDead R w rdP dead (\<alpha> s1) = (\<alpha> s2, res)"
      using pruneDead_refines[of w rdP dead s1] pd by simp
    then show ?thesis
      using Inr kd pd unfolding store_read_def s1(1)
      by (cases res) (simp_all add: spec_read_def s1(2)[symmetric] Let_def)
  qed
qed

end

section \<open>Scans of an exact index\<close>

lemma filter_sorted_worthy:
  assumes "finite (dom m)"
  shows "filter (\<lambda>e. P (snd e)) (sorted_entries m) = sorted_entries (worthyItems P m)"
proof -
  have "filter (\<lambda>k. P (the (m k))) (sorted_list_of_set (dom m)) = sorted_list_of_set (dom (worthyItems P m))"
    using assms
    by (intro sorted_distinct_set_unique)
       (auto simp: sorted_wrt_filter worthyItems_def split: option.splits if_splits)
  moreover have "the (worthyItems P m k) = the (m k)" if "k \<in> dom (worthyItems P m)" for k
    using that by (auto simp: worthyItems_def split: option.splits if_splits)
  ultimately show ?thesis
    using assms by (auto simp: sorted_entries_def filter_map comp_def)
qed

lemma worthyItems_nested:
  "(\<And>i. P i \<Longrightarrow> Q i) \<Longrightarrow> worthyItems P (worthyItems Q m) = worthyItems P m"
  by (rule ext) (auto simp: worthyItems_def split: option.splits)

lemma scan_live:
  assumes inv: "storeInv s" and b: "built (aLive s)" and fin: "finite (dom (aLive s))"
    and live: "\<And>i. P i \<Longrightarrow> liveIndexWorthy i"
  shows "filter (\<lambda>(key, item). key \<noteq> liveIndexMarkerKey \<and> P item) (sorted_entries (aLive s)) =
    sorted_entries (worthyItems P (aItems s))"
proof -
  have "filter (\<lambda>(key, item). key \<noteq> liveIndexMarkerKey \<and> P item) (sorted_entries (aLive s)) =
      filter (\<lambda>e. P (snd e)) (filter (\<lambda>e. fst e \<noteq> liveIndexMarkerKey) (sorted_entries (aLive s)))"
    by (auto simp: intro!: filter_cong)
  also have "filter (\<lambda>e. fst e \<noteq> liveIndexMarkerKey) (sorted_entries (aLive s)) =
      sorted_entries (entries (aLive s))"
    using fin by (simp add: filter_sorted_entries entries_def)
  also have "entries (aLive s) = worthyItems liveIndexWorthy (aItems s)"
    using inv b by (intro index_is_worthyItems) (simp_all add: storeInv_def)
  also have "filter (\<lambda>e. P (snd e)) (sorted_entries (worthyItems liveIndexWorthy (aItems s))) =
      sorted_entries (worthyItems P (aItems s))"
    using inv live by (subst filter_sorted_worthy) (simp_all add: storeInv_def worthyItems_nested)
  finally show ?thesis .
qed

section \<open>Closing keeps the invariant\<close>

definition closedNow :: "instant \<Rightarrow> Item \<Rightarrow> Item" where
  "closedNow now i = i\<lparr>State := ClosedState, ClosedAt := Some now\<rparr>"

lemma closedNow_same [simp]:
  "ItemID (closedNow now i) = ItemID i" "dkey (closedNow now i) = dkey i"
  "keyable (closedNow now i) = keyable i" "State (closedNow now i) = ClosedState"
  by (simp_all add: closedNow_def dkey_def keyable_def)

lemma spec_closeIn_eq:
  "spec_closeIn expected now key s =
     (case aItems s key of
        None \<Rightarrow> (s, False)
      | Some i \<Rightarrow> (if State i = expected then (spec_put (closedNow now i) s, True) else (s, False)))"
  by (cases "aItems s key") (simp_all add: spec_closeIn_def closedNow_def)

definition sweepInv :: "astore \<Rightarrow> bool" where
  "sweepInv s \<longleftrightarrow> storeInv s \<and> built (aLive s)"

lemma sweepInv_put:
  assumes "sweepInv s" and i: "aItems s (ItemID i) = Some i" and j: "ItemID j = ItemID i" "dkey j = dkey i"
  shows "sweepInv (spec_put j s)"
proof -
  have inv: "storeInv s" and b: "built (aLive s)" using assms by (simp_all add: sweepInv_def)
  have wf: "wfItems (aItems s)" using inv by (rule storeInv_wf)
  have k: "keyable i" using wfItemsD[OF wf i] by simp
  then have kj: "keyable j" using j by (simp add: keyable_def)
  have "storeInv (spec_put j s)"
    using i j by (intro storeInv_put[OF inv kj]) simp
  moreover have "built (aLive (spec_put j s))"
    unfolding spec_put_indexes(1)[OF wf]
    using b i k kj j(1) by (subst live.built_put) (simp_all add: marked_def)
  ultimately show ?thesis by (simp add: sweepInv_def)
qed

lemma sweepInv_closeIn: "sweepInv s \<Longrightarrow> sweepInv (fst (spec_closeIn expected now key s))"
proof -
  assume inv: "sweepInv s"
  show ?thesis
  proof (cases "aItems s key")
    case None
    then show ?thesis using inv by (simp add: spec_closeIn_eq)
  next
    case (Some i)
    have "ItemID i = key" using wfItemsD[OF storeInv_wf Some] inv by (simp add: sweepInv_def)
    then have "sweepInv (spec_put (closedNow now i) s)"
      using Some by (intro sweepInv_put[OF inv, of i]) simp_all
    then show ?thesis using inv Some by (simp add: spec_closeIn_eq)
  qed
qed

lemma sweepInv_closeLoop: "sweepInv (fst acc) \<Longrightarrow> sweepInv (fst (spec_closeLoop expected nowAt due acc))"
proof (induction due arbitrary: acc)
  case (Cons key due)
  obtain s n where acc: "acc = (s, n)" by (cases acc)
  obtain s' d where c: "spec_closeIn expected (nowAt key) key s = (s', d)" by fastforce
  have "sweepInv s'" using sweepInv_closeIn[of s expected "nowAt key" key] Cons.prems c acc by simp
  then show ?case
    using Cons.IH[of "(s', if d then Suc n else n)"] by (simp add: spec_closeLoop_def acc c)
qed (simp add: spec_closeLoop_def)

text \<open>What a bulk close does to the items and to its count.\<close>

lemma spec_closeIn_items:
  assumes "wfItems (aItems s)"
  shows "aItems (fst (spec_closeIn expected now key s)) =
     (\<lambda>k. if k = key then map_option (\<lambda>i. if State i = expected then closedNow now i else i) (aItems s k)
          else aItems s k)"
    and "snd (spec_closeIn expected now key s) \<longleftrightarrow> (\<exists>i. aItems s key = Some i \<and> State i = expected)"
  using wfItemsD[OF assms, of key]
  by (auto simp: spec_closeIn_eq fun_eq_iff split: option.splits)

lemma spec_closeLoop_items:
  assumes "sweepInv s" and "expected \<noteq> ClosedState" and "distinct due"
  shows "aItems (fst (spec_closeLoop expected nowAt due (s, n))) =
     (\<lambda>k. if k \<in> set due
          then map_option (\<lambda>i. if State i = expected then closedNow (nowAt k) i else i) (aItems s k)
          else aItems s k)
    \<and> snd (spec_closeLoop expected nowAt due (s, n)) =
      n + length (filter (\<lambda>k. \<exists>i. aItems s k = Some i \<and> State i = expected) due)"
  using assms
proof (induction due arbitrary: s n)
  case (Cons key due)
  obtain s' d where c: "spec_closeIn expected (nowAt key) key s = (s', d)" by fastforce
  have wf: "wfItems (aItems s)" using Cons.prems(1) by (simp add: sweepInv_def storeInv_wf)
  have s': "sweepInv s'" using sweepInv_closeIn[of s expected "nowAt key" key] Cons.prems c by simp
  note items = spec_closeIn_items[OF wf, of expected "nowAt key" key, unfolded c fst_conv snd_conv]
  have step: "spec_closeLoop expected nowAt (key # due) (s, n) =
      spec_closeLoop expected nowAt due (s', if d then Suc n else n)"
    by (simp add: spec_closeLoop_def c)
  have same: "filter (\<lambda>k. \<exists>i. aItems s' k = Some i \<and> State i = expected) due =
      filter (\<lambda>k. \<exists>i. aItems s k = Some i \<and> State i = expected) due"
    using Cons.prems(3) by (intro filter_cong) (auto simp: items(1))
  have IH: "aItems (fst (spec_closeLoop expected nowAt due (s', if d then Suc n else n))) =
      (\<lambda>k. if k \<in> set due
          then map_option (\<lambda>i. if State i = expected then closedNow (nowAt k) i else i) (aItems s' k)
          else aItems s' k)"
    "snd (spec_closeLoop expected nowAt due (s', if d then Suc n else n)) =
      (if d then Suc n else n) + length (filter (\<lambda>k. \<exists>i. aItems s k = Some i \<and> State i = expected) due)"
    using Cons.IH[OF s' Cons.prems(2)] Cons.prems(3) by (simp_all add: same)
  show ?case
    unfolding step IH using Cons.prems(3) items by (auto simp: fun_eq_iff)
qed (simp add: spec_closeLoop_def)

context store_lib
begin

lemma closeItemIn_refines:
  assumes wf: "wfItems (aItems (\<alpha> tx))" and e: "expected = OpenState \<or> expected = AnsweredState"
  shows "map_sum id (map_prod \<alpha> id) (closeItemIn (NewAttentionStore K w) expected now key tx) =
    Inr (spec_closeIn expected now key (\<alpha> tx))"
proof (cases "aItems (\<alpha> tx) key")
  case None
  then show ?thesis by (simp add: closeItemIn_def item_Get_abs spec_closeIn_def)
next
  case (Some i)
  let ?j = "i\<lparr>State := ClosedState, ClosedAt := Some now\<rparr>"
  have "ItemID ?j \<noteq> []" using wfItemsD[OF wf Some] by (auto simp: keyable_def)
  then obtain tx' where "putItem (NewAttentionStore K w) ?j tx = Inr tx'" "\<alpha> tx' = spec_put ?j (\<alpha> tx)"
    by (rule yieldsE[OF putItem_yields])
  then show ?thesis using e by (auto simp: closeItemIn_def item_Get_abs spec_closeIn_def Some)
qed

lemma closeLoop_refines:
  assumes "sweepInv (\<alpha> (fst acc))" and e: "expected = OpenState \<or> expected = AnsweredState"
  shows "map_sum id (map_prod \<alpha> id)
      (closeLoop (\<lambda>key. closeItemIn (NewAttentionStore K w) expected (nowAt key) key) due acc) =
    Inr (spec_closeLoop expected nowAt due (map_prod \<alpha> id acc))"
  using assms(1)
proof (induction due arbitrary: acc)
  case Nil
  then show ?case by (simp add: closeLoop_def spec_closeLoop_def)
next
  case (Cons key due)
  obtain tx n where acc: "acc = (tx, n)" by (cases acc)
  have wf: "wfItems (aItems (\<alpha> tx))" using Cons.prems acc by (simp add: sweepInv_def storeInv_wf)
  obtain tx' d where c: "closeItemIn (NewAttentionStore K w) expected (nowAt key) key tx = Inr (tx', d)"
    and c': "spec_closeIn expected (nowAt key) key (\<alpha> tx) = (\<alpha> tx', d)"
    using closeItemIn_refines[OF wf e, of w "nowAt key" key]
    by (cases "closeItemIn (NewAttentionStore K w) expected (nowAt key) key tx") auto
  have "sweepInv (\<alpha> tx')"
    using sweepInv_closeIn[of "\<alpha> tx" expected "nowAt key" key] Cons.prems acc c' by simp
  then show ?case
    using Cons.IH[of "(tx', if d then Suc n else n)"]
    by (simp add: closeLoop_def spec_closeLoop_def acc c c')
qed

lemma dueAnsweredKeys_eq:
  assumes "sweepInv (\<alpha> tx)"
  shows "dueAnsweredKeys (NewAttentionStore K w) cutoff tx = Inr (dueKeys (isDue cutoff) (aItems (\<alpha> tx)))"
proof -
  have "(\<lambda>(key, item). \<not> (key = liveIndexMarkerKey \<or> State item \<noteq> AnsweredState) \<and>
      (case AnsweredAt item of None \<Rightarrow> False | Some t \<Rightarrow> t < cutoff)) =
      (\<lambda>(key, item). key \<noteq> liveIndexMarkerKey \<and> isDue cutoff item)"
    by (auto simp: fun_eq_iff isDue_def split: option.splits)
  moreover have "filter (\<lambda>(key, item). key \<noteq> liveIndexMarkerKey \<and> isDue cutoff item)
      (sorted_entries (aLive (\<alpha> tx))) = sorted_entries (worthyItems (isDue cutoff) (aItems (\<alpha> tx)))"
    using assms by (intro scan_live) (auto simp: sweepInv_def isDue_def liveIndexWorthy_def)
  ultimately show ?thesis
    by (simp add: dueAnsweredKeys_def item_Map abs_sel dueKeys_def)
qed

lemma closeRedundantReraises_refines:
  assumes "sweepInv (\<alpha> tx)"
  shows "map_sum id (map_prod \<alpha> id) (closeRedundantReraises (NewAttentionStore K w) nowAt tx) =
    Inr (spec_closeLoop OpenState nowAt
      (dueKeys (isReraise (answeredAsks (aItems (\<alpha> tx)))) (aItems (\<alpha> tx))) (\<alpha> tx, 0))"
proof -
  have inv: "storeInv (\<alpha> tx)" "built (aLive (\<alpha> tx))" using assms by (simp_all add: sweepInv_def)
  have p1: "(\<lambda>(key, item). \<not> (key = liveIndexMarkerKey \<or> State item \<noteq> AnsweredState)) =
      (\<lambda>(key, item). key \<noteq> liveIndexMarkerKey \<and> State item = AnsweredState)"
    by (auto simp: fun_eq_iff)
  have f1: "filter (\<lambda>(key, item). key \<noteq> liveIndexMarkerKey \<and> State item = AnsweredState)
      (sorted_entries (aLive (\<alpha> tx))) =
      sorted_entries (worthyItems (\<lambda>i. State i = AnsweredState) (aItems (\<alpha> tx)))"
    using inv by (intro scan_live) (auto simp: liveIndexWorthy_def)
  have asks: "(askIdentity \<circ> snd) ` set (sorted_entries (worthyItems (\<lambda>i. State i = AnsweredState) (aItems (\<alpha> tx))))
      = answeredAsks (aItems (\<alpha> tx))"
    by (auto simp: set_sorted_entries answeredAsks_def image_iff; blast)
  let ?A = "answeredAsks (aItems (\<alpha> tx))"
  have p2: "(\<lambda>(key, item). \<not> (key = liveIndexMarkerKey \<or> State item \<noteq> OpenState) \<and> askIdentity item \<in> ?A) =
      (\<lambda>(key, item). key \<noteq> liveIndexMarkerKey \<and> isReraise ?A item)"
    by (auto simp: fun_eq_iff isReraise_def)
  have f2: "filter (\<lambda>(key, item). key \<noteq> liveIndexMarkerKey \<and> isReraise ?A item)
      (sorted_entries (aLive (\<alpha> tx))) = sorted_entries (worthyItems (isReraise ?A) (aItems (\<alpha> tx)))"
    using inv by (intro scan_live) (auto simp: liveIndexWorthy_def isReraise_def)
  have "worthyItems (isReraise {}) m = Map.empty" for m
    by (auto simp: fun_eq_iff worthyItems_def isReraise_def split: option.splits)
  then have empty: "dueKeys (isReraise {}) m = []" for m
    by (simp add: dueKeys_def sorted_entries_def)
  have scan: "stMap (liveIndex (NewAttentionStore K w)) tx = Inr (sorted_entries (aLive (\<alpha> tx)))"
    by (simp add: item_Map abs_sel)
  have eq: "closeRedundantReraises (NewAttentionStore K w) nowAt tx =
      (if ?A = {} then Inr (tx, 0)
       else closeLoop (\<lambda>key. closeOpenItem (NewAttentionStore K w) (nowAt key) key)
              (dueKeys (isReraise ?A) (aItems (\<alpha> tx))) (tx, 0))"
    unfolding closeRedundantReraises_def scan ebind_simps p1 f1 asks Let_def p2 f2 dueKeys_def
    by (rule refl)
  have "(\<lambda>key. closeOpenItem (NewAttentionStore K w) (nowAt key) key) =
      (\<lambda>key. closeItemIn (NewAttentionStore K w) OpenState (nowAt key) key)"
    by (simp add: closeOpenItem_def fun_eq_iff)
  then show ?thesis
    using closeLoop_refines[of "(tx, 0)" OpenState w nowAt "dueKeys (isReraise ?A) (aItems (\<alpha> tx))"] assms
    by (simp add: eq empty spec_closeLoop_def)
qed

lemma sweepTx_refines:
  assumes "sweepInv (\<alpha> tx)"
  shows "map_sum id (map_prod \<alpha> id) (sweepTx (NewAttentionStore K w) cutoff nowAnswered nowOpen tx) =
    Inr (spec_sweep cutoff nowAnswered nowOpen (\<alpha> tx))"
proof -
  let ?due = "dueKeys (isDue cutoff) (aItems (\<alpha> tx))"
  obtain tx1 n where c1: "closeLoop (\<lambda>key. closeItemIn (NewAttentionStore K w) AnsweredState (nowAnswered key) key)
      ?due (tx, 0) = Inr (tx1, n)"
    and s1: "spec_closeLoop AnsweredState nowAnswered ?due (\<alpha> tx, 0) = (\<alpha> tx1, n)"
    using closeLoop_refines[of "(tx, 0)" AnsweredState w nowAnswered ?due] assms
    by (cases "closeLoop (\<lambda>key. closeItemIn (NewAttentionStore K w) AnsweredState (nowAnswered key) key)
      ?due (tx, 0)") auto
  have inv1: "sweepInv (\<alpha> tx1)"
    using sweepInv_closeLoop[of "(\<alpha> tx, 0)" AnsweredState nowAnswered ?due] assms s1 by simp
  obtain tx2 m where c2: "closeRedundantReraises (NewAttentionStore K w) nowOpen tx1 = Inr (tx2, m)"
    and s2: "spec_closeLoop OpenState nowOpen
      (dueKeys (isReraise (answeredAsks (aItems (\<alpha> tx1)))) (aItems (\<alpha> tx1))) (\<alpha> tx1, 0) = (\<alpha> tx2, m)"
    using closeRedundantReraises_refines[OF inv1, of w nowOpen]
    by (cases "closeRedundantReraises (NewAttentionStore K w) nowOpen tx1") auto
  have "(\<lambda>key. closeAnsweredItem (NewAttentionStore K w) (nowAnswered key) key) =
      (\<lambda>key. closeItemIn (NewAttentionStore K w) AnsweredState (nowAnswered key) key)"
    by (simp add: closeAnsweredItem_def fun_eq_iff)
  then show ?thesis
    by (simp add: sweepTx_def dueAnsweredKeys_eq[OF assms] c1 c2 spec_sweep_def s1 s2)
qed

lemma store_SweepAnswered_refines:
  assumes inv: "storeInv (\<alpha> s)"
  shows "map_prod \<alpha> id (store_SweepAnswered R (NewAttentionStore K w) now nowAnswered nowOpen maxAge s) =
    map_prod id Inr (spec_sweep (now + negDuration maxAge) nowAnswered nowOpen (built_for_read True (\<alpha> s)))"
proof -
  have ok: "okKeys (\<alpha> s)" using inv storeInv_okKeys by (simp add: okKeys_def)
  obtain s1 where s1: "ensureLiveIndex R (NewAttentionStore K w) s = (s1, Inr ())"
    "\<alpha> s1 = built_for_read True (\<alpha> s)"
    using ensureLiveIndex_ok[OF ok, of w] by (auto simp: built_for_read_def)
  have "sweepInv (\<alpha> s1)"
    using storeInv_built_for_read[OF inv, of True]
    by (simp add: sweepInv_def s1(2)) (simp add: built_for_read_def)
  then have r: "map_sum id (map_prod \<alpha> id)
      (sweepTx (NewAttentionStore K w) (now + negDuration maxAge) nowAnswered nowOpen s1) =
      Inr (spec_sweep (now + negDuration maxAge) nowAnswered nowOpen (\<alpha> s1))"
    by (rule sweepTx_refines)
  then obtain s2 n where s2: "sweepTx (NewAttentionStore K w) (now + negDuration maxAge) nowAnswered nowOpen s1
      = Inr (s2, n)"
    "spec_sweep (now + negDuration maxAge) nowAnswered nowOpen (\<alpha> s1) = (\<alpha> s2, n)"
    by (cases "sweepTx (NewAttentionStore K w) (now + negDuration maxAge) nowAnswered nowOpen s1") auto
  then show ?thesis
    by (simp add: store_SweepAnswered_def s1(1) Let_def db_Update_abs s1(2)[symmetric])
qed

end

end
