(* ===== verification/StoreMachine.thy ===== *)
theory StoreMachine
  imports ReadSpec
begin

text \<open>
  The store as a state machine. \<open>store_step\<close> is one call of one operation, with
  arbitrary clock readings, liveness verdicts and arguments; the scan of a read
  and its prune are also steps of their own, so that other calls may run between
  them. Every call is a sequence of the primitive steps \<open>astep\<close> of the abstract
  store, and each invariant is shown once, for the primitive steps.
\<close>

section \<open>Calls\<close>

definition freshID :: "'tx attentionStore \<Rightarrow> 'tx \<Rightarrow> ItemID \<Rightarrow> bool" where
  "freshID A s itemID = (case stGet (store A) s itemID of Inl _ \<Rightarrow> True | Inr _ \<Rightarrow> False)"

inductive store_step :: "runtime \<Rightarrow> 'tx attentionStore \<Rightarrow> 'tx \<Rightarrow> 'tx \<Rightarrow> bool" for R A where
  Push: "length buf = 16 \<Longrightarrow> freshID A s (hexEncode buf) \<Longrightarrow>
    store_step R A s (fst (store_Push R A P c (Generate (Inr buf)) now req s))"
| PushNoRandom: "store_step R A s (fst (store_Push R A P c (Generate (Inl e)) now req s))"
| Answer: "store_step R A s
    (fst (store_Answer R A now itemID by rby d a as client route s))"
| Escalate: "store_step R A s (fst (store_Escalate A now itemID by s))"
| Flag: "store_step R A s (fst (store_Flag A now itemID reason s))"
| Unflag: "store_step R A s (fst (store_Unflag A itemID s))"
| Rate: "store_step R A s (fst (store_Rate R A now itemID rating s))"
| Close: "store_step R A s (fst (store_Close A now itemID by client s))"
| RecordAttempt: "store_step R A s (fst (store_RecordAttempt R A now itemID carrier outcome s))"
| Read: "store_step R A s (fst (store_Read R A rd rdPrune s))"
| ReadBoard: "store_step R A s (fst (store_ReadBoard R A rd rdPrune s))"
| ScanLive: "store_step R A s (fst (readItems R A s))"
| ScanOpen: "store_step R A s (fst (readOpenItems R A s))"
| BuildHistory: "store_step R A s (fst (ensureHistoryIndex R A s))"
| Prune: "store_step R A s (fst (pruneDead R A rd keys s))"
| Sweep: "store_step R A s (fst (store_SweepAnswered R A now nowA nowO maxAge s))"

inductive reachable :: "runtime \<Rightarrow> 'tx attentionStore \<Rightarrow> 'tx \<Rightarrow> 'tx \<Rightarrow> bool" for R A s0 where
  start: "reachable R A s0 s0"
| step: "reachable R A s0 s \<Longrightarrow> store_step R A s s' \<Longrightarrow> reachable R A s0 s'"

section \<open>Primitive steps\<close>

inductive itemUpdate :: "runtime \<Rightarrow> (Item \<Rightarrow> verdict) \<Rightarrow> bool" for R where
  answer: "itemUpdate R (answerVerdict R now by rby d a as client route)"
| escalate: "SessionID_Validate by = None \<Longrightarrow> itemUpdate R (escalateVerdict now by)"
| flag: "TrimSpace reason \<noteq> [] \<Longrightarrow> itemUpdate R (flagVerdict now reason)"
| unflag: "itemUpdate R unflagVerdict"
| rate: "Rating_Validate R rating = None \<Longrightarrow> itemUpdate R (rateVerdict now rating)"
| close: "itemUpdate R (closeVerdict now by client)"

inductive astep :: "runtime \<Rightarrow> astore \<Rightarrow> astore \<Rightarrow> bool" for R where
  update: "itemUpdate R f \<Longrightarrow> aItems s k = Some i \<Longrightarrow> f i = Write j \<Longrightarrow> astep R s (spec_put j s)"
| sweep: "aItems s k = Some i \<Longrightarrow> State i = OpenState \<or> State i = AnsweredState \<Longrightarrow>
    astep R s (spec_put (closedNow now i) s)"
| repush: "aItems s k = Some i \<Longrightarrow> State i = OpenState \<Longrightarrow> PushRequest_Validate R req = None \<Longrightarrow>
    astep R s (spec_put (repushed req now i) s)"
| create: "aItems s (ItemID i) = None \<Longrightarrow> keyable i \<Longrightarrow> Item_Validate R i = None \<Longrightarrow>
    i = itemOfRequest (ItemID i) now req \<Longrightarrow> astep R s (spec_put i s)"
| remove: "aItems s k = Some i \<Longrightarrow> State i = OpenState \<Longrightarrow> astep R s (spec_remove k s)"
| attempt: "aItems s k \<noteq> None \<Longrightarrow> att_ItemID a = k \<Longrightarrow> DeliveryAttempt_Validate R a = None \<Longrightarrow>
    astep R s (s\<lparr>aAttempts := (aAttempts s)(k \<mapsto> a)\<rparr>)"
| buildLive: "astep R s (s\<lparr>aLive := spec_build liveIndexWorthy itemIDIndexKey (aItems s) (aLive s)\<rparr>)"
| buildOpen: "astep R s (s\<lparr>aOpen := spec_build openIndexWorthy itemIDIndexKey (aItems s) (aOpen s)\<rparr>)"
| buildHist: "astep R s (s\<lparr>aHist := spec_build (\<lambda>_. True) timeOrderedIndexKey (aItems s) (aHist s)\<rparr>)"
| buildDedup: "astep R s (s\<lparr>aDedup := spec_build openIndexWorthy dedupIndexKey (aItems s) (aDedup s)\<rparr>)"

inductive_cases astepE: "astep R s s'"
inductive_cases itemUpdateE: "itemUpdate R f"

abbreviation asteps :: "runtime \<Rightarrow> astore \<Rightarrow> astore \<Rightarrow> bool" where
  "asteps R \<equiv> (astep R)\<^sup>*\<^sup>*"

lemma itemUpdate_sameAsk: "itemUpdate R f \<Longrightarrow> f i = Write j \<Longrightarrow> sameAsk i j"
  by (elim itemUpdateE) (simp_all add: verdict_sameAsk)

lemma repushed_fields [simp]:
  "ItemID (repushed req now i) = ItemID i" "dkey (repushed req now i) = dkey i"
  "State (repushed req now i) = State i" "sameAsk i (repushed req now i)"
  by (simp_all add: repushed_def dkey_def sameAsk_def)

section \<open>The store invariant\<close>

lemma astep_storeInv:
  assumes "astep R s s'" and inv: "storeInv s"
  shows "storeInv s'"
  using assms(1)
proof cases
  case (update f k i j)
  have i: "ItemID i = k" "keyable i" using wfItemsD[OF storeInv_wf[OF inv] update(3)] by simp_all
  have j: "ItemID j = ItemID i" "dkey j = dkey i"
    using sameAskD itemUpdate_sameAsk[OF update(2,4)] by blast+
  show ?thesis
    unfolding update(1) using i j update(3) by (intro storeInv_put[OF inv]) (simp_all add: keyable_def)
next
  case (sweep k i now)
  then have "ItemID i = k" "keyable i" using wfItemsD[OF storeInv_wf[OF inv]] by simp_all
  then show ?thesis
    unfolding sweep(1) using sweep(2) by (intro storeInv_put[OF inv]) simp_all
next
  case (repush k i req now)
  then have "ItemID i = k" "keyable i" using wfItemsD[OF storeInv_wf[OF inv]] by simp_all
  then show ?thesis
    unfolding repush(1) using repush(2) by (intro storeInv_put[OF inv]) (simp_all add: keyable_def)
next
  case (create i now req)
  show ?thesis unfolding create(1) using create by (intro storeInv_put[OF inv]) simp_all
next
  case (remove k i)
  then show ?thesis using storeInv_remove[OF inv] by simp
next
  case (attempt k a)
  then show ?thesis using storeInv_attempt[OF inv] by simp
qed (use storeInv_build[OF inv] in simp_all)

lemma asteps_storeInv: "asteps R s s' \<Longrightarrow> storeInv s \<Longrightarrow> storeInv s'"
  by (induction rule: rtranclp_induct) (auto intro: astep_storeInv)

section \<open>Every call is a sequence of primitive steps\<close>

lemma spec_update_steps:
  "itemUpdate R f \<Longrightarrow> asteps R s (fst (spec_update itemID f s))"
  by (auto simp: spec_update_def intro: astep.update split: option.splits verdict.splits)

lemma remove_steps:
  assumes "aItems s k = Some i" and "State i = OpenState"
  shows "asteps R s (spec_remove k s)"
  by (rule r_into_rtranclp, rule astep.remove) (use assms in simp_all)

lemma spec_pruneStep_steps:
  "spec_pruneStep R w P now acc key = Inr acc' \<Longrightarrow> asteps R (fst acc) (fst acc')"
  by (cases acc)
     (auto simp: spec_pruneStep_def ebind_eq_Inr intro: remove_steps split: option.splits if_splits)

lemma spec_pruneDead_steps: "asteps R s (fst (spec_pruneDead R w rd keys s))"
proof (cases "efold (spec_pruneStep R w (rd_probes rd) (rd_now rd))
             (s, resolveNow R (newReadSessionLiveness (rd_checker rd))) keys")
  case (Inr acc)
  have "asteps R s (fst acc)"
    by (rule efold_inv[OF _ _ Inr, where I = "\<lambda>acc. asteps R s (fst acc)"])
       (auto dest: spec_pruneStep_steps)
  then show ?thesis using Inr by (cases acc) (simp add: spec_pruneDead_def)
qed (simp add: spec_pruneDead_def)

lemma built_for_read_step: "asteps R s (built_for_read b s)"
  by (auto simp: built_for_read_def intro: astep.buildLive astep.buildOpen)

lemma spec_read_steps: "asteps R s (fst (spec_read R w b rd rdP s))"
proof -
  have "asteps R s (fst (spec_pruneDead R w rdP dead (built_for_read b s)))" for dead
    using built_for_read_step spec_pruneDead_steps by (rule rtranclp_trans)
  then show ?thesis
    using built_for_read_step
    by (cases b) (simp_all add: spec_read_def Let_def split_beta split: sum.split)
qed

lemma spec_closeIn_steps:
  "expected = OpenState \<or> expected = AnsweredState \<Longrightarrow>
   asteps R s (fst (spec_closeIn expected now key s))"
  by (auto simp: spec_closeIn_eq intro: astep.sweep split: option.splits)

lemma spec_closeLoop_steps:
  assumes "expected = OpenState \<or> expected = AnsweredState"
  shows "asteps R (fst acc) (fst (spec_closeLoop expected nowAt due acc))"
proof (induction due arbitrary: acc)
  case (Cons key due)
  obtain s n where acc: "acc = (s, n)" by (cases acc)
  obtain s' d where c: "spec_closeIn expected (nowAt key) key s = (s', d)" by fastforce
  have "asteps R s s'" using spec_closeIn_steps[OF assms, of R s "nowAt key" key] c by simp
  then show ?case
    using Cons.IH[of "(s', if d then Suc n else n)"]
    by (simp add: spec_closeLoop_def acc c)
qed (simp add: spec_closeLoop_def)

lemma spec_sweep_steps: "asteps R s (fst (spec_sweep cutoff nowA nowO s))"
proof -
  obtain s1 n where 1: "spec_closeLoop AnsweredState nowA (dueKeys (isDue cutoff) (aItems s)) (s, 0) = (s1, n)"
    by fastforce
  obtain s2 m where 2: "spec_closeLoop OpenState nowO
      (dueKeys (isReraise (answeredAsks (aItems s1))) (aItems s1)) (s1, 0) = (s2, m)"
    by fastforce
  have "asteps R s s1" "asteps R s1 s2"
    using spec_closeLoop_steps[of AnsweredState R "(s, 0)" nowA] 1
      spec_closeLoop_steps[of OpenState R "(s1, 0)" nowO] 2 by (metis fst_conv)+
  then show ?thesis by (simp add: spec_sweep_def 1 2)
qed

lemma spec_Push_steps:
  assumes inv: "storeInv s"
    and gen: "\<And>itemID. generated = Inr itemID \<Longrightarrow> aItems s itemID = None \<and> itemID \<noteq> liveIndexMarkerKey"
    and new: "\<And>i. newItem R generated now req = Inr i \<Longrightarrow>
      \<exists>itemID. generated = Inr itemID \<and> i = itemOfRequest itemID now req \<and> Item_Validate R i = None \<and>
        itemID \<noteq> []"
  shows "asteps R s (fst (spec_Push R w P c generated now req s))"
proof (cases "PushRequest_Validate R req")
  case None
  let ?s1 = "s\<lparr>aDedup := spec_build openIndexWorthy dedupIndexKey (aItems s) (aDedup s)\<rparr>"
  let ?k = "dedupIndexKeyOf (req_ProducerID req) (req_DedupKey req)"
  have build: "asteps R s ?s1" by (rule r_into_rtranclp, rule astep.buildDedup)
  have inv1: "storeInv ?s1" using storeInv_build(4)[OF inv] .
  have repush: "asteps R s (spec_put (repushed req now e) ?s1)" if "aDedup ?s1 ?k = Some e" for e
  proof -
    have "entries (aDedup ?s1) ?k = Some e" using that by (simp add: entries_at)
    then have "openIndexWorthy e \<and> aItems ?s1 (ItemID e) = Some e"
      using inv1 idxSoundD[of openIndexWorthy dkey "aItems ?s1" "aDedup ?s1"]
      by (simp only: storeInv_def)
    then have "astep R ?s1 (spec_put (repushed req now e) ?s1)"
      using None by (intro astep.repush[where k = "ItemID e"]) (simp_all add: openIndexWorthy_def)
    then show ?thesis using build by (rule rtranclp.rtrancl_into_rtrancl[rotated])
  qed
  have create: "asteps R s (spec_put i ?s1)" if "newItem R generated now req = Inr i" for i
  proof -
    note created = new[OF that]
    obtain itemID where id: "generated = Inr itemID" "i = itemOfRequest itemID now req"
      "Item_Validate R i = None" "itemID \<noteq> []"
      using created by blast
    have "ItemID i = itemID" by (simp add: id(2) itemOfRequest_def)
    then have "astep R ?s1 (spec_put i ?s1)"
      using id gen[OF id(1)] by (intro astep.create[of _ _ _ now req]) (simp_all add: keyable_def)
    then show ?thesis using build by (rule rtranclp.rtrancl_into_rtrancl[rotated])
  qed
  show ?thesis
    using None build repush create
    by (auto simp: spec_Push_def Let_def split: option.splits sum.splits)
qed (simp add: spec_Push_def)

context store_lib
begin

lemma fst_map_prod: "\<alpha> (fst p) = fst (map_prod \<alpha> id p)"
  by simp

lemma freshID_abs: "freshID (NewAttentionStore K w) s itemID \<longleftrightarrow> aItems (\<alpha> s) itemID = None"
  by (simp add: freshID_def item_Get_abs split: option.splits)

lemma store_step_asteps:
  assumes "store_step R (NewAttentionStore K w) s s'" and inv: "storeInv (\<alpha> s)"
  shows "asteps R (\<alpha> s) (\<alpha> s')"
proof -
  have wf: "wfItems (aItems (\<alpha> s))"
    and dd: "idxSound openIndexWorthy dkey (aItems (\<alpha> s)) (aDedup (\<alpha> s))"
    using inv by (simp_all add: storeInv_def)
  have ok: "okKeys (\<alpha> s)"
    unfolding okKeys_def using storeInv_okKeys[OF inv] by blast
  from assms(1) show ?thesis
  proof cases
    case (Push buf P c now req)
    have id: "hexEncode buf \<noteq> liveIndexMarkerKey"
    proof
      assume "hexEncode buf = liveIndexMarkerKey"
      then have "length (hexEncode buf) = 1" by (simp add: liveIndexMarkerKey_def)
      then show False using Push(2) by simp
    qed
    show ?thesis
      unfolding Push(1) fst_map_prod store_Push_refines[OF wf dd]
      using Push(3) id newItem_Inr
      by (intro spec_Push_steps[OF inv]) (auto simp: freshID_abs Generate_def)
  next
    case (PushNoRandom P c e now req)
    show ?thesis
      unfolding PushNoRandom fst_map_prod store_Push_refines[OF wf dd]
      using newItem_Inr by (intro spec_Push_steps[OF inv]) (auto simp: Generate_def)
  next
    case (Answer now itemID who rby d a an client route)
    have "asteps R (\<alpha> s) (fst (spec_update itemID (answerVerdict R now who rby d a an client route) (\<alpha> s)))"
      by (rule spec_update_steps[OF itemUpdate.answer])
    then show ?thesis unfolding Answer fst_map_prod store_Answer_refines[OF wf] by simp
  next
    case (Escalate now itemID who)
    show ?thesis
      unfolding Escalate fst_map_prod store_Escalate_refines[OF wf]
      by (auto intro: spec_update_steps itemUpdate.escalate split: option.splits)
  next
    case (Flag now itemID reason)
    show ?thesis
      unfolding Flag fst_map_prod store_Flag_refines[OF wf]
      by (auto intro: spec_update_steps itemUpdate.flag)
  next
    case (Unflag itemID)
    show ?thesis
      unfolding Unflag fst_map_prod store_Unflag_refines[OF wf]
      by (rule spec_update_steps[OF itemUpdate.unflag])
  next
    case (Rate now itemID rating)
    show ?thesis
      unfolding Rate fst_map_prod store_Rate_refines[OF wf]
      by (auto intro: spec_update_steps itemUpdate.rate simp del: Rating_Validate_None split: option.split)
  next
    case (Close now itemID who client)
    show ?thesis
      unfolding Close fst_map_prod store_Close_refines[OF wf]
      by (rule spec_update_steps[OF itemUpdate.close])
  next
    case (RecordAttempt now itemID carrier outcome)
    show ?thesis
      unfolding RecordAttempt fst_map_prod store_RecordAttempt_refines[OF wf]
      by (auto simp: spec_RecordAttempt_def Let_def intro!: r_into_rtranclp astep.attempt
          split: option.splits)
  next
    case (Read rd rdPrune)
    show ?thesis
      unfolding Read store_Read_def fst_map_prod store_read_refines[OF inv] by (rule spec_read_steps)
  next
    case (ReadBoard rd rdPrune)
    show ?thesis
      unfolding ReadBoard store_ReadBoard_def fst_map_prod store_read_refines[OF inv] by (rule spec_read_steps)
  next
    case ScanLive
    then show ?thesis using readItems_ok[OF ok, of w] astep.buildLive by auto
  next
    case ScanOpen
    then show ?thesis using readOpenItems_ok[OF ok, of w] astep.buildOpen by auto
  next
    case BuildHistory
    then show ?thesis using ensureHistoryIndex_ok[of w s] astep.buildHist by auto
  next
    case (Prune rd keys)
    show ?thesis unfolding Prune fst_map_prod pruneDead_refines by (rule spec_pruneDead_steps)
  next
    case (Sweep now nowA nowO maxAge)
    have "asteps R (\<alpha> s) (fst (spec_sweep (now + negDuration maxAge) nowA nowO (built_for_read True (\<alpha> s))))"
      using built_for_read_step spec_sweep_steps by (rule rtranclp_trans)
    then show ?thesis
      unfolding Sweep fst_map_prod store_SweepAnswered_refines[OF inv] by simp
  qed
qed

lemma store_step_storeInv:
  "store_step R (NewAttentionStore K w) s s' \<Longrightarrow> storeInv (\<alpha> s) \<Longrightarrow> storeInv (\<alpha> s')"
  using store_step_asteps asteps_storeInv by blast

lemma reachable_storeInv:
  "reachable R (NewAttentionStore K w) s0 s \<Longrightarrow> storeInv (\<alpha> s0) \<Longrightarrow> storeInv (\<alpha> s)"
  by (induction rule: reachable.induct) (auto intro: store_step_storeInv)

lemma reachable_asteps:
  "reachable R (NewAttentionStore K w) s0 s \<Longrightarrow> storeInv (\<alpha> s0) \<Longrightarrow> asteps R (\<alpha> s0) (\<alpha> s)"
proof (induction rule: reachable.induct)
  case (step s s')
  then show ?case using store_step_asteps reachable_storeInv by (meson rtranclp_trans)
qed simp

end

end
