(* ===== verification/Lifecycle.thy ===== *)
theory Lifecycle
  imports StoreMachine
begin

text \<open>
  The life of one item. \<open>evolves\<close> says how an item may change: along the schema's
  transition table, keeping what identifies the ask, a recorded decision, and -
  once no further answer is admitted - everything the answer wrote. \<open>itemOK\<close> says
  what every stored item satisfies. Both are shown for the primitive steps, so
  they hold for every interleaving of calls.
\<close>

section \<open>How an item may change\<close>

definition answerPart where
  "answerPart i = (AnsweredAt i, AnsweredBy i, ResolvedBy i, Decision i, Answer i, Answers i,
     AnsweredClient i, RequestID i, Policy i)"

definition answerFixed :: "Item \<Rightarrow> bool" where
  "answerFixed i \<longleftrightarrow> State i = ClosedState \<or>
     (State i = AnsweredState \<and> AnswerMechanism i \<noteq> PermissionAnswerMechanism)"

definition evolves :: "Item \<Rightarrow> Item \<Rightarrow> bool" where
  "evolves i j \<longleftrightarrow> sameAsk i j \<and>
     (State j = State i \<or> ValidateTransition (State i) (State j) = None) \<and>
     (Decision i \<noteq> [] \<longrightarrow> Decision j = Decision i) \<and>
     (answerFixed i \<longrightarrow> answerPart j = answerPart i) \<and>
     (State i = ClosedState \<longrightarrow> ClosedAt j = ClosedAt i)"

lemma evolves_refl [simp]: "evolves i i"
  by (simp add: evolves_def sameAsk_def)

lemma sameAsk_trans: "sameAsk i j \<Longrightarrow> sameAsk j k \<Longrightarrow> sameAsk i k"
  by (simp add: sameAsk_def)

lemma evolves_trans:
  assumes ij: "evolves i j" and jk: "evolves j k"
  shows "evolves i k"
proof -
  have same: "sameAsk i j" "sameAsk j k" using ij jk by (simp_all add: evolves_def)
  have tij: "State j = State i \<or> ValidateTransition (State i) (State j) = None"
    and tjk: "State k = State j \<or> ValidateTransition (State j) (State k) = None"
    using ij jk by (simp_all add: evolves_def)
  have "State k = State i \<or> ValidateTransition (State i) (State k) = None"
    using tij tjk unfolding ValidateTransition_None by auto
  moreover have "Decision i \<noteq> [] \<longrightarrow> Decision k = Decision i"
    using ij jk by (auto simp: evolves_def)
  moreover have "answerFixed j" if "answerFixed i"
    using that tij same(1) unfolding ValidateTransition_None answerFixed_def sameAsk_def by auto
  then have "answerFixed i \<longrightarrow> answerPart k = answerPart i"
    using ij jk by (auto simp: evolves_def)
  moreover have "State j = ClosedState" if "State i = ClosedState"
    using that tij unfolding ValidateTransition_None by auto
  then have "State i = ClosedState \<longrightarrow> ClosedAt k = ClosedAt i"
    using ij jk by (auto simp: evolves_def)
  ultimately show ?thesis using sameAsk_trans[OF same] by (simp add: evolves_def)
qed

lemma evolves_closed: "evolves i j \<Longrightarrow> State i = ClosedState \<Longrightarrow> State j = ClosedState"
  by (auto simp: evolves_def ValidateTransition_None)

lemma evolves_settled: "evolves i j \<Longrightarrow> State i \<noteq> OpenState \<Longrightarrow> State j \<noteq> OpenState"
  by (auto simp: evolves_def ValidateTransition_None)

lemma itemUpdate_evolves:
  assumes "itemUpdate R f" and w: "f i = Write j"
  shows "evolves i j"
  using assms(1)
proof cases
  case (answer now who rby d a an client route)
  have "sameAsk i j" using itemUpdate_sameAsk[OF assms] .
  moreover have "j = answeredItem now who rby d a an client (firstRoute route) i"
    and "State i = OpenState \<or> (State i = AnsweredState \<and> AnswerMechanism i = PermissionAnswerMechanism)"
    using w unfolding answer by (auto simp: answerVerdict_def Let_def split: if_splits option.splits)
  ultimately show ?thesis by (auto simp: evolves_def answerFixed_def)
next
  case (close now who client)
  have "sameAsk i j" using itemUpdate_sameAsk[OF assms] .
  moreover have "j = closedItem now who client i" "State i = OpenState \<or> State i = AnsweredState"
    using w unfolding close by (auto simp: closeVerdict_def split: if_splits)
  ultimately show ?thesis
    by (auto simp: evolves_def answerFixed_def answerPart_def closedItem_def)
qed (use w in \<open>auto simp: escalateVerdict_def flagVerdict_def unflagVerdict_def rateVerdict_def
      evolves_def sameAsk_def answerPart_def split: if_splits\<close>)

lemma closedNow_evolves:
  "State i = OpenState \<or> State i = AnsweredState \<Longrightarrow> evolves i (closedNow now i)"
  by (auto simp: evolves_def closedNow_def sameAsk_def answerPart_def)

lemma repushed_evolves: "evolves i (repushed req now i)"
  by (simp add: evolves_def repushed_def sameAsk_def answerPart_def)

text \<open>An item changes along its life, or is removed while it is open.\<close>

lemma astep_evolves:
  assumes "astep R s s'" and inv: "storeInv s" and i: "aItems s k = Some i"
  shows "(\<exists>j. aItems s' k = Some j \<and> evolves i j) \<or> (aItems s' k = None \<and> State i = OpenState)"
proof -
  note id = wfItemsD[OF storeInv_wf[OF inv]]
  from assms(1) show ?thesis
  proof cases
    case (update f k' i' j)
    then show ?thesis
      using i id[of k' i'] itemUpdate_evolves[OF update(2,4)] sameAskD(1)[OF itemUpdate_sameAsk[OF update(2,4)]]
      by auto
  next
    case (sweep k' i' now)
    then show ?thesis using i id[of k' i'] closedNow_evolves by auto
  next
    case (repush k' i' req now)
    then show ?thesis using i id[of k' i'] repushed_evolves by auto
  next
    case (remove k' i')
    then show ?thesis
      using i by (auto simp: spec_remove_def spec_removeIndexEntry_def Let_def)
  qed (use i in auto)
qed

lemma astep_created:
  assumes "astep R s s'" and inv: "storeInv s" and "aItems s k = None" and "aItems s' k = Some j"
  shows "\<exists>req now. j = itemOfRequest k now req \<and> Item_Validate R j = None"
proof -
  note id = wfItemsD[OF storeInv_wf[OF inv]]
  from assms(1) show ?thesis
  proof cases
    case (update f k' i' j')
    then show ?thesis
      using assms(3,4) id[of k' i'] sameAskD(1)[OF itemUpdate_sameAsk[OF update(2,4)]]
      by (auto split: if_splits)
  next
    case (sweep k' i' now)
    then show ?thesis using assms(3,4) id[of k' i'] by (auto split: if_splits)
  next
    case (repush k' i' req now)
    then show ?thesis using assms(3,4) id[of k' i'] by (auto split: if_splits)
  next
    case (remove k' i')
    then show ?thesis
      using assms(3,4) by (auto simp: spec_remove_def spec_removeIndexEntry_def Let_def split: if_splits)
  qed (use assms(3,4) in \<open>auto split: if_splits\<close>)
qed

text \<open>An item that is no longer open is never lost, and evolves for ever.\<close>

lemma asteps_settled:
  assumes "asteps R s s'" and "storeInv s" and "aItems s k = Some i" and "State i \<noteq> OpenState"
  shows "\<exists>j. aItems s' k = Some j \<and> evolves i j"
  using assms(1)
proof (induction rule: rtranclp_induct)
  case base
  then show ?case using assms(3) by auto
next
  case (step s1 s2)
  then obtain j where j: "aItems s1 k = Some j" "evolves i j" by blast
  have "State j \<noteq> OpenState" using j(2) assms(4) by (rule evolves_settled)
  moreover have "storeInv s1" using step.hyps(1) assms(2) by (rule asteps_storeInv)
  ultimately show ?case
    using astep_evolves[OF step.hyps(2) _ j(1)] evolves_trans[OF j(2)] by blast
qed

section \<open>What every stored item satisfies\<close>

definition itemOK :: "runtime \<Rightarrow> Item \<Rightarrow> bool" where
  "itemOK R i \<longleftrightarrow>
     ItemID i \<noteq> [] \<and> ProducerID i \<noteq> [] \<and> DedupKey i \<noteq> [] \<and> Payload i \<noteq> [] \<and>
     LivenessRef_Validate R (LivenessRef i) = None \<and>
     AnswerMechanism_Validate R (AnswerMechanism i) = None \<and>
     (State i = OpenState \<or> State i = AnsweredState \<or> State i = ClosedState) \<and>
     (State i = OpenState \<longrightarrow> AnsweredAt i = None \<and> ClosedAt i = None \<and> Decision i = [] \<and>
        Answer i = None \<and> Answers i = []) \<and>
     (State i = AnsweredState \<longrightarrow> AnsweredAt i \<noteq> None \<and> ClosedAt i = None) \<and>
     (State i = ClosedState \<longrightarrow> ClosedAt i \<noteq> None) \<and>
     (EscalatedBy i = [] \<longleftrightarrow> EscalatedAt i = None) \<and>
     (EscalatedBy i \<noteq> [] \<longrightarrow> SessionID_Validate (EscalatedBy i) = None) \<and>
     (FlagReason i = [] \<longleftrightarrow> FlaggedAt i = None) \<and>
     (Rating i = NoRating \<longleftrightarrow> RatedAt i = None) \<and> Rating_Validate R (Rating i) = None \<and>
     validateAnswer R i = None \<and> validateAnswers R i = None"

definition itemsOK :: "runtime \<Rightarrow> astore \<Rightarrow> bool" where
  "itemsOK R s \<longleftrightarrow> (\<forall>k i. aItems s k = Some i \<longrightarrow> itemOK R i)"

definition emptyStore :: astore where
  "emptyStore = \<lparr>aPresent = False, aItems = Map.empty, aLive = Map.empty, aOpen = Map.empty,
     aHist = Map.empty, aDedup = Map.empty, aAttempts = Map.empty\<rparr>"

lemma answer_checks_cong:
  assumes "Answer j = Answer i" "Answers j = Answers i" "sameAsk i j"
  shows "validateAnswer R j = validateAnswer R i" "validateAnswers R j = validateAnswers R i"
proof -
  have eqs: "Questions j = Questions i" "AnswerCardinality j = AnswerCardinality i"
    using assms(3) by (simp_all add: sameAsk_def)
  show "validateAnswer R j = validateAnswer R i" "validateAnswers R j = validateAnswers R i"
    unfolding validateAnswer_def validateAnswers_def validateAnswersMatchQuestions_def eqs assms(1,2)
    by (rule refl)+
qed

lemma SessionID_nonempty: "SessionID_Validate s = None \<Longrightarrow> s \<noteq> []"
  by (auto dest: SessionID_Validate_length)

text \<open>A change outside the answer fields keeps the answer checks.\<close>

lemma itemOK_cong:
  assumes ok: "itemOK R i" and same: "sameAsk i j" and "Payload j \<noteq> []"
    and answer: "Answer j = Answer i" "Answers j = Answers i"
    and state: "State j = OpenState \<or> State j = AnsweredState \<or> State j = ClosedState"
      "State j = OpenState \<longrightarrow> AnsweredAt j = None \<and> ClosedAt j = None \<and> Decision j = [] \<and>
         Answer j = None \<and> Answers j = []"
      "State j = AnsweredState \<longrightarrow> AnsweredAt j \<noteq> None \<and> ClosedAt j = None"
      "State j = ClosedState \<longrightarrow> ClosedAt j \<noteq> None"
    and pairs: "EscalatedBy j = [] \<longleftrightarrow> EscalatedAt j = None"
      "EscalatedBy j \<noteq> [] \<longrightarrow> SessionID_Validate (EscalatedBy j) = None"
      "FlagReason j = [] \<longleftrightarrow> FlaggedAt j = None" "Rating j = NoRating \<longleftrightarrow> RatedAt j = None"
      "Rating_Validate R (Rating j) = None"
  shows "itemOK R j"
proof -
  have "ItemID j \<noteq> []" "ProducerID j \<noteq> []" "DedupKey j \<noteq> []"
    "LivenessRef_Validate R (LivenessRef j) = None" "AnswerMechanism_Validate R (AnswerMechanism j) = None"
    using ok same unfolding itemOK_def sameAsk_def by metis+
  moreover have "validateAnswer R j = None" "validateAnswers R j = None"
    using ok answer_checks_cong[OF answer same] unfolding itemOK_def by metis+
  ultimately show ?thesis
    unfolding itemOK_def using assms(3) state pairs by blast
qed

lemma itemOK_D:
  assumes "itemOK R i"
  shows "Payload i \<noteq> []" "State i = OpenState \<or> State i = AnsweredState \<or> State i = ClosedState"
    "State i = OpenState \<longrightarrow> AnsweredAt i = None \<and> ClosedAt i = None \<and> Decision i = [] \<and>
       Answer i = None \<and> Answers i = []"
    "State i = AnsweredState \<longrightarrow> AnsweredAt i \<noteq> None \<and> ClosedAt i = None"
    "State i = ClosedState \<longrightarrow> ClosedAt i \<noteq> None"
    "EscalatedBy i = [] \<longleftrightarrow> EscalatedAt i = None"
    "EscalatedBy i \<noteq> [] \<longrightarrow> SessionID_Validate (EscalatedBy i) = None"
    "FlagReason i = [] \<longleftrightarrow> FlaggedAt i = None" "Rating i = NoRating \<longleftrightarrow> RatedAt i = None"
    "Rating_Validate R (Rating i) = None"
  using assms unfolding itemOK_def by blast+

lemma itemUpdate_itemOK:
  assumes u: "itemUpdate R f" and w: "f i = Write j" and ok: "itemOK R i"
  shows "itemOK R j"
proof -
  note same = itemUpdate_sameAsk[OF u w] and d = itemOK_D[OF ok]
  from u show ?thesis
  proof cases
    case (answer now who rby dec a an client route)
    have j: "j = answeredItem now who rby dec a an client (firstRoute route) i"
      and v: "validateAnswer R j = None" "validateAnswers R j = None"
      and st: "State i = OpenState \<or> State i = AnsweredState"
      using w unfolding answer by (auto simp: answerVerdict_def Let_def split: if_splits option.splits)
    have keep: "Payload j = Payload i" "EscalatedBy j = EscalatedBy i" "EscalatedAt j = EscalatedAt i"
      "FlagReason j = FlagReason i" "FlaggedAt j = FlaggedAt i" "Rating j = Rating i" "RatedAt j = RatedAt i"
      by (simp_all add: j answeredItem_def stampAnswerRoute_def Let_def)
    have new: "State j = AnsweredState" "AnsweredAt j = Some now" "ClosedAt j = ClosedAt i"
      by (simp_all add: j)
    have "ClosedAt i = None" using st d(3,4) by blast
    moreover have "ItemID j \<noteq> []" "ProducerID j \<noteq> []" "DedupKey j \<noteq> []"
      "LivenessRef_Validate R (LivenessRef j) = None" "AnswerMechanism_Validate R (AnswerMechanism j) = None"
      using ok same unfolding itemOK_def sameAsk_def by metis+
    ultimately show ?thesis
      unfolding itemOK_def new keep using d v by simp
  next
    case (close now who client)
    have j: "j = closedItem now who client i"
      using w unfolding close by (auto simp: closeVerdict_def split: if_splits)
    show ?thesis
      by (rule itemOK_cong[OF ok same]) (use d in \<open>simp_all add: j closedItem_def\<close>)
  next
    case (escalate who now)
    have j: "j = i\<lparr>EscalatedBy := who, EscalatedAt := Some now\<rparr>"
      using w unfolding escalate by (auto simp: escalateVerdict_def split: if_splits)
    show ?thesis
      by (rule itemOK_cong[OF ok same])
         (use d escalate SessionID_nonempty in \<open>simp_all add: j\<close>)
  next
    case (flag reason now)
    have j: "j = i\<lparr>FlagReason := reason, FlaggedAt := Some now\<rparr>"
      using w unfolding flag by (auto simp: flagVerdict_def split: if_splits)
    have "reason \<noteq> []" using flag TrimSpace_nonempty by blast
    then show ?thesis
      by (intro itemOK_cong[OF ok same]) (use d in \<open>simp_all add: j\<close>)
  next
    case unflag
    have j: "j = i\<lparr>FlagReason := [], FlaggedAt := None\<rparr>"
      using w unfolding unflag by (auto simp: unflagVerdict_def)
    show ?thesis
      by (rule itemOK_cong[OF ok same]) (use d in \<open>simp_all add: j\<close>)
  next
    case (rate rating now)
    have j: "j = i\<lparr>Rating := rating, RatedAt := (if rating = NoRating then None else Some now)\<rparr>"
      using w unfolding rate by (auto simp: rateVerdict_def)
    show ?thesis
      by (rule itemOK_cong[OF ok same]) (use d rate in \<open>simp_all add: j\<close>)
  qed
qed

context store_lib
begin

lemma created_itemOK:
  "Item_Validate R (itemOfRequest k now req) = None \<Longrightarrow> itemOK R (itemOfRequest k now req)"
  by (auto simp: Item_Validate_def itemOK_def itemOfRequest_def emptyItem_def NoRating_def)

lemma astep_itemsOK:
  assumes a: "astep R s s'" and inv: "storeInv s" and ok: "itemsOK R s"
  shows "itemsOK R s'"
  unfolding itemsOK_def
proof (intro allI impI)
  fix k j
  assume j: "aItems s' k = Some j"
  show "itemOK R j"
  proof (cases "aItems s k")
    case None
    then show ?thesis using astep_created[OF a inv None j] created_itemOK by blast
  next
    case (Some i)
    have i: "itemOK R i" using ok Some by (simp add: itemsOK_def)
    note id = wfItemsD[OF storeInv_wf[OF inv]]
    from a show ?thesis
    proof cases
      case (update f k' i' j')
      then have "itemOK R j'" using itemUpdate_itemOK ok by (simp add: itemsOK_def)
      then show ?thesis using j i Some update(1) by (auto split: if_splits)
    next
      case (sweep k' i' now)
      have "itemOK R i'" using ok sweep(2) by (simp add: itemsOK_def)
      then have "itemOK R (closedNow now i')"
        by (rule itemOK_cong)
           (use itemOK_D[OF \<open>itemOK R i'\<close>] in \<open>simp_all add: closedNow_def sameAsk_def del: Rating_Validate_None\<close>)
      then show ?thesis using j i Some sweep(1) by (auto split: if_splits)
    next
      case (repush k' i' req now)
      have ok': "itemOK R i'" using ok repush(2) by (simp add: itemsOK_def)
      have "req_Payload req \<noteq> []" using repush(4) by (auto simp: PushRequest_Validate_def)
      then have "itemOK R (repushed req now i')"
        by (intro itemOK_cong[OF ok'])
           (use itemOK_D[OF ok'] in \<open>simp_all add: repushed_def sameAsk_def del: Rating_Validate_None\<close>)
      then show ?thesis using j i Some repush(1) by (auto split: if_splits)
    next
      case (create i' now req)
      then have "itemOK R i'" using created_itemOK by metis
      then show ?thesis using j i Some create(1) by (auto split: if_splits)
    next
      case (remove k' i')
      then show ?thesis
        using j i Some by (auto simp: spec_remove_def spec_removeIndexEntry_def Let_def split: if_splits)
    qed (use i j Some in auto)
  qed
qed

lemma asteps_itemsOK:
  "asteps R s s' \<Longrightarrow> storeInv s \<Longrightarrow> itemsOK R s \<Longrightarrow> itemsOK R s'"
proof (induction rule: rtranclp_induct)
  case (step s1 s2)
  then show ?case using astep_itemsOK asteps_storeInv by blast
qed simp

text \<open>The state a fresh database file starts in.\<close>

lemma empty_storeInv: "\<alpha> s = emptyStore \<Longrightarrow> storeInv (\<alpha> s)"
  by (simp add: emptyStore_def storeInv_def wfItems_def idxSound_def entries_def)

lemma reachable_itemsOK:
  assumes "reachable R (NewAttentionStore K w) s0 s" and "\<alpha> s0 = emptyStore"
  shows "itemsOK R (\<alpha> s)"
  using reachable_asteps[OF assms(1) empty_storeInv[OF assms(2)]] empty_storeInv[OF assms(2)]
  by (rule asteps_itemsOK) (simp add: assms(2) itemsOK_def emptyStore_def)

end

end
