(* ===== verification/StoreLaws.thy ===== *)
theory StoreLaws
  imports Lifecycle
begin

text \<open>
  What a run of the store shows to its callers: the results of a read in terms
  of the items alone, the items a prune may remove, the items a sweep closes,
  and the effect of a push. \<open>store_run\<close> is a state reached from an empty database
  file by any sequence of calls.
\<close>

definition store_run ::
  "'tx libkv \<Rightarrow> ('tx \<Rightarrow> string \<Rightarrow> (string \<rightharpoonup> Item) option) \<Rightarrow>
   ('tx \<Rightarrow> (string \<rightharpoonup> DeliveryAttempt) option) \<Rightarrow> runtime \<Rightarrow> duration \<Rightarrow> 'tx \<Rightarrow> bool" where
  "store_run K ib ab R w s \<longleftrightarrow>
     (\<exists>s0. absStore ib ab s0 = emptyStore \<and> reachable R (NewAttentionStore K w) s0 s)"

section \<open>Failed calls\<close>

text \<open>A call that reports an error returned the state it was given.\<close>

definition rolls_back :: "'tx \<Rightarrow> 'tx \<times> (error + 'r) \<Rightarrow> bool" where
  "rolls_back s p = (case snd p of Inl _ \<Rightarrow> fst p = s | Inr _ \<Rightarrow> True)"

lemma rolls_back_error [simp]: "rolls_back s (s, r)"
  by (simp add: rolls_back_def split: sum.split)

lemma rolls_back_update [simp]: "rolls_back s (db_Update K s body)"
  using db_Update_error[of K s body] by (auto simp: rolls_back_def split: sum.split)

section \<open>Liveness of a producer\<close>

definition alive :: "runtime \<Rightarrow> duration \<Rightarrow> probes \<Rightarrow> livenessChecker \<Rightarrow> Item \<Rightarrow> bool" where
  "alive R w P c i =
     (case LivenessRef_Parse R (LivenessRef i) of
        Inl _ \<Rightarrow> False
      | Inr (model, val) \<Rightarrow>
          (if model = SessionLivenessModel then bestView R c val
           else if model = OwnerLivenessModel then True
           else isHeartbeatFresh w P (ItemID i) val))"

text \<open>The two listings a caller may see agree: the registry did not change between them.\<close>

definition stableRegistry :: "runtime \<Rightarrow> livenessChecker \<Rightarrow> bool" where
  "stableRegistry R c \<longleftrightarrow> resolve R c = bestView R c"

definition visible :: "runtime \<Rightarrow> duration \<Rightarrow> readings \<Rightarrow> bool \<Rightarrow> Item \<Rightarrow> bool" where
  "visible R w rd includeAnswered i \<longleftrightarrow>
     (State i = AnsweredState \<and> includeAnswered) \<or>
     (State i = OpenState \<and> \<not> isExpired i (rd_now rd) \<and>
      (alive R w (rd_probes rd) (rd_checker rd) i \<or> \<not> isAsked i))"

definition dying :: "runtime \<Rightarrow> duration \<Rightarrow> readings \<Rightarrow> Item \<Rightarrow> bool" where
  "dying R w rd i \<longleftrightarrow> State i = OpenState \<and>
     (isExpired i (rd_now rd) \<or> (isAsked i \<and> \<not> alive R w (rd_probes rd) (rd_checker rd) i))"

definition pruned :: "runtime \<Rightarrow> duration \<Rightarrow> readings \<Rightarrow> string list \<Rightarrow> astore \<Rightarrow> astore \<Rightarrow> bool" where
  "pruned R w rd keys s s' \<longleftrightarrow> (\<forall>k i. aItems s k = Some i \<longrightarrow>
     aItems s' k = Some i \<or>
     (aItems s' k = None \<and> k \<in> set keys \<and> State i = OpenState \<and>
      (isExpired i (rd_now rd) \<or> \<not> alive R w (rd_probes rd) (rd_checker rd) i))) \<and>
     (\<forall>k. aItems s k = None \<longrightarrow> aItems s' k = None)"

lemma prunedD:
  assumes "pruned R w rd keys s s'" and "aItems s k = Some i"
  shows "aItems s' k = Some i \<or> (aItems s' k = None \<and> State i = OpenState \<and>
     (isExpired i (rd_now rd) \<or> \<not> alive R w (rd_probes rd) (rd_checker rd) i))"
  using conjunct1[OF assms(1)[unfolded pruned_def], rule_format, OF assms(2)] by blast

lemma pruned_dom:
  assumes "pruned R w rd keys s s'"
  shows "dom (aItems s') \<subseteq> dom (aItems s)"
proof
  fix k
  assume "k \<in> dom (aItems s')"
  then show "k \<in> dom (aItems s)"
    using conjunct2[OF assms[unfolded pruned_def], rule_format, of k] by (cases "aItems s k") auto
qed

lemma read_IsLive_stable:
  assumes "stableRegistry R c" and "readLivenessInv R l" and "checker l = c"
  shows "\<exists>l'. read_IsLive R l sid = (bestView R c sid, l') \<and> readLivenessInv R l' \<and> checker l' = c"
proof -
  obtain v l' where e: "read_IsLive R l sid = (v, l')" by fastforce
  have "v = bestView R c sid"
    using assms e
    by (auto simp: stableRegistry_def read_IsLive_def resolveNow_def Let_def readLivenessInv_def
        bestView_def split: option.splits if_splits)
  then show ?thesis using e read_IsLive_keeps[OF assms(2) e] assms(3) by simp
qed

context runtime_lib
begin

lemma Parse_ok:
  assumes "LivenessRef_Validate R (LivenessRef i) = None"
  obtains m v where "LivenessRef_Parse R (LivenessRef i) = Inr (m, v)"
    "m = SessionLivenessModel \<or> m = HeartbeatLivenessModel \<or> m = OwnerLivenessModel"
  using assms LivenessRef_Validate_None LivenessRef_Parse_Inr by blast

text \<open>With a valid reference the probe succeeds, and a gone verdict is the strongest view's.\<close>

lemma isProducerLiveWith_ok:
  assumes ref: "LivenessRef_Validate R (LivenessRef i) = None" and l: "readLivenessInv R l"
  shows "\<exists>live l'. isProducerLiveWith R w P (read_IsLive R) i l = Inr (live, l') \<and>
     readLivenessInv R l' \<and> checker l' = checker l \<and>
     (\<not> live \<longrightarrow> \<not> alive R w P (checker l) i) \<and>
     (stableRegistry R (checker l) \<longrightarrow> live = alive R w P (checker l) i)"
proof -
  obtain m v where m: "LivenessRef_Parse R (LivenessRef i) = Inr (m, v)"
    "m = SessionLivenessModel \<or> m = HeartbeatLivenessModel \<or> m = OwnerLivenessModel"
    using ref by (rule Parse_ok)
  show ?thesis
  proof (cases "m = SessionLivenessModel")
    case True
    obtain b l' where e: "read_IsLive R l v = (b, l')" by fastforce
    have "b = bestView R (checker l) v" if "stableRegistry R (checker l)"
      using read_IsLive_stable[OF that l, of v] e by auto
    moreover have "\<not> b \<Longrightarrow> \<not> bestView R (checker l) v" using read_IsLive_gone[OF l] e by simp
    ultimately show ?thesis
      using True m(1) e read_IsLive_keeps[OF l e] by (auto simp: isProducerLiveWith_def alive_def)
  next
    case False
    then show ?thesis using m l by (auto simp: isProducerLiveWith_def alive_def)
  qed
qed

section \<open>What a read classifies\<close>

lemma classifyForRead_ok:
  assumes ref: "LivenessRef_Validate R (LivenessRef i) = None" and l: "readLivenessInv R l"
  shows "\<exists>d l'. classifyForRead R w P b now i l = Inr (d, l') \<and>
     readLivenessInv R l' \<and> checker l' = checker l \<and>
     (stableRegistry R (checker l) \<longrightarrow>
        (let rd = \<lparr>rd_probes = P, rd_checker = checker l, rd_now = now\<rparr> in
         disp_keep d = visible R w rd b i \<and> disp_remove d = dying R w rd i))"
proof -
  obtain live l' where r: "isProducerLiveWith R w P (read_IsLive R) i l = Inr (live, l')"
    "readLivenessInv R l'" "checker l' = checker l"
    "stableRegistry R (checker l) \<longrightarrow> live = alive R w P (checker l) i"
    using isProducerLiveWith_ok[OF ref l, of w P] by blast
  consider "State i = AnsweredState" | "State i \<noteq> AnsweredState" "State i \<noteq> OpenState"
    | "State i = OpenState" by blast
  then show ?thesis
    by cases (use r l in \<open>auto simp: classifyForRead_def visible_def dying_def Let_def\<close>)
qed

lemma classifyAll_ok:
  assumes "\<forall>e\<in>set es. LivenessRef_Validate R (LivenessRef (snd e)) = None" and "readLivenessInv R l"
  shows "\<exists>kept dead. classifyAll R w P b now es l = Inr (kept, dead) \<and>
     (stableRegistry R (checker l) \<longrightarrow>
        (let rd = \<lparr>rd_probes = P, rd_checker = checker l, rd_now = now\<rparr> in
         kept = map snd (filter (visible R w rd b \<circ> snd) es) \<and>
         dead = map fst (filter (dying R w rd \<circ> snd) es)))"
  using assms
proof (induction es arbitrary: l)
  case (Cons e es)
  have p: "\<forall>e\<in>set es. LivenessRef_Validate R (LivenessRef (snd e)) = None"
    using Cons.prems(1) by simp
  obtain d l' where d: "classifyForRead R w P b now (snd e) l = Inr (d, l')"
    "readLivenessInv R l'" "checker l' = checker l"
    "stableRegistry R (checker l) \<longrightarrow>
        (let rd = \<lparr>rd_probes = P, rd_checker = checker l, rd_now = now\<rparr> in
         disp_keep d = visible R w rd b (snd e) \<and> disp_remove d = dying R w rd (snd e))"
    using classifyForRead_ok[of "snd e" l w P b now] Cons.prems by auto
  obtain kept dead where "classifyAll R w P b now es l' = Inr (kept, dead)"
    "stableRegistry R (checker l') \<longrightarrow>
        (let rd = \<lparr>rd_probes = P, rd_checker = checker l', rd_now = now\<rparr> in
         kept = map snd (filter (visible R w rd b \<circ> snd) es) \<and>
         dead = map fst (filter (dying R w rd \<circ> snd) es))"
    using Cons.IH[OF p d(2)] by blast
  then show ?case using d by (auto simp: Let_def comp_def)
qed (simp add: Let_def)

section \<open>What a prune removes\<close>

lemma pruned_Cons:
  assumes "pruned R w rd [k] s s1" and "pruned R w rd ks s1 s2"
  shows "pruned R w rd (k # ks) s s2"
  unfolding pruned_def
proof (intro conjI allI impI)
  fix k' i
  assume i: "aItems s k' = Some i"
  show "aItems s2 k' = Some i \<or>
     (aItems s2 k' = None \<and> k' \<in> set (k # ks) \<and> State i = OpenState \<and>
      (isExpired i (rd_now rd) \<or> \<not> alive R w (rd_probes rd) (rd_checker rd) i))"
  proof (cases "aItems s1 k'")
    case None
    then show ?thesis using assms i unfolding pruned_def by fastforce
  next
    case (Some j)
    then have "j = i" using assms(1) i unfolding pruned_def by fastforce
    then show ?thesis using assms(2) Some unfolding pruned_def by fastforce
  qed
next
  fix k'
  assume "aItems s k' = None"
  then show "aItems s2 k' = None" using assms unfolding pruned_def by blast
qed

lemma spec_remove_items: "aItems (spec_remove k s) = (aItems s)(k := None)"
  by (simp add: spec_remove_def spec_removeIndexEntry_def Let_def split: option.splits)

lemma spec_pruneStep_ok:
  assumes ok: "itemsOK R s" and l: "readLivenessInv R l" "checker l = rd_checker rd"
  shows "\<exists>s' l'. spec_pruneStep R w (rd_probes rd) (rd_now rd) (s, l) key = Inr (s', l') \<and>
     itemsOK R s' \<and> readLivenessInv R l' \<and> checker l' = rd_checker rd \<and> pruned R w rd [key] s s'"
proof (cases "aItems s key")
  case None
  then show ?thesis using assms by (simp add: spec_pruneStep_def pruned_def)
next
  case (Some i)
  have "LivenessRef_Validate R (LivenessRef i) = None" using ok Some by (simp add: itemsOK_def itemOK_def)
  then obtain live l' where r: "isProducerLiveWith R w (rd_probes rd) (read_IsLive R) i l = Inr (live, l')"
    "readLivenessInv R l'" "checker l' = checker l"
    "\<not> live \<longrightarrow> \<not> alive R w (rd_probes rd) (checker l) i"
    using isProducerLiveWith_ok[OF _ l(1)] by blast
  have rm: "itemsOK R (spec_remove key s)"
    using ok by (simp add: itemsOK_def spec_remove_items)
  have gone: "pruned R w rd [key] s (spec_remove key s)"
    if "State i = OpenState" "isExpired i (rd_now rd) \<or> \<not> alive R w (rd_probes rd) (rd_checker rd) i"
    using that Some by (auto simp: pruned_def spec_remove_items)
  have stay: "pruned R w rd [key] s s" by (simp add: pruned_def)
  show ?thesis
    using r l ok rm gone stay by (auto simp: spec_pruneStep_def Some)
qed

lemma spec_pruneLoop_ok:
  assumes "itemsOK R s" and "readLivenessInv R l" "checker l = rd_checker rd"
  shows "\<exists>s' l'. efold (spec_pruneStep R w (rd_probes rd) (rd_now rd)) (s, l) keys = Inr (s', l') \<and>
     pruned R w rd keys s s'"
  using assms
proof (induction keys arbitrary: s l)
  case Nil
  then show ?case by (simp add: pruned_def)
next
  case (Cons key keys)
  obtain s1 l1 where 1: "spec_pruneStep R w (rd_probes rd) (rd_now rd) (s, l) key = Inr (s1, l1)"
    "itemsOK R s1" "readLivenessInv R l1" "checker l1 = rd_checker rd" "pruned R w rd [key] s s1"
    using spec_pruneStep_ok[OF Cons.prems] by blast
  obtain s2 l2 where "efold (spec_pruneStep R w (rd_probes rd) (rd_now rd)) (s1, l1) keys = Inr (s2, l2)"
    "pruned R w rd keys s1 s2"
    using Cons.IH[OF 1(2-4)] by blast
  then show ?case using 1 pruned_Cons by auto
qed

lemma spec_pruneDead_ok:
  assumes "itemsOK R s"
  shows "\<exists>s'. spec_pruneDead R w rd keys s = (s', Inr ()) \<and> pruned R w rd keys s s'"
proof -
  let ?l = "resolveNow R (newReadSessionLiveness (rd_checker rd))"
  have "readLivenessInv R ?l" "checker ?l = rd_checker rd"
    using readLivenessInv_new by (simp_all add: newReadSessionLiveness_def)
  then obtain s' l' where "efold (spec_pruneStep R w (rd_probes rd) (rd_now rd)) (s, ?l) keys = Inr (s', l')"
    "pruned R w rd keys s s'"
    using spec_pruneLoop_ok[OF assms] by blast
  then show ?thesis by (simp add: spec_pruneDead_def)
qed

end

section \<open>What a sweep closes\<close>

definition sweptItem ::
  "instant \<Rightarrow> (string \<Rightarrow> instant) \<Rightarrow> (string \<Rightarrow> instant) \<Rightarrow> (string \<rightharpoonup> Item) \<Rightarrow> string \<Rightarrow>
   Item \<Rightarrow> Item" where
  "sweptItem cutoff nowA nowO items k i =
     (if isDue cutoff i then closedNow (nowA k) i
      else if isReraise (answeredAsks (worthyItems (\<lambda>i. \<not> isDue cutoff i) items)) i
      then closedNow (nowO k) i else i)"

lemma dueKeys_set: "finite (dom items) \<Longrightarrow> k \<in> set (dueKeys P items) \<longleftrightarrow> (\<exists>i. items k = Some i \<and> P i)"
  by (auto simp: dueKeys_def set_sorted_entries image_iff)

lemma dueKeys_distinct: "distinct (dueKeys P items)"
  by (simp add: dueKeys_def sorted_entries_def comp_def)

lemma filter_dueKeys:
  assumes "finite (dom items)" and "\<And>i. P i \<Longrightarrow> Q i"
  shows "filter (\<lambda>k. \<exists>i. items k = Some i \<and> Q i) (dueKeys P items) = dueKeys P items"
  using assms by (auto simp: dueKeys_set filter_id_conv)

text \<open>Each pass closes exactly the items it finds due, and counts them.\<close>

lemma bulk_close:
  assumes inv: "sweepInv s" and e: "expected \<noteq> ClosedState" and P: "\<And>i. P i \<Longrightarrow> State i = expected"
    and p: "spec_closeLoop expected nowAt (dueKeys P (aItems s)) (s, 0) = (s1, n)"
  shows "aItems s1 = (\<lambda>k. map_option (\<lambda>i. if P i then closedNow (nowAt k) i else i) (aItems s k))"
    and "n = card {k. \<exists>i. aItems s k = Some i \<and> P i}" and "sweepInv s1"
proof -
  have fin: "finite (dom (aItems s))" using inv by (simp add: sweepInv_def storeInv_def)
  note r = spec_closeLoop_items[OF inv e dueKeys_distinct, of nowAt P "aItems s" 0, unfolded p fst_conv snd_conv]
  show "aItems s1 = (\<lambda>k. map_option (\<lambda>i. if P i then closedNow (nowAt k) i else i) (aItems s k))"
  proof
    fix k
    show "aItems s1 k = map_option (\<lambda>i. if P i then closedNow (nowAt k) i else i) (aItems s k)"
      using P by (cases "aItems s k") (auto simp: conjunct1[OF r] dueKeys_set[OF fin])
  qed
  have "n = length (dueKeys P (aItems s))"
    using r filter_dueKeys[OF fin, of P "\<lambda>i. State i = expected"] P by simp
  also have "\<dots> = card (set (dueKeys P (aItems s)))"
    by (rule distinct_card[OF dueKeys_distinct, symmetric])
  also have "set (dueKeys P (aItems s)) = {k. \<exists>i. aItems s k = Some i \<and> P i}"
    using dueKeys_set[OF fin] by blast
  finally show "n = card {k. \<exists>i. aItems s k = Some i \<and> P i}" .
  show "sweepInv s1"
    using sweepInv_closeLoop[of "(s, 0)" expected nowAt "dueKeys P (aItems s)"] inv p by simp
qed

lemma sweep_asks:
  "answeredAsks (\<lambda>k. map_option (\<lambda>i. if isDue cutoff i then closedNow (nowA k) i else i) (items k)) =
   answeredAsks (worthyItems (\<lambda>i. \<not> isDue cutoff i) items)"
proof -
  have "map_option (\<lambda>i. if isDue cutoff i then closedNow (nowA k) i else i) (items k) = Some j \<and>
      State j = AnsweredState \<longleftrightarrow>
      worthyItems (\<lambda>i. \<not> isDue cutoff i) items k = Some j \<and> State j = AnsweredState" for k j
    by (cases "items k") auto
  then show ?thesis by (simp add: answeredAsks_def)
qed

lemma sweep_items:
  assumes inv: "sweepInv s"
  shows "aItems (fst (spec_sweep cutoff nowA nowO s)) =
      (\<lambda>k. map_option (sweptItem cutoff nowA nowO (aItems s) k) (aItems s k))"
    and "snd (spec_sweep cutoff nowA nowO s) =
      card {k. \<exists>i. aItems s k = Some i \<and> isDue cutoff i} +
      card {k. \<exists>i. aItems s k = Some i \<and>
        isReraise (answeredAsks (worthyItems (\<lambda>i. \<not> isDue cutoff i) (aItems s))) i}"
proof -
  let ?asks = "answeredAsks (worthyItems (\<lambda>i. \<not> isDue cutoff i) (aItems s))"
  obtain s1 n where 1: "spec_closeLoop AnsweredState nowA (dueKeys (isDue cutoff) (aItems s)) (s, 0) = (s1, n)"
    by fastforce
  note first = bulk_close[OF inv _ _ 1, simplified isDue_def, folded isDue_def, simplified]
  have asks: "answeredAsks (aItems s1) = ?asks" unfolding first(1) by (rule sweep_asks)
  obtain s2 m where 2: "spec_closeLoop OpenState nowO (dueKeys (isReraise ?asks) (aItems s1)) (s1, 0) = (s2, m)"
    by fastforce
  note second = bulk_close[OF first(3) _ _ 2, simplified isReraise_def, folded isReraise_def, simplified]
  have open_due: "\<not> isDue cutoff i" if "isReraise ?asks i" for i
    using that by (auto simp: isReraise_def isDue_def)
  have closed: "\<not> isReraise ?asks (closedNow now i)" for now i by (simp add: isReraise_def)
  have sw: "spec_sweep cutoff nowA nowO s = (s2, n + m)" by (simp add: spec_sweep_def 1 asks 2)
  have "aItems s2 k = map_option (sweptItem cutoff nowA nowO (aItems s) k) (aItems s k)" for k
    using closed by (cases "aItems s k") (simp_all add: second(1) first(1) sweptItem_def)
  then show "aItems (fst (spec_sweep cutoff nowA nowO s)) =
      (\<lambda>k. map_option (sweptItem cutoff nowA nowO (aItems s) k) (aItems s k))"
    by (simp add: sw fun_eq_iff)
  have "(\<exists>i. aItems s1 k = Some i \<and> isReraise ?asks i) \<longleftrightarrow> (\<exists>i. aItems s k = Some i \<and> isReraise ?asks i)" for k
    using closed open_due by (cases "aItems s k") (auto simp: first(1))
  then show "snd (spec_sweep cutoff nowA nowO s) = card {k. \<exists>i. aItems s k = Some i \<and> isDue cutoff i} +
      card {k. \<exists>i. aItems s k = Some i \<and> isReraise ?asks i}"
    by (simp add: sw first(2) second(2))
qed

section \<open>What a push creates\<close>

context runtime_lib
begin

text \<open>The checks of an item created by a push are those of its request, plus its id and time.\<close>

lemma request_item_valid:
  assumes "PushRequest_Validate R req = None" and "itemID \<noteq> []" and "now \<noteq> zeroTime"
  shows "Item_Validate R (itemOfRequest itemID now req) = None"
proof -
  let ?i = "itemOfRequest itemID now req"
  have checks: "Item_validateOptions R ?i = Push_validateOptions R req"
    "Item_validateAnswerCardinality R ?i = Push_validateAnswerCardinality R req"
    "Item_validateQuestions R ?i = Push_validateQuestions R req"
    by (simp_all add: itemOfRequest_def Item_validateOptions_def Push_validateOptions_def
        Item_validateAnswerCardinality_def Push_validateAnswerCardinality_def
        Item_validateQuestions_def Push_validateQuestions_def)
  have fields: "ItemID ?i = itemID" "ProducerID ?i = req_ProducerID req" "ProducerKind ?i = req_ProducerKind req"
    "ProvenanceClass ?i = req_ProvenanceClass req" "LivenessRef ?i = req_LivenessRef req"
    "DedupKey ?i = req_DedupKey req" "InterruptClass ?i = req_InterruptClass req" "Risk ?i = req_Risk req"
    "Payload ?i = req_Payload req" "AnswerMechanism ?i = req_AnswerMechanism req" "Decision ?i = []"
    "State ?i = OpenState" "CreatedAt ?i = now" "ExpiresAt ?i = req_ExpiresAt req"
    "Answer ?i = None" "Answers ?i = []"
    by (simp_all add: itemOfRequest_def emptyItem_def)
  show ?thesis
    using assms(1,2) validateDateTime_ok[OF assms(3)]
    by (simp add: PushRequest_Validate_def Item_Validate_def checks fields Decision_Validate_def
        validateAnswer_def validateAnswers_def)
qed

lemma newItem_ok:
  assumes "PushRequest_Validate R req = None" and "itemID \<noteq> []" and "now \<noteq> zeroTime"
  shows "newItem R (Inr itemID) now req = Inr (itemOfRequest itemID now req)"
  using request_item_valid[OF assms] by (simp add: newItem_def Let_def)

end

section \<open>What a run shows\<close>

context store_lib
begin

lemma store_run_inv:
  assumes "store_run K ib ab R w s"
  shows "storeInv (\<alpha> s)" and "itemsOK R (\<alpha> s)" and "wfItems (aItems (\<alpha> s))" and "finite (dom (aItems (\<alpha> s)))"
proof -
  obtain s0 where s0: "\<alpha> s0 = emptyStore" "reachable R (NewAttentionStore K w) s0 s"
    using assms by (auto simp: store_run_def)
  show inv: "storeInv (\<alpha> s)" using s0 empty_storeInv reachable_storeInv by blast
  show "itemsOK R (\<alpha> s)" using s0 reachable_itemsOK by blast
  show "wfItems (aItems (\<alpha> s))" "finite (dom (aItems (\<alpha> s)))" using inv by (simp_all add: storeInv_def)
qed

lemma rebuild_is_worthyItems:
  assumes "finite (dom items)" and "wfItems items"
  shows "entries (spec_rebuild liveIndexWorthy itemIDIndexKey items idx) = worthyItems liveIndexWorthy items"
    and "entries (spec_rebuild openIndexWorthy itemIDIndexKey items idx) = worthyItems openIndexWorthy items"
proof -
  have eq: "f = g" if "\<And>k i. f k = Some i \<longleftrightarrow> g k = Some (i :: Item)" for f g :: "string \<Rightarrow> Item option"
    using that by (metis option.exhaust ext)
  show "entries (spec_rebuild liveIndexWorthy itemIDIndexKey items idx) = worthyItems liveIndexWorthy items"
    using live.rebuild_exact[OF assms agreesOn_itemID] wfItemsD[OF assms(2)] by (intro eq) auto
  show "entries (spec_rebuild openIndexWorthy itemIDIndexKey items idx) = worthyItems openIndexWorthy items"
    using opened.rebuild_exact[OF assms agreesOn_itemID] wfItemsD[OF assms(2)] by (intro eq) auto
qed

lemma ensure_exact:
  assumes wf: "wfItems (aItems (\<alpha> s))" and "\<not> built (aLive (\<alpha> s))" and "\<not> built (aOpen (\<alpha> s))"
  shows "\<exists>s1. ensureLiveIndex R (NewAttentionStore K w) s = (s1, Inr ()) \<and>
      entries (aLive (\<alpha> s1)) = worthyItems liveIndexWorthy (aItems (\<alpha> s)) \<and> aItems (\<alpha> s1) = aItems (\<alpha> s)"
    and "\<exists>s2. ensureOpenIndex R (NewAttentionStore K w) s = (s2, Inr ()) \<and>
      entries (aOpen (\<alpha> s2)) = worthyItems openIndexWorthy (aItems (\<alpha> s)) \<and> aItems (\<alpha> s2) = aItems (\<alpha> s)"
proof -
  have ok: "okKeys (\<alpha> s)" using wfItemsD[OF wf] by (auto simp: okKeys_def keyable_def)
  note exact = rebuild_is_worthyItems[OF finite_abs(1) wf]
  show "\<exists>s1. ensureLiveIndex R (NewAttentionStore K w) s = (s1, Inr ()) \<and>
      entries (aLive (\<alpha> s1)) = worthyItems liveIndexWorthy (aItems (\<alpha> s)) \<and> aItems (\<alpha> s1) = aItems (\<alpha> s)"
    using ensureLiveIndex_ok[OF ok, of w] assms(2) exact by (auto simp: spec_build_def)
  show "\<exists>s2. ensureOpenIndex R (NewAttentionStore K w) s = (s2, Inr ()) \<and>
      entries (aOpen (\<alpha> s2)) = worthyItems openIndexWorthy (aItems (\<alpha> s)) \<and> aItems (\<alpha> s2) = aItems (\<alpha> s)"
    using ensureOpenIndex_ok[OF ok, of w] assms(3) exact by (auto simp: spec_build_def)
qed

lemma store_run_step:
  "store_run K ib ab R w s \<Longrightarrow> store_step R (NewAttentionStore K w) s s' \<Longrightarrow> store_run K ib ab R w s'"
  by (auto simp: store_run_def intro: reachable.step)

lemma store_read_ok:
  assumes inv: "storeInv (\<alpha> s)" and ok: "itemsOK R (\<alpha> s)"
  shows "\<exists>s' out. store_read R (NewAttentionStore K w) b rd rdP s = (s', Inr out) \<and>
    (\<exists>keys. pruned R w rdP keys (\<alpha> s) (\<alpha> s')) \<and>
    (stableRegistry R (rd_checker rd) \<longrightarrow>
       out = (let seen = map snd (sorted_entries (worthyItems (visible R w rd b) (aItems (\<alpha> s))))
              in if b then suppressAnsweredTwins seen else seen))"
proof -
  let ?worthy = "if b then liveIndexWorthy else openIndexWorthy"
  let ?es = "sorted_entries (worthyItems ?worthy (aItems (\<alpha> s)))"
  let ?s1 = "built_for_read b (\<alpha> s)"
  have fin: "finite (dom (aItems (\<alpha> s)))" using inv by (simp add: storeInv_def)
  have refs: "\<forall>e\<in>set ?es. LivenessRef_Validate R (LivenessRef (snd e)) = None"
    using ok fin by (auto simp: set_sorted_entries itemsOK_def itemOK_def)
  have rd: "checker (newReadSessionLiveness (rd_checker rd)) = rd_checker rd"
      "\<lparr>rd_probes = rd_probes rd, rd_checker = rd_checker rd, rd_now = rd_now rd\<rparr> = rd"
    by (simp_all add: newReadSessionLiveness_def)
  obtain kept dead where c: "classifyAll R w (rd_probes rd) b (rd_now rd) ?es
      (newReadSessionLiveness (rd_checker rd)) = Inr (kept, dead)"
    and k: "stableRegistry R (rd_checker rd) \<longrightarrow> kept = map snd (filter (visible R w rd b \<circ> snd) ?es)"
    using classifyAll_ok[OF refs readLivenessInv_new[of R "rd_checker rd"], of w "rd_probes rd" b "rd_now rd",
      unfolded rd Let_def]
    by auto
  have "itemsOK R ?s1" using ok by (simp add: itemsOK_def)
  then obtain a where a: "spec_pruneDead R w rdP dead ?s1 = (a, Inr ())" "pruned R w rdP dead ?s1 a"
    using spec_pruneDead_ok by blast
  have "spec_read R w b rd rdP (\<alpha> s) = (a, Inr (if b then suppressAnsweredTwins kept else kept))"
    by (simp add: spec_read_def c a(1) Let_def)
  then obtain s' where s': "store_read R (NewAttentionStore K w) b rd rdP s =
      (s', Inr (if b then suppressAnsweredTwins kept else kept))" "\<alpha> s' = a"
    using store_read_refines[OF inv, of w b rd rdP]
    by (cases "store_read R (NewAttentionStore K w) b rd rdP s") auto
  have "pruned R w rdP dead (\<alpha> s) (\<alpha> s')" using a(2) by (simp add: s'(2) pruned_def)
  moreover have "filter (visible R w rd b \<circ> snd) ?es = sorted_entries (worthyItems (visible R w rd b) (aItems (\<alpha> s)))"
  proof -
    have "filter (visible R w rd b \<circ> snd) ?es = filter (\<lambda>e. visible R w rd b (snd e)) ?es"
      by (simp add: comp_def)
    also have "\<dots> = sorted_entries (worthyItems (visible R w rd b) (worthyItems ?worthy (aItems (\<alpha> s))))"
      using fin by (intro filter_sorted_worthy) simp
    also have "\<dots> = sorted_entries (worthyItems (visible R w rd b) (aItems (\<alpha> s)))"
      by (subst worthyItems_nested) (auto simp: visible_def liveIndexWorthy_def openIndexWorthy_def)
    finally show ?thesis .
  qed
  ultimately show ?thesis using k by (auto simp: s'(1) Let_def)
qed

lemma sweep_ok:
  assumes inv: "storeInv (\<alpha> s)" and cutoff: "cutoff = now + negDuration maxAge" and items: "items = aItems (\<alpha> s)"
  shows "\<exists>s'. store_SweepAnswered R (NewAttentionStore K w) now nowA nowO maxAge s =
      (s', Inr (card {k. \<exists>i. items k = Some i \<and> isDue cutoff i} +
        card {k. \<exists>i. items k = Some i \<and>
          isReraise (answeredAsks (worthyItems (\<lambda>i. \<not> isDue cutoff i) items)) i})) \<and>
     aItems (\<alpha> s') = (\<lambda>k. map_option (sweptItem cutoff nowA nowO items k) (items k))"
proof -
  have b: "sweepInv (built_for_read True (\<alpha> s))"
    using storeInv_built_for_read[OF inv, of True] by (simp add: sweepInv_def) (simp add: built_for_read_def)
  obtain a n where sw: "spec_sweep cutoff nowA nowO (built_for_read True (\<alpha> s)) = (a, n)" by fastforce
  obtain s' where "store_SweepAnswered R (NewAttentionStore K w) now nowA nowO maxAge s = (s', Inr n)"
    "\<alpha> s' = a"
    using store_SweepAnswered_refines[OF inv, of w now nowA nowO maxAge] sw
    by (cases "store_SweepAnswered R (NewAttentionStore K w) now nowA nowO maxAge s") (auto simp: cutoff)
  then show ?thesis
    using sweep_items[OF b, of cutoff nowA nowO, unfolded sw fst_conv snd_conv] by (simp add: items)
qed

end

end
