(* ===== verification/Demo.thy ===== *)
theory Demo
  imports StoreLaws
begin

text \<open>
  A run of the store on the in-memory database: an empty file, a push, an answer
  and a close, with every argument concrete. The witnesses of the properties
  apply them to the states of this run.
\<close>

definition demo_A :: "memdb attentionStore" where "demo_A = NewAttentionStore mem_kv 0"

definition demo_probes :: probes where
  "demo_probes = \<lparr>statMTime = (\<lambda>_ _. None), probeNow = (\<lambda>_. 0)\<rparr>"

definition demo_checker :: livenessChecker where
  "demo_checker = \<lparr>chk_IsLive = (\<lambda>_. True), chk_LiveSessions = None, chk_LiveSessionsFresh = None\<rparr>"

definition demo_readings :: readings where
  "demo_readings = \<lparr>rd_probes = demo_probes, rd_checker = demo_checker, rd_now = 5\<rparr>"

definition demo_buf :: "8 word list" where "demo_buf = replicate 16 0"
definition demo_id :: ItemID where "demo_id = replicate 32 (CHR ''0'')"

definition demo_req :: PushRequest where
  "demo_req = \<lparr>req_ProducerID = ''p'', req_ProducerKind = ''session'', req_ProvenanceClass = ''explicit'',
     req_LivenessRef = ''owner:o'', req_DedupKey = ''d'', req_InterruptClass = ''c'', req_Risk = [],
     req_Payload = ''ask'', req_Context = [], req_AnswerMechanism = ''message'', req_Options = [],
     req_AnswerCardinality = [], req_Questions = [], req_ExpiresAt = None\<rparr>"

definition demo_item :: Item where "demo_item = itemOfRequest demo_id 1 demo_req"

definition demo_push :: "PushRequest \<Rightarrow> memdb" where
  "demo_push req = fst (store_Push std_runtime demo_A demo_probes demo_checker (Generate (Inr demo_buf)) 1
     req mem_empty)"

definition demo_s1 :: memdb where "demo_s1 = demo_push demo_req"

definition demo_preq :: PushRequest where
  "demo_preq = demo_req\<lparr>req_AnswerMechanism := PermissionAnswerMechanism\<rparr>"

definition demo_pitem :: Item where "demo_pitem = itemOfRequest demo_id 1 demo_preq"

definition demo_p1 :: memdb where "demo_p1 = demo_push demo_preq"

definition demo_s2 :: memdb where
  "demo_s2 = fst (store_Answer std_runtime demo_A 2 demo_id ''arm'' [] [] None [] None [] demo_s1)"

definition demo_s3 :: memdb where
  "demo_s3 = fst (store_Close demo_A 3 demo_id [] None demo_s2)"

abbreviation demo_abs :: "memdb \<Rightarrow> astore" where "demo_abs \<equiv> absStore mem_ib mem_ab"

lemma demo_valid: "PushRequest_Validate std_runtime demo_req = None" by code_simp

lemma demo_hex: "hexEncode demo_buf = demo_id" by code_simp

lemma demo_empty: "demo_abs mem_empty = emptyStore"
  by (simp add: absStore_def mem_empty_def mem_ib_def mem_ab_def emptyStore_def alist_of_def)

lemma demo_store_lib: "store_lib mem_kv mem_ib mem_ab std_runtime" ..

lemma demo_push_step: "store_step std_runtime demo_A mem_empty (demo_push req)"
  unfolding demo_push_def
  by (rule store_step.Push)
     (simp_all add: demo_buf_def freshID_def demo_A_def mem_kv_def mem_itemStore_def alist_Get_def mem_empty_def)

lemma demo_step2: "store_step std_runtime demo_A demo_s1 demo_s2"
  unfolding demo_s2_def by (rule store_step.Answer)

lemma demo_step3: "store_step std_runtime demo_A demo_s2 demo_s3"
  unfolding demo_s3_def by (rule store_step.Close)

lemma demo_reachable:
  "reachable std_runtime demo_A mem_empty mem_empty"
  "reachable std_runtime demo_A mem_empty demo_s1"
  "reachable std_runtime demo_A mem_empty demo_s2"
  "reachable std_runtime demo_A mem_empty demo_s3"
  "reachable std_runtime demo_A mem_empty demo_p1"
  using reachable.start reachable.step demo_push_step[of demo_req, folded demo_s1_def]
    demo_push_step[of demo_preq, folded demo_p1_def] demo_step2 demo_step3 by metis+

lemma demo_inv: "storeInv (demo_abs mem_empty)" "storeInv (demo_abs demo_s1)" "storeInv (demo_abs demo_s2)"
  using demo_reachable[unfolded demo_A_def] mem_store.reachable_storeInv mem_store.empty_storeInv demo_empty
  by metis+

lemma demo_items0: "aItems (demo_abs mem_empty) = Map.empty"
  by (simp add: demo_empty emptyStore_def)

lemma demo_push_abs:
  assumes "PushRequest_Validate std_runtime req = None"
    and "Item_Validate std_runtime (itemOfRequest demo_id 1 req) = None"
  shows "demo_abs (demo_push req) =
    spec_put (itemOfRequest demo_id 1 req) (emptyStore\<lparr>aDedup := [liveIndexMarkerKey \<mapsto> emptyItem]\<rparr>)"
proof -
  have wf: "wfItems (aItems (demo_abs mem_empty))"
    and dd: "idxSound openIndexWorthy dkey (aItems (demo_abs mem_empty)) (aDedup (demo_abs mem_empty))"
    using demo_inv(1) by (simp_all add: storeInv_def)
  have "demo_abs (demo_push req) =
      fst (spec_Push std_runtime 0 demo_probes demo_checker (Inr demo_id) 1 req emptyStore)"
    unfolding demo_push_def demo_A_def mem_store.fst_map_prod mem_store.store_Push_refines[OF wf dd]
    by (simp add: demo_empty Generate_def demo_hex)
  moreover have "spec_build openIndexWorthy dedupIndexKey Map.empty Map.empty =
      [liveIndexMarkerKey \<mapsto> emptyItem]"
    by (simp add: spec_build_def built_def spec_rebuild_def wanted_def sorted_entries_def)
  moreover have "newItem std_runtime (Inr demo_id) 1 req = Inr (itemOfRequest demo_id 1 req)"
    using assms(2) by (simp add: newItem_def Let_def)
  ultimately show ?thesis
    by (simp add: spec_Push_def assms(1) Let_def emptyStore_def)
qed

lemma demo_request_checks:
  "Item_Validate std_runtime (itemOfRequest demo_id 1 demo_req) = None"
  "PushRequest_Validate std_runtime demo_preq = None"
  "Item_Validate std_runtime (itemOfRequest demo_id 1 demo_preq) = None"
  by code_simp+

lemmas demo_pushed =
  demo_push_abs[OF demo_valid demo_request_checks(1), folded demo_s1_def demo_item_def]
  demo_push_abs[OF demo_request_checks(2,3), folded demo_p1_def demo_pitem_def]

lemma demo_items1: "aItems (demo_abs demo_s1) = [demo_id \<mapsto> demo_item]"
  by (simp add: demo_pushed(1) emptyStore_def demo_item_def itemOfRequest_def)

lemma demo_itemsp: "aItems (demo_abs demo_p1) = [demo_id \<mapsto> demo_pitem]"
  by (simp add: demo_pushed(2) emptyStore_def demo_pitem_def itemOfRequest_def)

lemma demo_dedup:
  "aDedup (demo_abs demo_s1) (dedupIndexKeyOf (req_ProducerID demo_req) (req_DedupKey demo_req)) = Some demo_item"
  "built (aDedup (demo_abs demo_s1))"
proof -
  have "wfItems (aItems (emptyStore\<lparr>aDedup := [liveIndexMarkerKey \<mapsto> emptyItem]\<rparr>))"
    by (simp add: emptyStore_def wfItems_def)
  note spec_put_indexes(4)[OF this, of demo_item]
  moreover have "openIndexWorthy demo_item"
    "dkey demo_item = dedupIndexKeyOf (req_ProducerID demo_req) (req_DedupKey demo_req)"
    by (simp_all add: openIndexWorthy_def dkey_def demo_item_def itemOfRequest_def)
  ultimately have eq: "aDedup (demo_abs demo_s1) = [liveIndexMarkerKey \<mapsto> emptyItem,
      dedupIndexKeyOf (req_ProducerID demo_req) (req_DedupKey demo_req) \<mapsto> demo_item]"
    by (simp add: demo_pushed(1) emptyStore_def marked_def)
  show "aDedup (demo_abs demo_s1) (dedupIndexKeyOf (req_ProducerID demo_req) (req_DedupKey demo_req)) = Some demo_item"
    "built (aDedup (demo_abs demo_s1))"
    by (simp_all add: eq built_def)
qed

text \<open>The answered and the closed item of the run.\<close>

definition demo_answered :: Item where
  "demo_answered = answeredItem 2 ''arm'' [] [] None [] None emptyRoute demo_item"

definition demo_closed :: Item where
  "demo_closed = closedItem 3 [] None demo_answered"

lemma demo_item_simps [simp]:
  "ItemID demo_item = demo_id" "State demo_item = OpenState" "AnswerMechanism demo_item = ''message''"
  "Answer demo_item = None" "Answers demo_item = []"
  by (simp_all add: demo_item_def itemOfRequest_def demo_req_def emptyItem_def)

lemma demo_answered_id [simp]: "ItemID demo_answered = demo_id"
  by (simp add: demo_answered_def answeredItem_def stampAnswerRoute_def emptyRoute_def Let_def)

lemma demo_items2: "aItems (demo_abs demo_s2) = [demo_id \<mapsto> demo_answered]"
proof -
  have wf: "wfItems (aItems (demo_abs demo_s1))" using demo_inv(2) by (rule storeInv_wf)
  have "answerVerdict std_runtime 2 ''arm'' [] [] None [] None [] demo_item = Write demo_answered"
    by (simp add: answerVerdict_def Let_def demo_answered_def firstRoute_def validateAnswer_def
        validateAnswers_def)
  then have "demo_abs demo_s2 = spec_put demo_answered (demo_abs demo_s1)"
    unfolding demo_s2_def demo_A_def mem_store.fst_map_prod mem_store.store_Answer_refines[OF wf]
    by (simp add: spec_update_def demo_items1)
  then show ?thesis by (simp add: demo_items1)
qed

lemma demo_answered_state [simp]: "State demo_answered = AnsweredState"
  by (simp add: demo_answered_def)

lemma demo_closed_id [simp]: "ItemID demo_closed = demo_id" "State demo_closed = ClosedState"
  by (simp_all add: demo_closed_def closedItem_def)

lemma demo_items3: "aItems (demo_abs demo_s3) = [demo_id \<mapsto> demo_closed]"
proof -
  have wf: "wfItems (aItems (demo_abs demo_s2))" using demo_inv(3) by (rule storeInv_wf)
  have "closeVerdict 3 [] None demo_answered = Write demo_closed"
    by (simp add: closeVerdict_def demo_closed_def)
  then have "demo_abs demo_s3 = spec_put demo_closed (demo_abs demo_s2)"
    unfolding demo_s3_def demo_A_def mem_store.fst_map_prod mem_store.store_Close_refines[OF wf]
    by (simp add: spec_update_def demo_items2)
  then show ?thesis by (simp add: demo_items2)
qed

lemma demo_runs:
  "store_run mem_kv mem_ib mem_ab std_runtime 0 mem_empty"
  "store_run mem_kv mem_ib mem_ab std_runtime 0 demo_s1"
  "store_run mem_kv mem_ib mem_ab std_runtime 0 demo_s2"
  "store_run mem_kv mem_ib mem_ab std_runtime 0 demo_s3"
  "store_run mem_kv mem_ib mem_ab std_runtime 0 demo_p1"
  unfolding store_run_def using demo_empty demo_reachable[unfolded demo_A_def] by blast+

lemma demo_get:
  "aItems (demo_abs demo_s1) demo_id = Some demo_item"
  "aItems (demo_abs demo_s2) demo_id = Some demo_answered"
  "aItems (demo_abs demo_s3) demo_id = Some demo_closed"
  "aItems (demo_abs demo_p1) demo_id = Some demo_pitem"
  by (simp_all add: demo_items1 demo_items2 demo_items3 demo_itemsp)

lemma demo_pitem_simps [simp]:
  "ItemID demo_pitem = demo_id" "State demo_pitem = OpenState"
  "AnswerMechanism demo_pitem = PermissionAnswerMechanism"
  by (simp_all add: demo_pitem_def itemOfRequest_def demo_preq_def demo_req_def emptyItem_def)

text \<open>A re-push that changes what kind of answer is asked for: the first push of the
  key asks for an acknowledgement, the second for one of two options.\<close>

definition demo_ackreq :: PushRequest where
  "demo_ackreq = demo_req\<lparr>req_AnswerMechanism := AckAnswerMechanism\<rparr>"

definition demo_optreq :: PushRequest where
  "demo_optreq = demo_req\<lparr>req_Options := map (\<lambda>l.
     \<lparr>opt_Label = l, opt_Description = [], opt_Recommended = False, opt_Exclusive = False\<rparr>) [''yes'', ''no'']\<rparr>"

definition demo_ackitem :: Item where "demo_ackitem = itemOfRequest demo_id 1 demo_ackreq"

definition demo_a1 :: memdb where "demo_a1 = demo_push demo_ackreq"

definition demo_a2 :: memdb where
  "demo_a2 = fst (store_Push std_runtime demo_A demo_probes demo_checker
     (Generate (Inr (replicate 16 1))) 8 demo_optreq demo_a1)"

lemma demo_ack_checks:
  "PushRequest_Validate std_runtime demo_ackreq = None"
  "Item_Validate std_runtime demo_ackitem = None"
  "PushRequest_Validate std_runtime demo_optreq = None"
  "isProducerLive std_runtime 0 demo_probes demo_checker demo_ackitem = Inr True"
  "hexEncode (replicate 16 1) \<noteq> demo_id"
  "ItemID demo_ackitem = demo_id" "openIndexWorthy demo_ackitem"
  "dkey demo_ackitem = dedupIndexKeyOf (req_ProducerID demo_optreq) (req_DedupKey demo_optreq)"
  by code_simp+

lemma demo_a1_abs:
  "demo_abs demo_a1 = spec_put demo_ackitem (emptyStore\<lparr>aDedup := [liveIndexMarkerKey \<mapsto> emptyItem]\<rparr>)"
  unfolding demo_a1_def demo_ackitem_def
  by (rule demo_push_abs[OF demo_ack_checks(1) demo_ack_checks(2)[unfolded demo_ackitem_def]])

lemma demo_a1_state:
  "aItems (demo_abs demo_a1) = [demo_id \<mapsto> demo_ackitem]"
  "spec_build openIndexWorthy dedupIndexKey (aItems (demo_abs demo_a1)) (aDedup (demo_abs demo_a1))
     (dedupIndexKeyOf (req_ProducerID demo_optreq) (req_DedupKey demo_optreq)) = Some demo_ackitem"
proof -
  show "aItems (demo_abs demo_a1) = [demo_id \<mapsto> demo_ackitem]"
    by (simp add: demo_a1_abs emptyStore_def demo_ack_checks(6))
  have "wfItems (aItems (emptyStore\<lparr>aDedup := [liveIndexMarkerKey \<mapsto> emptyItem]\<rparr>))"
    by (simp add: emptyStore_def wfItems_def)
  note spec_put_indexes(4)[OF this, of demo_ackitem]
  then show "spec_build openIndexWorthy dedupIndexKey (aItems (demo_abs demo_a1)) (aDedup (demo_abs demo_a1))
     (dedupIndexKeyOf (req_ProducerID demo_optreq) (req_DedupKey demo_optreq)) = Some demo_ackitem"
    by (simp add: demo_a1_abs emptyStore_def marked_def demo_ack_checks(7,8) spec_build_def built_def)
qed

lemma demo_ack_run:
  "store_run mem_kv mem_ib mem_ab std_runtime 0 demo_a1"
  "store_run mem_kv mem_ib mem_ab std_runtime 0 demo_a2"
proof -
  show a1: "store_run mem_kv mem_ib mem_ab std_runtime 0 demo_a1"
    using mem_store.store_run_step[OF demo_runs(1)] demo_push_step[of demo_ackreq]
    by (simp add: demo_a1_def demo_A_def)
  have "freshID (NewAttentionStore mem_kv 0) demo_a1 (hexEncode (replicate 16 1))"
    using demo_ack_checks(5) by (simp add: mem_store.freshID_abs demo_a1_state(1))
  then have "store_step std_runtime (NewAttentionStore mem_kv 0) demo_a1 demo_a2"
    unfolding demo_a2_def demo_A_def by (intro store_step.Push) simp
  then show "store_run mem_kv mem_ib mem_ab std_runtime 0 demo_a2"
    by (rule mem_store.store_run_step[OF a1])
qed

lemma demo_a2_items: "aItems (demo_abs demo_a2) demo_id = Some (repushed demo_optreq 8 demo_ackitem)"
proof -
  have inv: "storeInv (demo_abs demo_a1)" by (rule mem_store.store_run_inv(1)[OF demo_ack_run(1)])
  then have wf: "wfItems (aItems (demo_abs demo_a1))"
    and dd: "idxSound openIndexWorthy dkey (aItems (demo_abs demo_a1)) (aDedup (demo_abs demo_a1))"
    by (simp_all add: storeInv_def)
  have "demo_abs demo_a2 = fst (spec_Push std_runtime 0 demo_probes demo_checker
      (Generate (Inr (replicate 16 1))) 8 demo_optreq (demo_abs demo_a1))"
    unfolding demo_a2_def demo_A_def mem_store.fst_map_prod mem_store.store_Push_refines[OF wf dd] ..
  then show ?thesis
    by (simp add: spec_Push_def demo_ack_checks(3,4,6) demo_a1_state(2) Let_def)
qed

text \<open>A delivery attempt recorded for the answered item.\<close>

definition demo_attempt :: DeliveryAttempt where
  "demo_attempt = \<lparr>att_ItemID = demo_id, att_Carrier = ''tmux'', att_Outcome = HeldOutcome, att_AttemptedAt = 6\<rparr>"

definition demo_d1 :: memdb where
  "demo_d1 = fst (store_RecordAttempt std_runtime demo_A 6 demo_id ''tmux'' HeldOutcome demo_s2)"

lemma demo_attempt_call:
  "store_RecordAttempt std_runtime (NewAttentionStore mem_kv 0) 6 demo_id ''tmux'' HeldOutcome demo_s2 =
     (demo_d1, Inr demo_attempt)"
  "aAttempts (demo_abs demo_d1) demo_id = Some demo_attempt"
proof -
  let ?call = "store_RecordAttempt std_runtime (NewAttentionStore mem_kv 0) 6 demo_id ''tmux'' HeldOutcome demo_s2"
  have v: "DeliveryAttempt_Validate std_runtime demo_attempt = None" by code_simp
  have wf: "wfItems (aItems (demo_abs demo_s2))" by (rule mem_store.store_run_inv(3)[OF demo_runs(3)])
  have "map_prod demo_abs id ?call =
      ((demo_abs demo_s2)\<lparr>aAttempts := (aAttempts (demo_abs demo_s2))(demo_id \<mapsto> demo_attempt)\<rparr>, Inr demo_attempt)"
    unfolding mem_store.store_RecordAttempt_refines[OF wf]
    using v by (simp add: spec_RecordAttempt_def demo_get(2) demo_attempt_def Let_def)
  then show "?call = (demo_d1, Inr demo_attempt)"
    and "aAttempts (demo_abs demo_d1) demo_id = Some demo_attempt"
    by (cases ?call; simp add: demo_d1_def demo_A_def)+
qed

lemma demo_attempt_run: "store_run mem_kv mem_ib mem_ab std_runtime 0 demo_d1"
  unfolding demo_d1_def demo_A_def
  by (rule mem_store.store_run_step[OF demo_runs(3) store_step.RecordAttempt])

end
