(* ===== verification/Registry.thy ===== *)
theory Registry
  imports Liveness
begin

text \<open>
  The checker behind every liveness question about a session
  (\<open>session-liveness-checker.go\<close>): the listing of the registry directory with its
  per-file stamps, the short cache in front of it, the fresh listing a miss asks
  for, and \<open>IsLive\<close> over both. What one call sees of the file system is a
  \<open>registryView\<close>, and its clock readings are arguments.
\<close>

section \<open>The registry as one listing sees it\<close>

text \<open>\<open>rv_session\<close> is the \<open>sessionId\<close> that reading and parsing a file gives, \<open>None\<close> when
  the read or the parse fails.\<close>

record registryView =
  rv_names :: "string list option"
  rv_stat :: "string \<Rightarrow> (int \<times> int) option"
  rv_session :: "string \<Rightarrow> string option"

record registryEntryStamp =
  st_size :: int
  st_modNano :: int
  st_sessionID :: string

record sessionLivenessChecker =
  slc_cached :: "string list"
  slc_cachedReadable :: bool
  slc_cachedAt :: instant
  slc_haveCached :: bool
  slc_entryStamps :: "string \<rightharpoonup> registryEntryStamp"
  slc_fresh :: "string list"
  slc_freshAt :: instant
  slc_freshDirMod :: int
  slc_haveFresh :: bool

definition NewSessionLivenessChecker :: sessionLivenessChecker where
  "NewSessionLivenessChecker = \<lparr>slc_cached = [], slc_cachedReadable = False, slc_cachedAt = zeroTime,
     slc_haveCached = False, slc_entryStamps = Map.empty, slc_fresh = [], slc_freshAt = zeroTime,
     slc_freshDirMod = 0, slc_haveFresh = False\<rparr>"

definition sessionRegistryCacheWindow :: duration where "sessionRegistryCacheWindow = 1000000000"
definition freshListingWindow :: duration where "freshListingWindow = 1000000000"

section \<open>Listing\<close>

definition hasSuffix :: "string \<Rightarrow> string \<Rightarrow> bool" where
  "hasSuffix s suffix \<longleftrightarrow> length suffix \<le> length s \<and> drop (length s - length suffix) s = suffix"

definition entrySessionID :: "registryView \<Rightarrow> string \<Rightarrow> string option" where
  "entrySessionID V name =
     (case rv_session V name of None \<Rightarrow> None | Some sid \<Rightarrow> (if sid = [] then None else Some sid))"

definition stampOf :: "(string \<rightharpoonup> registryEntryStamp) \<Rightarrow> registryView \<Rightarrow> string \<Rightarrow> registryEntryStamp option" where
  "stampOf stamps V name =
     (case rv_stat V name of
        None \<Rightarrow> None
      | Some (sz, modNano) \<Rightarrow>
          (let stamp = \<lparr>st_size = sz, st_modNano = modNano, st_sessionID = []\<rparr>;
               reread = (case entrySessionID V name of
                           None \<Rightarrow> None
                         | Some sid \<Rightarrow> Some (stamp\<lparr>st_sessionID := sid\<rparr>))
           in (case stamps name of
                 None \<Rightarrow> reread
               | Some prev \<Rightarrow>
                   (if st_size prev = sz \<and> st_modNano prev = modNano
                    then Some (stamp\<lparr>st_sessionID := st_sessionID prev\<rparr>)
                    else reread))))"

fun listNames ::
  "(string \<rightharpoonup> registryEntryStamp) \<Rightarrow> registryView \<Rightarrow> string list \<Rightarrow>
   string list \<times> (string \<rightharpoonup> registryEntryStamp) \<times> bool \<Rightarrow>
   string list \<times> (string \<rightharpoonup> registryEntryStamp) \<times> bool" where
  "listNames stamps V [] acc = acc"
| "listNames stamps V (name # names) (ids, new, complete) =
     (if \<not> hasSuffix name ''.json'' then listNames stamps V names (ids, new, complete)
      else (case stampOf stamps V name of
              None \<Rightarrow> listNames stamps V names (ids, new, False)
            | Some stamp \<Rightarrow>
                (if st_sessionID stamp = []
                 then listNames stamps V names (ids, new(name \<mapsto> stamp), complete)
                 else listNames stamps V names (ids @ [st_sessionID stamp], new(name \<mapsto> stamp), complete))))"

definition listResolved ::
  "sessionLivenessChecker \<Rightarrow> registryView \<Rightarrow> sessionLivenessChecker \<times> string list \<times> bool \<times> bool" where
  "listResolved c V =
     (case rv_names V of
        None \<Rightarrow> (c, [], False, False)
      | Some names \<Rightarrow>
          (case listNames (slc_entryStamps c) V names ([], Map.empty, True) of
             (ids, new, complete) \<Rightarrow> (c\<lparr>slc_entryStamps := new\<rparr>, ids, True, complete)))"

section \<open>The two caches\<close>

text \<open>The readings of one \<open>LiveSessions\<close>: the clock at entry, the directory, the clock after.\<close>

record listingReadings =
  lr_now :: instant
  lr_view :: registryView
  lr_after :: instant

definition LiveSessions ::
  "listingReadings \<Rightarrow> sessionLivenessChecker \<Rightarrow> sessionLivenessChecker \<times> sessionSnapshot" where
  "LiveSessions rd c =
     (if slc_haveCached c \<and> timeSub (lr_now rd) (slc_cachedAt c) < sessionRegistryCacheWindow
      then (c, \<lparr>snap_ids = slc_cached c, snap_readable = slc_cachedReadable c\<rparr>)
      else (case listResolved c (lr_view rd) of
              (c, ids, readable, _) \<Rightarrow>
                (c\<lparr>slc_cached := ids, slc_cachedReadable := readable, slc_cachedAt := lr_after rd,
                   slc_haveCached := True\<rparr>,
                 \<lparr>snap_ids = ids, snap_readable = readable\<rparr>)))"

text \<open>\<open>fr_dirMod\<close> is the modification time of the directory, \<open>None\<close> when it cannot be read.\<close>

record freshReadings =
  fr_dirMod :: "int option"
  fr_now :: instant
  fr_view :: registryView
  fr_after :: instant

definition freshReused :: "freshReadings \<Rightarrow> sessionLivenessChecker \<Rightarrow> bool" where
  "freshReused rd c \<longleftrightarrow>
     (let age = timeSub (fr_now rd) (slc_freshAt c) in
      fr_dirMod rd \<noteq> None \<and> slc_haveFresh c \<and> fr_dirMod rd = Some (slc_freshDirMod c) \<and>
      0 \<le> age \<and> age < freshListingWindow)"

definition LiveSessionsFresh ::
  "freshReadings \<Rightarrow> sessionLivenessChecker \<Rightarrow> sessionLivenessChecker \<times> sessionSnapshot" where
  "LiveSessionsFresh rd c =
     (if freshReused rd c then (c, \<lparr>snap_ids = slc_fresh c, snap_readable = True\<rparr>)
      else (case listResolved c (fr_view rd) of
              (c, ids, readable, complete) \<Rightarrow>
                (case fr_dirMod rd of
                   Some dirMod \<Rightarrow>
                     (if \<not> readable \<or> \<not> complete
                      then (c\<lparr>slc_haveFresh := False\<rparr>, \<lparr>snap_ids = ids, snap_readable = readable\<rparr>)
                      else (c\<lparr>slc_fresh := ids, slc_freshAt := fr_after rd, slc_freshDirMod := dirMod,
                              slc_haveFresh := True\<rparr>,
                            \<lparr>snap_ids = ids, snap_readable = readable\<rparr>))
                 | None \<Rightarrow> (c\<lparr>slc_haveFresh := False\<rparr>, \<lparr>snap_ids = ids, snap_readable = readable\<rparr>))))"

definition checker_IsLive ::
  "runtime \<Rightarrow> listingReadings \<Rightarrow> freshReadings \<Rightarrow> string \<Rightarrow> sessionLivenessChecker \<Rightarrow>
   sessionLivenessChecker \<times> bool" where
  "checker_IsLive R lr fr sessionID c =
     (if sessionID = [] then (c, False)
      else (case LiveSessions lr c of
              (c, snap) \<Rightarrow>
                (if \<not> snap_readable snap then (c, True)
                 else if SessionIDs_Contains R (snap_ids snap) sessionID then (c, True)
                 else (case LiveSessionsFresh fr c of
                         (c, fresh) \<Rightarrow>
                           (if \<not> snap_readable fresh then (c, True)
                            else (c, SessionIDs_Contains R (snap_ids fresh) sessionID))))))"

definition alwaysLive_IsLive :: "string \<Rightarrow> bool" where
  "alwaysLive_IsLive sessionID = True"

section \<open>The reference listing\<close>

text \<open>Every registry file read again: the sessions of the files that can be stated and parsed.\<close>

definition readableEntry :: "registryView \<Rightarrow> string \<Rightarrow> bool" where
  "readableEntry V name \<longleftrightarrow> rv_stat V name \<noteq> None \<and> entrySessionID V name \<noteq> None"

definition registryFiles :: "registryView \<Rightarrow> string list" where
  "registryFiles V =
     (case rv_names V of None \<Rightarrow> [] | Some names \<Rightarrow> filter (\<lambda>name. hasSuffix name ''.json'') names)"

definition registrySessions :: "registryView \<Rightarrow> string list" where
  "registrySessions V = map (\<lambda>name. the (entrySessionID V name)) (filter (readableEntry V) (registryFiles V))"

text \<open>The stamps are right about a view: a file that looks unchanged still names that session.\<close>

definition stampsHold :: "(string \<rightharpoonup> registryEntryStamp) \<Rightarrow> registryView \<Rightarrow> bool" where
  "stampsHold stamps V \<longleftrightarrow>
     (\<forall>name stamp. stamps name = Some stamp \<longrightarrow> rv_stat V name = Some (st_size stamp, st_modNano stamp) \<longrightarrow>
        entrySessionID V name = Some (st_sessionID stamp))"

text \<open>No file changes its session without changing its sz or its modification time.\<close>

definition honestChange :: "registryView \<Rightarrow> registryView \<Rightarrow> bool" where
  "honestChange V V' \<longleftrightarrow>
     (\<forall>name. rv_stat V' name \<noteq> None \<and> rv_stat V' name = rv_stat V name \<longrightarrow>
        entrySessionID V' name = entrySessionID V name)"

lemma entrySessionID_nonempty: "entrySessionID V name = Some sid \<Longrightarrow> sid \<noteq> []"
  by (auto simp: entrySessionID_def split: option.splits if_splits)

lemma stampOf_exact:
  assumes "stampsHold stamps V"
  shows "stampOf stamps V name =
    (if readableEntry V name
     then Some \<lparr>st_size = fst (the (rv_stat V name)), st_modNano = snd (the (rv_stat V name)),
                st_sessionID = the (entrySessionID V name)\<rparr>
     else None)"
proof (cases "rv_stat V name")
  case None
  then show ?thesis by (simp add: stampOf_def readableEntry_def)
next
  case (Some s)
  obtain sz modNano where s: "s = (sz, modNano)" by (cases s)
  show ?thesis
  proof (cases "\<exists>prev. stamps name = Some prev \<and> st_size prev = sz \<and> st_modNano prev = modNano")
    case True
    then obtain prev where prev: "stamps name = Some prev" "st_size prev = sz" "st_modNano prev = modNano"
      by blast
    then have "entrySessionID V name = Some (st_sessionID prev)"
      using assms Some s unfolding stampsHold_def by blast
    then show ?thesis using prev Some s by (simp add: stampOf_def readableEntry_def Let_def)
  next
    case False
    then show ?thesis
      using Some s by (cases "stamps name"; cases "entrySessionID V name")
        (auto simp: stampOf_def readableEntry_def Let_def)
  qed
qed

lemma listNames_exact:
  assumes "stampsHold stamps V"
  shows "\<exists>new'. listNames stamps V names (ids, new, complete) =
    (ids @ map (\<lambda>name. the (entrySessionID V name))
        (filter (readableEntry V) (filter (\<lambda>name. hasSuffix name ''.json'') names)),
     new', complete \<and> (\<forall>name\<in>set names. hasSuffix name ''.json'' \<longrightarrow> readableEntry V name)) \<and>
    (\<forall>name stamp. new' name = Some stamp \<longrightarrow> new name = Some stamp \<or>
       (rv_stat V name = Some (st_size stamp, st_modNano stamp) \<and>
        entrySessionID V name = Some (st_sessionID stamp)))"
proof (induction names arbitrary: ids new complete)
  case (Cons name names)
  show ?case
  proof (cases "hasSuffix name ''.json''")
    case False
    then show ?thesis using Cons.IH[of ids new complete] by simp
  next
    case suffix: True
    show ?thesis
    proof (cases "readableEntry V name")
      case False
      then show ?thesis using suffix Cons.IH[of ids new False] by (simp add: stampOf_exact[OF assms])
    next
      case True
      then obtain sz modNano sid where e: "rv_stat V name = Some (sz, modNano)" "entrySessionID V name = Some sid"
        by (auto simp: readableEntry_def)
      let ?stamp = "\<lparr>st_size = sz, st_modNano = modNano, st_sessionID = sid\<rparr>"
      have "stampOf stamps V name = Some ?stamp" using True e by (simp add: stampOf_exact[OF assms])
      then have step: "listNames stamps V (name # names) (ids, new, complete) =
          listNames stamps V names (ids @ [sid], new(name \<mapsto> ?stamp), complete)"
        using suffix entrySessionID_nonempty[OF e(2)] by simp
      obtain new' where n: "listNames stamps V names (ids @ [sid], new(name \<mapsto> ?stamp), complete) =
          ((ids @ [sid]) @ map (\<lambda>name. the (entrySessionID V name))
            (filter (readableEntry V) (filter (\<lambda>name. hasSuffix name ''.json'') names)),
           new', complete \<and> (\<forall>name\<in>set names. hasSuffix name ''.json'' \<longrightarrow> readableEntry V name))"
        "\<And>x stamp. new' x = Some stamp \<Longrightarrow> (new(name \<mapsto> ?stamp)) x = Some stamp \<or>
          (rv_stat V x = Some (st_size stamp, st_modNano stamp) \<and> entrySessionID V x = Some (st_sessionID stamp))"
        using Cons.IH[of "ids @ [sid]" "new(name \<mapsto> ?stamp)" complete] by blast
      have "new x = Some stamp \<or>
          (rv_stat V x = Some (st_size stamp, st_modNano stamp) \<and> entrySessionID V x = Some (st_sessionID stamp))"
        if "new' x = Some stamp" for x stamp
        using n(2)[OF that] e by (auto split: if_splits)
      then show ?thesis unfolding step n(1) using suffix True e by simp
    qed
  qed
qed simp

lemma listResolved_exact:
  assumes "stampsHold (slc_entryStamps c) V" and "listResolved c V = (c', ids, readable, complete)"
  shows "ids = registrySessions V" and "readable \<longleftrightarrow> rv_names V \<noteq> None"
    and "complete \<longleftrightarrow> rv_names V \<noteq> None \<and> list_all (readableEntry V) (registryFiles V)"
    and "honestChange V V' \<Longrightarrow> stampsHold (slc_entryStamps c') V' \<or> rv_names V = None"
proof -
  have "ids = registrySessions V \<and> (readable \<longleftrightarrow> rv_names V \<noteq> None) \<and>
      (complete \<longleftrightarrow> rv_names V \<noteq> None \<and> list_all (readableEntry V) (registryFiles V)) \<and>
      (honestChange V V' \<longrightarrow> stampsHold (slc_entryStamps c') V' \<or> rv_names V = None)" for V'
  proof (cases "rv_names V")
    case None
    then show ?thesis using assms(2) by (simp add: listResolved_def registrySessions_def registryFiles_def)
  next
    case (Some names)
    have all: "list_all (readableEntry V) (registryFiles V) \<longleftrightarrow>
        (\<forall>name\<in>set names. hasSuffix name ''.json'' \<longrightarrow> readableEntry V name)"
      by (auto simp: registryFiles_def Some list_all_iff)
    obtain new' where n: "listNames (slc_entryStamps c) V names ([], Map.empty, True) =
        (registrySessions V, new', list_all (readableEntry V) (registryFiles V))"
      "\<And>name stamp. new' name = Some stamp \<Longrightarrow>
        rv_stat V name = Some (st_size stamp, st_modNano stamp) \<and> entrySessionID V name = Some (st_sessionID stamp)"
      using listNames_exact[OF assms(1), of names "[]" Map.empty True]
      unfolding all by (auto simp: registrySessions_def registryFiles_def Some)
    have "stampsHold new' V'" if "honestChange V V'"
      using that n(2) unfolding stampsHold_def honestChange_def by (metis option.distinct(1))
    then show ?thesis using assms(2) Some n(1) by (auto simp: listResolved_def)
  qed
  then show "ids = registrySessions V" "readable \<longleftrightarrow> rv_names V \<noteq> None"
    "complete \<longleftrightarrow> rv_names V \<noteq> None \<and> list_all (readableEntry V) (registryFiles V)"
    "honestChange V V' \<Longrightarrow> stampsHold (slc_entryStamps c') V' \<or> rv_names V = None"
    by blast+
qed

section \<open>The clock\<close>

text \<open>The age guard of the fresh listing, which the plain one does not have.\<close>

lemma timeSub_sign: "timeSub a b < 0 \<longleftrightarrow> a < b"
  by (auto simp: timeSub_def minDuration_def maxDuration_def)

lemma clock_step_back:
  assumes "lr_now lr < slc_cachedAt c" and "slc_haveCached c" and "fr_now fr < slc_freshAt c"
  shows "LiveSessions lr c = (c, \<lparr>snap_ids = slc_cached c, snap_readable = slc_cachedReadable c\<rparr>)"
    and "\<not> freshReused fr c"
proof -
  have "timeSub (lr_now lr) (slc_cachedAt c) < 0" using assms(1) by (simp add: timeSub_sign)
  then show "LiveSessions lr c = (c, \<lparr>snap_ids = slc_cached c, snap_readable = slc_cachedReadable c\<rparr>)"
    using assms(2) by (simp add: LiveSessions_def sessionRegistryCacheWindow_def)
  show "\<not> freshReused fr c" using assms(3) timeSub_sign[of "fr_now fr" "slc_freshAt c"] by (auto simp: freshReused_def Let_def)
qed

end
