(* ===== verification/RegistryLaws.thy ===== *)
theory RegistryLaws
  imports Registry
begin

text \<open>
  What the checker's verdicts rest on, over every sequence of its calls: the calls are steps that remember
  what each of them read, and the two caches hold what one of these readings says.
\<close>

section \<open>Runs of the checker\<close>

text \<open>The readings of the two kinds of calls so far, and the checker. A file may change between two of
  them only with its size or its modification time.\<close>

definition viewsOf :: "listingReadings set \<Rightarrow> freshReadings set \<Rightarrow> registryView set" where
  "viewsOf Ls Fs = lr_view ` Ls \<union> fr_view ` Fs"

definition follows :: "registryView set \<Rightarrow> registryView \<Rightarrow> bool" where
  "follows Vs V \<longleftrightarrow> (\<forall>V0 \<in> Vs. honestChange V0 V)"

inductive checkerRun :: "listingReadings set \<Rightarrow> freshReadings set \<Rightarrow> sessionLivenessChecker \<Rightarrow> bool" where
  started: "checkerRun {} {} NewSessionLivenessChecker"
| listed: "checkerRun Ls Fs c \<Longrightarrow> follows (viewsOf Ls Fs) (lr_view rd) \<Longrightarrow>
    checkerRun (insert rd Ls) Fs (fst (LiveSessions rd c))"
| relisted: "checkerRun Ls Fs c \<Longrightarrow> follows (viewsOf Ls Fs) (fr_view rd) \<Longrightarrow>
    checkerRun Ls (insert rd Fs) (fst (LiveSessionsFresh rd c))"

text \<open>A complete listing: every session file could be read.\<close>

definition completeListing :: "registryView \<Rightarrow> bool" where
  "completeListing V \<longleftrightarrow> rv_names V \<noteq> None \<and> (\<forall>name \<in> set (registryFiles V). readableEntry V name)"

text \<open>Each stamp is that of a file as some reading saw it; the cached listing and the kept fresh one are
  those of readings, the second of a complete one.\<close>

definition stampSeen :: "registryView set \<Rightarrow> (string \<rightharpoonup> registryEntryStamp) \<Rightarrow> bool" where
  "stampSeen Vs stamps \<longleftrightarrow>
     (\<forall>name stamp. stamps name = Some stamp \<longrightarrow>
        (\<exists>V \<in> Vs. rv_stat V name = Some (st_size stamp, st_modNano stamp) \<and>
           entrySessionID V name = Some (st_sessionID stamp)))"

definition cachedSeen :: "listingReadings set \<Rightarrow> sessionLivenessChecker \<Rightarrow> bool" where
  "cachedSeen Ls c \<longleftrightarrow> (slc_haveCached c \<longrightarrow>
     (\<exists>rd \<in> Ls. slc_cached c = registrySessions (lr_view rd) \<and> slc_cachedAt c = lr_after rd \<and>
        slc_cachedReadable c = (rv_names (lr_view rd) \<noteq> None)))"

definition freshSeen :: "freshReadings set \<Rightarrow> sessionLivenessChecker \<Rightarrow> bool" where
  "freshSeen Fs c \<longleftrightarrow> (slc_haveFresh c \<longrightarrow>
     (\<exists>rd \<in> Fs. slc_fresh c = registrySessions (fr_view rd) \<and> slc_freshAt c = fr_after rd \<and>
        fr_dirMod rd = Some (slc_freshDirMod c) \<and> completeListing (fr_view rd)))"

lemma stampSeen_holds: "stampSeen Vs stamps \<Longrightarrow> follows Vs V \<Longrightarrow> stampsHold stamps V"
  unfolding stampSeen_def follows_def stampsHold_def honestChange_def by (metis option.distinct(1))

lemma seen_mono:
  "stampSeen Vs stamps \<Longrightarrow> Vs \<subseteq> Vs' \<Longrightarrow> stampSeen Vs' stamps"
  "cachedSeen Ls c \<Longrightarrow> Ls \<subseteq> Ls' \<Longrightarrow> cachedSeen Ls' c"
  "freshSeen Fs c \<Longrightarrow> Fs \<subseteq> Fs' \<Longrightarrow> freshSeen Fs' c"
  unfolding stampSeen_def cachedSeen_def freshSeen_def by blast+

lemma listResolved_seen:
  assumes "stampSeen Vs (slc_entryStamps c)" and "follows Vs V"
    and "listResolved c V = (c', ids, readable, complete)"
  shows "stampSeen (insert V Vs) (slc_entryStamps c') \<and> ids = registrySessions V \<and> (readable \<longleftrightarrow> rv_names V \<noteq> None) \<and>
    (complete \<longleftrightarrow> completeListing V) \<and> (\<exists>stamps. c' = c\<lparr>slc_entryStamps := stamps\<rparr>)"
proof -
  note hold = stampSeen_holds[OF assms(1,2)]
  have "stampSeen (insert V Vs) (slc_entryStamps c') \<and> (\<exists>stamps. c' = c\<lparr>slc_entryStamps := stamps\<rparr>)"
  proof (cases "rv_names V")
    case None
    then have "c' = c" using assms(3) by (simp add: listResolved_def)
    then show ?thesis using seen_mono(1)[OF assms(1)] by (auto intro: exI[of _ "slc_entryStamps c"])
  next
    case (Some names)
    obtain ids' new complete' where n: "listNames (slc_entryStamps c) V names ([], Map.empty, True) = (ids', new, complete')"
      "\<And>name stamp. new name = Some stamp \<Longrightarrow>
         rv_stat V name = Some (st_size stamp, st_modNano stamp) \<and> entrySessionID V name = Some (st_sessionID stamp)"
      using listNames_exact[OF hold, of names "[]" Map.empty True] by auto
    then have "c' = c\<lparr>slc_entryStamps := new\<rparr>" using assms(3) Some by (simp add: listResolved_def)
    then show ?thesis using n(2) by (auto simp: stampSeen_def)
  qed
  then show ?thesis
    using listResolved_exact(1-3)[OF hold assms(3)] by (auto simp: completeListing_def list_all_iff)
qed

lemma LiveSessions_seen:
  assumes "stampSeen (viewsOf Ls Fs) (slc_entryStamps c)" and "cachedSeen Ls c" and "freshSeen Fs c"
    and "follows (viewsOf Ls Fs) (lr_view rd)" and "LiveSessions rd c = (c', snap)"
  shows "stampSeen (viewsOf (insert rd Ls) Fs) (slc_entryStamps c') \<and> cachedSeen (insert rd Ls) c' \<and> freshSeen Fs c' \<and>
    (\<exists>l \<in> insert rd Ls. snap_ids snap = registrySessions (lr_view l) \<and>
       (snap_readable snap \<longleftrightarrow> rv_names (lr_view l) \<noteq> None) \<and>
       (l = rd \<or> timeSub (lr_now rd) (lr_after l) < 1000000000))"
proof (cases "slc_haveCached c \<and> timeSub (lr_now rd) (slc_cachedAt c) < sessionRegistryCacheWindow")
  case True
  then have "c' = c" "snap = \<lparr>snap_ids = slc_cached c, snap_readable = slc_cachedReadable c\<rparr>"
    using assms(5) by (auto simp: LiveSessions_def)
  moreover have "viewsOf Ls Fs \<subseteq> viewsOf (insert rd Ls) Fs" by (auto simp: viewsOf_def)
  ultimately show ?thesis
    using True assms(2,3) seen_mono(1)[OF assms(1)] seen_mono(2)[OF assms(2), of "insert rd Ls"]
    by (auto simp: cachedSeen_def sessionRegistryCacheWindow_def)
next
  case False
  obtain c1 ids readable complete where l: "listResolved c (lr_view rd) = (c1, ids, readable, complete)" by (metis prod_cases4)
  note seen = listResolved_seen[OF assms(1,4) l]
  have "insert (lr_view rd) (viewsOf Ls Fs) = viewsOf (insert rd Ls) Fs" by (simp add: viewsOf_def)
  then show ?thesis using seen assms(3,5) False l
    by (auto simp: LiveSessions_def cachedSeen_def freshSeen_def)
qed

lemma freshReused_recent:
  "freshReused rd c \<longleftrightarrow> slc_haveFresh c \<and> fr_dirMod rd = Some (slc_freshDirMod c) \<and>
     slc_freshAt c \<le> fr_now rd \<and> fr_now rd < slc_freshAt c + 1000000000"
  by (auto simp: freshReused_def freshListingWindow_def timeSub_def minDuration_def maxDuration_def Let_def)

lemma LiveSessionsFresh_seen:
  assumes "stampSeen (viewsOf Ls Fs) (slc_entryStamps c)" and "cachedSeen Ls c" and "freshSeen Fs c"
    and "follows (viewsOf Ls Fs) (fr_view rd)" and "LiveSessionsFresh rd c = (c', snap)"
  shows "stampSeen (viewsOf Ls (insert rd Fs)) (slc_entryStamps c') \<and> cachedSeen Ls c' \<and> freshSeen (insert rd Fs) c' \<and>
    (\<exists>f \<in> insert rd Fs. snap_ids snap = registrySessions (fr_view f) \<and>
       (snap_readable snap \<longleftrightarrow> rv_names (fr_view f) \<noteq> None) \<and>
       (f = rd \<or> fr_dirMod f = fr_dirMod rd \<and> fr_dirMod rd \<noteq> None \<and> completeListing (fr_view f) \<and>
          fr_after f \<le> fr_now rd \<and> fr_now rd < fr_after f + 1000000000))"
proof (cases "freshReused rd c")
  case True
  then have "c' = c" "snap = \<lparr>snap_ids = slc_fresh c, snap_readable = True\<rparr>"
    using assms(5) by (auto simp: LiveSessionsFresh_def)
  moreover have "viewsOf Ls Fs \<subseteq> viewsOf Ls (insert rd Fs)" by (auto simp: viewsOf_def)
  moreover obtain f where "f \<in> Fs" "slc_fresh c = registrySessions (fr_view f)" "slc_freshAt c = fr_after f"
    "fr_dirMod f = Some (slc_freshDirMod c)" "completeListing (fr_view f)"
    using True assms(3) by (auto simp: freshSeen_def freshReused_recent)
  ultimately show ?thesis
    using True assms(2) seen_mono(1)[OF assms(1)] seen_mono(3)[OF assms(3), of "insert rd Fs"]
    by (auto simp: freshReused_recent completeListing_def)
next
  case False
  obtain c1 ids readable complete where l: "listResolved c (fr_view rd) = (c1, ids, readable, complete)" by (metis prod_cases4)
  note seen = listResolved_seen[OF assms(1,4) l]
  have views: "insert (fr_view rd) (viewsOf Ls Fs) = viewsOf Ls (insert rd Fs)" by (simp add: viewsOf_def)
  obtain stamps where c1: "c1 = c\<lparr>slc_entryStamps := stamps\<rparr>" using seen by blast
  have snap: "snap = \<lparr>snap_ids = ids, snap_readable = readable\<rparr>"
    and kept: "slc_entryStamps c' = stamps" "cachedSeen Ls c'"
    using assms(2,5) False l c1 by (auto simp: LiveSessionsFresh_def cachedSeen_def split: option.splits if_splits)
  have "freshSeen (insert rd Fs) c'"
    using assms(5) False l c1 seen
    by (cases "fr_dirMod rd") (auto simp: LiveSessionsFresh_def freshSeen_def split: if_splits)
  then show ?thesis using seen snap kept c1 by (auto simp: views)
qed

lemma checkerRun_seen:
  "checkerRun Ls Fs c \<Longrightarrow>
     stampSeen (viewsOf Ls Fs) (slc_entryStamps c) \<and> cachedSeen Ls c \<and> freshSeen Fs c"
proof (induction rule: checkerRun.induct)
  case started
  then show ?case by (simp add: stampSeen_def cachedSeen_def freshSeen_def NewSessionLivenessChecker_def)
next
  case (listed Ls Fs c rd)
  obtain c' snap where "LiveSessions rd c = (c', snap)" by fastforce
  then show ?case using LiveSessions_seen[OF _ _ _ listed.hyps(2)] listed.IH by auto
next
  case (relisted Ls Fs c rd)
  obtain c' snap where "LiveSessionsFresh rd c = (c', snap)" by fastforce
  then show ?case using LiveSessionsFresh_seen[OF _ _ _ relisted.hyps(2)] relisted.IH by auto
qed

section \<open>A session called gone\<close>

context runtime_lib
begin

lemma checker_gone:
  assumes "checkerRun Ls Fs c" and "follows (viewsOf Ls Fs) (lr_view lr)"
    and "follows (viewsOf (insert lr Ls) Fs) (fr_view fr)"
    and "checker_IsLive R lr fr sid c = (c', False)" and "sid \<noteq> []"
  shows "(\<exists>l \<in> insert lr Ls. rv_names (lr_view l) \<noteq> None \<and> sid \<notin> set (registrySessions (lr_view l)) \<and>
      (l = lr \<or> timeSub (lr_now lr) (lr_after l) < 1000000000)) \<and>
    (\<exists>f \<in> insert fr Fs. rv_names (fr_view f) \<noteq> None \<and> sid \<notin> set (registrySessions (fr_view f)) \<and>
      (f = fr \<or> fr_dirMod f = fr_dirMod fr \<and> fr_dirMod fr \<noteq> None \<and> completeListing (fr_view f) \<and>
         fr_after f \<le> fr_now fr \<and> fr_now fr < fr_after f + 1000000000))"
proof -
  obtain c1 snap where l: "LiveSessions lr c = (c1, snap)" by fastforce
  obtain c2 fresh where f: "LiveSessionsFresh fr c1 = (c2, fresh)" by fastforce
  have gone: "snap_readable snap" "sid \<notin> set (snap_ids snap)" "snap_readable fresh" "sid \<notin> set (snap_ids fresh)"
    using assms(4,5) l f by (auto simp: checker_IsLive_def SessionIDs_Contains_def split: if_splits)
  note run = checkerRun_seen[OF assms(1)]
  note first = LiveSessions_seen[OF run[THEN conjunct1] _ _ assms(2) l]
  have "stampSeen (viewsOf (insert lr Ls) Fs) (slc_entryStamps c1)" "cachedSeen (insert lr Ls) c1" "freshSeen Fs c1"
    using first run by blast+
  note second = LiveSessionsFresh_seen[OF this assms(3) f]
  show ?thesis using first second run gone by auto
qed

end

end
