(* ===== verification/History.thy ===== *)
theory History
  imports StoreLaws "HOL-Library.Multiset"
begin

text \<open>
  The history read (\<open>History\<close>, \<open>collectHistoryPage\<close> and
  \<open>decodeHistoryIndexEntry\<close> of \<open>attention-store-impl.go\<close>) and its filter
  (\<open>attention-history-filter.go\<close>): a walk of the time-ordered index from its
  highest key down, with a search of the raw bytes before an entry is decoded.
  The locale \<open>cursor_lib\<close> states what a cursor and the stored bytes show; under it
  the filtered page is the page of the filtered items.
\<close>

section \<open>The filter\<close>

record HistoryFilter =
  Producers :: "string list"
  DedupKeyPrefix :: string

record historyMatcher =
  hm_ids :: "string list"
  hm_producerNeedles :: "string list"
  hm_prefix :: string
  hm_prefixNeedle :: "string option"

definition emptyMatcher :: historyMatcher where
  "emptyMatcher = \<lparr>hm_ids = [], hm_producerNeedles = [], hm_prefix = [], hm_prefixNeedle = None\<rparr>"

text \<open>\<open>jsonKey\<close> is the field name with its quotes and colon, as the needles have it.\<close>

definition jsonKey :: "string \<Rightarrow> string" where
  "jsonKey name = [CHR 0x22] @ name @ [CHR 0x22] @ '':''"

definition addProducer :: "historyMatcher \<Rightarrow> string \<Rightarrow> historyMatcher" where
  "addProducer m p =
     (if p = [] then m
      else if p \<in> set (hm_ids m) then m
      else m\<lparr>hm_ids := hm_ids m @ [p],
             hm_producerNeedles := hm_producerNeedles m @ [jsonKey ''producer_id'' @ jsonString p]\<rparr>)"

definition addFilter :: "historyMatcher \<Rightarrow> HistoryFilter \<Rightarrow> historyMatcher" where
  "addFilter m f =
     (let m = foldl addProducer m (Producers f) in
      if DedupKeyPrefix f \<noteq> [] then m\<lparr>hm_prefix := DedupKeyPrefix f\<rparr> else m)"

definition newHistoryMatcher :: "HistoryFilter list \<Rightarrow> historyMatcher" where
  "newHistoryMatcher filters =
     (let m = foldl addFilter emptyMatcher filters in
      if hm_prefix m \<noteq> []
      then m\<lparr>hm_prefixNeedle := Some (jsonKey ''dedup_key'' @ butlast (jsonString (hm_prefix m)))\<rparr>
      else m)"

definition mayMatch :: "historyMatcher \<Rightarrow> kvItem \<Rightarrow> bool" where
  "mayMatch m it =
     (if hm_ids m = [] \<and> hm_prefix m = [] then True
      else (case it_Value it of
              Inl _ \<Rightarrow> True
            | Inr v \<Rightarrow>
                (if (case hm_prefixNeedle m of None \<Rightarrow> False | Some needle \<Rightarrow> \<not> bytesContains v needle) then False
                 else if hm_producerNeedles m \<noteq> [] then list_ex (bytesContains v) (hm_producerNeedles m)
                 else True)))"

definition matches :: "historyMatcher \<Rightarrow> Item \<Rightarrow> bool" where
  "matches m item =
     (if hm_ids m \<noteq> [] \<and> ProducerID item \<notin> set (hm_ids m) then False
      else if hm_prefix m \<noteq> [] \<and> take (length (hm_prefix m)) (DedupKey item) \<noteq> hm_prefix m then False
      else True)"

definition decodeHistoryIndexEntry :: "kvItem \<Rightarrow> error + Item" where
  "decodeHistoryIndexEntry it =
     (case it_Value it of Inl e \<Rightarrow> Inl e | Inr _ \<Rightarrow> it_Item it)"

definition decode :: "historyMatcher \<Rightarrow> kvItem \<Rightarrow> error + Item \<times> bool" where
  "decode m it =
     (if \<not> mayMatch m it then Inr (emptyItem, False)
      else ebind (decodeHistoryIndexEntry it) (\<lambda>item. Inr (item, matches m item)))"

section \<open>The walk\<close>

fun historyWalk ::
  "runtime \<Rightarrow> historyMatcher \<Rightarrow> instant \<Rightarrow> int \<Rightarrow> int \<Rightarrow> kvItem list \<Rightarrow> int \<Rightarrow> Item list \<Rightarrow>
   error + Item list" where
  "historyWalk R m now limit offset [] skipped items = Inr items"
| "historyWalk R m now limit offset (it # its) skipped items =
     guardE (ctxErr R)
       (if it_Key it = historyIndexMarkerKey then historyWalk R m now limit offset its skipped items
        else ebind (decode m it) (\<lambda>(item, keep).
          if \<not> keep then historyWalk R m now limit offset its skipped items
          else if State item = OpenState \<and> isExpired item now
          then historyWalk R m now limit offset its skipped items
          else if skipped < offset then historyWalk R m now limit offset its (skipped + 1) items
          else if limit > 0 \<and> int (length items) \<ge> limit then Inr items
          else historyWalk R m now limit offset its skipped (items @ [item])))"

definition collectHistoryPage ::
  "runtime \<Rightarrow> 'tx attentionStore \<Rightarrow> instant \<Rightarrow> int \<Rightarrow> int \<Rightarrow> historyMatcher \<Rightarrow> 'tx \<Rightarrow>
   error + Item list" where
  "collectHistoryPage R A now limit offset m tx =
     (case txBucket (db A) tx attentionHistoryIndexBucketName of
        Some e \<Rightarrow> (if e = ErrBucketNotFound then Inr [] else Inl e)
      | None \<Rightarrow> historyWalk R m now limit offset (txReverse (db A) tx attentionHistoryIndexBucketName) 0 [])"

definition store_History ::
  "runtime \<Rightarrow> 'tx attentionStore \<Rightarrow> instant \<Rightarrow> int \<Rightarrow> int \<Rightarrow> HistoryFilter list \<Rightarrow> 'tx \<Rightarrow>
   'tx \<times> (error + Item list)" where
  "store_History R A now limit offset filters s =
     (case ensureHistoryIndex R A s of
        (s, Inl e) \<Rightarrow> (s, Inl e)
      | (s, Inr _) \<Rightarrow>
          (let offset = (if offset < 0 then 0 else offset) in
           (s, db_View s (collectHistoryPage R A now limit offset (newHistoryMatcher filters)))))"

section \<open>What a filter keeps\<close>

text \<open>The filter as the caller gave it: the named producers, and the last prefix.\<close>

definition wantedProducers :: "HistoryFilter list \<Rightarrow> string set" where
  "wantedProducers filters = (\<Union>f\<in>set filters. set (Producers f)) - {[]}"

fun wantedPrefix :: "HistoryFilter list \<Rightarrow> string \<Rightarrow> string" where
  "wantedPrefix [] p = p"
| "wantedPrefix (f # fs) p = wantedPrefix fs (if DedupKeyPrefix f \<noteq> [] then DedupKeyPrefix f else p)"

definition keeps :: "HistoryFilter list \<Rightarrow> Item \<Rightarrow> bool" where
  "keeps filters i \<longleftrightarrow>
     (wantedProducers filters = {} \<or> ProducerID i \<in> wantedProducers filters) \<and>
     (\<exists>rest. DedupKey i = wantedPrefix filters [] @ rest)"

text \<open>The needles are those of the ids.\<close>

definition matcherOK :: "historyMatcher \<Rightarrow> bool" where
  "matcherOK m \<longleftrightarrow>
     hm_producerNeedles m = map (\<lambda>p. jsonKey ''producer_id'' @ jsonString p) (hm_ids m) \<and>
     hm_prefixNeedle m =
       (if hm_prefix m = [] then None
        else Some (jsonKey ''dedup_key'' @ [CHR 0x22] @ jsonBody (hm_prefix m)))"

lemma foldl_addProducer:
  "set (hm_ids (foldl addProducer m ps)) = set (hm_ids m) \<union> (set ps - {[]}) \<and>
   hm_prefix (foldl addProducer m ps) = hm_prefix m \<and>
   hm_prefixNeedle (foldl addProducer m ps) = hm_prefixNeedle m \<and>
   (hm_producerNeedles m = map (\<lambda>p. jsonKey ''producer_id'' @ jsonString p) (hm_ids m) \<longrightarrow>
    hm_producerNeedles (foldl addProducer m ps) =
      map (\<lambda>p. jsonKey ''producer_id'' @ jsonString p) (hm_ids (foldl addProducer m ps)))"
proof (induction ps arbitrary: m)
  case (Cons p ps)
  show ?case
    using Cons.IH[of "addProducer m p"] by (auto simp: addProducer_def)
qed simp

lemma foldl_addFilter:
  "set (hm_ids (foldl addFilter m fs)) = set (hm_ids m) \<union> wantedProducers fs \<and>
   hm_prefix (foldl addFilter m fs) = wantedPrefix fs (hm_prefix m) \<and>
   hm_prefixNeedle (foldl addFilter m fs) = hm_prefixNeedle m \<and>
   (hm_producerNeedles m = map (\<lambda>p. jsonKey ''producer_id'' @ jsonString p) (hm_ids m) \<longrightarrow>
    hm_producerNeedles (foldl addFilter m fs) =
      map (\<lambda>p. jsonKey ''producer_id'' @ jsonString p) (hm_ids (foldl addFilter m fs)))"
proof (induction fs arbitrary: m)
  case Nil
  then show ?case by (simp add: wantedProducers_def)
next
  case (Cons f fs)
  have step: "set (hm_ids (addFilter m f)) = set (hm_ids m) \<union> (set (Producers f) - {[]})"
    "hm_prefix (addFilter m f) = (if DedupKeyPrefix f \<noteq> [] then DedupKeyPrefix f else hm_prefix m)"
    "hm_prefixNeedle (addFilter m f) = hm_prefixNeedle m"
    "hm_producerNeedles m = map (\<lambda>p. jsonKey ''producer_id'' @ jsonString p) (hm_ids m) \<longrightarrow>
     hm_producerNeedles (addFilter m f) =
       map (\<lambda>p. jsonKey ''producer_id'' @ jsonString p) (hm_ids (addFilter m f))"
    using foldl_addProducer[of m "Producers f"] by (simp_all add: addFilter_def Let_def)
  have "wantedProducers (f # fs) = (set (Producers f) - {[]}) \<union> wantedProducers fs"
    by (auto simp: wantedProducers_def)
  then show ?case using Cons.IH[of "addFilter m f"] step by (simp add: Un_assoc)
qed

lemma newHistoryMatcher_ok:
  "matcherOK (newHistoryMatcher fs)" "set (hm_ids (newHistoryMatcher fs)) = wantedProducers fs"
  "hm_prefix (newHistoryMatcher fs) = wantedPrefix fs []"
  using foldl_addFilter[of emptyMatcher fs]
  by (auto simp: newHistoryMatcher_def Let_def matcherOK_def emptyMatcher_def jsonString_def butlast_append)

lemma take_prefix: "take (length p) s = p \<longleftrightarrow> (\<exists>rest. s = p @ rest)"
  by (metis append_eq_conv_conj)

lemma matches_keeps: "matches (newHistoryMatcher fs) i \<longleftrightarrow> keeps fs i"
proof -
  have "hm_ids (newHistoryMatcher fs) = [] \<longleftrightarrow> wantedProducers fs = {}"
    using newHistoryMatcher_ok(2)[of fs] by (cases "hm_ids (newHistoryMatcher fs)") auto
  then show ?thesis
    by (auto simp: matches_def keeps_def newHistoryMatcher_ok take_prefix)
qed

text \<open>The specification of a filter, evaluated by the matcher.\<close>

lemma keeps_code [code]: "keeps fs i = matches (newHistoryMatcher fs) i"
  by (simp add: matches_keeps)

section \<open>The reference history\<close>

definition page :: "int \<Rightarrow> int \<Rightarrow> 'a list \<Rightarrow> 'a list" where
  "page limit offset xs =
     (let rest = drop (nat offset) xs in if limit > 0 then take (nat limit) rest else rest)"

text \<open>All items, newest first, with no index.\<close>

definition timeline :: "(string \<rightharpoonup> Item) \<Rightarrow> Item list" where
  "timeline items = rev (sort_key hkey (map snd (sorted_entries items)))"

definition inHistory :: "HistoryFilter list \<Rightarrow> instant \<Rightarrow> Item \<Rightarrow> bool" where
  "inHistory fs now i \<longleftrightarrow> keeps fs i \<and> \<not> (State i = OpenState \<and> isExpired i now)"

definition spec_history :: "HistoryFilter list \<Rightarrow> instant \<Rightarrow> int \<Rightarrow> int \<Rightarrow> (string \<rightharpoonup> Item) \<Rightarrow> Item list" where
  "spec_history fs now limit offset items = page limit offset (filter (inHistory fs now) (timeline items))"

section \<open>The walk computes a page\<close>

lemma historyWalk_page:
  assumes "ctxErr R = None"
    and "\<forall>it\<in>set its. it_Key it \<noteq> liveIndexMarkerKey \<longrightarrow>
      (\<exists>x keep. decode m it = Inr (x, keep) \<and> (keep \<longleftrightarrow> P (item it)) \<and> (keep \<longrightarrow> x = item it))"
    and "limit > 0 \<longrightarrow> int (length items) \<le> limit"
  shows "historyWalk R m now limit offset its skipped items =
    Inr (items @ (let rest = drop (nat (offset - skipped))
          (filter (\<lambda>i. P i \<and> \<not> (State i = OpenState \<and> isExpired i now))
            (map item (filter (\<lambda>it. it_Key it \<noteq> liveIndexMarkerKey) its)))
       in if limit > 0 then take (nat limit - length items) rest else rest))"
  using assms(2,3)
proof (induction its arbitrary: skipped items)
  case (Cons it its)
  let ?Q = "\<lambda>i. P i \<and> \<not> (State i = OpenState \<and> isExpired i now)"
  have its: "\<forall>it\<in>set its. it_Key it \<noteq> liveIndexMarkerKey \<longrightarrow>
      (\<exists>x keep. decode m it = Inr (x, keep) \<and> (keep \<longleftrightarrow> P (item it)) \<and> (keep \<longrightarrow> x = item it))"
    using Cons.prems(1) by simp
  note IH = Cons.IH[OF its]
  show ?case
  proof (cases "it_Key it = liveIndexMarkerKey")
    case True
    then show ?thesis using IH[OF Cons.prems(2)] assms(1) by simp
  next
    case False
    then obtain x keep where d: "decode m it = Inr (x, keep)" "keep \<longleftrightarrow> P (item it)" "keep \<longrightarrow> x = item it"
      using Cons.prems(1) by auto
    show ?thesis
    proof (cases "?Q (item it)")
      case out: False
      then show ?thesis using False d IH[OF Cons.prems(2)] assms(1) by auto
    next
      case True
      then have x: "keep" "x = item it" using d by simp_all
      consider "skipped < offset" | "\<not> skipped < offset" "limit > 0 \<and> int (length items) \<ge> limit"
        | "\<not> skipped < offset" "\<not> (limit > 0 \<and> int (length items) \<ge> limit)" by blast
      then show ?thesis
      proof cases
        case 1
        then have "nat (offset - skipped) = Suc (nat (offset - (skipped + 1)))" by simp
        then show ?thesis using 1 True False d(1) x IH[OF Cons.prems(2), of "skipped + 1"] assms(1) by auto
      next
        case 2
        then show ?thesis using True False d(1) x assms(1) by (auto simp: Let_def)
      next
        case 3
        have len: "limit > 0 \<longrightarrow> int (length (items @ [item it])) \<le> limit" using 3 Cons.prems(2) by auto
        have "nat limit - length items = Suc (nat limit - length (items @ [item it]))" if "limit > 0"
          using 3 that by simp
        then show ?thesis
          using 3 True False d(1) x IH[OF len, of skipped] assms(1) by (auto simp: Let_def)
      qed
    qed
  qed
qed (simp add: Let_def)

section \<open>What the cursor shows\<close>

locale cursor_lib = store_lib K ib ab R
  for K :: "'tx libkv" and ib ab R +
  assumes cursor_keys: "b \<noteq> deliveryAttemptBucketName \<Longrightarrow> ib tx b = Some m \<Longrightarrow>
      map it_Key (txReverse K tx b) = rev (sorted_list_of_set (dom m))"
    and cursor_entry: "b \<noteq> deliveryAttemptBucketName \<Longrightarrow> ib tx b = Some m \<Longrightarrow>
      it \<in> set (txReverse K tx b) \<Longrightarrow> m (it_Key it) = Some i \<Longrightarrow>
      it_Item it = Inr i \<and> (\<exists>v. it_Value it = Inr v \<and>
        bytesContains v (jsonKey ''producer_id'' @ jsonString (ProducerID i)) \<and>
        bytesContains v (jsonKey ''dedup_key'' @ jsonString (DedupKey i)))"
begin

text \<open>The search of the raw bytes never rules out an item the filter keeps.\<close>

lemma mayMatch_kept:
  assumes b: "b \<noteq> deliveryAttemptBucketName" "ib tx b = Some m"
    and it: "it \<in> set (txReverse K tx b)" "m (it_Key it) = Some i"
    and utf8: "validUTF8 (wantedPrefix fs [])" and keep: "keeps fs i"
  shows "mayMatch (newHistoryMatcher fs) it"
proof -
  note ok = newHistoryMatcher_ok[of fs]
  obtain v where v: "it_Value it = Inr v"
    "bytesContains v (jsonKey ''producer_id'' @ jsonString (ProducerID i))"
    "bytesContains v (jsonKey ''dedup_key'' @ jsonString (DedupKey i))"
    using cursor_entry[OF b it] by blast
  obtain rest where d: "DedupKey i = wantedPrefix fs [] @ rest" using keep by (auto simp: keeps_def)
  have "bytesContains v (jsonKey ''dedup_key'' @ [CHR 0x22] @ jsonBody (wantedPrefix fs []))"
    using v(3) unfolding d jsonString_def jsonBody_append[OF utf8] bytesContains_iff
    by (metis append.assoc append_Cons append_Nil)
  then have prefix: "case hm_prefixNeedle (newHistoryMatcher fs) of None \<Rightarrow> True | Some needle \<Rightarrow> bytesContains v needle"
    using ok by (auto simp: matcherOK_def)
  have "list_ex (bytesContains v) (hm_producerNeedles (newHistoryMatcher fs))"
    if "hm_producerNeedles (newHistoryMatcher fs) \<noteq> []"
  proof -
    have "wantedProducers fs \<noteq> {}" using that ok by (auto simp: matcherOK_def)
    then have "ProducerID i \<in> set (hm_ids (newHistoryMatcher fs))" using keep ok(2) by (simp add: keeps_def)
    then show ?thesis using v(2) ok(1) by (auto simp: matcherOK_def list_ex_iff)
  qed
  then show ?thesis using v(1) prefix by (auto simp: mayMatch_def split: option.splits)
qed

lemma decode_exact:
  assumes b: "b \<noteq> deliveryAttemptBucketName" "ib tx b = Some m"
    and it: "it \<in> set (txReverse K tx b)" "m (it_Key it) = Some i"
    and utf8: "validUTF8 (wantedPrefix fs [])"
  shows "\<exists>x keep. decode (newHistoryMatcher fs) it = Inr (x, keep) \<and> (keep \<longleftrightarrow> keeps fs i) \<and> (keep \<longrightarrow> x = i)"
proof (cases "mayMatch (newHistoryMatcher fs) it")
  case True
  have "decodeHistoryIndexEntry it = Inr i"
    using cursor_entry[OF b it] by (auto simp: decodeHistoryIndexEntry_def)
  then show ?thesis using True by (simp add: decode_def matches_keeps)
next
  case False
  then show ?thesis using mayMatch_kept[OF b it utf8] by (auto simp: decode_def)
qed

lemma collectHistoryPage_exact:
  assumes utf8: "validUTF8 (wantedPrefix fs [])"
  shows "collectHistoryPage R (NewAttentionStore K w) now limit offset (newHistoryMatcher fs) tx =
    Inr (page limit offset (filter (inHistory fs now) (map snd (rev (sorted_entries (entries (aHist (\<alpha> tx))))))))"
proof (cases "ib tx attentionHistoryIndexBucketName")
  case None
  then have "entries (aHist (\<alpha> tx)) = Map.empty" by (simp add: absStore_def entries_def fun_eq_iff)
  then show ?thesis
    using None by (simp add: collectHistoryPage_def bucket_check page_def sorted_entries_def)
next
  case (Some m)
  have m: "aHist (\<alpha> tx) = m" and fin: "finite (dom m)" using Some finite_abs(4)[of tx] by (simp_all add: absStore_def)
  let ?its = "txReverse K tx attentionHistoryIndexBucketName"
  let ?item = "\<lambda>it. the (m (it_Key it))"
  note keys = cursor_keys[OF _ Some]
  have keyset: "it_Key ` set ?its = dom m"
    using arg_cong[OF keys, of set] fin by simp
  have "\<forall>it\<in>set ?its. it_Key it \<noteq> liveIndexMarkerKey \<longrightarrow>
      (\<exists>x keep. decode (newHistoryMatcher fs) it = Inr (x, keep) \<and> (keep \<longleftrightarrow> keeps fs (?item it)) \<and>
        (keep \<longrightarrow> x = ?item it))"
  proof (intro ballI impI)
    fix it
    assume it: "it \<in> set ?its"
    then have "it_Key it \<in> dom m" using keyset by blast
    then have "m (it_Key it) = Some (?item it)" by auto
    then show "\<exists>x keep. decode (newHistoryMatcher fs) it = Inr (x, keep) \<and> (keep \<longleftrightarrow> keeps fs (?item it)) \<and>
        (keep \<longrightarrow> x = ?item it)"
      by (rule decode_exact[OF _ Some it _ utf8, rotated]) simp
  qed
  note walk = historyWalk_page[where item = ?item and P = "keeps fs" and items = "[]", OF ctx_live this]
  have "map ?item (filter (\<lambda>it. it_Key it \<noteq> liveIndexMarkerKey) ?its) =
      map (\<lambda>k. the (m k)) (filter (\<lambda>k. k \<noteq> liveIndexMarkerKey) (map it_Key ?its))"
    by (simp add: filter_map comp_def)
  also have "\<dots> = map snd (rev (filter (\<lambda>e. fst e \<noteq> liveIndexMarkerKey) (sorted_entries m)))"
    by (simp add: keys sorted_entries_def filter_map rev_filter[symmetric] rev_map comp_def)
  also have "filter (\<lambda>e. fst e \<noteq> liveIndexMarkerKey) (sorted_entries m) = sorted_entries (entries m)"
    using fin by (simp add: entries_def filter_sorted_entries)
  finally have items: "map ?item (filter (\<lambda>it. it_Key it \<noteq> liveIndexMarkerKey) ?its) =
      map snd (rev (sorted_entries (entries m)))" .
  have "inHistory fs now = (\<lambda>i. keeps fs i \<and> \<not> (State i = OpenState \<and> isExpired i now))"
    by (simp add: inHistory_def fun_eq_iff)
  then show ?thesis
    using walk[of limit now offset 0] Some
    by (simp add: collectHistoryPage_def bucket_check m items page_def Let_def)
qed

end

section \<open>The index is the timeline\<close>

lemma map_snd_sorted_entries_inj:
  assumes "finite (dom items)" and "inj_on hkey (ran items)" and "inj_on items (dom items)"
    and idx: "\<And>k i. idx k = Some i \<longleftrightarrow> i \<in> ran items \<and> k = hkey i"
  shows "map snd (sorted_entries idx) = sort_key hkey (map snd (sorted_entries items))"
proof -
  have dom: "dom idx = hkey ` ran items" using idx by (auto simp: dom_def image_iff)
  have fin: "finite (ran items)" using assms(1) by (rule finite_ran)
  have fin': "finite (dom idx)" using fin by (simp add: dom)
  have keys: "map hkey (map snd (sorted_entries idx)) = sorted_list_of_set (dom idx)"
  proof -
    have "hkey (the (idx k)) = k" if k: "k \<in> dom idx" for k
    proof -
      obtain i where i: "idx k = Some i" using k by blast
      then have "k = hkey i" using idx by blast
      then show ?thesis using i by simp
    qed
    then have "map hkey (map snd (sorted_entries idx)) = map id (sorted_list_of_set (dom idx))"
      unfolding sorted_entries_def map_map comp_def snd_conv
      using fin' by (intro map_cong) simp_all
    then show ?thesis by simp
  qed
  have set1: "set (map snd (sorted_entries idx)) = ran items"
    using fin' idx by (force simp: set_sorted_entries ran_def)
  have set2: "set (map snd (sorted_entries items)) = ran items"
    using assms(1) by (force simp: set_sorted_entries ran_def)
  have dist1: "distinct (map snd (sorted_entries idx))"
  proof -
    have "distinct (map hkey (map snd (sorted_entries idx)))" unfolding keys by simp
    then show ?thesis by (rule distinct_map[THEN iffD1, THEN conjunct1])
  qed
  have dist2: "distinct (map snd (sorted_entries items))"
    using assms(1,3)
    by (auto simp: sorted_entries_def distinct_map inj_on_def comp_def domIff)
  have "mset (map snd (sorted_entries items)) = mset (map snd (sorted_entries idx))"
    using set1 set2 dist1 dist2 by (metis set_eq_iff_mset_eq_distinct)
  moreover have "sorted (map hkey (map snd (sorted_entries idx)))" unfolding keys by simp
  ultimately show ?thesis
    using assms(2) set2 by (intro sort_key_inj_key_eq[symmetric]) simp_all
qed

lemma history_index_timeline:
  assumes inv: "storeInv s" and b: "built (aHist s)"
  shows "map snd (rev (sorted_entries (entries (aHist s)))) = timeline (aItems s)"
proof -
  have wf: "wfItems (aItems s)" and fin: "finite (dom (aItems s))" using inv by (simp_all add: storeInv_def)
  note item = wfItemsD[OF wf]
  have ran: "i \<in> ran (aItems s) \<longleftrightarrow> aItems s (ItemID i) = Some i" for i
    using item[of _ i] unfolding ran_def by blast
  have sound: "idxSound (\<lambda>_. True) hkey (aItems s) (aHist s)"
    and complete: "idxComplete (\<lambda>_. True) hkey (aItems s) (aHist s)"
    using inv by (simp_all add: storeInv_def)
  have idx: "entries (aHist s) k = Some i \<longleftrightarrow> i \<in> ran (aItems s) \<and> k = hkey i" for k i
    using idxSoundD[OF sound, of k i] complete[unfolded idxComplete_def, rule_format, OF b, of "ItemID i" i]
    unfolding ran by blast
  have inj1: "inj_on hkey (ran (aItems s))"
  proof (rule inj_onI)
    fix i j
    assume "i \<in> ran (aItems s)" "j \<in> ran (aItems s)" "hkey i = hkey j"
    moreover from this have "ItemID i = ItemID j"
      unfolding hkey_def by (elim timeOrderedIndexKey_eq(1))
    ultimately show "i = j" by (simp add: ran)
  qed
  have inj2: "inj_on (aItems s) (dom (aItems s))"
  proof (rule inj_onI)
    fix x y
    assume "x \<in> dom (aItems s)" and eq: "aItems s x = aItems s y"
    then obtain i where i: "aItems s x = Some i" by blast
    then have "aItems s y = Some i" by (rule eq[THEN subst])
    then show "x = y" using item[OF i] item by blast
  qed
  show ?thesis
    using map_snd_sorted_entries_inj[OF fin inj1 inj2 idx] by (simp add: timeline_def rev_map[symmetric])
qed

context cursor_lib
begin

lemma store_History_exact:
  assumes inv: "storeInv (\<alpha> s)" and utf8: "validUTF8 (wantedPrefix fs [])"
  shows "\<exists>s'. store_History R (NewAttentionStore K w) now limit offset fs s =
      (s', Inr (spec_history fs now limit (max 0 offset) (aItems (\<alpha> s)))) \<and> aItems (\<alpha> s') = aItems (\<alpha> s)"
proof -
  obtain s' where s': "ensureHistoryIndex R (NewAttentionStore K w) s = (s', Inr ())"
    "\<alpha> s' = (\<alpha> s)\<lparr>aHist := spec_build (\<lambda>_. True) timeOrderedIndexKey (aItems (\<alpha> s)) (aHist (\<alpha> s))\<rparr>"
    using ensureHistoryIndex_ok[of w s] by blast
  have inv': "storeInv (\<alpha> s')" unfolding s'(2) by (rule storeInv_build(3)[OF inv])
  have "built (aHist (\<alpha> s'))" by (simp add: s'(2))
  note timeline = history_index_timeline[OF inv' this]
  have "aItems (\<alpha> s') = aItems (\<alpha> s)" by (simp add: s'(2))
  moreover have "(if offset < 0 then 0 else offset) = max 0 offset" by simp
  ultimately show ?thesis
    using collectHistoryPage_exact[OF utf8, where w = w and now = now and limit = limit and offset = "max 0 offset" and tx = s']
    by (simp add: store_History_def s'(1) Let_def db_View_def spec_history_def timeline)
qed

end

section \<open>Order and pages\<close>

text \<open>Every creation time of a stored item has a year the key can hold.\<close>

definition datedItems :: "(string \<rightharpoonup> Item) \<Rightarrow> bool" where
  "datedItems items \<longleftrightarrow> (\<forall>i\<in>ran items. 0 \<le> yearOf (CreatedAt i) \<and> yearOf (CreatedAt i) \<le> 9999)"

lemma hkey_order:
  assumes "hkey i \<le> hkey j" and "0 \<le> yearOf (CreatedAt i)" "yearOf (CreatedAt i) \<le> 9999"
    and "0 \<le> yearOf (CreatedAt j)" "yearOf (CreatedAt j) \<le> 9999"
  shows "CreatedAt i \<le> CreatedAt j"
proof (rule ccontr)
  assume "\<not> CreatedAt i \<le> CreatedAt j"
  then have "formatHistoryKey (CreatedAt j) < formatHistoryKey (CreatedAt i)"
    using assms by (intro formatHistoryKey_less) simp_all
  then have "hkey j < hkey i"
    using assms by (simp add: hkey_def timeOrderedIndexKey_def lex_append_left length_formatHistoryKey)
  then show False using assms(1) by simp
qed

lemma set_timeline: "finite (dom items) \<Longrightarrow> set (timeline items) = ran items"
  by (force simp: timeline_def set_sorted_entries ran_def)

lemma timeline_newest_first:
  assumes "finite (dom items)" and "datedItems items"
  shows "sorted_wrt (\<lambda>i j. CreatedAt j \<le> CreatedAt i) (timeline items)"
proof -
  let ?xs = "sort_key hkey (map snd (sorted_entries items))"
  have "sorted (map hkey ?xs)" by simp
  then have key_order: "sorted_wrt (\<lambda>i j. hkey i \<le> hkey j) ?xs" by (simp add: sorted_map)
  have ran: "set ?xs = ran items" using set_timeline[OF assms(1)] by (simp add: timeline_def)
  have "sorted_wrt (\<lambda>i j. CreatedAt i \<le> CreatedAt j) ?xs"
  proof (rule sorted_wrt_mono_rel[OF _ key_order])
    fix i j
    assume "i \<in> set ?xs" "j \<in> set ?xs" "hkey i \<le> hkey j"
    then show "CreatedAt i \<le> CreatedAt j"
      using assms(2) unfolding datedItems_def ran by (intro hkey_order) simp_all
  qed
  then show ?thesis by (simp add: timeline_def sorted_wrt_rev)
qed

lemma sorted_wrt_page: "sorted_wrt P xs \<Longrightarrow> sorted_wrt P (page limit offset xs)"
  by (auto simp: page_def Let_def sorted_wrt_drop sorted_wrt_take)

lemma pages_cover:
  assumes "0 < n"
  shows "concat (map (\<lambda>k. page (int n) (int (k * n)) xs) [0..<m]) = take (m * n) xs"
proof (induction m)
  case (Suc m)
  have "page (int n) (int (m * n)) xs = take n (drop (m * n) xs)"
    using assms by (simp add: page_def Let_def nat_int del: of_nat_mult)
  moreover have "take (Suc m * n) xs = take (m * n) xs @ take n (drop (m * n) xs)"
    unfolding take_add[symmetric] by (simp add: add.commute)
  ultimately show ?case using Suc by simp
qed simp

section \<open>The in-memory database shows its entries\<close>

interpretation mem_cursor: cursor_lib mem_kv mem_ib mem_ab std_runtime
proof unfold_locales
  fix b :: string and s :: memdb and m it i
  assume m: "mem_ib s b = Some m"
  then obtain es where es: "mem_items s b = Some es" "m = map_of es" by (auto simp: mem_ib_def)
  have entries: "alist_entries es = sorted_entries m"
    using alist_entries_sorted es(2) by metis
  show "map it_Key (txReverse mem_kv s b) = rev (sorted_list_of_set (dom m))"
    by (simp add: mem_kv_def es(1) alist_of_def entries rev_map mem_item_def comp_def sorted_entries_def)
  assume it: "it \<in> set (txReverse mem_kv s b)" "m (it_Key it) = Some i"
  then have e: "it = mem_item (it_Key it, i)"
    using es finite_dom_map_of[of es]
    by (auto simp: mem_kv_def alist_of_def entries set_sorted_entries mem_item_def)
  have fields: "jsonField ''producer_id'' p = jsonKey ''producer_id'' @ jsonString p"
    "jsonField ''dedup_key'' p = jsonKey ''dedup_key'' @ jsonString p" for p
    by (simp_all add: jsonField_def jsonKey_def)
  have "\<exists>pre post. ''{'' @ P @ '','' @ D @ ''}'' = pre @ P @ post" for P D :: string
    by (rule exI[of _ "''{''"], rule exI[of _ "'','' @ D @ ''}''"]) simp
  moreover have "\<exists>pre post. ''{'' @ P @ '','' @ D @ ''}'' = pre @ D @ post" for P D :: string
    by (rule exI[of _ "''{'' @ P @ '',''"], rule exI[of _ "''}''"]) simp
  moreover have "it_Value it = Inr (''{'' @ (jsonKey ''producer_id'' @ jsonString (ProducerID i)) @ '','' @
      (jsonKey ''dedup_key'' @ jsonString (DedupKey i)) @ ''}'')" "it_Item it = Inr i"
    by (subst e, simp only: mem_item_def kvItem.simps snd_conv fields append_assoc,
        subst e, simp only: mem_item_def kvItem.simps snd_conv)
  ultimately show "it_Item it = Inr i \<and> (\<exists>v. it_Value it = Inr v \<and>
      bytesContains v (jsonKey ''producer_id'' @ jsonString (ProducerID i)) \<and>
      bytesContains v (jsonKey ''dedup_key'' @ jsonString (DedupKey i)))"
    unfolding bytesContains_iff by blast
qed

end
