(* ===== verification/Ops.thy ===== *)
theory Ops
  imports History
begin

text \<open>
  The \<open>AttentionStore\<close> interface of \<open>attention-store.go\<close> as a record of its
  operations over a state, and the local store as one value of it. The decorators
  and the HTTP handlers are written against the record, as the Go ones are
  written against the interface; the locale \<open>store_contract\<close> states what they rely
  on, and the local store is its first interpretation.
\<close>

section \<open>The interface\<close>

record 's attentionOps =
  op_Push :: "PushRequest \<Rightarrow> 's \<Rightarrow> 's \<times> (error + Item)"
  op_Get :: "ItemID \<Rightarrow> 's \<Rightarrow> 's \<times> (error + Item)"
  op_Read :: "'s \<Rightarrow> 's \<times> (error + Item list)"
  op_ReadBoard :: "'s \<Rightarrow> 's \<times> (error + Item list)"
  op_History :: "int \<Rightarrow> int \<Rightarrow> HistoryFilter list \<Rightarrow> 's \<Rightarrow> 's \<times> (error + Item list)"
  op_Answer :: "ItemID \<Rightarrow> string \<Rightarrow> string \<Rightarrow> Decision \<Rightarrow> Answer option \<Rightarrow> QuestionAnswer list \<Rightarrow>
    AnsweredClient option \<Rightarrow> AnswerRoute list \<Rightarrow> 's \<Rightarrow> 's \<times> (error + Item option)"
  op_Escalate :: "ItemID \<Rightarrow> string \<Rightarrow> 's \<Rightarrow> 's \<times> (error + Item)"
  op_Flag :: "ItemID \<Rightarrow> string \<Rightarrow> 's \<Rightarrow> 's \<times> (error + Item)"
  op_Unflag :: "ItemID \<Rightarrow> 's \<Rightarrow> 's \<times> (error + Item)"
  op_Rate :: "ItemID \<Rightarrow> Rating \<Rightarrow> 's \<Rightarrow> 's \<times> (error + Item)"
  op_Close :: "ItemID \<Rightarrow> string \<Rightarrow> AnsweredClient option \<Rightarrow> 's \<Rightarrow> 's \<times> (error + Item)"
  op_RecordAttempt :: "ItemID \<Rightarrow> string \<Rightarrow> DeliveryOutcome \<Rightarrow> 's \<Rightarrow> 's \<times> (error + DeliveryAttempt)"
  op_Delivery :: "ItemID \<Rightarrow> 's \<Rightarrow> 's \<times> (error + DeliveryReport)"
  op_SweepAnswered :: "duration \<Rightarrow> 's \<Rightarrow> 's \<times> (error + nat)"

section \<open>The local store\<close>

text \<open>What the calls of one moment read from outside: the clock, the heartbeat files, the
  session registry and the random source.\<close>

record callEnv =
  env_now :: instant
  env_read :: readings
  env_prune :: readings
  env_generated :: "error + ItemID"
  env_nowAnswered :: "string \<Rightarrow> instant"
  env_nowOpen :: "string \<Rightarrow> instant"

definition localOps :: "runtime \<Rightarrow> 'tx attentionStore \<Rightarrow> callEnv \<Rightarrow> 'tx attentionOps" where
  "localOps R A E = \<lparr>
     op_Push = store_Push R A (rd_probes (env_read E)) (rd_checker (env_read E)) (env_generated E) (env_now E),
     op_Get = (\<lambda>itemID s. (s, store_Get A itemID s)),
     op_Read = store_Read R A (env_read E) (env_prune E),
     op_ReadBoard = store_ReadBoard R A (env_read E) (env_prune E),
     op_History = store_History R A (env_now E),
     op_Answer = store_Answer R A (env_now E),
     op_Escalate = store_Escalate A (env_now E),
     op_Flag = store_Flag A (env_now E),
     op_Unflag = store_Unflag A,
     op_Rate = store_Rate R A (env_now E),
     op_Close = store_Close A (env_now E),
     op_RecordAttempt = store_RecordAttempt R A (env_now E),
     op_Delivery = (\<lambda>itemID s. (s, store_Delivery A itemID s)),
     op_SweepAnswered = store_SweepAnswered R A (env_now E) (env_nowAnswered E) (env_nowOpen E)\<rparr>"

section \<open>The contract\<close>

text \<open>A failed write changed nothing, and the two point reads change nothing at all.\<close>

locale store_contract =
  fixes Ops :: "'s attentionOps"
  assumes push_rolls_back: "rolls_back s (op_Push Ops req s)"
    and answer_rolls_back: "rolls_back s (op_Answer Ops k who rby d a as client route s)"
    and escalate_rolls_back: "rolls_back s (op_Escalate Ops k who s)"
    and flag_rolls_back: "rolls_back s (op_Flag Ops k reason s)"
    and unflag_rolls_back: "rolls_back s (op_Unflag Ops k s)"
    and rate_rolls_back: "rolls_back s (op_Rate Ops k rating s)"
    and close_rolls_back: "rolls_back s (op_Close Ops k who client s)"
    and attempt_rolls_back: "rolls_back s (op_RecordAttempt Ops k carrier outcome s)"
    and get_pure: "fst (op_Get Ops k s) = s"
    and delivery_pure: "fst (op_Delivery Ops k s) = s"
begin

lemmas all_roll_back =
  push_rolls_back answer_rolls_back escalate_rolls_back flag_rolls_back unflag_rolls_back
  rate_rolls_back close_rolls_back attempt_rolls_back

end

interpretation local_store: store_contract "localOps R A E" for R A E
  by unfold_locales
    (simp_all add: localOps_def store_Push_def store_Answer_def store_Escalate_def store_Flag_def
      store_Unflag_def store_Rate_def store_Close_def store_RecordAttempt_def Let_def split: option.split)

end
