(* ===== verification/Notify.thy ===== *)
theory Notify
  imports Ops "HOL-Library.Word"
begin

text \<open>
  The change notifier (\<open>attention-change-notifier.go\<close>) and the store decorator that
  signals it (\<open>attention-store-notifying.go\<close>). A subscriber's channel has a buffer of
  one and carries no value, so it is one bit: whether a signal waits in it.
\<close>

section \<open>The notifier\<close>

record notifier =
  subscribers :: "nat \<rightharpoonup> bool"
  nextID :: nat
  generation :: "64 word"

definition NewAttentionChangeNotifier :: notifier where
  "NewAttentionChangeNotifier = \<lparr>subscribers = Map.empty, nextID = 0, generation = 0\<rparr>"

text \<open>The send of \<open>Notify\<close>: into an empty buffer, or none when one signal waits already.\<close>

definition sendSignal :: "bool \<Rightarrow> bool" where
  "sendSignal waiting = (if waiting then waiting else True)"

definition Notify :: "notifier \<Rightarrow> notifier" where
  "Notify n = n\<lparr>generation := generation n + 1,
     subscribers := (\<lambda>sid. map_option sendSignal (subscribers n sid))\<rparr>"

definition Subscribe :: "notifier \<Rightarrow> notifier \<times> nat" where
  "Subscribe n = (n\<lparr>subscribers := (subscribers n)(nextID n \<mapsto> False), nextID := nextID n + 1\<rparr>, nextID n)"

definition Unsubscribe :: "nat \<Rightarrow> notifier \<Rightarrow> notifier" where
  "Unsubscribe sid n =
     (case subscribers n sid of None \<Rightarrow> n | Some _ \<Rightarrow> n\<lparr>subscribers := (subscribers n)(sid := None)\<rparr>)"

definition Generation :: "notifier \<Rightarrow> 64 word" where
  "Generation n = generation n"

text \<open>A subscriber wakes: it takes the waiting signal out of its channel.\<close>

definition receive :: "nat \<Rightarrow> notifier \<Rightarrow> notifier" where
  "receive sid n = n\<lparr>subscribers := (subscribers n)(sid \<mapsto> False)\<rparr>"

lemma sendSignal_True [simp]: "sendSignal w"
  by (simp add: sendSignal_def)

section \<open>Who has seen what\<close>

text \<open>The notifier with its subscribers. The second component records, for each
  subscriber, the generation it read when it subscribed or last woke.\<close>

inductive notifier_step ::
  "notifier \<times> (nat \<rightharpoonup> 64 word) \<Rightarrow> notifier \<times> (nat \<rightharpoonup> 64 word) \<Rightarrow> bool" where
  notify: "notifier_step (n, seen) (Notify n, seen)"
| subscribe: "Subscribe n = (n', sid) \<Longrightarrow> notifier_step (n, seen) (n', seen(sid \<mapsto> Generation n'))"
| unsubscribe: "notifier_step (n, seen) (Unsubscribe sid n, seen(sid := None))"
| wake: "subscribers n sid = Some True \<Longrightarrow>
    notifier_step (n, seen) (receive sid n, seen(sid \<mapsto> Generation n))"

inductive_cases notifier_stepE: "notifier_step (n, seen) (n', seen')"

abbreviation notifier_steps where "notifier_steps \<equiv> notifier_step\<^sup>*\<^sup>*"

definition notifierInv :: "notifier \<times> (nat \<rightharpoonup> 64 word) \<Rightarrow> bool" where
  "notifierInv s \<longleftrightarrow>
     (\<forall>sid waiting. subscribers (fst s) sid = Some waiting \<longrightarrow>
        sid < nextID (fst s) \<and> (waiting \<or> snd s sid = Some (generation (fst s))))"

lemma notifier_step_inv: "notifier_step s s' \<Longrightarrow> notifierInv s \<Longrightarrow> notifierInv s'"
proof (induction rule: notifier_step.induct)
  case (subscribe n n' sid seen)
  have old: "sid' < nextID n \<and> (waiting \<or> seen sid' = Some (generation n))"
    if "subscribers n sid' = Some waiting" for sid' waiting
    using subscribe.prems that unfolding notifierInv_def fst_conv snd_conv by blast
  show ?case
    unfolding notifierInv_def fst_conv snd_conv
  proof (intro allI impI)
    fix sid' waiting
    assume "subscribers n' sid' = Some waiting"
    then show "sid' < nextID n' \<and> (waiting \<or> (seen(sid \<mapsto> Generation n')) sid' = Some (generation n'))"
      using subscribe.hyps old[of sid' waiting]
      by (auto simp: Subscribe_def Generation_def split: if_splits)
  qed
next
  case (unsubscribe n seen sid)
  then show ?case by (auto simp: notifierInv_def Unsubscribe_def split: option.splits if_splits)
next
  case (wake n sid seen)
  then show ?case by (auto simp: notifierInv_def receive_def Generation_def)
qed (auto simp: notifierInv_def Notify_def)

lemma notifier_steps_inv:
  "notifier_steps s s' \<Longrightarrow> notifierInv s \<Longrightarrow> notifierInv s'"
  by (induction rule: rtranclp_induct) (auto intro: notifier_step_inv)

lemma notifierInv_new: "notifierInv (NewAttentionChangeNotifier, seen)"
  by (simp add: notifierInv_def NewAttentionChangeNotifier_def)

section \<open>The notifying store\<close>

text \<open>The state of the decorator is the state of the store and the notifier.\<close>

definition signalled :: "'s \<times> (error + 'r) \<Rightarrow> notifier \<Rightarrow> ('s \<times> notifier) \<times> (error + 'r)" where
  "signalled result n =
     (case result of
        (s, Inl e) \<Rightarrow> ((s, n), Inl e)
      | (s, Inr r) \<Rightarrow> ((s, Notify n), Inr r))"

definition passed :: "'s \<times> 'x \<Rightarrow> notifier \<Rightarrow> ('s \<times> notifier) \<times> 'x" where
  "passed result n = ((fst result, n), snd result)"

definition notifying_Push where
  "notifying_Push Ops request s = signalled (op_Push Ops request (fst s)) (snd s)"
definition notifying_Get where
  "notifying_Get Ops itemID s = passed (op_Get Ops itemID (fst s)) (snd s)"
definition notifying_Read where
  "notifying_Read Ops s = passed (op_Read Ops (fst s)) (snd s)"
definition notifying_ReadBoard where
  "notifying_ReadBoard Ops s = passed (op_ReadBoard Ops (fst s)) (snd s)"
definition notifying_History where
  "notifying_History Ops limit offset filters s = passed (op_History Ops limit offset filters (fst s)) (snd s)"
definition notifying_Answer where
  "notifying_Answer Ops itemID answeredBy resolvedBy decision answer answers answeredClient route s =
     signalled (op_Answer Ops itemID answeredBy resolvedBy decision answer answers answeredClient route (fst s)) (snd s)"
definition notifying_Escalate where
  "notifying_Escalate Ops itemID escalatedBy s = signalled (op_Escalate Ops itemID escalatedBy (fst s)) (snd s)"
definition notifying_Flag where
  "notifying_Flag Ops itemID reason s = signalled (op_Flag Ops itemID reason (fst s)) (snd s)"
definition notifying_Unflag where
  "notifying_Unflag Ops itemID s = signalled (op_Unflag Ops itemID (fst s)) (snd s)"
definition notifying_Rate where
  "notifying_Rate Ops itemID rating s = signalled (op_Rate Ops itemID rating (fst s)) (snd s)"
definition notifying_Close where
  "notifying_Close Ops itemID answeredBy answeredClient s =
     signalled (op_Close Ops itemID answeredBy answeredClient (fst s)) (snd s)"
definition notifying_RecordAttempt where
  "notifying_RecordAttempt Ops itemID carrier outcome s =
     signalled (op_RecordAttempt Ops itemID carrier outcome (fst s)) (snd s)"
definition notifying_Delivery where
  "notifying_Delivery Ops itemID s = passed (op_Delivery Ops itemID (fst s)) (snd s)"

definition notifying_SweepAnswered where
  "notifying_SweepAnswered Ops maxAge s =
     (case op_SweepAnswered Ops maxAge (fst s) of
        (s', Inl e) \<Rightarrow> ((s', snd s), Inl e)
      | (s', Inr closed) \<Rightarrow> ((s', if closed > (0::nat) then Notify (snd s) else snd s), Inr closed))"

definition NewNotifyingAttentionStore :: "'s attentionOps \<Rightarrow> ('s \<times> notifier) attentionOps" where
  "NewNotifyingAttentionStore Ops = \<lparr>
     op_Push = notifying_Push Ops, op_Get = notifying_Get Ops, op_Read = notifying_Read Ops,
     op_ReadBoard = notifying_ReadBoard Ops, op_History = notifying_History Ops,
     op_Answer = notifying_Answer Ops, op_Escalate = notifying_Escalate Ops,
     op_Flag = notifying_Flag Ops, op_Unflag = notifying_Unflag Ops, op_Rate = notifying_Rate Ops,
     op_Close = notifying_Close Ops, op_RecordAttempt = notifying_RecordAttempt Ops,
     op_Delivery = notifying_Delivery Ops, op_SweepAnswered = notifying_SweepAnswered Ops\<rparr>"

lemmas notifying_defs =
  NewNotifyingAttentionStore_def notifying_Push_def notifying_Get_def notifying_Read_def
  notifying_ReadBoard_def notifying_History_def notifying_Answer_def notifying_Escalate_def
  notifying_Flag_def notifying_Unflag_def notifying_Rate_def notifying_Close_def
  notifying_RecordAttempt_def notifying_Delivery_def

section \<open>No change without a signal\<close>

text \<open>A write told everyone, or it changed nothing: an error leaves store and notifier as
  they were, a success moves the generation by one and leaves a signal with every
  subscriber.\<close>

definition announced :: "'s \<times> notifier \<Rightarrow> ('s \<times> notifier) \<times> (error + 'r) \<Rightarrow> bool" where
  "announced s result =
     (case snd result of
        Inl _ \<Rightarrow> fst result = s
      | Inr _ \<Rightarrow> generation (snd (fst result)) = generation (snd s) + 1 \<and>
          dom (subscribers (snd (fst result))) = dom (subscribers (snd s)) \<and>
          ran (subscribers (snd (fst result))) \<subseteq> {True})"

lemma Notify_announces:
  "generation (Notify n) = generation n + 1" "dom (subscribers (Notify n)) = dom (subscribers n)"
  "ran (subscribers (Notify n)) \<subseteq> {True}"
  by (auto simp: Notify_def dom_def ran_def)

lemma signalled_announced:
  "rolls_back (fst s) p \<Longrightarrow> announced s (signalled p (snd s))"
  using Notify_announces by (cases p) (auto simp: announced_def signalled_def rolls_back_def split: sum.split)

lemma signalled_rolls_back: "rolls_back (fst s) p \<Longrightarrow> rolls_back s (signalled p (snd s))"
  by (cases p) (auto simp: signalled_def rolls_back_def split: sum.split)

context store_contract
begin

lemma writes_announced:
  "announced s (notifying_Push Ops req s)"
  "announced s (notifying_Answer Ops k who rby d a as client route s)"
  "announced s (notifying_Escalate Ops k who s)"
  "announced s (notifying_Flag Ops k reason s)"
  "announced s (notifying_Unflag Ops k s)"
  "announced s (notifying_Rate Ops k rating s)"
  "announced s (notifying_Close Ops k who client s)"
  "announced s (notifying_RecordAttempt Ops k carrier outcome s)"
  unfolding notifying_defs by (rule signalled_announced, rule all_roll_back)+

end

text \<open>The decorator keeps the contract, so it can be decorated again.\<close>

context store_contract
begin

lemma notifying_contract: "store_contract (NewNotifyingAttentionStore Ops)"
  by unfold_locales
    (simp_all add: notifying_defs passed_def signalled_rolls_back all_roll_back get_pure delivery_pure)

end

interpretation notifying_local: store_contract "NewNotifyingAttentionStore (localOps R A E)" for R A E
  by (rule local_store.notifying_contract)

end
