(* ===== verification/Handlers.thy ===== *)
theory Handlers
  imports Ops
begin

text \<open>
  The HTTP handlers of the business API (\<open>pkg/handler/attention-*.go\<close>): the
  checks before the store is touched, the call, and the status and error code each
  store error becomes. What the router and the JSON decoder give a handler is an
  argument (\<open>None\<close> for a body that is not JSON), and its reply is the value it
  sends or the status and code it fails with. The codes that \<open>github.com/bborbe/http\<close>
  declares, and what its error handler makes of an error without a code, are the
  parameter \<open>httpLib\<close>.
\<close>

section \<open>Replies and codes\<close>

record httpLib =
  lib_ErrorCodeValidation :: string
  lib_ErrorCodeNotFound :: string
  lib_ErrorCodeInternal :: string
  lib_uncoded :: "int \<times> string"

datatype 'b reply = Sent int 'b | Failed int string "instant option"

definition ErrorCodeAlreadyEscalated :: string where "ErrorCodeAlreadyEscalated = ''ALREADY_ESCALATED''"
definition ErrorCodeItemNotOpen :: string where "ErrorCodeItemNotOpen = ''ITEM_NOT_OPEN''"
definition ErrorCodeAlreadyAnswered :: string where "ErrorCodeAlreadyAnswered = ''ALREADY_ANSWERED''"
definition ErrorCodeItemClosed :: string where "ErrorCodeItemClosed = ''ITEM_CLOSED''"
definition ErrorCodePeerUnavailable :: string where "ErrorCodePeerUnavailable = ''PEER_UNAVAILABLE''"
definition ErrorCodePermissionCloseWithoutDecision :: string where
  "ErrorCodePermissionCloseWithoutDecision = ''PERMISSION_CLOSE_WITHOUT_DECISION''"
definition ErrorCodeFlagReasonRequired :: string where
  "ErrorCodeFlagReasonRequired = ''FLAG_REASON_REQUIRED''"
definition ErrorCodeRatingInvalid :: string where "ErrorCodeRatingInvalid = ''RATING_INVALID''"

lemmas error_code_defs =
  ErrorCodeAlreadyEscalated_def ErrorCodeItemNotOpen_def ErrorCodeAlreadyAnswered_def
  ErrorCodeItemClosed_def ErrorCodePeerUnavailable_def ErrorCodePermissionCloseWithoutDecision_def
  ErrorCodeFlagReasonRequired_def ErrorCodeRatingInvalid_def

definition errorCodes :: "string list" where
  "errorCodes = [ErrorCodeAlreadyEscalated, ErrorCodeItemNotOpen, ErrorCodeAlreadyAnswered,
     ErrorCodeItemClosed, ErrorCodePeerUnavailable, ErrorCodePermissionCloseWithoutDecision,
     ErrorCodeFlagReasonRequired, ErrorCodeRatingInvalid]"

definition badRequest :: "httpLib \<Rightarrow> 'b reply" where
  "badRequest H = Failed 400 (lib_ErrorCodeValidation H) None"

section \<open>Answer\<close>

record requestFrom =
  from_UserAgent :: string
  from_RemoteAddr :: string

definition answeredClientFromRequest :: "requestFrom \<Rightarrow> bool option \<Rightarrow> AnsweredClient option" where
  "answeredClientFromRequest from automation =
     (if from_UserAgent from = [] \<and> from_RemoteAddr from = [] \<and> automation = None then None
      else Some \<lparr>client_UserAgent = from_UserAgent from, client_RemoteAddr = from_RemoteAddr from,
                 client_Automation = automation\<rparr>)"

record answerBody =
  ab_AnsweredBy :: string
  ab_ResolvedBy :: string
  ab_Decision :: Decision
  ab_Answer :: "Answer option"
  ab_Answers :: "QuestionAnswer list"
  ab_Automation :: "bool option"
  ab_RequestID :: string
  ab_Policy :: string

definition validateAnswerRequest ::
  "httpLib \<Rightarrow> runtime \<Rightarrow> Decision \<Rightarrow> Answer option \<Rightarrow> QuestionAnswer list \<Rightarrow> 'b reply option" where
  "validateAnswerRequest H R decision answer answers =
     (if Decision_Validate R decision \<noteq> None then Some (badRequest H)
      else if (case answer of None \<Rightarrow> False | Some a \<Rightarrow> Answer_Validate R a \<noteq> None) then Some (badRequest H)
      else if answers \<noteq> [] \<and> Answers_Validate R answers \<noteq> None then Some (badRequest H)
      else None)"

definition wrapItemClosedError :: "'s attentionOps \<Rightarrow> ItemID \<Rightarrow> 's \<Rightarrow> 's \<times> 'b reply" where
  "wrapItemClosedError Ops itemID s =
     (case op_Get Ops itemID s of
        (s, Inl _) \<Rightarrow> (s, Failed 409 ErrorCodeItemClosed None)
      | (s, Inr item) \<Rightarrow> (s, Failed 409 ErrorCodeItemClosed (ClosedAt item)))"

definition wrapAnswerError ::
  "httpLib \<Rightarrow> 's attentionOps \<Rightarrow> error \<Rightarrow> ItemID \<Rightarrow> 's \<Rightarrow> 's \<times> 'b reply" where
  "wrapAnswerError H Ops e itemID s =
     (if e = ErrItemNotFound then (s, Failed 404 (lib_ErrorCodeNotFound H) None)
      else if e = ErrAlreadyAnswered then (s, Failed 409 ErrorCodeAlreadyAnswered None)
      else if e = ErrIllegalTransition then wrapItemClosedError Ops itemID s
      else if e = ErrPeerUnavailable then (s, Failed 503 ErrorCodePeerUnavailable None)
      else (s, Failed 409 (lib_ErrorCodeValidation H) None))"

definition handleAttentionAnswer ::
  "httpLib \<Rightarrow> runtime \<Rightarrow> 's attentionOps \<Rightarrow> requestFrom \<Rightarrow> ItemID \<Rightarrow> answerBody option \<Rightarrow> 's \<Rightarrow>
   's \<times> Item option reply" where
  "handleAttentionAnswer H R Ops from itemID body s =
     (if itemID = [] then (s, badRequest H)
      else (case body of
              None \<Rightarrow> (s, badRequest H)
            | Some b \<Rightarrow>
                (case validateAnswerRequest H R (ab_Decision b) (ab_Answer b) (ab_Answers b) of
                   Some refused \<Rightarrow> (s, refused)
                 | None \<Rightarrow>
                     (case op_Answer Ops itemID (ab_AnsweredBy b) (ab_ResolvedBy b) (ab_Decision b)
                             (ab_Answer b) (ab_Answers b) (answeredClientFromRequest from (ab_Automation b))
                             [\<lparr>route_RequestID = ab_RequestID b, route_Policy = ab_Policy b\<rparr>] s of
                        (s, Inl e) \<Rightarrow> wrapAnswerError H Ops e itemID s
                      | (s, Inr item) \<Rightarrow> (s, Sent 200 item)))))"

section \<open>Close, get and read\<close>

definition wrapItemError :: "httpLib \<Rightarrow> error \<Rightarrow> 'b reply" where
  "wrapItemError H e =
     (if e = ErrItemNotFound then Failed 404 (lib_ErrorCodeNotFound H) None
      else if e = ErrPeerUnavailable then Failed 503 ErrorCodePeerUnavailable None
      else if e = ErrPermissionCloseWithoutDecision
      then Failed 409 ErrorCodePermissionCloseWithoutDecision None
      else Failed 409 (lib_ErrorCodeValidation H) None)"

text \<open>A store call whose error a table turns into a reply.\<close>

definition replyWith :: "(error \<Rightarrow> 'b reply) \<Rightarrow> int \<Rightarrow> 's \<times> (error + 'b) \<Rightarrow> 's \<times> 'b reply" where
  "replyWith onError status result =
     (case result of (s, Inl e) \<Rightarrow> (s, onError e) | (s, Inr x) \<Rightarrow> (s, Sent status x))"

record closeBody =
  cb_AnsweredBy :: string
  cb_Automation :: "bool option"

definition emptyCloseBody :: closeBody where
  "emptyCloseBody = \<lparr>cb_AnsweredBy = [], cb_Automation = None\<rparr>"

text \<open>What decoding the close body gives: an empty body is the zero value.\<close>

datatype closeDecoded = Decoded closeBody | EmptyBody | NotJSON

definition handleAttentionClose ::
  "httpLib \<Rightarrow> 's attentionOps \<Rightarrow> requestFrom \<Rightarrow> ItemID \<Rightarrow> closeDecoded \<Rightarrow> 's \<Rightarrow> 's \<times> Item reply" where
  "handleAttentionClose H Ops from itemID body s =
     (if itemID = [] then (s, badRequest H)
      else (let close = (\<lambda>b. replyWith (wrapItemError H) 200
                  (op_Close Ops itemID (cb_AnsweredBy b)
                    (answeredClientFromRequest from (cb_Automation b)) s))
            in (case body of
                  NotJSON \<Rightarrow> (s, badRequest H)
                | EmptyBody \<Rightarrow> close emptyCloseBody
                | Decoded b \<Rightarrow> close b)))"

definition handleAttentionGet ::
  "httpLib \<Rightarrow> 's attentionOps \<Rightarrow> ItemID \<Rightarrow> 's \<Rightarrow> 's \<times> Item reply" where
  "handleAttentionGet H Ops itemID s =
     (if itemID = [] then (s, badRequest H) else replyWith (wrapItemError H) 200 (op_Get Ops itemID s))"

definition handleAttentionRead :: "httpLib \<Rightarrow> 's attentionOps \<Rightarrow> 's \<Rightarrow> 's \<times> Item list reply" where
  "handleAttentionRead H Ops s =
     replyWith (\<lambda>_. Failed 500 (lib_ErrorCodeInternal H) None) 200 (op_Read Ops s)"

section \<open>Escalate, flag, unflag and rate\<close>

definition wrapEscalateError :: "httpLib \<Rightarrow> error \<Rightarrow> 'b reply" where
  "wrapEscalateError H e =
     (if e = ErrInvalidSessionID then badRequest H
      else if e = ErrItemNotFound then Failed 404 (lib_ErrorCodeNotFound H) None
      else if e = ErrAlreadyEscalated then Failed 409 ErrorCodeAlreadyEscalated None
      else if e = ErrItemNotOpen then Failed 409 ErrorCodeItemNotOpen None
      else if e = ErrPeerUnavailable then Failed 503 ErrorCodePeerUnavailable None
      else Failed 409 (lib_ErrorCodeValidation H) None)"

definition handleAttentionEscalate ::
  "httpLib \<Rightarrow> 's attentionOps \<Rightarrow> ItemID \<Rightarrow> string option \<Rightarrow> 's \<Rightarrow> 's \<times> Item reply" where
  "handleAttentionEscalate H Ops itemID body s =
     (if itemID = [] then (s, badRequest H)
      else (case body of
              None \<Rightarrow> (s, badRequest H)
            | Some escalatedBy \<Rightarrow>
                (if escalatedBy = [] then (s, badRequest H)
                 else replyWith (wrapEscalateError H) 200 (op_Escalate Ops itemID escalatedBy s))))"

definition wrapFlagError :: "httpLib \<Rightarrow> error \<Rightarrow> 'b reply" where
  "wrapFlagError H e =
     (if e = ErrFlagReasonRequired then Failed 400 ErrorCodeFlagReasonRequired None
      else if e = ErrItemNotFound then Failed 404 (lib_ErrorCodeNotFound H) None
      else if e = ErrItemNotOpen then Failed 409 ErrorCodeItemNotOpen None
      else if e = ErrPeerUnavailable then Failed 503 ErrorCodePeerUnavailable None
      else Failed 409 (lib_ErrorCodeValidation H) None)"

definition handleAttentionFlag ::
  "httpLib \<Rightarrow> 's attentionOps \<Rightarrow> ItemID \<Rightarrow> string option \<Rightarrow> 's \<Rightarrow> 's \<times> Item reply" where
  "handleAttentionFlag H Ops itemID body s =
     (if itemID = [] then (s, badRequest H)
      else (case body of
              None \<Rightarrow> (s, Failed 400 ErrorCodeFlagReasonRequired None)
            | Some reason \<Rightarrow>
                (if TrimSpace reason = [] then (s, Failed 400 ErrorCodeFlagReasonRequired None)
                 else replyWith (wrapFlagError H) 200 (op_Flag Ops itemID reason s))))"

definition handleAttentionUnflag ::
  "httpLib \<Rightarrow> 's attentionOps \<Rightarrow> ItemID \<Rightarrow> 's \<Rightarrow> 's \<times> Item reply" where
  "handleAttentionUnflag H Ops itemID s =
     (if itemID = [] then (s, badRequest H) else replyWith (wrapFlagError H) 200 (op_Unflag Ops itemID s))"

definition wrapRateError :: "httpLib \<Rightarrow> error \<Rightarrow> 'b reply" where
  "wrapRateError H e =
     (if e = ErrRatingInvalid then Failed 400 ErrorCodeRatingInvalid None
      else if e = ErrItemNotFound then Failed 404 (lib_ErrorCodeNotFound H) None
      else if e = ErrPeerUnavailable then Failed 503 ErrorCodePeerUnavailable None
      else Failed (fst (lib_uncoded H)) (snd (lib_uncoded H)) None)"

definition handleAttentionRate ::
  "httpLib \<Rightarrow> 's attentionOps \<Rightarrow> ItemID \<Rightarrow> Rating option \<Rightarrow> 's \<Rightarrow> 's \<times> Item reply" where
  "handleAttentionRate H Ops itemID body s =
     (if itemID = [] then (s, badRequest H)
      else (case body of
              None \<Rightarrow> (s, Failed 400 ErrorCodeRatingInvalid None)
            | Some rating \<Rightarrow> replyWith (wrapRateError H) 200 (op_Rate Ops itemID rating s)))"

section \<open>Push and delivery attempts\<close>

definition validatePushRequest :: "httpLib \<Rightarrow> runtime \<Rightarrow> PushRequest \<Rightarrow> 'b reply option" where
  "validatePushRequest H R request =
     (if PushRequest_Validate R request \<noteq> None then Some (badRequest H) else None)"

definition handleAttentionPush ::
  "httpLib \<Rightarrow> runtime \<Rightarrow> 's attentionOps \<Rightarrow> PushRequest option \<Rightarrow> 's \<Rightarrow> 's \<times> Item reply" where
  "handleAttentionPush H R Ops body s =
     (case body of
        None \<Rightarrow> (s, badRequest H)
      | Some request \<Rightarrow>
          (case validatePushRequest H R request of
             Some refused \<Rightarrow> (s, refused)
           | None \<Rightarrow> replyWith (\<lambda>_. badRequest H) 201 (op_Push Ops request s)))"

definition wrapAttemptError :: "httpLib \<Rightarrow> error \<Rightarrow> 'b reply" where
  "wrapAttemptError H e =
     (if e = ErrItemNotFound then Failed 404 (lib_ErrorCodeNotFound H) None else badRequest H)"

definition handleAttemptGet ::
  "httpLib \<Rightarrow> 's attentionOps \<Rightarrow> ItemID \<Rightarrow> 's \<Rightarrow> 's \<times> DeliveryReport reply" where
  "handleAttemptGet H Ops itemID s =
     (if itemID = [] then (s, badRequest H)
      else replyWith (wrapAttemptError H) 200 (op_Delivery Ops itemID s))"

definition handleAttemptRecord ::
  "httpLib \<Rightarrow> runtime \<Rightarrow> 's attentionOps \<Rightarrow> ItemID \<Rightarrow> (string \<times> DeliveryOutcome) option \<Rightarrow> 's \<Rightarrow>
   's \<times> DeliveryAttempt reply" where
  "handleAttemptRecord H R Ops itemID body s =
     (if itemID = [] then (s, badRequest H)
      else (case body of
              None \<Rightarrow> (s, badRequest H)
            | Some (carrier, outcome) \<Rightarrow>
                (if carrier = [] then (s, badRequest H)
                 else if DeliveryOutcome_Validate R outcome \<noteq> None then (s, badRequest H)
                 else replyWith (wrapAttemptError H) 200 (op_RecordAttempt Ops itemID carrier outcome s))))"

section \<open>History\<close>

definition historyDefaultLimit :: int where "historyDefaultLimit = 1000"
definition historyMaxLimit :: int where "historyMaxLimit = 10000"

definition clampHistoryLimit :: "int \<Rightarrow> int" where
  "clampHistoryLimit limit = (if limit \<le> 0 \<or> limit > historyMaxLimit then historyMaxLimit else limit)"

text \<open>\<open>strconv.Atoi\<close> on a 64-bit platform: an optional sign, decimal digits, in range.\<close>

definition decimalDigits :: "string \<Rightarrow> int option" where
  "decimalDigits s =
     (if s \<noteq> [] \<and> list_all (\<lambda>c. CHR ''0'' \<le> c \<and> c \<le> CHR ''9'') s
      then Some (foldl (\<lambda>n c. 10 * n + (of_char c - 48)) 0 s) else None)"

definition Atoi :: "string \<Rightarrow> int option" where
  "Atoi s =
     (let val = (case s of
           [] \<Rightarrow> None
         | c # cs \<Rightarrow>
             (if c = CHR ''-'' then map_option uminus (decimalDigits cs)
              else if c = CHR ''+'' then decimalDigits cs else decimalDigits s))
      in (case val of
            None \<Rightarrow> None
          | Some n \<Rightarrow> (if - (2 ^ 63) \<le> n \<and> n < 2 ^ 63 then Some n else None)))"

definition historyIntParam :: "httpLib \<Rightarrow> string \<Rightarrow> int \<Rightarrow> 'b reply + int" where
  "historyIntParam H raw fallback =
     (if raw = [] then Inr fallback
      else (case Atoi raw of
              None \<Rightarrow> Inl (badRequest H)
            | Some val \<Rightarrow> (if val < 0 then Inl (badRequest H) else Inr val)))"

definition historyProducers :: "string list \<Rightarrow> string list" where
  "historyProducers raws = filter (\<lambda>raw. raw \<noteq> []) raws"

text \<open>The query of one request: the raw parameters, empty when absent.\<close>

record historyQuery =
  hq_limit :: string
  hq_offset :: string
  hq_producers :: "string list"
  hq_prefix :: string

definition handleAttentionHistory ::
  "httpLib \<Rightarrow> 's attentionOps \<Rightarrow> historyQuery \<Rightarrow> 's \<Rightarrow> 's \<times> Item list reply" where
  "handleAttentionHistory H Ops q s =
     (case historyIntParam H (hq_limit q) historyDefaultLimit of
        Inl refused \<Rightarrow> (s, refused)
      | Inr limit \<Rightarrow>
          (case historyIntParam H (hq_offset q) 0 of
             Inl refused \<Rightarrow> (s, refused)
           | Inr offset \<Rightarrow>
               replyWith (\<lambda>_. Failed 500 (lib_ErrorCodeInternal H) None) 200
                 (op_History Ops (clampHistoryLimit limit) offset
                   [\<lparr>Producers = historyProducers (hq_producers q), DedupKeyPrefix = hq_prefix q\<rparr>] s)))"

end
