(* ===== verification/Remote.thy ===== *)
theory Remote
  imports Handlers
begin

text \<open>
  The peer store over HTTP: the bearer gate (\<open>handler/bearer-token.go\<close>) and the
  route table (\<open>registerAttentionAPIRoutes\<close> of \<open>main.go\<close>) a call passes, the
  client (\<open>attention-remote.go\<close>) that makes it, and what of the peer's errors comes back.
  The network is a function from a request to its outcome; an item crosses it
  unchanged. The path router's answer to a path it does not know, and the endpoints
  the client never calls, are parameters of the peer.
\<close>

section \<open>Requests and outcomes\<close>

record remoteAnswerRequest =
  ra_AnsweredBy :: string
  ra_ResolvedBy :: string
  ra_Decision :: Decision
  ra_Answer :: "Answer option"
  ra_Answers :: "QuestionAnswer list"
  ra_Automation :: "bool option"
  ra_RequestID :: string
  ra_Policy :: string

record remoteCloseRequest =
  rc_AnsweredBy :: string
  rc_Automation :: "bool option"

datatype remoteBody =
    AnswerBody remoteAnswerRequest
  | CloseBody remoteCloseRequest
  | EscalateBody string
  | FlagBody string
  | RateBody Rating

record remoteRequest =
  rq_Method :: string
  rq_Path :: string
  rq_Authorization :: string
  rq_Body :: "remoteBody option"

text \<open>A response body as the client may decode it.\<close>

datatype wire = WireItems "Item list" | WireItem "Item option" | WireError string | Unreadable

fun decodeItems :: "wire \<Rightarrow> Item list option" where
  "decodeItems (WireItems items) = Some items"
| "decodeItems (WireItem None) = Some []"
| "decodeItems _ = None"

fun decodeItem :: "wire \<Rightarrow> Item option" where
  "decodeItem (WireItem (Some item)) = Some item"
| "decodeItem (WireItem None) = Some emptyItem"
| "decodeItem (WireError _) = Some emptyItem"
| "decodeItem _ = None"

fun decodeErrorCode :: "wire \<Rightarrow> string" where
  "decodeErrorCode (WireError code) = code"
| "decodeErrorCode _ = []"

datatype callOutcome = NotBuilt | Unreachable | Responded int wire

type_synonym 'p peer = "remoteRequest \<Rightarrow> 'p \<Rightarrow> 'p \<times> callOutcome"

section \<open>The client\<close>

definition remoteResponseError :: "httpLib \<Rightarrow> int \<Rightarrow> wire \<Rightarrow> error" where
  "remoteResponseError H status body =
     (let code = decodeErrorCode body in
      if code = ErrorCodeAlreadyAnswered then ErrAlreadyAnswered
      else if code = ErrorCodeItemClosed then ErrIllegalTransition
      else if code = ErrorCodeAlreadyEscalated then ErrAlreadyEscalated
      else if code = ErrorCodeItemNotOpen then ErrItemNotOpen
      else if code = ErrorCodePermissionCloseWithoutDecision then ErrPermissionCloseWithoutDecision
      else if code = ErrorCodeFlagReasonRequired then ErrFlagReasonRequired
      else if code = ErrorCodeRatingInvalid then ErrRatingInvalid
      else if code = lib_ErrorCodeNotFound H \<or> status = 404 then ErrItemNotFound
      else ErrPeerUnavailable)"

record 'p httpRemoteStore =
  hr_lib :: httpLib
  hr_client :: "'p peer"
  hr_token :: string

definition bearerTokenPrefix :: string where "bearerTokenPrefix = ''Bearer ''"

definition remote_do ::
  "'p httpRemoteStore \<Rightarrow> (wire \<Rightarrow> 'b option) \<Rightarrow> string \<Rightarrow> string \<Rightarrow> remoteBody option \<Rightarrow> 'p \<Rightarrow>
   'p \<times> (error + 'b)" where
  "remote_do h dec method path requestBody p =
     (case hr_client h \<lparr>rq_Method = method, rq_Path = path,
             rq_Authorization = bearerTokenPrefix @ hr_token h, rq_Body = requestBody\<rparr> p of
        (p, NotBuilt) \<Rightarrow> (p, Inl (OtherError ''build peer request failed''))
      | (p, Unreachable) \<Rightarrow> (p, Inl ErrPeerUnavailable)
      | (p, Responded status body) \<Rightarrow>
          (p, if status < 200 \<or> status \<ge> 300 then Inl (remoteResponseError (hr_lib h) status body)
              else (case dec body of None \<Rightarrow> Inl ErrPeerUnavailable | Some result \<Rightarrow> Inr result)))"

definition attentionPath :: string where "attentionPath = ''/api/1.0/attention''"

definition remoteItemPath :: "ItemID \<Rightarrow> string" where
  "remoteItemPath itemID = attentionPath @ ''/'' @ itemID"

definition remote_Read :: "'p httpRemoteStore \<Rightarrow> 'p \<Rightarrow> 'p \<times> (error + Item list)" where
  "remote_Read h = remote_do h decodeItems ''GET'' attentionPath None"

definition remote_Get :: "'p httpRemoteStore \<Rightarrow> ItemID \<Rightarrow> 'p \<Rightarrow> 'p \<times> (error + Item)" where
  "remote_Get h itemID = remote_do h decodeItem ''GET'' (remoteItemPath itemID) None"

definition carriedAutomation :: "AnsweredClient option \<Rightarrow> bool option" where
  "carriedAutomation answeredClient =
     (case answeredClient of None \<Rightarrow> None | Some c \<Rightarrow> client_Automation c)"

definition remote_Answer ::
  "'p httpRemoteStore \<Rightarrow> ItemID \<Rightarrow> string \<Rightarrow> string \<Rightarrow> Decision \<Rightarrow> Answer option \<Rightarrow> QuestionAnswer list \<Rightarrow>
   AnsweredClient option \<Rightarrow> AnswerRoute list \<Rightarrow> 'p \<Rightarrow> 'p \<times> (error + Item)" where
  "remote_Answer h itemID answeredBy resolvedBy decision answer answers answeredClient route =
     (let answerRoute = firstRoute route in
      remote_do h decodeItem ''POST'' (remoteItemPath itemID @ ''/answer'')
        (Some (AnswerBody \<lparr>ra_AnsweredBy = answeredBy, ra_ResolvedBy = resolvedBy, ra_Decision = decision,
           ra_Answer = answer, ra_Answers = answers, ra_Automation = carriedAutomation answeredClient,
           ra_RequestID = route_RequestID answerRoute, ra_Policy = route_Policy answerRoute\<rparr>)))"

definition remote_Close ::
  "'p httpRemoteStore \<Rightarrow> ItemID \<Rightarrow> string \<Rightarrow> AnsweredClient option \<Rightarrow> 'p \<Rightarrow> 'p \<times> (error + Item)" where
  "remote_Close h itemID answeredBy answeredClient =
     remote_do h decodeItem ''POST'' (remoteItemPath itemID @ ''/close'')
       (Some (CloseBody \<lparr>rc_AnsweredBy = answeredBy, rc_Automation = carriedAutomation answeredClient\<rparr>))"

definition remote_Escalate :: "'p httpRemoteStore \<Rightarrow> ItemID \<Rightarrow> string \<Rightarrow> 'p \<Rightarrow> 'p \<times> (error + Item)" where
  "remote_Escalate h itemID escalatedBy =
     remote_do h decodeItem ''POST'' (remoteItemPath itemID @ ''/escalate'') (Some (EscalateBody escalatedBy))"

definition remote_Flag :: "'p httpRemoteStore \<Rightarrow> ItemID \<Rightarrow> string \<Rightarrow> 'p \<Rightarrow> 'p \<times> (error + Item)" where
  "remote_Flag h itemID reason =
     remote_do h decodeItem ''POST'' (remoteItemPath itemID @ ''/flag'') (Some (FlagBody reason))"

definition remote_Unflag :: "'p httpRemoteStore \<Rightarrow> ItemID \<Rightarrow> 'p \<Rightarrow> 'p \<times> (error + Item)" where
  "remote_Unflag h itemID = remote_do h decodeItem ''POST'' (remoteItemPath itemID @ ''/unflag'') None"

definition remote_Rate :: "'p httpRemoteStore \<Rightarrow> ItemID \<Rightarrow> Rating \<Rightarrow> 'p \<Rightarrow> 'p \<times> (error + Item)" where
  "remote_Rate h itemID rating =
     remote_do h decodeItem ''POST'' (remoteItemPath itemID @ ''/rate'') (Some (RateBody rating))"

lemmas remote_defs =
  remote_Read_def remote_Get_def remote_Answer_def remote_Close_def remote_Escalate_def remote_Flag_def
  remote_Unflag_def remote_Rate_def

text \<open>The interface the federating store is written against.\<close>

record 'p remoteStore =
  rm_Read :: "'p \<Rightarrow> 'p \<times> (error + Item list)"
  rm_Get :: "ItemID \<Rightarrow> 'p \<Rightarrow> 'p \<times> (error + Item)"
  rm_Answer :: "ItemID \<Rightarrow> string \<Rightarrow> string \<Rightarrow> Decision \<Rightarrow> Answer option \<Rightarrow> QuestionAnswer list \<Rightarrow>
    AnsweredClient option \<Rightarrow> AnswerRoute list \<Rightarrow> 'p \<Rightarrow> 'p \<times> (error + Item)"
  rm_Close :: "ItemID \<Rightarrow> string \<Rightarrow> AnsweredClient option \<Rightarrow> 'p \<Rightarrow> 'p \<times> (error + Item)"
  rm_Escalate :: "ItemID \<Rightarrow> string \<Rightarrow> 'p \<Rightarrow> 'p \<times> (error + Item)"
  rm_Flag :: "ItemID \<Rightarrow> string \<Rightarrow> 'p \<Rightarrow> 'p \<times> (error + Item)"
  rm_Unflag :: "ItemID \<Rightarrow> 'p \<Rightarrow> 'p \<times> (error + Item)"
  rm_Rate :: "ItemID \<Rightarrow> Rating \<Rightarrow> 'p \<Rightarrow> 'p \<times> (error + Item)"

definition NewHTTPRemoteAttentionStore :: "httpLib \<Rightarrow> 'p peer \<Rightarrow> string \<Rightarrow> 'p remoteStore" where
  "NewHTTPRemoteAttentionStore H client token =
     (let h = \<lparr>hr_lib = H, hr_client = client, hr_token = token\<rparr> in
      \<lparr>rm_Read = remote_Read h, rm_Get = remote_Get h, rm_Answer = remote_Answer h, rm_Close = remote_Close h,
       rm_Escalate = remote_Escalate h, rm_Flag = remote_Flag h, rm_Unflag = remote_Unflag h,
       rm_Rate = remote_Rate h\<rparr>)"

section \<open>The peer's side: gate and routes\<close>

definition bearerToken :: "string \<Rightarrow> string \<times> bool" where
  "bearerToken authorization =
     (if take (length bearerTokenPrefix) authorization \<noteq> bearerTokenPrefix then ([], False)
      else (let presented = drop (length bearerTokenPrefix) authorization
            in if presented = [] then ([], False) else (presented, True)))"

definition bearerAdmits :: "string \<Rightarrow> string \<Rightarrow> bool" where
  "bearerAdmits token authorization =
     (case bearerToken authorization of
        (presented, wellFormed) \<Rightarrow> \<not> (token = [] \<or> \<not> wellFormed \<or> presented \<noteq> token))"

datatype endpoint =
    PushEndpoint | ReadEndpoint | HistoryEndpoint | MisroutesEndpoint
  | AnswerEndpoint ItemID | EscalateEndpoint ItemID | CloseEndpoint ItemID
  | FlagEndpoint ItemID | UnflagEndpoint ItemID | RateEndpoint ItemID
  | AttemptGetEndpoint ItemID | AttemptRecordEndpoint ItemID
  | SpeakEndpoint ItemID | CancelEndpoint ItemID | GetEndpoint ItemID

definition registerAttentionAPIRoutes :: "bool \<Rightarrow> string \<Rightarrow> string \<Rightarrow> endpoint option" where
  "registerAttentionAPIRoutes speaks method path =
     (let root = attentionPath @ ''/'' in
      if path = attentionPath
      then (if method = ''POST'' then Some PushEndpoint
            else if method = ''GET'' then Some ReadEndpoint else None)
      else if take (length root) path \<noteq> root then None
      else (let rest = drop (length root) path;
                itemID = takeWhile (\<lambda>c. c \<noteq> CHR ''/'') rest;
                action = drop (length itemID) rest
            in if rest = ''history'' \<and> method = ''GET'' then Some HistoryEndpoint
               else if rest = ''misroutes'' \<and> method = ''GET'' then Some MisroutesEndpoint
               else if itemID = [] then None
               else if method = ''POST'' then
                 (if action = ''/answer'' then Some (AnswerEndpoint itemID)
                  else if action = ''/escalate'' then Some (EscalateEndpoint itemID)
                  else if action = ''/close'' then Some (CloseEndpoint itemID)
                  else if action = ''/flag'' then Some (FlagEndpoint itemID)
                  else if action = ''/unflag'' then Some (UnflagEndpoint itemID)
                  else if action = ''/rate'' then Some (RateEndpoint itemID)
                  else if action = ''/attempt'' then Some (AttemptRecordEndpoint itemID)
                  else if speaks \<and> action = ''/speak'' then Some (SpeakEndpoint itemID)
                  else if speaks \<and> action = ''/cancel'' then Some (CancelEndpoint itemID)
                  else None)
               else if method = ''GET'' then
                 (if action = ''/attempt'' then Some (AttemptGetEndpoint itemID)
                  else if action = [] then Some (GetEndpoint itemID) else None)
               else None))"

record 's peerServer =
  ps_lib :: httpLib
  ps_unauthorized :: string
  ps_runtime :: runtime
  ps_store :: "'s attentionOps"
  ps_token :: string
  ps_speaks :: bool
  ps_from :: requestFrom
  ps_unrouted :: "remoteRequest \<Rightarrow> int"
  ps_other :: "endpoint \<Rightarrow> remoteRequest \<Rightarrow> 's \<Rightarrow> 's \<times> callOutcome"

fun respond :: "('b \<Rightarrow> wire) \<Rightarrow> 's \<times> 'b reply \<Rightarrow> 's \<times> callOutcome" where
  "respond encode (s, Sent status x) = (s, Responded status (encode x))"
| "respond encode (s, Failed status code _) = (s, Responded status (WireError code))"

fun answerBodyOf :: "remoteBody option \<Rightarrow> answerBody option" where
  "answerBodyOf (Some (AnswerBody r)) = Some \<lparr>ab_AnsweredBy = ra_AnsweredBy r, ab_ResolvedBy = ra_ResolvedBy r,
     ab_Decision = ra_Decision r, ab_Answer = ra_Answer r, ab_Answers = ra_Answers r,
     ab_Automation = ra_Automation r, ab_RequestID = ra_RequestID r, ab_Policy = ra_Policy r\<rparr>"
| "answerBodyOf _ = None"

fun closeBodyOf :: "remoteBody option \<Rightarrow> closeDecoded" where
  "closeBodyOf None = EmptyBody"
| "closeBodyOf (Some (CloseBody r)) = Decoded \<lparr>cb_AnsweredBy = rc_AnsweredBy r, cb_Automation = rc_Automation r\<rparr>"
| "closeBodyOf (Some _) = NotJSON"

fun escalateBodyOf :: "remoteBody option \<Rightarrow> string option" where
  "escalateBodyOf (Some (EscalateBody who)) = Some who"
| "escalateBodyOf _ = None"

fun flagBodyOf :: "remoteBody option \<Rightarrow> string option" where
  "flagBodyOf (Some (FlagBody reason)) = Some reason"
| "flagBodyOf _ = None"

fun rateBodyOf :: "remoteBody option \<Rightarrow> Rating option" where
  "rateBodyOf (Some (RateBody rating)) = Some rating"
| "rateBodyOf _ = None"

definition servePeer :: "'s peerServer \<Rightarrow> 's peer" where
  "servePeer P rq s =
     (let H = ps_lib P; Ops = ps_store P; body = rq_Body rq; one = (\<lambda>item. WireItem (Some item)) in
      if \<not> bearerAdmits (ps_token P) (rq_Authorization rq)
      then (s, Responded 401 (WireError (ps_unauthorized P)))
      else (case registerAttentionAPIRoutes (ps_speaks P) (rq_Method rq) (rq_Path rq) of
              None \<Rightarrow> (s, Responded (ps_unrouted P rq) Unreadable)
            | Some ReadEndpoint \<Rightarrow> respond WireItems (handleAttentionRead H Ops s)
            | Some (GetEndpoint k) \<Rightarrow> respond one (handleAttentionGet H Ops k s)
            | Some (AnswerEndpoint k) \<Rightarrow>
                respond WireItem (handleAttentionAnswer H (ps_runtime P) Ops (ps_from P) k (answerBodyOf body) s)
            | Some (CloseEndpoint k) \<Rightarrow>
                respond one (handleAttentionClose H Ops (ps_from P) k (closeBodyOf body) s)
            | Some (EscalateEndpoint k) \<Rightarrow> respond one (handleAttentionEscalate H Ops k (escalateBodyOf body) s)
            | Some (FlagEndpoint k) \<Rightarrow> respond one (handleAttentionFlag H Ops k (flagBodyOf body) s)
            | Some (UnflagEndpoint k) \<Rightarrow> respond one (handleAttentionUnflag H Ops k s)
            | Some (RateEndpoint k) \<Rightarrow> respond one (handleAttentionRate H Ops k (rateBodyOf body) s)
            | Some other \<Rightarrow> ps_other P other rq s))"

section \<open>What comes back\<close>

text \<open>The errors that keep their meaning on the way; every other one arrives as
  \<open>ErrPeerUnavailable\<close>.\<close>

definition overWire :: "error list \<Rightarrow> error \<Rightarrow> error" where
  "overWire kept e = (if e \<in> set kept then e else ErrPeerUnavailable)"

definition keptByAnswer :: "error list" where
  "keptByAnswer = [ErrItemNotFound, ErrAlreadyAnswered, ErrIllegalTransition]"
definition keptByItem :: "error list" where
  "keptByItem = [ErrItemNotFound, ErrPermissionCloseWithoutDecision]"
definition keptByEscalate :: "error list" where
  "keptByEscalate = [ErrItemNotFound, ErrAlreadyEscalated, ErrItemNotOpen]"
definition keptByFlag :: "error list" where
  "keptByFlag = [ErrFlagReasonRequired, ErrItemNotFound, ErrItemNotOpen]"
definition keptByRate :: "error list" where
  "keptByRate = [ErrRatingInvalid, ErrItemNotFound]"

lemmas kept_defs = keptByAnswer_def keptByItem_def keptByEscalate_def keptByFlag_def keptByRate_def

fun carried :: "error list \<Rightarrow> 's \<times> (error + 'a) \<Rightarrow> ('a \<Rightarrow> 'b) \<Rightarrow> 's \<times> (error + 'b)" where
  "carried kept (s, Inl e) f = (s, Inl (overWire kept e))"
| "carried kept (s, Inr x) f = (s, Inr (f x))"

text \<open>An id a URL path carries as it is: hexadecimal digits, as the id generator makes them.\<close>

definition pathID :: "ItemID \<Rightarrow> bool" where
  "pathID k \<longleftrightarrow> k \<noteq> [] \<and> list_all (\<lambda>c. c \<in> set ''0123456789abcdef'') k"

lemma pathID_D:
  assumes "pathID k"
  shows "k \<noteq> []" and "CHR ''/'' \<notin> set k" and "k \<noteq> ''history''" and "k \<noteq> ''misroutes''"
proof -
  have hex: "c \<in> set k \<Longrightarrow> c \<in> set ''0123456789abcdef''" for c
    using assms unfolding pathID_def list_all_iff by blast
  show "k \<noteq> []" using assms by (simp add: pathID_def)
  show "CHR ''/'' \<notin> set k" using hex[of "CHR ''/''"] by (intro notI) simp
  show "k \<noteq> ''history''" using hex[of "CHR ''h''"] by (intro notI) simp
  show "k \<noteq> ''misroutes''" using hex[of "CHR ''m''"] by (intro notI) simp
qed

lemma routes_of_client:
  assumes "pathID k"
  shows "registerAttentionAPIRoutes speaks ''GET'' (remoteItemPath k) = Some (GetEndpoint k)"
    and "registerAttentionAPIRoutes speaks ''POST'' (remoteItemPath k @ ''/answer'') = Some (AnswerEndpoint k)"
    and "registerAttentionAPIRoutes speaks ''POST'' (remoteItemPath k @ ''/close'') = Some (CloseEndpoint k)"
    and "registerAttentionAPIRoutes speaks ''POST'' (remoteItemPath k @ ''/escalate'') = Some (EscalateEndpoint k)"
    and "registerAttentionAPIRoutes speaks ''POST'' (remoteItemPath k @ ''/flag'') = Some (FlagEndpoint k)"
    and "registerAttentionAPIRoutes speaks ''POST'' (remoteItemPath k @ ''/unflag'') = Some (UnflagEndpoint k)"
    and "registerAttentionAPIRoutes speaks ''POST'' (remoteItemPath k @ ''/rate'') = Some (RateEndpoint k)"
proof -
  have tw: "takeWhile (\<lambda>c. c \<noteq> CHR ''/'') (k @ CHR ''/'' # xs) = k"
    "takeWhile (\<lambda>c. c \<noteq> CHR ''/'') k = k" for xs
    using pathID_D(2)[OF assms] by (auto simp: takeWhile_tail takeWhile_eq_all_conv)
  note simps = registerAttentionAPIRoutes_def remoteItemPath_def attentionPath_def Let_def tw pathID_D[OF assms]
  show "registerAttentionAPIRoutes speaks ''GET'' (remoteItemPath k) = Some (GetEndpoint k)"
    by (simp add: simps)
  show "registerAttentionAPIRoutes speaks ''POST'' (remoteItemPath k @ ''/answer'') = Some (AnswerEndpoint k)"
    "registerAttentionAPIRoutes speaks ''POST'' (remoteItemPath k @ ''/close'') = Some (CloseEndpoint k)"
    "registerAttentionAPIRoutes speaks ''POST'' (remoteItemPath k @ ''/escalate'') = Some (EscalateEndpoint k)"
    "registerAttentionAPIRoutes speaks ''POST'' (remoteItemPath k @ ''/flag'') = Some (FlagEndpoint k)"
    "registerAttentionAPIRoutes speaks ''POST'' (remoteItemPath k @ ''/unflag'') = Some (UnflagEndpoint k)"
    "registerAttentionAPIRoutes speaks ''POST'' (remoteItemPath k @ ''/rate'') = Some (RateEndpoint k)"
    by (simp_all add: simps)
qed

lemma route_read: "registerAttentionAPIRoutes speaks ''GET'' attentionPath = Some ReadEndpoint"
  by (simp add: registerAttentionAPIRoutes_def)

lemma bearerAdmits_iff: "bearerAdmits token authorization \<longleftrightarrow> token \<noteq> [] \<and> authorization = bearerTokenPrefix @ token"
proof -
  have "take (length bearerTokenPrefix) authorization = bearerTokenPrefix \<and>
      drop (length bearerTokenPrefix) authorization = token \<longleftrightarrow> authorization = bearerTokenPrefix @ token"
    using append_eq_conv_conj[of bearerTokenPrefix token authorization] by auto
  then show ?thesis by (auto simp: bearerAdmits_def bearerToken_def Let_def)
qed

text \<open>What \<open>github.com/bborbe/http\<close> promises: its codes are none of the store's, and its three
  differ.\<close>

locale http_codes =
  fixes H :: httpLib
  assumes lib_codes_apart: "set errorCodes \<inter>
      {lib_ErrorCodeValidation H, lib_ErrorCodeNotFound H, lib_ErrorCodeInternal H, snd (lib_uncoded H)} = {}"
    and validation_not_found: "lib_ErrorCodeValidation H \<noteq> lib_ErrorCodeNotFound H"
    and uncoded_not_found: "snd (lib_uncoded H) \<noteq> lib_ErrorCodeNotFound H"
    and internal_not_found: "lib_ErrorCodeInternal H \<noteq> lib_ErrorCodeNotFound H"
    and uncoded_status: "500 \<le> fst (lib_uncoded H)"
begin

lemma code_neqs:
  assumes "c \<in> set errorCodes"
  shows "lib_ErrorCodeValidation H \<noteq> c" and "lib_ErrorCodeNotFound H \<noteq> c"
    and "lib_ErrorCodeInternal H \<noteq> c" and "snd (lib_uncoded H) \<noteq> c"
  using assms lib_codes_apart by blast+

lemma uncoded_code:
  assumes "\<And>c. c \<in> set errorCodes \<Longrightarrow> code \<noteq> c" and "code \<noteq> lib_ErrorCodeNotFound H" and "status \<noteq> 404"
  shows "remoteResponseError H status (WireError code) = ErrPeerUnavailable"
proof -
  have "code \<noteq> ErrorCodeAlreadyAnswered" "code \<noteq> ErrorCodeItemClosed" "code \<noteq> ErrorCodeAlreadyEscalated"
    "code \<noteq> ErrorCodeItemNotOpen" "code \<noteq> ErrorCodePermissionCloseWithoutDecision"
    "code \<noteq> ErrorCodeFlagReasonRequired" "code \<noteq> ErrorCodeRatingInvalid"
    using assms(1) by (simp_all add: errorCodes_def)
  then show ?thesis using assms(2,3) by (simp add: remoteResponseError_def)
qed

lemma responses:
  "remoteResponseError H 404 (WireError (lib_ErrorCodeNotFound H)) = ErrItemNotFound"
  "status \<noteq> 404 \<Longrightarrow> remoteResponseError H status (WireError (lib_ErrorCodeValidation H)) = ErrPeerUnavailable"
  "status \<noteq> 404 \<Longrightarrow> remoteResponseError H status (WireError (lib_ErrorCodeInternal H)) = ErrPeerUnavailable"
  "remoteResponseError H (fst (lib_uncoded H)) (WireError (snd (lib_uncoded H))) = ErrPeerUnavailable"
proof -
  have "lib_ErrorCodeNotFound H \<noteq> ErrorCodeAlreadyAnswered" "lib_ErrorCodeNotFound H \<noteq> ErrorCodeItemClosed"
    "lib_ErrorCodeNotFound H \<noteq> ErrorCodeAlreadyEscalated" "lib_ErrorCodeNotFound H \<noteq> ErrorCodeItemNotOpen"
    "lib_ErrorCodeNotFound H \<noteq> ErrorCodePermissionCloseWithoutDecision"
    "lib_ErrorCodeNotFound H \<noteq> ErrorCodeFlagReasonRequired" "lib_ErrorCodeNotFound H \<noteq> ErrorCodeRatingInvalid"
    by (rule code_neqs(2), simp add: errorCodes_def)+
  then show "remoteResponseError H 404 (WireError (lib_ErrorCodeNotFound H)) = ErrItemNotFound"
    by (simp add: remoteResponseError_def)
  show "status \<noteq> 404 \<Longrightarrow> remoteResponseError H status (WireError (lib_ErrorCodeValidation H)) = ErrPeerUnavailable"
    by (rule uncoded_code[OF code_neqs(1) validation_not_found])
  show "status \<noteq> 404 \<Longrightarrow> remoteResponseError H status (WireError (lib_ErrorCodeInternal H)) = ErrPeerUnavailable"
    by (rule uncoded_code[OF code_neqs(3) internal_not_found])
  show "remoteResponseError H (fst (lib_uncoded H)) (WireError (snd (lib_uncoded H))) = ErrPeerUnavailable"
    using uncoded_status by (intro uncoded_code[OF code_neqs(4) uncoded_not_found]) simp_all
qed

lemma store_codes:
  "status \<noteq> 404 \<Longrightarrow> remoteResponseError H status (WireError ErrorCodePeerUnavailable) = ErrPeerUnavailable"
  "remoteResponseError H status (WireError ErrorCodeAlreadyAnswered) = ErrAlreadyAnswered"
  "remoteResponseError H status (WireError ErrorCodeItemClosed) = ErrIllegalTransition"
  "remoteResponseError H status (WireError ErrorCodeAlreadyEscalated) = ErrAlreadyEscalated"
  "remoteResponseError H status (WireError ErrorCodeItemNotOpen) = ErrItemNotOpen"
  "remoteResponseError H status (WireError ErrorCodePermissionCloseWithoutDecision) = ErrPermissionCloseWithoutDecision"
  "remoteResponseError H status (WireError ErrorCodeFlagReasonRequired) = ErrFlagReasonRequired"
  "remoteResponseError H status (WireError ErrorCodeRatingInvalid) = ErrRatingInvalid"
proof -
  have "ErrorCodePeerUnavailable \<noteq> lib_ErrorCodeNotFound H"
    using code_neqs(2)[of ErrorCodePeerUnavailable] by (simp add: errorCodes_def)
  then show "status \<noteq> 404 \<Longrightarrow> remoteResponseError H status (WireError ErrorCodePeerUnavailable) = ErrPeerUnavailable"
    by (simp add: remoteResponseError_def error_code_defs)
qed (simp_all add: remoteResponseError_def error_code_defs)

end

definition std_http :: httpLib where
  "std_http = \<lparr>lib_ErrorCodeValidation = ''VALIDATION_ERROR'', lib_ErrorCodeNotFound = ''NOT_FOUND'',
     lib_ErrorCodeInternal = ''INTERNAL_ERROR'', lib_uncoded = (500, ''INTERNAL_ERROR'')\<rparr>"

interpretation std_codes: http_codes std_http
  by unfold_locales (simp_all add: std_http_def errorCodes_def error_code_defs)

text \<open>The item of an answer's reply; a JSON null decodes to the zero item.\<close>

definition answeredItemOf :: "Item option \<Rightarrow> Item" where
  "answeredItemOf r = (case r of None \<Rightarrow> emptyItem | Some item \<Rightarrow> item)"

text \<open>A client that calls this peer with its token.\<close>

definition connected :: "httpLib \<Rightarrow> 's peerServer \<Rightarrow> 's httpRemoteStore \<Rightarrow> bool" where
  "connected H P h \<longleftrightarrow> hr_lib h = H \<and> ps_lib P = H \<and> hr_client h = servePeer P \<and> hr_token h = ps_token P \<and>
     ps_token P \<noteq> []"

text \<open>A reply as the client reads it.\<close>

definition arrives :: "httpLib \<Rightarrow> ('b \<Rightarrow> wire) \<Rightarrow> (wire \<Rightarrow> 'c option) \<Rightarrow> 's \<times> 'b reply \<Rightarrow> 's \<times> (error + 'c)" where
  "arrives H encode dec r =
     (fst r, case snd r of
        Sent status x \<Rightarrow>
          (if status < 200 \<or> status \<ge> 300 then Inl (remoteResponseError H status (encode x))
           else (case dec (encode x) of None \<Rightarrow> Inl ErrPeerUnavailable | Some y \<Rightarrow> Inr y))
      | Failed status code _ \<Rightarrow>
          (if status < 200 \<or> status \<ge> 300 then Inl (remoteResponseError H status (WireError code))
           else (case dec (WireError code) of None \<Rightarrow> Inl ErrPeerUnavailable | Some y \<Rightarrow> Inr y)))"

lemma remote_do_respond:
  assumes "hr_client h \<lparr>rq_Method = m, rq_Path = path, rq_Authorization = bearerTokenPrefix @ hr_token h,
      rq_Body = b\<rparr> s = respond encode r"
  shows "remote_do h dec m path b s = arrives (hr_lib h) encode dec r"
  unfolding remote_do_def assms
  by (cases r; cases "snd r") (auto simp: arrives_def)

lemma served:
  assumes "connected H P h"
  shows "hr_client h \<lparr>rq_Method = m, rq_Path = path, rq_Authorization = bearerTokenPrefix @ hr_token h,
      rq_Body = b\<rparr> s =
    servePeer P \<lparr>rq_Method = m, rq_Path = path, rq_Authorization = bearerTokenPrefix @ ps_token P, rq_Body = b\<rparr> s"
    and "bearerAdmits (ps_token P) (bearerTokenPrefix @ ps_token P)"
  using assms by (auto simp: connected_def bearerAdmits_iff)

lemma arrives_replyWith:
  assumes "\<And>e. \<exists>status code c. onError e = Failed status code c \<and> (status < 200 \<or> status \<ge> 300) \<and>
      remoteResponseError H status (WireError code) = overWire kept e"
    and "\<And>x. dec (encode x) = Some (f x)"
  shows "arrives H encode dec (replyWith onError 200 r) = carried kept r f"
proof (cases r)
  case (Pair s res)
  show ?thesis
  proof (cases res)
    case (Inl e)
    obtain status code c where "onError e = Failed status code c" "status < 200 \<or> status \<ge> 300"
      "remoteResponseError H status (WireError code) = overWire kept e"
      using assms(1)[of e] by blast
    then show ?thesis by (simp add: arrives_def replyWith_def Pair Inl)
  qed (simp add: arrives_def replyWith_def Pair assms(2))
qed

lemma arrives_item:
  assumes "\<And>e. \<exists>status code c. (onError e :: Item reply) = Failed status code c \<and> (status < 200 \<or> status \<ge> 300) \<and>
      remoteResponseError H status (WireError code) = overWire kept e"
  shows "arrives H (\<lambda>item. WireItem (Some item)) decodeItem (replyWith onError 200 r) = carried kept r (\<lambda>i. i)"
  using assms by (rule arrives_replyWith) simp

context http_codes
begin

lemmas wire_errors = responses store_codes

lemma item_errors:
  "\<exists>status code c. (wrapItemError H e :: Item reply) = Failed status code c \<and> (status < 200 \<or> status \<ge> 300) \<and>
     remoteResponseError H status (WireError code) = overWire keptByItem e"
  "\<exists>status code c. (wrapEscalateError H e :: Item reply) = Failed status code c \<and> (status < 200 \<or> status \<ge> 300) \<and>
     remoteResponseError H status (WireError code) = overWire keptByEscalate e"
  "\<exists>status code c. (wrapFlagError H e :: Item reply) = Failed status code c \<and> (status < 200 \<or> status \<ge> 300) \<and>
     remoteResponseError H status (WireError code) = overWire keptByFlag e"
  "\<exists>status code c. (wrapRateError H e :: Item reply) = Failed status code c \<and> (status < 200 \<or> status \<ge> 300) \<and>
     remoteResponseError H status (WireError code) = overWire keptByRate e"
  using uncoded_status
  by (auto simp: wrapItemError_def wrapEscalateError_def wrapFlagError_def wrapRateError_def badRequest_def
      kept_defs overWire_def wire_errors)

lemma arrive:
  "arrives H (\<lambda>item. WireItem (Some item)) decodeItem (replyWith (wrapItemError H) 200 r) = carried keptByItem r (\<lambda>i. i)"
  "arrives H (\<lambda>item. WireItem (Some item)) decodeItem (replyWith (wrapEscalateError H) 200 r) = carried keptByEscalate r (\<lambda>i. i)"
  "arrives H (\<lambda>item. WireItem (Some item)) decodeItem (replyWith (wrapFlagError H) 200 r) = carried keptByFlag r (\<lambda>i. i)"
  "arrives H (\<lambda>item. WireItem (Some item)) decodeItem (replyWith (wrapRateError H) 200 r) = carried keptByRate r (\<lambda>i. i)"
  by (rule arrives_item, rule item_errors)+

lemma remote_item_calls:
  assumes "connected H P h" and "pathID k"
  shows "remote_Get h k s = carried keptByItem (op_Get (ps_store P) k s) (\<lambda>i. i)"
    and "remote_Close h k who client s = carried keptByItem
      (op_Close (ps_store P) k who (answeredClientFromRequest (ps_from P) (carriedAutomation client)) s) (\<lambda>i. i)"
    and "who \<noteq> [] \<Longrightarrow> remote_Escalate h k who s = carried keptByEscalate (op_Escalate (ps_store P) k who s) (\<lambda>i. i)"
    and "TrimSpace reason \<noteq> [] \<Longrightarrow>
      remote_Flag h k reason s = carried keptByFlag (op_Flag (ps_store P) k reason s) (\<lambda>i. i)"
    and "remote_Unflag h k s = carried keptByFlag (op_Unflag (ps_store P) k s) (\<lambda>i. i)"
    and "remote_Rate h k rating s = carried keptByRate (op_Rate (ps_store P) k rating s) (\<lambda>i. i)"
proof -
  have lib: "ps_lib P = H" "hr_lib h = H" using assms(1) by (simp_all add: connected_def)
  note serve = servePeer_def served[OF assms(1)] routes_of_client[OF assms(2)] Let_def lib
  note id = pathID_D(1)[OF assms(2)]
  show "remote_Get h k s = carried keptByItem (op_Get (ps_store P) k s) (\<lambda>i. i)"
    unfolding remote_Get_def by (subst remote_do_respond) (simp_all add: serve handleAttentionGet_def id, rule arrive)
  show "remote_Close h k who client s = carried keptByItem
      (op_Close (ps_store P) k who (answeredClientFromRequest (ps_from P) (carriedAutomation client)) s) (\<lambda>i. i)"
    unfolding remote_Close_def by (subst remote_do_respond) (simp_all add: serve handleAttentionClose_def id, rule arrive)
  show "remote_Escalate h k who s = carried keptByEscalate (op_Escalate (ps_store P) k who s) (\<lambda>i. i)"
    if "who \<noteq> []"
    unfolding remote_Escalate_def
    by (subst remote_do_respond) (simp_all add: serve handleAttentionEscalate_def id that, rule arrive)
  show "remote_Flag h k reason s = carried keptByFlag (op_Flag (ps_store P) k reason s) (\<lambda>i. i)"
    if "TrimSpace reason \<noteq> []"
    unfolding remote_Flag_def
    by (subst remote_do_respond) (simp_all add: serve handleAttentionFlag_def id that, rule arrive)
  show "remote_Unflag h k s = carried keptByFlag (op_Unflag (ps_store P) k s) (\<lambda>i. i)"
    unfolding remote_Unflag_def by (subst remote_do_respond) (simp_all add: serve handleAttentionUnflag_def id, rule arrive)
  show "remote_Rate h k rating s = carried keptByRate (op_Rate (ps_store P) k rating s) (\<lambda>i. i)"
    unfolding remote_Rate_def by (subst remote_do_respond) (simp_all add: serve handleAttentionRate_def id, rule arrive)
qed

lemma remote_read_call:
  assumes "connected H P h"
  shows "remote_Read h s = carried [] (op_Read (ps_store P) s) (\<lambda>items. items)"
proof -
  have lib: "ps_lib P = H" "hr_lib h = H" using assms by (simp_all add: connected_def)
  have "arrives H WireItems decodeItems (handleAttentionRead H (ps_store P) s) =
      carried [] (op_Read (ps_store P) s) (\<lambda>items. items)"
    unfolding handleAttentionRead_def
    by (rule arrives_replyWith) (simp_all add: wire_errors overWire_def)
  then show ?thesis
    unfolding remote_Read_def
    by (subst remote_do_respond) (simp_all add: servePeer_def served[OF assms] route_read Let_def lib)
qed

lemma validateAnswerRequest_refused:
  "validateAnswerRequest H R d a as = Some refused \<Longrightarrow> refused = badRequest H"
  by (auto simp: validateAnswerRequest_def split: if_splits)

lemma answer_errors:
  fixes Ops :: "'s attentionOps"
  assumes "\<And>s. fst (op_Get Ops k s) = s"
  shows "arrives H WireItem decodeItem (wrapAnswerError H Ops e k s) = (s, Inl (overWire keptByAnswer e))"
proof -
  have "snd (wrapItemClosedError Ops k s :: 's \<times> Item option reply) =
      Failed 409 ErrorCodeItemClosed (case snd (op_Get Ops k s) of Inl _ \<Rightarrow> None | Inr item \<Rightarrow> ClosedAt item)"
    "fst (wrapItemClosedError Ops k s :: 's \<times> Item option reply) = s" for s :: 's
    using assms[of s] by (auto simp: wrapItemClosedError_def split: prod.split sum.split)
  then show ?thesis
    by (simp add: arrives_def wrapAnswerError_def kept_defs overWire_def wire_errors)
qed

lemma remote_answer_call:
  assumes "connected H P h" and "pathID k" and "\<And>s. fst (op_Get (ps_store P) k s) = s"
  shows "remote_Answer h k who rby d a as client route s =
    (if validateAnswerRequest H (ps_runtime P) d a as = (None :: Item option reply option)
     then carried keptByAnswer
       (op_Answer (ps_store P) k who rby d a as (answeredClientFromRequest (ps_from P) (carriedAutomation client))
          [firstRoute route] s) answeredItemOf
     else (s, Inl ErrPeerUnavailable))"
proof -
  have lib: "ps_lib P = H" "hr_lib h = H" using assms(1) by (simp_all add: connected_def)
  let ?body = "\<lparr>ra_AnsweredBy = who, ra_ResolvedBy = rby, ra_Decision = d, ra_Answer = a, ra_Answers = as,
     ra_Automation = carriedAutomation client, ra_RequestID = route_RequestID (firstRoute route),
     ra_Policy = route_Policy (firstRoute route)\<rparr>"
  let ?reply = "handleAttentionAnswer H (ps_runtime P) (ps_store P) (ps_from P) k (answerBodyOf (Some (AnswerBody ?body))) s"
  have call: "remote_Answer h k who rby d a as client route s = arrives H WireItem decodeItem ?reply"
    unfolding remote_Answer_def Let_def
    by (subst remote_do_respond)
      (simp_all add: servePeer_def served[OF assms(1)] routes_of_client[OF assms(2)] Let_def lib)
  show ?thesis
  proof (cases "validateAnswerRequest H (ps_runtime P) d a as :: Item option reply option")
    case (Some refused)
    then have "?reply = (s, badRequest H)"
      using validateAnswerRequest_refused[OF Some] pathID_D(1)[OF assms(2)] by (simp add: handleAttentionAnswer_def)
    then show ?thesis unfolding call using Some by (simp add: arrives_def badRequest_def wire_errors)
  next
    case None
    let ?call = "op_Answer (ps_store P) k who rby d a as
      (answeredClientFromRequest (ps_from P) (carriedAutomation client)) [firstRoute route] s"
    obtain s' r where r: "?call = (s', r)" by fastforce
    have route: "\<lparr>route_RequestID = route_RequestID (firstRoute route),
        route_Policy = route_Policy (firstRoute route)\<rparr> = firstRoute route" by simp
    have reply: "?reply = (case r of Inl e \<Rightarrow> wrapAnswerError H (ps_store P) e k s' | Inr item \<Rightarrow> (s', Sent 200 item))"
      using None r pathID_D(1)[OF assms(2)] by (simp add: handleAttentionAnswer_def route split: sum.split)
    show ?thesis
    proof (cases r)
      case (Inl e)
      then show ?thesis using None r answer_errors[OF assms(3)] by (simp add: call reply del: answerBodyOf.simps)
    next
      case (Inr x)
      then have "arrives H WireItem decodeItem ?reply = (s', Inr (answeredItemOf x))"
        by (cases x) (simp_all add: reply arrives_def answeredItemOf_def del: answerBodyOf.simps)
      then show ?thesis using None r Inr by (simp add: call del: answerBodyOf.simps)
    qed
  qed
qed

end

end
