(* ===== verification/ViewProperties.thy ===== *)
theory ViewProperties
  imports Demo RegistryLaws Notify Remote
begin

text \<open>
  What the readers of the store rely on: the pages of the history, the liveness of
  a session, and the signals that a change leaves with a subscriber.
\<close>

section \<open>History\<close>

text \<open>C29: a history page is exact: on every reachable state it is the page at that offset of the items the
  filters keep (the named producers, the dedup-key prefix, no expired open item), taken from the list of
  all items newest first, and reading it changes no item.\<close>

theorem history_page_exact:
  assumes "cursor_lib K ib ab R" and "store_run K ib ab R w s" and "validUTF8 (wantedPrefix fs [])"
  shows "\<exists>s'. store_History R (NewAttentionStore K w) now limit offset fs s =
      (s', Inr (page limit (max 0 offset) (filter (inHistory fs now) (timeline (aItems (absStore ib ab s)))))) \<and>
    aItems (absStore ib ab s') = aItems (absStore ib ab s)"
proof -
  have "store_lib K ib ab R" using assms(1) by (simp add: cursor_lib_def)
  from store_lib.store_run_inv(1)[OF this assms(2)] show ?thesis
    using cursor_lib.store_History_exact[OF assms(1) _ assms(3)] unfolding spec_history_def by blast
qed

lemma demo_cursor_lib: "cursor_lib mem_kv mem_ib mem_ab std_runtime" ..

lemma demo_timeline: "timeline (aItems (demo_abs demo_s3)) = [demo_closed]"
proof -
  have "[demo_id \<mapsto> demo_closed] = map_of [(demo_id, demo_closed)]" by simp
  then have "sorted_entries [demo_id \<mapsto> demo_closed] = [(demo_id, demo_closed)]"
    by (simp add: sorted_entries_def)
  then show ?thesis by (simp add: demo_items3 timeline_def)
qed

lemma history_page_exact_witness:
  "\<exists>s'. store_History std_runtime (NewAttentionStore mem_kv 0) 9 10 0
     [\<lparr>Producers = [''p''], DedupKeyPrefix = []\<rparr>] demo_s3 = (s', Inr [demo_closed])"
proof -
  let ?fs = "[\<lparr>Producers = [''p''], DedupKeyPrefix = []\<rparr>]"
  have "validUTF8 (wantedPrefix ?fs [])" by (simp add: validUTF8.simps)
  moreover have "inHistory ?fs 9 demo_closed" by code_simp
  ultimately show ?thesis
    using history_page_exact[OF demo_cursor_lib demo_runs(4), of ?fs 9 10 0]
    by (auto simp: demo_timeline page_def)
qed

text \<open>History is newest first: when every creation time has a year the key can hold, no item of a page
  is newer than one before it.\<close>

theorem history_newest_first:
  assumes "cursor_lib K ib ab R" and "store_run K ib ab R w s" and "validUTF8 (wantedPrefix fs [])"
    and "datedItems (aItems (absStore ib ab s))"
    and "store_History R (NewAttentionStore K w) now limit offset fs s = (s', Inr items)"
  shows "sorted_wrt (\<lambda>i j. CreatedAt j \<le> CreatedAt i) items"
proof -
  have lib: "store_lib K ib ab R" using assms(1) by (simp add: cursor_lib_def)
  have fin: "finite (dom (aItems (absStore ib ab s)))"
    using store_lib.store_run_inv(1)[OF lib assms(2)] by (simp add: storeInv_def)
  have "items = spec_history fs now limit (max 0 offset) (aItems (absStore ib ab s))"
    using cursor_lib.store_History_exact[OF assms(1) store_lib.store_run_inv(1)[OF lib assms(2)] assms(3),
      of w now limit offset] assms(5) by auto
  then show ?thesis
    unfolding spec_history_def
    by (simp add: sorted_wrt_page sorted_wrt_filter timeline_newest_first[OF fin assms(4)])
qed

lemma history_newest_first_witness:
  "\<exists>s' items. store_History std_runtime (NewAttentionStore mem_kv 0) 9 10 0 [] demo_s3 = (s', Inr items) \<and>
     sorted_wrt (\<lambda>i j. CreatedAt j \<le> CreatedAt i) items"
proof -
  have u: "validUTF8 (wantedPrefix [] [])" by (simp add: validUTF8.simps)
  have "0 \<le> yearOf (CreatedAt demo_closed) \<and> yearOf (CreatedAt demo_closed) \<le> 9999" by code_simp
  then have d: "datedItems (aItems (demo_abs demo_s3))" by (simp add: datedItems_def demo_items3)
  obtain s' items where h: "store_History std_runtime (NewAttentionStore mem_kv 0) 9 10 0 [] demo_s3 = (s', Inr items)"
    using mem_cursor.store_History_exact[OF mem_store.store_run_inv(1)[OF demo_runs(4)] u] by metis
  then show ?thesis using history_newest_first[OF demo_cursor_lib demo_runs(4) u d h] by blast
qed

text \<open>The pages tile the history: walking the first \<open>m\<close> pages of size \<open>n\<close> at one moment lists the first
  \<open>m * n\<close> items of the filtered history, none twice and none skipped.\<close>

theorem pages_tile_history:
  assumes "cursor_lib K ib ab R" and "store_run K ib ab R w s" and "validUTF8 (wantedPrefix fs [])" and "0 < n"
  shows "concat (map (\<lambda>k. case snd (store_History R (NewAttentionStore K w) now (int n) (int (k * n)) fs s) of
        Inl _ \<Rightarrow> [] | Inr items \<Rightarrow> items) [0..<m]) =
      take (m * n) (filter (inHistory fs now) (timeline (aItems (absStore ib ab s))))"
proof -
  have lib: "store_lib K ib ab R" using assms(1) by (simp add: cursor_lib_def)
  have "snd (store_History R (NewAttentionStore K w) now (int n) (int (k * n)) fs s) =
      Inr (page (int n) (int (k * n)) (filter (inHistory fs now) (timeline (aItems (absStore ib ab s)))))" for k
  proof -
    have "max 0 (int (k * n)) = int (k * n)" by simp
    then show ?thesis
      using cursor_lib.store_History_exact[OF assms(1) store_lib.store_run_inv(1)[OF lib assms(2)] assms(3),
        of w now "int n" "int (k * n)"] unfolding spec_history_def by (metis snd_conv)
  qed
  then show ?thesis by (simp add: pages_cover[OF assms(4)] del: of_nat_mult)
qed

lemma pages_tile_history_witness:
  "concat (map (\<lambda>k. case snd (store_History std_runtime (NewAttentionStore mem_kv 0) 9 (int 1) (int (k * 1)) [] demo_s3) of
        Inl _ \<Rightarrow> [] | Inr items \<Rightarrow> items) [0..<3]) = [demo_closed]"
proof -
  have u: "validUTF8 (wantedPrefix [] [])" by (simp add: validUTF8.simps)
  have "inHistory [] 9 demo_closed" by code_simp
  then show ?thesis
    using pages_tile_history[OF demo_cursor_lib demo_runs(4) u, of 1 9 3] by (simp add: demo_timeline)
qed

text \<open>A prefix that ends inside a rune loses its matches: the search of the raw bytes for the prefix
  \<open>0xC3\<close> rules out an item whose dedup key starts with that byte (a key starting with an accented e), although
  the exact check on the decoded item keeps it.\<close>

theorem split_rune_prefix_drops_match:
  "let m = newHistoryMatcher [\<lparr>Producers = [], DedupKeyPrefix = [CHR 0xC3]\<rparr>];
       i = demo_item\<lparr>DedupKey := [CHR 0xC3, CHR 0xA9]\<rparr>
   in matches m i \<and> decode m (mem_item (k, i)) = Inr (emptyItem, False)"
proof -
  have "jsonString [CHR 0xC3] = [CHR 0x22] @ CHR 0x5C # ''ufffd'' @ [CHR 0x22]"
    "jsonString [CHR 0xC3, CHR 0xA9] = [CHR 0x22, CHR 0xC3, CHR 0xA9, CHR 0x22]"
    "jsonString (ProducerID (demo_item\<lparr>DedupKey := [CHR 0xC3, CHR 0xA9]\<rparr>)) = [CHR 0x22] @ ''p'' @ [CHR 0x22]"
    by code_simp+
  then show ?thesis
    by (simp add: newHistoryMatcher_def addFilter_def emptyMatcher_def Let_def matches_def decode_def mayMatch_def
        mem_item_def jsonField_def jsonKey_def)
qed

text \<open>A page asked for over HTTP is bounded and exact: when the limit and the offset parse, the reply is
  the page of the clamped limit, and it never holds more than the largest page, also for a limit of 0.\<close>

theorem history_request_bounded:
  assumes "cursor_lib K ib ab R" and "store_run K ib ab R w s" and "validUTF8 (hq_prefix q)"
    and "historyIntParam H (hq_limit q) historyDefaultLimit = (Inr limit :: Item list reply + int)"
    and "historyIntParam H (hq_offset q) 0 = (Inr offset :: Item list reply + int)"
  shows "\<exists>s' items. handleAttentionHistory H (localOps R (NewAttentionStore K w) E) q s = (s', Sent 200 items) \<and>
     items = page (if limit = 0 then historyMaxLimit else min limit historyMaxLimit) offset
       (filter (inHistory [\<lparr>Producers = historyProducers (hq_producers q), DedupKeyPrefix = hq_prefix q\<rparr>] (env_now E))
         (timeline (aItems (absStore ib ab s)))) \<and>
     int (length items) \<le> historyMaxLimit"
proof -
  let ?fs = "[\<lparr>Producers = historyProducers (hq_producers q), DedupKeyPrefix = hq_prefix q\<rparr>]"
  have lib: "store_lib K ib ab R" using assms(1) by (simp add: cursor_lib_def)
  have "wantedPrefix ?fs [] = hq_prefix q" by simp
  then have u: "validUTF8 (wantedPrefix ?fs [])" using assms(3) by simp
  have nonneg: "0 \<le> limit" "0 \<le> offset"
    using assms(4,5) by (auto simp: historyIntParam_def historyDefaultLimit_def split: if_splits option.splits)
  let ?l = "if limit = 0 then historyMaxLimit else min limit historyMaxLimit"
  have l: "clampHistoryLimit limit = ?l" "0 < ?l" "?l \<le> historyMaxLimit"
    using nonneg by (auto simp: clampHistoryLimit_def historyMaxLimit_def)
  let ?items = "page ?l offset (filter (inHistory ?fs (env_now E)) (timeline (aItems (absStore ib ab s))))"
  obtain s' where "store_History R (NewAttentionStore K w) (env_now E) ?l offset ?fs s = (s', Inr ?items)"
    using cursor_lib.store_History_exact[OF assms(1) store_lib.store_run_inv(1)[OF lib assms(2)] u] nonneg(2)
    unfolding spec_history_def by (metis max.absorb2)
  then have "handleAttentionHistory H (localOps R (NewAttentionStore K w) E) q s = (s', Sent 200 ?items)"
    unfolding handleAttentionHistory_def assms(4,5) by (simp add: l(1) localOps_def replyWith_def)
  moreover have "int (length ?items) \<le> ?l" using l(2) by (simp add: page_def Let_def)
  ultimately show ?thesis using l(3) by auto
qed

definition demo_env :: callEnv where
  "demo_env = \<lparr>env_now = 9, env_read = demo_readings, env_prune = demo_readings, env_generated = Inr demo_id,
     env_nowAnswered = (\<lambda>_. 9), env_nowOpen = (\<lambda>_. 9)\<rparr>"

lemma history_request_bounded_witness:
  "\<exists>s'. handleAttentionHistory std_http (localOps std_runtime (NewAttentionStore mem_kv 0) demo_env)
     \<lparr>hq_limit = ''0'', hq_offset = [], hq_producers = [], hq_prefix = []\<rparr> demo_s3 = (s', Sent 200 [demo_closed])"
proof -
  let ?q = "\<lparr>hq_limit = ''0'', hq_offset = [], hq_producers = [], hq_prefix = []\<rparr>"
  have "historyIntParam std_http (hq_limit ?q) historyDefaultLimit = (Inr 0 :: Item list reply + int)"
    "historyIntParam std_http (hq_offset ?q) 0 = (Inr 0 :: Item list reply + int)"
    by (simp_all add: historyIntParam_def Atoi_def decimalDigits_def)
  moreover have "validUTF8 (hq_prefix ?q)" by (simp add: validUTF8.simps)
  moreover have "inHistory [\<lparr>Producers = historyProducers (hq_producers ?q), DedupKeyPrefix = hq_prefix ?q\<rparr>]
      (env_now demo_env) demo_closed" by code_simp
  ultimately show ?thesis
    using history_request_bounded[OF demo_cursor_lib demo_runs(4), of ?q std_http 0 0 demo_env]
    by (auto simp: demo_timeline page_def Let_def historyMaxLimit_def)
qed

section \<open>Liveness of a session\<close>

text \<open>The incremental registry listing is exact: when no file changed its session without changing its
  size or modification time, a listing that reuses the stamps of an earlier one returns what reading every
  file again returns, and calls itself complete exactly when every registry file could be read.\<close>

theorem registry_listing_exact:
  assumes "stampsHold (slc_entryStamps c) V" and "rv_names V \<noteq> None" and "honestChange V V'"
    and "listResolved c V = (c', r)" and "listResolved c' V' = (c'', ids, readable, complete)"
  shows "ids = registrySessions V' \<and> (readable \<longleftrightarrow> rv_names V' \<noteq> None) \<and>
    (complete \<longleftrightarrow> rv_names V' \<noteq> None \<and> list_all (readableEntry V') (registryFiles V'))"
proof -
  obtain ids1 readable1 complete1 where r: "listResolved c V = (c', ids1, readable1, complete1)"
    using assms(4) by (cases r) auto
  have "stampsHold (slc_entryStamps c') V'"
    using listResolved_exact(4)[OF assms(1) r assms(3)] assms(2) by blast
  from listResolved_exact(1,2,3)[OF this assms(5)] show ?thesis by blast
qed

definition demo_view :: "string \<Rightarrow> registryView" where
  "demo_view sid = \<lparr>rv_names = Some [''a.json'', ''notes.txt''],
     rv_stat = (\<lambda>name. if name = ''a.json'' then Some (7, 1) else None),
     rv_session = (\<lambda>name. if name = ''a.json'' then Some sid else None)\<rparr>"

lemma registry_listing_exact_witness:
  "snd (listResolved (fst (listResolved NewSessionLivenessChecker (demo_view ''s1''))) (demo_view ''s1'')) =
     ([''s1''], True, True)"
proof -
  let ?V = "demo_view ''s1''"
  obtain c' r where l: "listResolved NewSessionLivenessChecker ?V = (c', r)" by (metis surj_pair)
  obtain c'' ids readable complete where l': "listResolved c' ?V = (c'', ids, readable, complete)"
    by (metis prod_cases4)
  have "stampsHold (slc_entryStamps NewSessionLivenessChecker) ?V"
    by (simp add: stampsHold_def NewSessionLivenessChecker_def)
  moreover have "registrySessions ?V = [''s1'']" "list_all (readableEntry ?V) (registryFiles ?V)"
    by code_simp+
  ultimately show ?thesis
    using registry_listing_exact[OF _ _ _ l l'] l l' by (simp add: honestChange_def demo_view_def)
qed

text \<open>C35: a session is called gone only on recent evidence: whatever calls of the checker came before, if no file
  ever changed its session with its size and modification time the same, then two readings of the registry agree
  that no readable file names the session: a listing taken for this call or less than a second before it, and a
  second one that was taken for this very call or else was a complete listing, taken at most a second ago by
  the clock and of a directory whose modification time is still the same.\<close>

theorem gone_on_recent_evidence:
  assumes "runtime_lib R" and "checkerRun Ls Fs c" and "follows (viewsOf Ls Fs) (lr_view lr)"
    and "follows (viewsOf (insert lr Ls) Fs) (fr_view fr)"
    and "checker_IsLive R lr fr sid c = (c', False)" and "sid \<noteq> []"
  shows "(\<exists>l \<in> insert lr Ls. rv_names (lr_view l) \<noteq> None \<and> sid \<notin> set (registrySessions (lr_view l)) \<and>
      (l = lr \<or> timeSub (lr_now lr) (lr_after l) < 1000000000)) \<and>
    (\<exists>f \<in> insert fr Fs. rv_names (fr_view f) \<noteq> None \<and> sid \<notin> set (registrySessions (fr_view f)) \<and>
      (f = fr \<or> fr_dirMod f = fr_dirMod fr \<and> fr_dirMod fr \<noteq> None \<and> completeListing (fr_view f) \<and>
         fr_after f \<le> fr_now fr \<and> fr_now fr < fr_after f + 1000000000))"
  by (rule runtime_lib.checker_gone[OF assms])

text \<open>A session that is asked for twice: the second call reuses both listings of the first.\<close>

definition demo_listing :: listingReadings where
  "demo_listing = \<lparr>lr_now = 5, lr_view = demo_view ''s1'', lr_after = 6\<rparr>"

definition demo_relisting :: freshReadings where
  "demo_relisting = \<lparr>fr_dirMod = Some 1, fr_now = 7, fr_view = demo_view ''s1'', fr_after = 8\<rparr>"

definition demo_asked :: sessionLivenessChecker where
  "demo_asked = fst (LiveSessionsFresh demo_relisting (fst (LiveSessions demo_listing NewSessionLivenessChecker)))"

lemma demo_checker_run: "checkerRun {demo_listing} {demo_relisting} demo_asked"
proof -
  have "checkerRun {demo_listing} {} (fst (LiveSessions demo_listing NewSessionLivenessChecker))"
    using checkerRun.listed[OF checkerRun.started, of demo_listing] by (simp add: follows_def viewsOf_def)
  from checkerRun.relisted[OF this, of demo_relisting] show ?thesis
    by (simp add: demo_asked_def follows_def viewsOf_def honestChange_def demo_listing_def demo_relisting_def)
qed

lemma gone_on_recent_evidence_witness:
  "\<exists>f \<in> {demo_relisting, \<lparr>fr_dirMod = Some 1, fr_now = 10, fr_view = demo_view ''s1'', fr_after = 11\<rparr>}.
     rv_names (fr_view f) \<noteq> None \<and> ''s2'' \<notin> set (registrySessions (fr_view f)) \<and> fr_after f < 1000000008"
proof -
  let ?lr = "\<lparr>lr_now = 9, lr_view = demo_view ''s1'', lr_after = 9\<rparr>"
  let ?fr = "\<lparr>fr_dirMod = Some 1, fr_now = 10, fr_view = demo_view ''s1'', fr_after = 11\<rparr>"
  have "snd (checker_IsLive std_runtime ?lr ?fr ''s2'' demo_asked) = False" by code_simp
  then have gone: "checker_IsLive std_runtime ?lr ?fr ''s2'' demo_asked =
      (fst (checker_IsLive std_runtime ?lr ?fr ''s2'' demo_asked), False)"
    by (metis prod.collapse)
  have "follows (viewsOf {demo_listing} {demo_relisting}) (lr_view ?lr)"
    "follows (viewsOf (insert ?lr {demo_listing}) {demo_relisting}) (fr_view ?fr)"
    by (simp_all add: follows_def viewsOf_def honestChange_def demo_listing_def demo_relisting_def)
  from gone_on_recent_evidence[OF std_rt.runtime_lib_axioms demo_checker_run this gone] show ?thesis
    by (auto simp: demo_relisting_def)
qed

section \<open>Change notification\<close>

text \<open>C30: no change is missed: whatever sequence of notifications, subscriptions, cancellations and wake-ups
  happened, a subscriber either has a signal waiting, and then waking brings it to the current generation,
  or it has already seen the current generation.\<close>

theorem no_change_missed:
  assumes "notifier_steps (NewAttentionChangeNotifier, seen0) (n, seen)" and "subscribers n sid = Some waiting"
  shows "(waiting \<and> notifier_step (n, seen) (receive sid n, seen(sid \<mapsto> generation n))) \<or>
    (\<not> waiting \<and> seen sid = Some (generation n))"
proof -
  have "notifierInv (n, seen)" by (rule notifier_steps_inv[OF assms(1) notifierInv_new])
  then have "waiting \<or> seen sid = Some (generation n)" using assms(2) by (simp add: notifierInv_def)
  moreover have "waiting \<Longrightarrow> notifier_step (n, seen) (receive sid n, seen(sid \<mapsto> generation n))"
    using notifier_step.wake[of n sid seen] assms(2) by (simp add: Generation_def)
  ultimately show ?thesis by blast
qed

lemma no_change_missed_witness:
  "notifier_step (Notify (fst (Subscribe NewAttentionChangeNotifier)), [0 \<mapsto> 0])
     (receive 0 (Notify (fst (Subscribe NewAttentionChangeNotifier))), [0 \<mapsto> 1])"
proof -
  let ?n = "fst (Subscribe NewAttentionChangeNotifier)"
  have "notifier_step (NewAttentionChangeNotifier, Map.empty) (?n, [0 \<mapsto> 0])"
    using notifier_step.subscribe[of NewAttentionChangeNotifier ?n 0 Map.empty]
    by (simp add: Subscribe_def NewAttentionChangeNotifier_def Generation_def)
  then have "notifier_steps (NewAttentionChangeNotifier, Map.empty) (Notify ?n, [0 \<mapsto> 0])"
    using notifier_step.notify[of ?n "[0 \<mapsto> 0]"] by (meson r_into_rtranclp rtranclp.rtrancl_into_rtrancl)
  moreover have "subscribers (Notify ?n) 0 = Some True" "generation (Notify ?n) = 1"
    by (simp_all add: Subscribe_def NewAttentionChangeNotifier_def Notify_def)
  ultimately show ?thesis
    using no_change_missed[of Map.empty "Notify ?n" "[0 \<mapsto> 0]" 0 True] by (simp add: Generation_def)
qed

end
