(* ===== verification/Federation.thy ===== *)
theory Federation
  imports Remote Notify
begin

text \<open>
  The decorator that shows a peer store's items beside the local ones and sends a write
  to the store that owns the item (\<open>attention-store-federating.go\<close>, \<open>federate\<close> of
  \<open>main.go\<close>). Its state is the local store, the peer and the cache of the peer's last
  read; the clock readings of one call are arguments.
\<close>

section \<open>State\<close>

record ('s, 'p) federatingStore =
  fed_local :: 's
  fed_remote :: 'p
  fed_cached :: "Item list"
  fed_cachedAt :: instant
  fed_haveCached :: bool

definition NewFederatingState :: "'s \<Rightarrow> 'p \<Rightarrow> ('s, 'p) federatingStore" where
  "NewFederatingState s p = \<lparr>fed_local = s, fed_remote = p, fed_cached = [], fed_cachedAt = zeroTime,
     fed_haveCached = False\<rparr>"

definition federationCacheWindow :: duration where "federationCacheWindow = 2 * 1000000000"

definition onLocal :: "('s \<Rightarrow> 's \<times> 'r) \<Rightarrow> ('s, 'p) federatingStore \<Rightarrow> ('s, 'p) federatingStore \<times> 'r" where
  "onLocal f st = (case f (fed_local st) of (s, r) \<Rightarrow> (st\<lparr>fed_local := s\<rparr>, r))"

definition onRemote :: "('p \<Rightarrow> 'p \<times> 'r) \<Rightarrow> ('s, 'p) federatingStore \<Rightarrow> ('s, 'p) federatingStore \<times> 'r" where
  "onRemote f st = (case f (fed_remote st) of (p, r) \<Rightarrow> (st\<lparr>fed_remote := p\<rparr>, r))"

section \<open>Who owns an item\<close>

definition isRemote ::
  "'s attentionOps \<Rightarrow> ItemID \<Rightarrow> ('s, 'p) federatingStore \<Rightarrow> ('s, 'p) federatingStore \<times> bool" where
  "isRemote local itemID st =
     (case onLocal (op_Get local itemID) st of (st, r) \<Rightarrow> (st, r = Inl ErrItemNotFound))"

definition routed ::
  "'s attentionOps \<Rightarrow> ItemID \<Rightarrow> ('p \<Rightarrow> 'p \<times> 'r) \<Rightarrow> ('s \<Rightarrow> 's \<times> 'r) \<Rightarrow>
   ('s, 'p) federatingStore \<Rightarrow> ('s, 'p) federatingStore \<times> 'r" where
  "routed local itemID there here st =
     (case isRemote local itemID st of
        (st, True) \<Rightarrow> onRemote there st
      | (st, False) \<Rightarrow> onLocal here st)"

section \<open>The peer's items\<close>

definition mergeFederatedItems :: "Item list \<Rightarrow> Item list \<Rightarrow> Item list" where
  "mergeFederatedItems local remote =
     (if remote = [] then local
      else (let held = set (map ItemID local)
            in foldl (\<lambda>merged item. if ItemID item \<in> held then merged else merged @ [item]) local remote))"

definition remoteItems ::
  "'p remoteStore \<Rightarrow> instant \<Rightarrow> instant \<Rightarrow> ('s, 'p) federatingStore \<Rightarrow>
   ('s, 'p) federatingStore \<times> (error + Item list)" where
  "remoteItems remote now after st =
     (if fed_haveCached st \<and> timeSub now (fed_cachedAt st) < federationCacheWindow
      then (st, Inr (fed_cached st))
      else (case onRemote (rm_Read remote) st of
              (st, Inl e) \<Rightarrow> (st, Inl e)
            | (st, Inr items) \<Rightarrow>
                (st\<lparr>fed_cached := items, fed_cachedAt := after, fed_haveCached := True\<rparr>, Inr items)))"

definition withRemote ::
  "'p remoteStore \<Rightarrow> instant \<Rightarrow> instant \<Rightarrow> Item list \<Rightarrow> ('s, 'p) federatingStore \<Rightarrow>
   ('s, 'p) federatingStore \<times> Item list" where
  "withRemote remote now after local st =
     (case remoteItems remote now after st of
        (st, Inl _) \<Rightarrow> (st, local)
      | (st, Inr items) \<Rightarrow> (st, mergeFederatedItems local items))"

section \<open>The operations\<close>

definition fed_Read ::
  "'s attentionOps \<Rightarrow> 'p remoteStore \<Rightarrow> instant \<Rightarrow> instant \<Rightarrow> ('s, 'p) federatingStore \<Rightarrow>
   ('s, 'p) federatingStore \<times> (error + Item list)" where
  "fed_Read local remote now after st =
     (case onLocal (op_Read local) st of
        (st, Inl e) \<Rightarrow> (st, Inl e)
      | (st, Inr items) \<Rightarrow> (case withRemote remote now after items st of (st, items) \<Rightarrow> (st, Inr items)))"

definition fed_ReadBoard ::
  "'s attentionOps \<Rightarrow> 'p remoteStore \<Rightarrow> instant \<Rightarrow> instant \<Rightarrow> ('s, 'p) federatingStore \<Rightarrow>
   ('s, 'p) federatingStore \<times> (error + Item list)" where
  "fed_ReadBoard local remote now after st =
     (case onLocal (op_ReadBoard local) st of
        (st, Inl e) \<Rightarrow> (st, Inl e)
      | (st, Inr items) \<Rightarrow> (case withRemote remote now after items st of (st, items) \<Rightarrow> (st, Inr items)))"

definition fed_Get where
  "fed_Get local remote itemID = routed local itemID (rm_Get remote itemID) (op_Get local itemID)"

definition remoteAnswer where
  "remoteAnswer remote itemID answeredBy resolvedBy decision answer answers answeredClient route p =
     (case rm_Answer remote itemID answeredBy resolvedBy decision answer answers answeredClient route p of
        (p, r) \<Rightarrow> (p, map_sum (\<lambda>e. e) Some r))"

definition fed_Answer where
  "fed_Answer local remote itemID answeredBy resolvedBy decision answer answers answeredClient route =
     routed local itemID
       (remoteAnswer remote itemID answeredBy resolvedBy decision answer answers answeredClient route)
       (op_Answer local itemID answeredBy resolvedBy decision answer answers answeredClient route)"

definition fed_Escalate where
  "fed_Escalate local remote itemID escalatedBy =
     routed local itemID (rm_Escalate remote itemID escalatedBy) (op_Escalate local itemID escalatedBy)"

definition fed_Flag where
  "fed_Flag local remote itemID reason =
     routed local itemID (rm_Flag remote itemID reason) (op_Flag local itemID reason)"

definition fed_Unflag where
  "fed_Unflag local remote itemID = routed local itemID (rm_Unflag remote itemID) (op_Unflag local itemID)"

definition fed_Rate where
  "fed_Rate local remote itemID rating =
     routed local itemID (rm_Rate remote itemID rating) (op_Rate local itemID rating)"

definition fed_Close where
  "fed_Close local remote itemID answeredBy answeredClient =
     routed local itemID (rm_Close remote itemID answeredBy answeredClient)
       (op_Close local itemID answeredBy answeredClient)"

definition fed_Push where "fed_Push local request = onLocal (op_Push local request)"
definition fed_History where "fed_History local limit offset filters = onLocal (op_History local limit offset filters)"
definition fed_SweepAnswered where "fed_SweepAnswered local maxAge = onLocal (op_SweepAnswered local maxAge)"
definition fed_RecordAttempt where
  "fed_RecordAttempt local itemID carrier outcome = onLocal (op_RecordAttempt local itemID carrier outcome)"
definition fed_Delivery where "fed_Delivery local itemID = onLocal (op_Delivery local itemID)"

definition NewFederatingAttentionStore ::
  "'s attentionOps \<Rightarrow> 'p remoteStore \<Rightarrow> instant \<Rightarrow> instant \<Rightarrow> ('s, 'p) federatingStore attentionOps" where
  "NewFederatingAttentionStore local remote now after = \<lparr>
     op_Push = fed_Push local,
     op_Get = fed_Get local remote,
     op_Read = fed_Read local remote now after,
     op_ReadBoard = fed_ReadBoard local remote now after,
     op_History = fed_History local,
     op_Answer = fed_Answer local remote,
     op_Escalate = fed_Escalate local remote,
     op_Flag = fed_Flag local remote,
     op_Unflag = fed_Unflag local remote,
     op_Rate = fed_Rate local remote,
     op_Close = fed_Close local remote,
     op_RecordAttempt = fed_RecordAttempt local,
     op_Delivery = fed_Delivery local,
     op_SweepAnswered = fed_SweepAnswered local\<rparr>"

text \<open>Without a peer URL or without a token the store is handed on as it is.\<close>

definition federate ::
  "string \<Rightarrow> string \<Rightarrow> 's attentionOps \<Rightarrow> (string \<Rightarrow> string \<Rightarrow> 'p remoteStore) \<Rightarrow> instant \<Rightarrow> instant \<Rightarrow>
   's attentionOps + ('s, 'p) federatingStore attentionOps" where
  "federate url token local newRemote now after =
     (if url = [] \<or> token = [] then Inl local
      else Inr (NewFederatingAttentionStore local (newRemote url token) now after))"

lemmas fed_defs =
  fed_Get_def fed_Answer_def fed_Escalate_def fed_Flag_def fed_Unflag_def fed_Rate_def fed_Close_def
  fed_Push_def fed_History_def fed_SweepAnswered_def fed_RecordAttempt_def fed_Delivery_def
  NewFederatingAttentionStore_def

section \<open>Merging\<close>

text \<open>The local items come first and unchanged, then the peer's that have no local id.\<close>

lemma foldl_filter_append:
  "foldl (\<lambda>acc x. if P x then acc else acc @ [x]) acc xs = acc @ filter (\<lambda>x. \<not> P x) xs"
  by (induction xs arbitrary: acc) simp_all

lemma mergeFederatedItems_eq:
  "mergeFederatedItems local remote = local @ filter (\<lambda>i. ItemID i \<notin> set (map ItemID local)) remote"
  by (simp add: mergeFederatedItems_def foldl_filter_append Let_def)

lemma merged_ids_distinct:
  "distinct (map ItemID local) \<Longrightarrow> distinct (map ItemID remote) \<Longrightarrow>
     distinct (map ItemID (mergeFederatedItems local remote))"
  by (auto simp: mergeFederatedItems_eq distinct_map_filter) (metis image_eqI)

text \<open>The peer's items as a read sees them: the cached list, the fetched one, or none.\<close>

definition peerView ::
  "'p remoteStore \<Rightarrow> instant \<Rightarrow> ('s, 'p) federatingStore \<Rightarrow> Item list" where
  "peerView remote now st =
     (if fed_haveCached st \<and> timeSub now (fed_cachedAt st) < federationCacheWindow then fed_cached st
      else (case snd (rm_Read remote (fed_remote st)) of Inl _ \<Rightarrow> [] | Inr items \<Rightarrow> items))"

lemma withRemote_view:
  "snd (withRemote remote now after items st) = mergeFederatedItems items (peerView remote now st)"
  by (simp add: withRemote_def remoteItems_def peerView_def onRemote_def mergeFederatedItems_eq
      split: prod.split sum.split)

lemma withRemote_local: "fed_local (fst (withRemote remote now after items st)) = fed_local st"
  by (auto simp: withRemote_def remoteItems_def onRemote_def split: prod.splits sum.splits)

lemma fed_reads:
  "fed_Read local remote now after st =
     (case op_Read local (fed_local st) of
        (s, Inl e) \<Rightarrow> (st\<lparr>fed_local := s\<rparr>, Inl e)
      | (s, Inr items) \<Rightarrow>
          (fst (withRemote remote now after items (st\<lparr>fed_local := s\<rparr>)),
           Inr (mergeFederatedItems items (peerView remote now st))))"
  "fed_ReadBoard local remote now after st =
     (case op_ReadBoard local (fed_local st) of
        (s, Inl e) \<Rightarrow> (st\<lparr>fed_local := s\<rparr>, Inl e)
      | (s, Inr items) \<Rightarrow>
          (fst (withRemote remote now after items (st\<lparr>fed_local := s\<rparr>)),
           Inr (mergeFederatedItems items (peerView remote now st))))"
proof -
  have view: "peerView remote now (st\<lparr>fed_local := s\<rparr>) = peerView remote now st" for s
    by (simp add: peerView_def)
  have w: "withRemote remote now after items (st\<lparr>fed_local := s\<rparr>) =
      (fst (withRemote remote now after items (st\<lparr>fed_local := s\<rparr>)),
       mergeFederatedItems items (peerView remote now st))" for items s
    by (metis prod.collapse view withRemote_view)
  show "fed_Read local remote now after st =
     (case op_Read local (fed_local st) of
        (s, Inl e) \<Rightarrow> (st\<lparr>fed_local := s\<rparr>, Inl e)
      | (s, Inr items) \<Rightarrow>
          (fst (withRemote remote now after items (st\<lparr>fed_local := s\<rparr>)),
           Inr (mergeFederatedItems items (peerView remote now st))))"
    by (simp add: fed_Read_def onLocal_def split: prod.split sum.split) (metis w prod.inject)
  show "fed_ReadBoard local remote now after st =
     (case op_ReadBoard local (fed_local st) of
        (s, Inl e) \<Rightarrow> (st\<lparr>fed_local := s\<rparr>, Inl e)
      | (s, Inr items) \<Rightarrow>
          (fst (withRemote remote now after items (st\<lparr>fed_local := s\<rparr>)),
           Inr (mergeFederatedItems items (peerView remote now st))))"
    by (simp add: fed_ReadBoard_def onLocal_def split: prod.split sum.split) (metis w prod.inject)
qed

section \<open>The cache\<close>

lemma remoteItems_cached:
  "fed_haveCached st \<Longrightarrow> timeSub now (fed_cachedAt st) < federationCacheWindow \<Longrightarrow>
     remoteItems remote now after st = (st, Inr (fed_cached st))"
  by (simp add: remoteItems_def)

lemma remoteItems_fetched:
  assumes "\<not> (fed_haveCached st \<and> timeSub now (fed_cachedAt st) < federationCacheWindow)"
  shows "rm_Read remote (fed_remote st) = (p, Inr items) \<Longrightarrow>
      remoteItems remote now after st =
        (st\<lparr>fed_remote := p, fed_cached := items, fed_cachedAt := after, fed_haveCached := True\<rparr>, Inr items)"
    and "rm_Read remote (fed_remote st) = (p, Inl e) \<Longrightarrow>
      remoteItems remote now after st = (st\<lparr>fed_remote := p\<rparr>, Inl e)"
  using assms by (auto simp: remoteItems_def onRemote_def)

section \<open>Routing\<close>

definition peerOwned :: "'s attentionOps \<Rightarrow> ItemID \<Rightarrow> ('s, 'p) federatingStore \<Rightarrow> bool" where
  "peerOwned local k st \<longleftrightarrow> snd (op_Get local k (fed_local st)) = Inl ErrItemNotFound"

context store_contract
begin

lemma isRemote_pure: "isRemote Ops k st = (st, peerOwned Ops k st)"
  using get_pure[of k "fed_local st"] by (auto simp: isRemote_def onLocal_def peerOwned_def split: prod.split)

lemma routed_eq: "routed Ops k there here st = (if peerOwned Ops k st then onRemote there st else onLocal here st)"
  by (simp add: routed_def isRemote_pure)

lemma routed_one_store:
  "peerOwned Ops k st \<Longrightarrow> fed_local (fst (routed Ops k there here st)) = fed_local st"
  "\<not> peerOwned Ops k st \<Longrightarrow> fed_remote (fst (routed Ops k there here st)) = fed_remote st"
  by (simp_all add: routed_eq onRemote_def onLocal_def split: prod.split)

end

section \<open>One store per write\<close>

text \<open>What a routed write may change: an item of the peer leaves the local store and
  everyone who listens to it as they were, and a local one leaves the peer as it was and is
  announced like any local write. The cache is never touched.\<close>

definition oneStore ::
  "('s \<times> notifier) attentionOps \<Rightarrow> ItemID \<Rightarrow> ('s \<times> notifier, 'p) federatingStore \<Rightarrow>
   ('s \<times> notifier, 'p) federatingStore \<times> (error + 'r) \<Rightarrow> bool" where
  "oneStore local k st result \<longleftrightarrow>
     (if peerOwned local k st then fed_local (fst result) = fed_local st
      else fed_remote (fst result) = fed_remote st \<and>
        announced (fed_local st) (fed_local (fst result), snd result)) \<and>
     fed_cached (fst result) = fed_cached st \<and> fed_cachedAt (fst result) = fed_cachedAt st \<and>
     fed_haveCached (fst result) = fed_haveCached st"

lemma oneStore_routed:
  assumes "store_contract local" and "announced (fed_local st) (here (fed_local st))"
  shows "oneStore local k st (routed local k there here st)"
  using assms(2)
  by (auto simp: oneStore_def store_contract.routed_eq[OF assms(1)] onRemote_def onLocal_def split: prod.split)

context store_contract
begin

lemma federated_writes:
  fixes st :: "('s \<times> notifier, 'p) federatingStore"
  defines "L \<equiv> NewNotifyingAttentionStore Ops"
  shows "oneStore L k st (fed_Answer L remote k who rby d a as client route st)"
    and "oneStore L k st (fed_Escalate L remote k who st)" and "oneStore L k st (fed_Flag L remote k reason st)"
    and "oneStore L k st (fed_Unflag L remote k st)" and "oneStore L k st (fed_Rate L remote k rating st)"
    and "oneStore L k st (fed_Close L remote k who client st)"
  unfolding fed_defs
  by (rule oneStore_routed[OF notifying_contract[folded L_def]],
      simp add: L_def NewNotifyingAttentionStore_def writes_announced)+

end

end
