(* ===== verification/PeerProperties.thy ===== *)
theory PeerProperties
  imports ViewProperties Federation
begin

text \<open>
  What a store that federates a peer promises: the merged read, the one store a write
  touches, and what a call to the peer over HTTP is.
\<close>

section \<open>Federation\<close>

text \<open>C32: a federated read shows the local items unchanged and in their order, then the peer's items that
  have no local id, and it fails only when the local read fails: an unreachable peer adds nothing.\<close>

theorem federated_read_merges:
  "let F = NewFederatingAttentionStore local remote now after;
       shown = (\<lambda>items. items @ filter (\<lambda>i. ItemID i \<notin> set (map ItemID items)) (peerView remote now st))
   in snd (op_Read F st) = map_sum (\<lambda>e. e) shown (snd (op_Read local (fed_local st))) \<and>
      snd (op_ReadBoard F st) = map_sum (\<lambda>e. e) shown (snd (op_ReadBoard local (fed_local st)))"
  by (simp add: NewFederatingAttentionStore_def fed_reads mergeFederatedItems_eq split: prod.split sum.split)

text \<open>A peer failure is not cached, and a success is: after a failed peer read the local items are served
  alone and the next read asks the peer again; once it answered, a read inside the window serves that
  answer and does not touch the peer.\<close>

theorem peer_failure_retried:
  assumes "\<not> (fed_haveCached st \<and> timeSub now (fed_cachedAt st) < federationCacheWindow)"
    and "rm_Read remote (fed_remote st) = (p, Inl e)"
    and "rm_Read remote p = (p', Inr back)" and "now \<le> now'"
    and "timeSub now'' after' < federationCacheWindow"
  shows "\<exists>st' st''. withRemote remote now after items st = (st', items) \<and> fed_remote st' = p \<and>
    withRemote remote now' after' items' st' = (st'', mergeFederatedItems items' back) \<and> fed_remote st'' = p' \<and>
    withRemote remote now'' after'' items'' st'' = (st'', mergeFederatedItems items'' back)"
proof -
  have "timeSub now (fed_cachedAt st) \<le> timeSub now' (fed_cachedAt st)" using assms(4) by (auto simp: timeSub_def)
  then have stale: "\<not> (fed_haveCached (st\<lparr>fed_remote := p\<rparr>) \<and>
      timeSub now' (fed_cachedAt (st\<lparr>fed_remote := p\<rparr>)) < federationCacheWindow)"
    using assms(1) by auto
  have "withRemote remote now after items st = (st\<lparr>fed_remote := p\<rparr>, items)"
    by (simp add: withRemote_def remoteItems_fetched(2)[OF assms(1,2)])
  moreover have "rm_Read remote (fed_remote (st\<lparr>fed_remote := p\<rparr>)) = (p', Inr back)" using assms(3) by simp
  note fetched = remoteItems_fetched(1)[OF stale this, of after']
  ultimately show ?thesis
    using assms(5) by (simp add: withRemote_def fetched remoteItems_cached)
qed

text \<open>A peer that fails its first read and answers every other one.\<close>

definition demo_flaky :: "nat remoteStore" where
  "demo_flaky = \<lparr>rm_Read = (\<lambda>n. (n + 1, if n = 0 then Inl ErrPeerUnavailable else Inr [demo_item])),
     rm_Get = (\<lambda>_ n. (n, Inl ErrItemNotFound)), rm_Answer = (\<lambda>_ _ _ _ _ _ _ _ n. (n, Inl ErrItemNotFound)),
     rm_Close = (\<lambda>_ _ _ n. (n, Inl ErrItemNotFound)), rm_Escalate = (\<lambda>_ _ n. (n, Inl ErrItemNotFound)),
     rm_Flag = (\<lambda>_ _ n. (n, Inl ErrItemNotFound)), rm_Unflag = (\<lambda>_ n. (n, Inl ErrItemNotFound)),
     rm_Rate = (\<lambda>_ _ n. (n, Inl ErrItemNotFound))\<rparr>"

lemma peer_failure_retried_witness:
  "\<exists>st' st''. withRemote demo_flaky 5 5 [] (NewFederatingState mem_empty 0) = (st', []) \<and> fed_remote st' = 1 \<and>
    withRemote demo_flaky 6 6 [] st' = (st'', [demo_item]) \<and> fed_remote st'' = 2 \<and>
    withRemote demo_flaky 7 7 [] st'' = (st'', [demo_item])"
proof -
  have merge: "mergeFederatedItems [] [demo_item] = [demo_item]" by (simp add: mergeFederatedItems_eq)
  show ?thesis
    using peer_failure_retried[of "NewFederatingState mem_empty (0::nat)" 5 demo_flaky 1 ErrPeerUnavailable 2
        "[demo_item]" 6 7 6 5 "[]" "[]" 7 "[]"]
    unfolding merge
    by (simp add: NewFederatingState_def demo_flaky_def timeSub_def federationCacheWindow_def
        minDuration_def maxDuration_def)
qed

text \<open>C33: a federated write touches one store: for an item the local store does not hold the whole local side,
  subscribers included, stays as it was; for any other item the peer stays as it was and the local write
  is announced or undone. The cached peer read is untouched either way.\<close>

theorem federated_write_touches_one_store:
  fixes st :: "('s \<times> notifier, 'p) federatingStore" and A :: "'s attentionStore"
  shows "let L = NewNotifyingAttentionStore (localOps R A E); F = NewFederatingAttentionStore L remote now after in
     oneStore L k st (op_Answer F k who rby d a as client route st) \<and> oneStore L k st (op_Escalate F k who st) \<and>
     oneStore L k st (op_Flag F k reason st) \<and> oneStore L k st (op_Unflag F k st) \<and>
     oneStore L k st (op_Rate F k rating st) \<and> oneStore L k st (op_Close F k who client st)"
  by (simp add: NewFederatingAttentionStore_def Let_def local_store.federated_writes)

text \<open>C34: a call over HTTP to a peer is the call on the peer's store: behind the bearer gate and the routes, the
  peer's operation runs with the caller's arguments (the client recorded is the one the peer sees), its
  result comes back, and of its errors the ones listed for the route keep their meaning, while every other
  one, an answer the peer refuses as malformed included, arrives as \<open>ErrPeerUnavailable\<close>.\<close>

theorem remote_call_is_peer_call:
  assumes "http_codes H" and "connected H P h" and "store_contract (ps_store P)" and "pathID k"
  shows "remote_Read h s = carried [] (op_Read (ps_store P) s) (\<lambda>items. items) \<and>
    remote_Get h k s = carried [ErrItemNotFound, ErrPermissionCloseWithoutDecision] (op_Get (ps_store P) k s) (\<lambda>i. i) \<and>
    remote_Answer h k who rby d a as client route s =
      (if validateAnswerRequest H (ps_runtime P) d a as = (None :: Item option reply option)
       then carried [ErrItemNotFound, ErrAlreadyAnswered, ErrIllegalTransition]
         (op_Answer (ps_store P) k who rby d a as
            (answeredClientFromRequest (ps_from P) (carriedAutomation client)) [firstRoute route] s) answeredItemOf
       else (s, Inl ErrPeerUnavailable)) \<and>
    remote_Close h k who client s = carried [ErrItemNotFound, ErrPermissionCloseWithoutDecision]
      (op_Close (ps_store P) k who (answeredClientFromRequest (ps_from P) (carriedAutomation client)) s) (\<lambda>i. i) \<and>
    (who \<noteq> [] \<longrightarrow> remote_Escalate h k who s =
      carried [ErrItemNotFound, ErrAlreadyEscalated, ErrItemNotOpen] (op_Escalate (ps_store P) k who s) (\<lambda>i. i)) \<and>
    (TrimSpace reason \<noteq> [] \<longrightarrow> remote_Flag h k reason s =
      carried [ErrFlagReasonRequired, ErrItemNotFound, ErrItemNotOpen] (op_Flag (ps_store P) k reason s) (\<lambda>i. i)) \<and>
    remote_Unflag h k s =
      carried [ErrFlagReasonRequired, ErrItemNotFound, ErrItemNotOpen] (op_Unflag (ps_store P) k s) (\<lambda>i. i) \<and>
    remote_Rate h k rating s = carried [ErrRatingInvalid, ErrItemNotFound] (op_Rate (ps_store P) k rating s) (\<lambda>i. i)"
proof -
  note calls = http_codes.remote_item_calls[OF assms(1,2,4), unfolded kept_defs]
  have pure: "fst (op_Get (ps_store P) k s) = s" for s by (rule store_contract.get_pure[OF assms(3)])
  note answer = http_codes.remote_answer_call[OF assms(1,2,4) pure, unfolded kept_defs]
  show ?thesis
    by (intro conjI impI http_codes.remote_read_call[OF assms(1,2)] calls) (simp_all add: answer)
qed

definition demo_peer :: "memdb peerServer" where
  "demo_peer = \<lparr>ps_lib = std_http, ps_unauthorized = ''UNAUTHORIZED'', ps_runtime = std_runtime,
     ps_store = localOps std_runtime (NewAttentionStore mem_kv 0) demo_env, ps_token = ''t'', ps_speaks = False,
     ps_from = \<lparr>from_UserAgent = ''Go-http-client/1.1'', from_RemoteAddr = ''10.0.0.1:1''\<rparr>,
     ps_unrouted = (\<lambda>_. 404), ps_other = (\<lambda>_ _ s. (s, Responded 501 Unreadable))\<rparr>"

definition demo_client :: "memdb httpRemoteStore" where
  "demo_client = \<lparr>hr_lib = std_http, hr_client = servePeer demo_peer, hr_token = ''t''\<rparr>"

lemma demo_connected: "connected std_http demo_peer demo_client"
  by (simp add: connected_def demo_peer_def demo_client_def)

lemma demo_peer_contract: "store_contract (ps_store demo_peer)"
  by (simp add: demo_peer_def local_store.store_contract_axioms)

lemma demo_pathID: "pathID demo_id" by code_simp

lemma remote_call_is_peer_call_witness:
  "remote_Get demo_client demo_id demo_s3 = (demo_s3, Inr demo_closed)"
proof -
  have "op_Get (ps_store demo_peer) demo_id demo_s3 = (demo_s3, Inr demo_closed)"
    by (simp add: demo_peer_def localOps_def mem_store.store_Get_abs demo_get)
  then show ?thesis
    using remote_call_is_peer_call[OF std_codes.http_codes_axioms demo_connected demo_peer_contract demo_pathID] by simp
qed

text \<open>The first answer wins across the federation: when the item is held by the peer and answered there, an
  answer sent through this store is refused with \<open>ErrAlreadyAnswered\<close>, as a local one is, and neither
  store nor the cache changes.\<close>

theorem federated_second_answer_refused:
  assumes "store_lib K ib ab R" and "store_run K ib ab R w (fed_remote st)" and "http_codes H"
    and "connected H P h" and "ps_store P = localOps R (NewAttentionStore K w) E" and "pathID k"
    and "store_contract local" and "peerOwned local k st"
    and "aItems (absStore ib ab (fed_remote st)) k = Some i" and "State i = AnsweredState"
    and "AnswerMechanism i \<noteq> PermissionAnswerMechanism \<or> rby = []"
    and "validateAnswerRequest H (ps_runtime P) d a as = (None :: Item option reply option)"
  shows "op_Answer (NewFederatingAttentionStore local (NewHTTPRemoteAttentionStore H (hr_client h) (hr_token h)) now after)
      k who rby d a as client route st = (st, Inl ErrAlreadyAnswered)"
proof -
  have h: "\<lparr>hr_lib = H, hr_client = hr_client h, hr_token = hr_token h\<rparr> = h"
    using assms(4) by (simp add: connected_def)
  have pure: "fst (op_Get (ps_store P) k s) = s" for s by (simp add: assms(5) localOps_def)
  have "store_Answer R (NewAttentionStore K w) (env_now E) k who rby d a as c rt (fed_remote st) =
      (fed_remote st, Inl ErrAlreadyAnswered)" for c rt
    using assms(9-11) by (simp add: store_Answer_def store_lib.getItem_abs[OF assms(1)] Let_def)
  then have "remote_Answer h k who rby d a as client route (fed_remote st) = (fed_remote st, Inl ErrAlreadyAnswered)"
    using http_codes.remote_answer_call[OF assms(3,4,6) pure] assms(5,12)
    by (simp add: localOps_def overWire_def keptByAnswer_def)
  then show ?thesis
    using assms(8)
    by (simp add: NewFederatingAttentionStore_def fed_Answer_def store_contract.routed_eq[OF assms(7)] onRemote_def
        remoteAnswer_def NewHTTPRemoteAttentionStore_def h)
qed

lemma demo_federated:
  "peerOwned (localOps std_runtime (NewAttentionStore mem_kv 0) demo_env) demo_id (NewFederatingState mem_empty p)"
  by (simp add: peerOwned_def localOps_def NewFederatingState_def mem_store.store_Get_abs demo_items0)

lemma federated_second_answer_refused_witness:
  "op_Answer (NewFederatingAttentionStore (localOps std_runtime (NewAttentionStore mem_kv 0) demo_env)
       (NewHTTPRemoteAttentionStore std_http (hr_client demo_client) (hr_token demo_client)) 5 5)
     demo_id ''other'' [] [] None [] None [] (NewFederatingState mem_empty demo_s2) =
   (NewFederatingState mem_empty demo_s2, Inl ErrAlreadyAnswered)"
proof (rule federated_second_answer_refused[where i = demo_answered, OF demo_store_lib _ std_codes.http_codes_axioms demo_connected _
    demo_pathID local_store.store_contract_axioms demo_federated])
  show "validateAnswerRequest std_http (ps_runtime demo_peer) [] None [] = (None :: Item option reply option)"
    by (simp add: validateAnswerRequest_def Decision_Validate_def)
qed (simp_all add: NewFederatingState_def demo_runs demo_get demo_peer_def demo_answered_state)

text \<open>Closing a peer's closed item loses its reason: the peer's store refuses with
  \<open>ErrIllegalTransition\<close>, which the local board answers with a conflict, but through the federation the same
  refusal arrives as \<open>ErrPeerUnavailable\<close>, a status that asks the caller to retry.\<close>

theorem federated_close_loses_reason:
  assumes "store_lib K ib ab R" and "store_run K ib ab R w (fed_remote st)" and "http_codes H"
    and "connected H P h" and "ps_store P = localOps R (NewAttentionStore K w) E" and "pathID k"
    and "store_contract local" and "peerOwned local k st"
    and "aItems (absStore ib ab (fed_remote st)) k = Some i" and "State i = ClosedState"
  shows "let F = NewFederatingAttentionStore local (NewHTTPRemoteAttentionStore H (hr_client h) (hr_token h)) now after
    in snd (op_Close (ps_store P) k who client (fed_remote st)) = Inl ErrIllegalTransition \<and>
       op_Close F k who client st = (st, Inl ErrPeerUnavailable) \<and>
       (wrapItemError H ErrIllegalTransition :: Item reply) = Failed 409 (lib_ErrorCodeValidation H) None \<and>
       snd (handleAttentionClose H F from k EmptyBody st) = Failed 503 ErrorCodePeerUnavailable None"
proof -
  have h: "\<lparr>hr_lib = H, hr_client = hr_client h, hr_token = hr_token h\<rparr> = h"
    using assms(4) by (simp add: connected_def)
  have "ValidateTransition ClosedState ClosedState = Some ErrIllegalTransition" by code_simp
  then have close: "store_Close (NewAttentionStore K w) (env_now E) k x c (fed_remote st) =
      (fed_remote st, Inl ErrIllegalTransition)" for x c
    using assms(9,10) by (simp add: store_Close_def store_lib.getItem_abs[OF assms(1)] Let_def)
  have "remote_Close h k x c (fed_remote st) = (fed_remote st, Inl ErrPeerUnavailable)" for x c
    using http_codes.remote_item_calls(2)[OF assms(3,4,6)] assms(5) close
    by (simp add: localOps_def overWire_def keptByItem_def)
  then have fed: "op_Close (NewFederatingAttentionStore local
      (NewHTTPRemoteAttentionStore H (hr_client h) (hr_token h)) now after) k x c st = (st, Inl ErrPeerUnavailable)" for x c
    using assms(8)
    by (simp add: NewFederatingAttentionStore_def fed_Close_def store_contract.routed_eq[OF assms(7)] onRemote_def
        NewHTTPRemoteAttentionStore_def h)
  show ?thesis
    using close assms(5) pathID_D(1)[OF assms(6)]
    by (simp add: fed localOps_def handleAttentionClose_def replyWith_def wrapItemError_def)
qed

lemma federated_close_loses_reason_witness:
  "op_Close (NewFederatingAttentionStore (localOps std_runtime (NewAttentionStore mem_kv 0) demo_env)
       (NewHTTPRemoteAttentionStore std_http (hr_client demo_client) (hr_token demo_client)) 5 5)
     demo_id [] None (NewFederatingState mem_empty demo_s3) =
   (NewFederatingState mem_empty demo_s3, Inl ErrPeerUnavailable)"
proof -
  have "store_run mem_kv mem_ib mem_ab std_runtime 0 (fed_remote (NewFederatingState mem_empty demo_s3))"
    "ps_store demo_peer = localOps std_runtime (NewAttentionStore mem_kv 0) demo_env"
    "aItems (demo_abs (fed_remote (NewFederatingState mem_empty demo_s3))) demo_id = Some demo_closed"
    by (simp_all add: NewFederatingState_def demo_runs demo_get demo_peer_def)
  from federated_close_loses_reason[OF demo_store_lib this(1) std_codes.http_codes_axioms demo_connected this(2)
      demo_pathID local_store.store_contract_axioms demo_federated this(3) demo_closed_id(2)]
  show ?thesis by (simp add: Let_def)
qed

end
