(* ===== verification/Ledger.thy ===== *)
theory Ledger
  imports Kv "HOL-Library.List_Lexorder" "HOL-Library.Char_ord"
begin

text \<open>
  The spawn ledger's row and its partial update (\<open>session-ledger.go\<close>,
  \<open>session-ledger-patch.go\<close>, and the location vocabulary of
  \<open>session-heartbeat.go\<close>). A patch is merged over the row's JSON form, so the
  row's encoder and the decoder's rules (field names in any case, unknown names and
  wrong types refused) are part of the model. How \<open>github.com/bborbe/time\<close> writes and reads
  an instant is the parameter \<open>timeJSON\<close>.
\<close>

section \<open>JSON values\<close>

datatype json =
    JNull
  | JBool bool
  | JNumber string
  | JString string
  | JArray "json list"
  | JObject "(string \<times> json) list"

record timeJSON =
  tj_encode :: "instant \<Rightarrow> json"
  tj_decode :: "json \<Rightarrow> instant option"

section \<open>The row\<close>

type_synonym SessionHeartbeatLocation = string

definition LocalSessionHeartbeatLocation :: SessionHeartbeatLocation where
  "LocalSessionHeartbeatLocation = ''local''"
definition PodSessionHeartbeatLocation :: SessionHeartbeatLocation where
  "PodSessionHeartbeatLocation = ''pod''"

definition AvailableSessionHeartbeatLocations :: "SessionHeartbeatLocation list" where
  "AvailableSessionHeartbeatLocations = [LocalSessionHeartbeatLocation, PodSessionHeartbeatLocation]"

definition SessionHeartbeatLocation_Validate :: "runtime \<Rightarrow> SessionHeartbeatLocation \<Rightarrow> error option" where
  "SessionHeartbeatLocation_Validate R l =
     (if \<not> contains R AvailableSessionHeartbeatLocations l then Some ValidationError else None)"

record SessionLedgerEntry =
  led_SessionID :: string
  led_AgentID :: string
  led_Label :: string
  led_Mode :: string
  led_ModeSource :: string
  led_Launcher :: string
  led_Cwd :: string
  led_WorkerID :: string
  led_WrapperSessionID :: string
  led_Target :: string
  led_PaneID :: string
  led_ResumedFrom :: string
  led_Policy :: string
  led_SpawnerSessionID :: string
  led_Role :: string
  led_Task :: string
  led_Vault :: string
  led_Location :: SessionHeartbeatLocation
  led_SpawnedAt :: instant
  led_EndedAt :: "instant option"
  led_StoppedAt :: "instant option"
  led_Status :: string
  led_SupervisorExitedAt :: "instant option"
  led_UnknownReason :: string
  led_Result :: "json option"
  led_ParkedPermission :: "json option"

definition emptyEntry :: SessionLedgerEntry where
  "emptyEntry = \<lparr>led_SessionID = [], led_AgentID = [], led_Label = [], led_Mode = [], led_ModeSource = [],
     led_Launcher = [], led_Cwd = [], led_WorkerID = [], led_WrapperSessionID = [], led_Target = [],
     led_PaneID = [], led_ResumedFrom = [], led_Policy = [], led_SpawnerSessionID = [], led_Role = [],
     led_Task = [], led_Vault = [], led_Location = [], led_SpawnedAt = zeroTime, led_EndedAt = None,
     led_StoppedAt = None, led_Status = [], led_SupervisorExitedAt = None, led_UnknownReason = [],
     led_Result = None, led_ParkedPermission = None\<rparr>"

definition Ledger_validateOptionalTask :: "SessionLedgerEntry \<Rightarrow> error option" where
  "Ledger_validateOptionalTask e = (if led_Task e = [] \<and> led_Vault e \<noteq> [] then Some ValidationError else None)"

definition Ledger_validateOptionalVault :: "SessionLedgerEntry \<Rightarrow> error option" where
  "Ledger_validateOptionalVault e = (if led_Vault e = [] \<and> led_Task e \<noteq> [] then Some ValidationError else None)"

definition validateSpawnedAt :: "SessionLedgerEntry \<Rightarrow> error option" where
  "validateSpawnedAt e = (if led_SpawnedAt e = zeroTime then Some ValidationError else None)"

definition Ledger_Validate :: "runtime \<Rightarrow> SessionLedgerEntry \<Rightarrow> error option" where
  "Ledger_Validate R e =
     validateAll R
       [(''SessionID'', SessionID_Validate (led_SessionID e)),
        (''Task'', Ledger_validateOptionalTask e),
        (''Vault'', Ledger_validateOptionalVault e),
        (''Location'', SessionHeartbeatLocation_Validate R (led_Location e)),
        (''SpawnedAt'', validateSpawnedAt e)]"

section \<open>The row's JSON object\<close>

text \<open>\<open>json.Marshal\<close> of the row: its fields in declaration order, less the empty ones
  marked \<open>omitempty\<close>.\<close>

definition omitEmpty :: "string \<Rightarrow> json option \<Rightarrow> (string \<times> json) list" where
  "omitEmpty name val = (case val of None \<Rightarrow> [] | Some j \<Rightarrow> [(name, j)])"

definition nonEmpty :: "string \<Rightarrow> json option" where
  "nonEmpty s = (if s = [] then None else Some (JString s))"

definition entryFields :: "timeJSON \<Rightarrow> SessionLedgerEntry \<Rightarrow> (string \<times> json option) list" where
  "entryFields T e =
     [(''session_id'', Some (JString (led_SessionID e))), (''agent_id'', Some (JString (led_AgentID e))),
      (''label'', Some (JString (led_Label e))), (''mode'', Some (JString (led_Mode e))),
      (''mode_source'', Some (JString (led_ModeSource e))), (''launcher'', Some (JString (led_Launcher e))),
      (''cwd'', Some (JString (led_Cwd e))), (''worker_id'', Some (JString (led_WorkerID e))),
      (''wrapper_session_id'', nonEmpty (led_WrapperSessionID e)),
      (''target'', Some (JString (led_Target e))), (''pane_id'', Some (JString (led_PaneID e))),
      (''resumed_from'', Some (JString (led_ResumedFrom e))), (''policy'', Some (JString (led_Policy e))),
      (''spawner_session_id'', Some (JString (led_SpawnerSessionID e))),
      (''role'', Some (JString (led_Role e))), (''task'', Some (JString (led_Task e))),
      (''vault'', Some (JString (led_Vault e))), (''location'', Some (JString (led_Location e))),
      (''spawned_at'', Some (tj_encode T (led_SpawnedAt e))),
      (''ended_at'', map_option (tj_encode T) (led_EndedAt e)),
      (''stopped_at'', map_option (tj_encode T) (led_StoppedAt e)),
      (''status'', Some (JString (led_Status e))),
      (''supervisor_exited_at'', map_option (tj_encode T) (led_SupervisorExitedAt e)),
      (''unknown_reason'', Some (JString (led_UnknownReason e))),
      (''result'', led_Result e), (''parked_permission'', led_ParkedPermission e)]"

definition marshalEntry :: "timeJSON \<Rightarrow> SessionLedgerEntry \<Rightarrow> (string \<times> json) list" where
  "marshalEntry T e = concat (map (\<lambda>(name, val). omitEmpty name val) (entryFields T e))"

text \<open>\<open>encoding/json\<close> finds a field by its exact name, else by the name with its case
  folded: ASCII letters, and the two other runes whose fold is an ASCII letter, the long s and
  the Kelvin sign.\<close>

definition ledgerFields :: "string list" where
  "ledgerFields =
     [''session_id'', ''agent_id'', ''label'', ''mode'', ''mode_source'', ''launcher'', ''cwd'', ''worker_id'',
      ''wrapper_session_id'', ''target'', ''pane_id'', ''resumed_from'', ''policy'', ''spawner_session_id'',
      ''role'', ''task'', ''vault'', ''location'', ''spawned_at'', ''ended_at'', ''stopped_at'', ''status'',
      ''supervisor_exited_at'', ''unknown_reason'', ''result'', ''parked_permission'']"

definition upperASCII :: "char \<Rightarrow> char" where
  "upperASCII c = (if CHR ''a'' \<le> c \<and> c \<le> CHR ''z'' then char_of (of_char c - 32 :: nat) else c)"

fun foldName :: "string \<Rightarrow> string" where
  "foldName (a # b # cs) =
     (if a = CHR 0xC5 \<and> b = CHR 0xBF then CHR ''S'' # foldName cs
      else if a = CHR 0xE2 \<and> b = CHR 0x84 \<and> cs \<noteq> [] \<and> hd cs = CHR 0xAA then CHR ''K'' # foldName (tl cs)
      else upperASCII a # foldName (b # cs))"
| "foldName [a] = [upperASCII a]"
| "foldName [] = []"

definition fieldOf :: "string \<Rightarrow> string option" where
  "fieldOf key =
     (if key \<in> set ledgerFields then Some key else find (\<lambda>f. foldName f = foldName key) ledgerFields)"

text \<open>Decoding one value into its field; \<open>None\<close> is a value of the wrong type. A JSON null leaves a
  string as it is, unsets a pointer, and is itself a raw value.\<close>

definition setString :: "((string \<Rightarrow> string) \<Rightarrow> 'e \<Rightarrow> 'e) \<Rightarrow> json \<Rightarrow> 'e \<Rightarrow> 'e option" where
  "setString update j e =
     (case j of JString s \<Rightarrow> Some (update (\<lambda>_. s) e) | JNull \<Rightarrow> Some e | _ \<Rightarrow> None)"

definition setTime :: "timeJSON \<Rightarrow> ((instant option \<Rightarrow> instant option) \<Rightarrow> 'e \<Rightarrow> 'e) \<Rightarrow> json \<Rightarrow> 'e \<Rightarrow> 'e option" where
  "setTime T update j e =
     (if j = JNull then Some (update (\<lambda>_. None) e)
      else map_option (\<lambda>t. update (\<lambda>_. Some t) e) (tj_decode T j))"

definition setField :: "timeJSON \<Rightarrow> string \<Rightarrow> json \<Rightarrow> SessionLedgerEntry \<Rightarrow> SessionLedgerEntry option" where
  "setField T f j e =
     (if f = ''session_id'' then setString led_SessionID_update j e
      else if f = ''agent_id'' then setString led_AgentID_update j e
      else if f = ''label'' then setString led_Label_update j e
      else if f = ''mode'' then setString led_Mode_update j e
      else if f = ''mode_source'' then setString led_ModeSource_update j e
      else if f = ''launcher'' then setString led_Launcher_update j e
      else if f = ''cwd'' then setString led_Cwd_update j e
      else if f = ''worker_id'' then setString led_WorkerID_update j e
      else if f = ''wrapper_session_id'' then setString led_WrapperSessionID_update j e
      else if f = ''target'' then setString led_Target_update j e
      else if f = ''pane_id'' then setString led_PaneID_update j e
      else if f = ''resumed_from'' then setString led_ResumedFrom_update j e
      else if f = ''policy'' then setString led_Policy_update j e
      else if f = ''spawner_session_id'' then setString led_SpawnerSessionID_update j e
      else if f = ''role'' then setString led_Role_update j e
      else if f = ''task'' then setString led_Task_update j e
      else if f = ''vault'' then setString led_Vault_update j e
      else if f = ''location'' then setString led_Location_update j e
      else if f = ''spawned_at'' then map_option (\<lambda>t. e\<lparr>led_SpawnedAt := t\<rparr>) (tj_decode T j)
      else if f = ''ended_at'' then setTime T led_EndedAt_update j e
      else if f = ''stopped_at'' then setTime T led_StoppedAt_update j e
      else if f = ''status'' then setString led_Status_update j e
      else if f = ''supervisor_exited_at'' then setTime T led_SupervisorExitedAt_update j e
      else if f = ''unknown_reason'' then setString led_UnknownReason_update j e
      else if f = ''result'' then Some (e\<lparr>led_Result := Some j\<rparr>)
      else if f = ''parked_permission'' then Some (e\<lparr>led_ParkedPermission := Some j\<rparr>)
      else None)"

text \<open>The strict decoder: keys in the order of the object, an unknown one refused.\<close>

fun decodeFields :: "timeJSON \<Rightarrow> (string \<times> json) list \<Rightarrow> SessionLedgerEntry \<Rightarrow> SessionLedgerEntry option" where
  "decodeFields T [] e = Some e"
| "decodeFields T ((key, j) # kvs) e =
     (case fieldOf key of
        None \<Rightarrow> None
      | Some f \<Rightarrow> (case setField T f j e of None \<Rightarrow> None | Some e \<Rightarrow> decodeFields T kvs e))"

section \<open>The patch\<close>

type_synonym SessionLedgerPatch = "(string \<times> json) list"

definition sessionIDField :: string where "sessionIDField = ''session_id''"

definition isJSONNull :: "json \<Rightarrow> bool" where "isJSONNull j = (j = JNull)"

text \<open>Updates of a Go map, its entries kept as a list with one entry per key.\<close>

definition mapDelete :: "string \<Rightarrow> (string \<times> json) list \<Rightarrow> (string \<times> json) list" where
  "mapDelete key m = filter (\<lambda>e. fst e \<noteq> key) m"

definition mapSet :: "string \<Rightarrow> json \<Rightarrow> (string \<times> json) list \<Rightarrow> (string \<times> json) list" where
  "mapSet key j m = mapDelete key m @ [(key, j)]"

definition overlay :: "(string \<times> json) list \<Rightarrow> SessionLedgerPatch \<Rightarrow> (string \<times> json) list" where
  "overlay m p = foldl (\<lambda>m (key, j). if isJSONNull j then mapDelete key m else mapSet key j m) m p"

text \<open>\<open>json.Marshal\<close> writes a map with its keys in byte order.\<close>

definition Patch_Apply :: "timeJSON \<Rightarrow> SessionLedgerPatch \<Rightarrow> SessionLedgerEntry \<Rightarrow> error + SessionLedgerEntry" where
  "Patch_Apply T p current =
     (if sessionIDField \<in> set (map fst p) then Inl ErrSessionLedgerPatchInvalid
      else (case decodeFields T (sort_key fst (overlay (marshalEntry T current) p)) emptyEntry of
              None \<Rightarrow> Inl ErrSessionLedgerPatchInvalid
            | Some merged \<Rightarrow> Inr merged))"

end
