(* ===== verification/PatchLaws.thy ===== *)
theory PatchLaws
  imports Ledger
begin

text \<open>
  What a patch does to a row, field by field. The row is seen as the table of its JSON fields
  (\<open>entryFields\<close>): decoding one value replaces one line of the table, so a merge is the
  row's table with the named lines replaced.
\<close>

section \<open>Field by field\<close>

definition timeFields :: "string list" where
  "timeFields = [''spawned_at'', ''ended_at'', ''stopped_at'', ''supervisor_exited_at'']"

definition rawFields :: "string list" where
  "rawFields = [''result'', ''parked_permission'']"

text \<open>What a field that was given the value \<open>j\<close> shows on the wire afterwards; \<open>None\<close> when
  \<open>j\<close> has the wrong type for it.\<close>

definition readsAs :: "timeJSON \<Rightarrow> string \<Rightarrow> json \<Rightarrow> json option option" where
  "readsAs T f j =
     (if f \<in> set rawFields then Some (Some j)
      else if j = JNull then None
      else if f \<in> set timeFields then map_option (\<lambda>t. Some (tj_encode T t)) (tj_decode T j)
      else (case j of JString s \<Rightarrow> Some (if f = ''wrapper_session_id'' then nonEmpty s else Some j)
            | _ \<Rightarrow> None))"

definition fieldVal :: "timeJSON \<Rightarrow> SessionLedgerEntry \<Rightarrow> string \<Rightarrow> json option" where
  "fieldVal T e f = map_of (marshalEntry T e) f"

definition setLine :: "string \<Rightarrow> 'v \<Rightarrow> (string \<times> 'v) list \<Rightarrow> (string \<times> 'v) list" where
  "setLine f v table = map (\<lambda>(n, w). (n, if n = f then v else w)) table"

lemma setString_JString [simp]: "setString u (JString s) e = Some (u (\<lambda>_. s) e)"
  by (simp add: setString_def)

lemma setField_table:
  assumes "f \<in> set ledgerFields" and "readsAs T f j = Some v"
  shows "\<exists>e'. setField T f j e = Some e' \<and> entryFields T e' = setLine f v (entryFields T e)"
  using assms
  by (simp add: ledgerFields_def)
    (elim disjE;
     auto simp: readsAs_def rawFields_def timeFields_def setField_def setTime_def entryFields_def setLine_def
       split: json.splits if_splits)

lemma setField_refused:
  assumes "f \<in> set ledgerFields" and "readsAs T f j = None" and "j \<noteq> JNull"
  shows "setField T f j e = None"
  using assms
  by (simp add: ledgerFields_def)
    (elim disjE;
     auto simp: readsAs_def rawFields_def timeFields_def setField_def setTime_def setString_def
       split: json.splits if_splits)

lemma fieldOf_known [simp]: "f \<in> set ledgerFields \<Longrightarrow> fieldOf f = Some f"
  by (simp add: fieldOf_def)

lemma entryFields_names [simp]: "map fst (entryFields T e) = ledgerFields"
  by (simp add: entryFields_def ledgerFields_def)

lemma distinct_ledgerFields [simp]: "distinct ledgerFields"
  by (simp add: ledgerFields_def)

section \<open>The table and the wire\<close>

definition wireOf :: "(string \<times> json option) list \<Rightarrow> (string \<times> json) list" where
  "wireOf table = concat (map (\<lambda>(name, val). omitEmpty name val) table)"

lemma marshal_wireOf: "marshalEntry T e = wireOf (entryFields T e)"
  by (simp add: marshalEntry_def wireOf_def)

lemma wireOf_simps [simp]:
  "wireOf [] = []"
  "wireOf ((n, v) # table) = omitEmpty n v @ wireOf table"
  by (simp_all add: wireOf_def)

lemma omitEmpty_simps [simp]: "omitEmpty n None = []" "omitEmpty n (Some j) = [(n, j)]"
  by (simp_all add: omitEmpty_def)

lemma wireOf_names: "fst ` set (wireOf table) \<subseteq> fst ` set table"
proof (induction table)
  case (Cons row table)
  then show ?case by (cases row; cases "snd row") auto
qed simp

lemma wireOf_distinct: "distinct (map fst table) \<Longrightarrow> distinct (map fst (wireOf table))"
proof (induction table)
  case (Cons row table)
  then show ?case using wireOf_names[of table] by (cases row; cases "snd row") auto
qed simp

lemma map_of_wireOf: "distinct (map fst table) \<Longrightarrow> map_of (wireOf table) f = Option.bind (map_of table f) id"
proof (induction table)
  case (Cons row table)
  obtain n v where row: "row = (n, v)" by (cases row)
  have "n \<notin> fst ` set table" using Cons.prems by (simp add: row)
  then have "map_of (wireOf table) n = None" "map_of table n = None"
    using wireOf_names[of table] by (auto simp: map_of_eq_None_iff)
  then show ?case using Cons by (cases v) (auto simp: row)
qed simp

lemma marshal_names: "set (map fst (marshalEntry T e)) \<subseteq> set ledgerFields"
  using wireOf_names[of "entryFields T e"] by (metis marshal_wireOf entryFields_names set_map)

lemma marshal_distinct: "distinct (map fst (marshalEntry T e))"
  by (simp add: marshal_wireOf wireOf_distinct)

lemma fieldVal_table: "fieldVal T e f = Option.bind (map_of (entryFields T e) f) id"
  by (simp add: fieldVal_def marshal_wireOf map_of_wireOf)

section \<open>Decoding\<close>

definition wellTyped :: "timeJSON \<Rightarrow> string \<times> json \<Rightarrow> bool" where
  "wellTyped T kv \<longleftrightarrow> fst kv \<in> set ledgerFields \<and> readsAs T (fst kv) (snd kv) \<noteq> None"

text \<open>The table with every named line replaced by what its value reads as.\<close>

definition setLines :: "timeJSON \<Rightarrow> (string \<rightharpoonup> json) \<Rightarrow> (string \<times> json option) list \<Rightarrow> (string \<times> json option) list" where
  "setLines T named table =
     map (\<lambda>(n, w). (n, case named n of None \<Rightarrow> w | Some j \<Rightarrow> the (readsAs T n j))) table"

lemma map_of_setLines:
  "map_of (setLines T named table) f =
     map_option (\<lambda>w. case named f of None \<Rightarrow> w | Some j \<Rightarrow> the (readsAs T f j)) (map_of table f)"
  by (cases "named f"; induction table) (auto simp: setLines_def)

text \<open>Keys are resolved to fields; of two keys of one field the later one counts.\<close>

definition resolvable :: "timeJSON \<Rightarrow> string \<times> json \<Rightarrow> bool" where
  "resolvable T kv \<longleftrightarrow> (\<exists>f \<in> set ledgerFields. fieldOf (fst kv) = Some f \<and> readsAs T f (snd kv) \<noteq> None)"

lemma wellTyped_resolvable: "wellTyped T kv \<Longrightarrow> resolvable T kv"
  by (simp add: wellTyped_def resolvable_def)

definition resolved :: "(string \<times> json) list \<Rightarrow> (string \<times> json) list" where
  "resolved kvs = map (\<lambda>(k, j). (the (fieldOf k), j)) kvs"

lemma decodeFields_table:
  assumes "\<forall>kv \<in> set kvs. resolvable T kv"
  shows "\<exists>e'. decodeFields T kvs e = Some e' \<and>
    entryFields T e' = setLines T (map_of (rev (resolved kvs))) (entryFields T e)"
  using assms
proof (induction kvs arbitrary: e)
  case Nil
  then show ?case by (simp add: setLines_def resolved_def)
next
  case (Cons kv kvs)
  obtain k j where kv: "kv = (k, j)" by (cases kv)
  from Cons.prems obtain f v where f: "f \<in> set ledgerFields" "fieldOf k = Some f" and v: "readsAs T f j = Some v"
    by (auto simp: resolvable_def kv)
  obtain e1 where e1: "setField T f j e = Some e1" "entryFields T e1 = setLine f v (entryFields T e)"
    using setField_table[OF f(1) v] by blast
  obtain e' where "decodeFields T kvs e1 = Some e'"
    "entryFields T e' = setLines T (map_of (rev (resolved kvs))) (entryFields T e1)"
    using Cons.IH[of e1] Cons.prems by auto
  moreover have "setLines T (map_of (rev (resolved kvs))) (setLine f v table) =
      setLines T (map_of (rev (resolved (kv # kvs)))) table" for table
    using f v by (auto simp: setLines_def setLine_def kv resolved_def map_add_def split: option.splits)
  ultimately show ?case using e1 f by (simp add: kv)
qed

text \<open>The spawn time is decoded on its own: two instants may share a text.\<close>

lemma emptyEntry_spawned [simp]: "led_SpawnedAt emptyEntry = zeroTime"
  by (simp add: emptyEntry_def)

lemma setField_spawned:
  "setField T f j e = Some e1 \<Longrightarrow>
     led_SpawnedAt e1 = (if f = ''spawned_at'' then the (tj_decode T j) else led_SpawnedAt e)"
  by (auto simp: setField_def setString_def setTime_def split: if_splits json.splits)

lemma decodeFields_spawned:
  "decodeFields T kvs e = Some e' \<Longrightarrow>
     led_SpawnedAt e' = (case map_of (rev (resolved kvs)) ''spawned_at'' of
        None \<Rightarrow> led_SpawnedAt e | Some j \<Rightarrow> the (tj_decode T j))"
proof (induction kvs arbitrary: e)
  case (Cons kv kvs)
  obtain k j where kv: "kv = (k, j)" by (cases kv)
  then obtain f e1 where "fieldOf k = Some f" "setField T f j e = Some e1" "decodeFields T kvs e1 = Some e'"
    using Cons.prems by (auto split: option.splits)
  then show ?case
    using Cons.IH[of e1] setField_spawned[of T f j e e1]
    by (auto simp: kv resolved_def map_add_def split: option.splits if_splits)
qed (simp add: resolved_def)

text \<open>In a sorted object the greatest key of a field is the later one.\<close>

lemma map_of_resolved:
  assumes "sorted (map fst kvs)" and "distinct (map fst kvs)" and "\<forall>kv \<in> set kvs. fieldOf (fst kv) \<noteq> None"
    and "(k, j) \<in> set kvs" and "fieldOf k = Some f"
    and "\<forall>k' \<in> fst ` set kvs. fieldOf k' = Some f \<longrightarrow> k' \<le> k"
  shows "map_of (rev (resolved kvs)) f = Some j"
proof -
  obtain us vs where kvs: "kvs = us @ (k, j) # vs" using assms(4) split_list by fastforce
  have after: "k \<le> k' \<and> k \<noteq> k'" if "k' \<in> fst ` set vs" for k'
    using assms(1,2) that by (auto simp: kvs sorted_append rev_image_eqI)
  have "fieldOf k' \<noteq> Some f" if "k' \<in> fst ` set vs" for k'
  proof
    assume "fieldOf k' = Some f"
    moreover have "k' \<in> fst ` set kvs" using that by (auto simp: kvs)
    ultimately have "k' \<le> k" using assms(6) by blast
    then show False using after[OF that] by simp
  qed
  moreover have "fieldOf k' \<noteq> None" if "k' \<in> fst ` set vs" for k'
    using assms(3) that by (auto simp: kvs)
  ultimately have "f \<notin> fst ` set (resolved vs)" by (force simp: resolved_def)
  then have "map_of (rev (resolved vs)) f = None" by (simp add: map_of_eq_None_iff)
  then show ?thesis using assms(5) by (simp add: kvs resolved_def map_add_def)
qed

lemma map_of_resolved_None:
  assumes "\<forall>kv \<in> set kvs. fieldOf (fst kv) \<noteq> None" and "\<forall>k \<in> fst ` set kvs. fieldOf k \<noteq> Some f"
  shows "map_of (rev (resolved kvs)) f = None"
  using assms by (fastforce simp: resolved_def map_of_eq_None_iff)

lemma decodeFields_refused:
  assumes "(k, j) \<in> set kvs" and "\<And>e. (case fieldOf k of None \<Rightarrow> None | Some f \<Rightarrow> setField T f j e) = None"
  shows "decodeFields T kvs e = None"
  using assms(1)
proof (induction kvs arbitrary: e)
  case (Cons kv kvs)
  then show ?case
    using assms(2) by (cases kv) (force split: option.splits)
qed simp

section \<open>Overlaying the patch\<close>

lemma mapDelete_names: "set (map fst (mapDelete k m)) = set (map fst m) - {k}"
  by (auto simp: mapDelete_def)

lemma mapSet_names: "set (map fst (mapSet k j m)) = insert k (set (map fst m))"
  by (auto simp: mapSet_def mapDelete_def)

lemma distinct_mapDelete: "distinct (map fst m) \<Longrightarrow> distinct (map fst (mapDelete k m))"
  by (simp add: mapDelete_def distinct_map_filter)

lemma distinct_mapSet: "distinct (map fst m) \<Longrightarrow> distinct (map fst (mapSet k j m))"
  using distinct_mapDelete[of m k] by (auto simp: mapSet_def mapDelete_def)

lemma map_of_mapDelete: "map_of (mapDelete k m) = (map_of m)(k := None)"
  by (simp add: mapDelete_def map_of_filter_key)

lemma map_of_mapSet: "map_of (mapSet k j m) = (map_of m)(k \<mapsto> j)"
  by (auto simp: mapSet_def map_add_def map_of_mapDelete fun_eq_iff split: option.splits)

definition overlaid :: "(string \<rightharpoonup> json) \<Rightarrow> (string \<rightharpoonup> json) \<Rightarrow> string \<rightharpoonup> json" where
  "overlaid p m k = (case p k of None \<Rightarrow> m k | Some j \<Rightarrow> if isJSONNull j then None else Some j)"

lemma overlay_Cons: "overlay m ((k, j) # p) = overlay (if isJSONNull j then mapDelete k m else mapSet k j m) p"
  by (simp add: overlay_def)

lemma map_of_overlay:
  "distinct (map fst p) \<Longrightarrow> map_of (overlay m p) = overlaid (map_of p) (map_of m)"
proof (induction p arbitrary: m)
  case Nil
  then show ?case by (simp add: overlay_def overlaid_def fun_eq_iff)
next
  case (Cons kv p)
  then have "map_of p (fst kv) = None" by (simp add: map_of_eq_None_iff)
  then show ?case
    using Cons
    by (cases kv) (auto simp: overlay_Cons map_of_mapDelete map_of_mapSet overlaid_def fun_eq_iff split: option.splits)
qed

lemma overlay_distinct: "distinct (map fst m) \<Longrightarrow> distinct (map fst (overlay m p))"
  by (induction p arbitrary: m) (auto simp: overlay_Cons distinct_mapDelete distinct_mapSet overlay_def[of _ "[]"])

lemma map_of_sort_key: "distinct (map fst m) \<Longrightarrow> map_of (sort_key fst m) = map_of m"
proof (rule map_of_inject_set[THEN iffD2])
  assume d: "distinct (map fst m)"
  then have "distinct m" by (simp add: distinct_map)
  then show "distinct (map fst (sort_key fst m))"
    using d by (simp add: distinct_map)
qed simp_all

section \<open>The merge\<close>

text \<open>The values that come from the row are of the type of their field, when the text of its times
  reads back.\<close>

definition rowTextual :: "(instant \<Rightarrow> bool) \<Rightarrow> SessionLedgerEntry \<Rightarrow> bool" where
  "rowTextual textual e \<longleftrightarrow>
     textual (led_SpawnedAt e) \<and>
     (\<forall>t \<in> set_option (led_EndedAt e) \<union> set_option (led_StoppedAt e) \<union> set_option (led_SupervisorExitedAt e).
        textual t)"

locale time_json =
  fixes T :: timeJSON and textual :: "instant \<Rightarrow> bool"
  assumes reads_back: "textual t \<Longrightarrow> tj_decode T (tj_encode T t) = Some t"
    and not_null: "textual t \<Longrightarrow> tj_encode T t \<noteq> JNull"
begin

lemma own_fields:
  assumes "rowTextual textual e" and "(f, Some j) \<in> set (entryFields T e)"
  shows "readsAs T f j = Some (Some j)"
  using assms
  by (simp add: entryFields_def)
    (elim disjE; auto simp: readsAs_def rawFields_def timeFields_def rowTextual_def reads_back not_null
       nonEmpty_def eq_commute[of "Some _" "map_option _ _"] split: if_splits)

lemma own_wellTyped:
  assumes "rowTextual textual e" and "(f, j) \<in> set (marshalEntry T e)"
  shows "wellTyped T (f, j) \<and> readsAs T f j = Some (Some j)"
proof -
  have "(f, Some j) \<in> set (entryFields T e)"
    using assms(2) by (auto simp: marshalEntry_def omitEmpty_def split: option.splits)
  then have "readsAs T f j = Some (Some j)" by (rule own_fields[OF assms(1)])
  moreover have "f \<in> set ledgerFields" using marshal_names[of T e] assms(2) by force
  ultimately show ?thesis by (simp add: wellTyped_def)
qed

text \<open>The table of a merge, in terms of what the keys of the merged object resolve to.\<close>

lemma merge_table:
  assumes "rowTextual textual e" and "distinct (map fst p)" and "sessionIDField \<notin> set (map fst p)"
    and typed: "\<forall>kv \<in> set p. snd kv \<noteq> JNull \<longrightarrow> resolvable T kv"
  shows "\<exists>e' kvs. Patch_Apply T p e = Inr e' \<and> sorted (map fst kvs) \<and> distinct (map fst kvs) \<and>
    map_of kvs = overlaid (map_of p) (fieldVal T e) \<and> (\<forall>kv \<in> set kvs. resolvable T kv) \<and>
    entryFields T e' = setLines T (map_of (rev (resolved kvs))) (entryFields T emptyEntry) \<and>
    led_SpawnedAt e' = (case map_of (rev (resolved kvs)) ''spawned_at'' of
        None \<Rightarrow> zeroTime | Some j \<Rightarrow> the (tj_decode T j))"
proof -
  let ?m = "overlay (marshalEntry T e) p"
  have d: "distinct (map fst ?m)" by (rule overlay_distinct[OF marshal_distinct])
  have m: "map_of ?m = overlaid (map_of p) (fieldVal T e)"
    by (simp add: map_of_overlay assms(2) fieldVal_def[abs_def])
  have "resolvable T kv" if "kv \<in> set ?m" for kv
  proof -
    obtain k j where kv: "kv = (k, j)" by (cases kv)
    have "overlaid (map_of p) (fieldVal T e) k = Some j"
      using that d by (simp add: kv m[symmetric])
    then consider "(k, j) \<in> set p" "j \<noteq> JNull" | "(k, j) \<in> set (marshalEntry T e)"
      using map_of_SomeD[of p k j] map_of_SomeD[of "marshalEntry T e" k j]
      by (auto simp: overlaid_def fieldVal_def isJSONNull_def split: option.splits if_splits)
    then show ?thesis
      by cases (use typed own_wellTyped[OF assms(1)] wellTyped_resolvable in \<open>auto simp: kv\<close>)
  qed
  then have all: "\<forall>kv \<in> set (sort_key fst ?m). resolvable T kv" by simp
  moreover have "distinct (map fst (sort_key fst ?m))" using d by (simp add: distinct_map)
  ultimately show ?thesis
    using decodeFields_table[OF all, of emptyEntry] decodeFields_spawned[of T "sort_key fst ?m" emptyEntry] assms(3) m
    by (auto simp: map_of_sort_key[OF d] Patch_Apply_def intro!: exI[of _ "sort_key fst ?m"] split: option.splits)
qed

text \<open>One line of the merged table: the value of the greatest key that resolves to the field.\<close>

lemma merged_field:
  assumes f: "f \<in> set ledgerFields" and kvs: "sorted (map fst kvs)" "distinct (map fst kvs)"
    "\<forall>kv \<in> set kvs. resolvable T kv"
    and table: "entryFields T e' = setLines T (map_of (rev (resolved kvs))) (entryFields T emptyEntry)"
  shows "map_of kvs k = Some j \<Longrightarrow> fieldOf k = Some f \<Longrightarrow>
      \<forall>k'. map_of kvs k' \<noteq> None \<and> fieldOf k' = Some f \<longrightarrow> k' \<le> k \<Longrightarrow>
      fieldVal T e' f = the (readsAs T f j)"
    and "\<forall>k. map_of kvs k \<noteq> None \<longrightarrow> fieldOf k \<noteq> Some f \<Longrightarrow> fieldVal T e' f = fieldVal T emptyEntry f"
proof -
  obtain w where w: "map_of (entryFields T emptyEntry) f = Some w"
    using f entryFields_names[of T emptyEntry] by (metis map_of_eq_None_iff not_None_eq set_map)
  have known: "\<forall>kv \<in> set kvs. fieldOf (fst kv) \<noteq> None" using kvs(3) by (auto simp: resolvable_def)
  have keys: "k \<in> fst ` set kvs \<longleftrightarrow> map_of kvs k \<noteq> None" for k by (simp add: map_of_eq_None_iff)
  note val = fieldVal_table[of T e'] fieldVal_table[of T emptyEntry] table map_of_setLines w
  show "fieldVal T e' f = the (readsAs T f j)"
    if "map_of kvs k = Some j" "fieldOf k = Some f" "\<forall>k'. map_of kvs k' \<noteq> None \<and> fieldOf k' = Some f \<longrightarrow> k' \<le> k"
    using map_of_resolved[OF kvs(1,2) known map_of_SomeD[OF that(1)] that(2)] that(3)
    unfolding keys by (auto simp: val keys)
  show "fieldVal T e' f = fieldVal T emptyEntry f" if "\<forall>k. map_of kvs k \<noteq> None \<longrightarrow> fieldOf k \<noteq> Some f"
    using map_of_resolved_None[OF known, of f] that keys by (auto simp: val)
qed

lemma own_value: "rowTextual textual e \<Longrightarrow> fieldVal T e f = Some j \<Longrightarrow> readsAs T f j = Some (Some j)"
  using own_wellTyped[of e f j] map_of_SomeD[of "marshalEntry T e" f j] by (simp add: fieldVal_def)

lemma own_field: "fieldVal T e f = Some j \<Longrightarrow> f \<in> set ledgerFields"
  using marshal_names[of T e] map_of_SomeD[of "marshalEntry T e" f j] by (force simp: fieldVal_def)

lemma absent_field:
  assumes "f \<in> set ledgerFields" and "fieldVal T e f = None"
  shows "fieldVal T emptyEntry f = None"
  using assms unfolding fieldVal_table
  by (simp add: ledgerFields_def) (elim disjE; simp add: entryFields_def emptyEntry_def nonEmpty_def)

lemma patch_fields:
  assumes row: "rowTextual textual e" and "distinct (map fst p)" and "sessionIDField \<notin> set (map fst p)"
    and typed: "\<forall>kv \<in> set p. snd kv \<noteq> JNull \<longrightarrow> wellTyped T kv"
  shows "\<exists>e'. Patch_Apply T p e = Inr e' \<and>
    (\<forall>f \<in> set ledgerFields. fieldVal T e' f =
       (case map_of p f of
          None \<Rightarrow> fieldVal T e f
        | Some j \<Rightarrow> if j = JNull then fieldVal T emptyEntry f else the (readsAs T f j)))"
proof -
  obtain e' kvs where m: "Patch_Apply T p e = Inr e'" "sorted (map fst kvs)" "distinct (map fst kvs)"
    "map_of kvs = overlaid (map_of p) (fieldVal T e)" "\<forall>kv \<in> set kvs. resolvable T kv"
    "entryFields T e' = setLines T (map_of (rev (resolved kvs))) (entryFields T emptyEntry)"
    using merge_table[OF assms(1-3)] typed wellTyped_resolvable by metis
  have known: "k \<in> set ledgerFields" if "map_of kvs k \<noteq> None" for k
    using that typed map_of_SomeD[of p k] own_field[of e k]
    by (auto simp: m(4) overlaid_def isJSONNull_def wellTyped_def split: option.splits if_splits)
  have "fieldVal T e' f = (case map_of p f of None \<Rightarrow> fieldVal T e f
      | Some j \<Rightarrow> if j = JNull then fieldVal T emptyEntry f else the (readsAs T f j))"
    if f: "f \<in> set ledgerFields" for f
  proof -
    note field = merged_field[OF f m(2,3,5,6)]
    have "fieldVal T e' f = the (readsAs T f j)" if "map_of kvs f = Some j" for j
      using field(1)[OF that] f known by fastforce
    moreover have "fieldVal T e' f = fieldVal T emptyEntry f" if "map_of kvs f = None"
      using field(2) that known by fastforce
    ultimately show ?thesis
      using own_value[OF row, of f] absent_field[OF f, of e]
      by (cases "fieldVal T e f") (auto simp: m(4) overlaid_def isJSONNull_def split: option.splits)
  qed
  then show ?thesis using m(1) by blast
qed

text \<open>A single key that is a field's name in another spelling: it is the field's value only when it
  sorts after the name, or when the row has no such field.\<close>

lemma patch_spelling:
  assumes row: "rowTextual textual e" and k: "k \<notin> set ledgerFields" "fieldOf k = Some f"
    and j: "j \<noteq> JNull" "readsAs T f j = Some v"
  shows "\<exists>e'. Patch_Apply T [(k, j)] e = Inr e' \<and>
    (\<forall>g \<in> set ledgerFields. fieldVal T e' g =
       (if g = f \<and> (f < k \<or> fieldVal T e f = None) then v else fieldVal T e g)) \<and>
    (f \<noteq> ''spawned_at'' \<longrightarrow> led_SpawnedAt e' = led_SpawnedAt e)"
proof -
  have f: "f \<in> set ledgerFields"
    using k by (auto simp: fieldOf_def find_Some_iff split: if_splits)
  have typed: "\<forall>kv \<in> set [(k, j)]. snd kv \<noteq> JNull \<longrightarrow> resolvable T kv"
    using k(2) j f by (auto simp: resolvable_def)
  have "sessionIDField \<notin> set (map fst [(k, j)])"
    using k(1) by (auto simp: sessionIDField_def ledgerFields_def)
  then obtain e' kvs where m: "Patch_Apply T [(k, j)] e = Inr e'" "sorted (map fst kvs)" "distinct (map fst kvs)"
    "map_of kvs = overlaid (map_of [(k, j)]) (fieldVal T e)" "\<forall>kv \<in> set kvs. resolvable T kv"
    "entryFields T e' = setLines T (map_of (rev (resolved kvs))) (entryFields T emptyEntry)"
    "led_SpawnedAt e' = (case map_of (rev (resolved kvs)) ''spawned_at'' of
        None \<Rightarrow> zeroTime | Some j \<Rightarrow> the (tj_decode T j))"
    using merge_table[OF row _ _ typed] by auto
  have at: "map_of kvs h = (if h = k then Some j else fieldVal T e h)" for h
    using j(1) by (simp add: m(4) overlaid_def isJSONNull_def)
  have "fieldVal T e' g = (if g = f \<and> (f < k \<or> fieldVal T e f = None) then v else fieldVal T e g)"
    if g: "g \<in> set ledgerFields" for g
  proof -
    note field = merged_field[OF g m(2,3,5,6)]
    have reaches: "h = g \<or> h = k" if "map_of kvs h \<noteq> None" "fieldOf h = Some g" for h
      using that at own_field[of e h] by (auto split: if_splits)
    consider (spelled) "g = f" "f < k \<or> fieldVal T e f = None"
      | (own) i where "fieldVal T e g = Some i" "g = f \<longrightarrow> \<not> f < k"
      | (absent) "fieldVal T e g = None" "g \<noteq> f" by fastforce
    then show ?thesis
    proof cases
      case spelled
      have "h \<le> k" if "map_of kvs h \<noteq> None" "fieldOf h = Some g" for h
          using reaches[OF that] that(1) spelled at[of f] by (auto split: if_splits)
        then have "fieldVal T e' g = the (readsAs T g j)"
          using field(1)[of k j] k(2) spelled(1) at[of k] by simp
        then show ?thesis using spelled j(2) by simp
    next
      case own
      have "h \<le> g" if "map_of kvs h \<noteq> None" "fieldOf h = Some g" for h
        using reaches[OF that] that(2) k(2) own(2) by auto
      moreover have "map_of kvs g = Some i" using own(1) g k(1) at[of g] by auto
      ultimately have "fieldVal T e' g = the (readsAs T g i)" using field(1)[of g i] g by simp
      then show ?thesis using own own_value[OF row, of g i] by auto
    next
      case absent
      then have "\<forall>h. map_of kvs h \<noteq> None \<longrightarrow> fieldOf h \<noteq> Some g"
        using reaches at k(1,2) g by (metis option.inject)
      then show ?thesis using field(2) absent absent_field[OF g] by auto
    qed
  qed
  moreover have "led_SpawnedAt e' = led_SpawnedAt e" if "f \<noteq> ''spawned_at''"
  proof -
    have known: "fieldOf ''spawned_at'' = Some ''spawned_at''" by (rule fieldOf_known) (simp add: ledgerFields_def)
    have own: "map_of kvs ''spawned_at'' = Some (tj_encode T (led_SpawnedAt e))"
      using k(1) by (auto simp: at fieldVal_table entryFields_def ledgerFields_def)
    have "h \<le> ''spawned_at''" if "h \<in> fst ` set kvs" "fieldOf h = Some ''spawned_at''" for h
    proof -
      have "map_of kvs h \<noteq> None" using that(1) by (simp add: map_of_eq_None_iff)
      moreover have "h \<noteq> k" using that(2) k(2) \<open>f \<noteq> ''spawned_at''\<close> by auto
      ultimately have "h \<in> set ledgerFields" using own_field[of e h] at[of h] by auto
      then show ?thesis using that(2) by simp
    qed
    moreover have "\<forall>kv \<in> set kvs. fieldOf (fst kv) \<noteq> None" using m(5) by (auto simp: resolvable_def)
    ultimately have "map_of (rev (resolved kvs)) ''spawned_at'' = Some (tj_encode T (led_SpawnedAt e))"
      using map_of_resolved[OF m(2,3) _ map_of_SomeD[OF own] known] by blast
    then show ?thesis using row by (simp add: m(7) rowTextual_def reads_back)
  qed
  ultimately show ?thesis using m(1) by blast
qed

lemma patch_refused:
  assumes "distinct (map fst p)" and "(k, j) \<in> set p" and "j \<noteq> JNull"
    and "fieldOf k = None \<or> k \<in> set ledgerFields \<and> readsAs T k j = None"
  shows "Patch_Apply T p e = Inl ErrSessionLedgerPatchInvalid"
proof -
  have "map_of (overlay (marshalEntry T e) p) k = Some j"
    using assms(1-3) by (simp add: map_of_overlay overlaid_def isJSONNull_def)
  then have "(k, j) \<in> set (sort_key fst (overlay (marshalEntry T e) p))" by (simp add: map_of_SomeD)
  then have "decodeFields T (sort_key fst (overlay (marshalEntry T e) p)) emptyEntry = None"
    by (rule decodeFields_refused) (use assms(3,4) setField_refused in \<open>auto\<close>)
  then show ?thesis by (simp add: Patch_Apply_def)
qed

end

end
