(* ===== verification/LedgerStore.thy ===== *)
theory LedgerStore
  imports PatchLaws "HOL-Library.Word"
begin

text \<open>
  The spawn ledger's store (\<open>session-ledger-store.go\<close>): posting, patching, reading, listing
  and importing rows over one bucket of the database, and the cache of the list that every write
  drops. The state of the store is the database and the cache.
\<close>

section \<open>The list cache\<close>

text \<open>A nil slice is \<open>None\<close>; the cached body is the JSON array it encodes.\<close>

type_synonym SessionLedgerEntries = "SessionLedgerEntry list option"

record ledgerListCache =
  cache_gen :: "64 word"
  cache_body :: "json option"
  cache_entries :: SessionLedgerEntries

definition emptyCache :: ledgerListCache where
  "emptyCache = \<lparr>cache_gen = 0, cache_body = None, cache_entries = None\<rparr>"

definition cache_load :: "ledgerListCache \<Rightarrow> json option \<times> 64 word" where
  "cache_load c = (cache_body c, cache_gen c)"

definition cache_store :: "64 word \<Rightarrow> json \<Rightarrow> ledgerListCache \<Rightarrow> ledgerListCache" where
  "cache_store g b c = (if cache_gen c = g then c\<lparr>cache_body := Some b\<rparr> else c)"

definition cache_loadEntries :: "ledgerListCache \<Rightarrow> SessionLedgerEntries \<times> 64 word" where
  "cache_loadEntries c = (cache_entries c, cache_gen c)"

definition cache_storeEntries :: "64 word \<Rightarrow> SessionLedgerEntries \<Rightarrow> ledgerListCache \<Rightarrow> ledgerListCache" where
  "cache_storeEntries g es c = (if cache_gen c = g then c\<lparr>cache_entries := es\<rparr> else c)"

definition cache_invalidate :: "ledgerListCache \<Rightarrow> ledgerListCache" where
  "cache_invalidate c = c\<lparr>cache_gen := cache_gen c + 1, cache_body := None, cache_entries := None\<rparr>"

section \<open>The store\<close>

record ('tx, 'v) ListStoreTx = "('tx, 'v) StoreTx" +
  stList :: "'tx \<Rightarrow> error + 'v list option"

record 'tx sessionLedgerStore =
  sl_db :: "'tx libkv"
  sl_entries :: "('tx, SessionLedgerEntry) ListStoreTx"

definition sessionLedgerBucketName :: string where
  "sessionLedgerBucketName = ''session-ledger''"

definition NewSessionLedgerStore ::
  "'tx libkv \<Rightarrow> (string \<Rightarrow> ('tx, SessionLedgerEntry) ListStoreTx) \<Rightarrow> 'tx sessionLedgerStore" where
  "NewSessionLedgerStore K newStoreTx = \<lparr>sl_db = K, sl_entries = newStoreTx sessionLedgerBucketName\<rparr>"

definition postTx :: "'tx sessionLedgerStore \<Rightarrow> SessionLedgerEntry \<Rightarrow> 'tx \<Rightarrow> error + 'tx \<times> unit" where
  "postTx L entry tx = ebind (stAdd (sl_entries L) tx (led_SessionID entry) entry) (\<lambda>tx. Inr (tx, ()))"

definition commitPost :: "runtime \<Rightarrow> 'tx sessionLedgerStore \<Rightarrow> SessionLedgerEntry \<Rightarrow> 'tx \<Rightarrow> 'tx \<times> (error + unit)" where
  "commitPost R L entry s =
     (case Ledger_Validate R entry of
        Some e \<Rightarrow> (s, Inl e)
      | None \<Rightarrow> db_Update (sl_db L) s (postTx L entry))"

text \<open>\<open>None\<close> is the answer that no row exists.\<close>

definition patchTx ::
  "runtime \<Rightarrow> timeJSON \<Rightarrow> 'tx sessionLedgerStore \<Rightarrow> string \<Rightarrow> SessionLedgerPatch \<Rightarrow> 'tx \<Rightarrow>
   error + 'tx \<times> SessionLedgerEntry option" where
  "patchTx R T L sessionID patch tx =
     (case stGet (sl_entries L) tx sessionID of
        Inl e \<Rightarrow> (if isNotFound e then Inr (tx, None) else Inl e)
      | Inr got \<Rightarrow>
          ebind (Patch_Apply T patch got) (\<lambda>next.
            if Ledger_Validate R next \<noteq> None then Inl ErrSessionLedgerPatchInvalid
            else ebind (stAdd (sl_entries L) tx sessionID next) (\<lambda>tx. Inr (tx, Some next))))"

definition commitPatch ::
  "runtime \<Rightarrow> timeJSON \<Rightarrow> 'tx sessionLedgerStore \<Rightarrow> string \<Rightarrow> SessionLedgerPatch \<Rightarrow> 'tx \<Rightarrow>
   'tx \<times> (error + SessionLedgerEntry option)" where
  "commitPatch R T L sessionID patch s = db_Update (sl_db L) s (patchTx R T L sessionID patch)"

definition importOne ::
  "runtime \<Rightarrow> 'tx sessionLedgerStore \<Rightarrow> 'tx \<times> nat \<Rightarrow> SessionLedgerEntry \<Rightarrow> error + 'tx \<times> nat" where
  "importOne R L acc entry =
     (case acc of (tx, n) \<Rightarrow>
       guardE (Ledger_Validate R entry)
         (case stGet (sl_entries L) tx (led_SessionID entry) of
            Inr _ \<Rightarrow> Inr (tx, n)
          | Inl e \<Rightarrow>
              (if \<not> isNotFound e then Inl e
               else ebind (stAdd (sl_entries L) tx (led_SessionID entry) entry)
                      (\<lambda>tx. Inr (tx, n + 1)))))"

definition commitImport ::
  "runtime \<Rightarrow> 'tx sessionLedgerStore \<Rightarrow> SessionLedgerEntry list \<Rightarrow> 'tx \<Rightarrow> 'tx \<times> (error + nat)" where
  "commitImport R L entries s = db_Update (sl_db L) s (\<lambda>tx. efold (importOne R L) (tx, 0) entries)"

text \<open>Every write drops the cache when it returns, whether it succeeded or not.\<close>

definition thenInvalidate :: "'tx \<times> 'r \<Rightarrow> ledgerListCache \<Rightarrow> ('tx \<times> ledgerListCache) \<times> 'r" where
  "thenInvalidate result c = ((fst result, cache_invalidate c), snd result)"

definition ledger_Post where
  "ledger_Post R L entry st = thenInvalidate (commitPost R L entry (fst st)) (snd st)"

definition ledger_Patch where
  "ledger_Patch R T L sessionID patch st = thenInvalidate (commitPatch R T L sessionID patch (fst st)) (snd st)"

definition ledger_Import where
  "ledger_Import R L entries st = thenInvalidate (commitImport R L entries (fst st)) (snd st)"

definition ledger_Get ::
  "'tx sessionLedgerStore \<Rightarrow> string \<Rightarrow> 'tx \<times> ledgerListCache \<Rightarrow> error + SessionLedgerEntry option" where
  "ledger_Get L sessionID st =
     db_View (fst st) (\<lambda>tx.
       case stGet (sl_entries L) tx sessionID of
         Inl e \<Rightarrow> (if isNotFound e then Inr None else Inl e)
       | Inr got \<Rightarrow> Inr (Some got))"

definition ledger_List ::
  "'tx sessionLedgerStore \<Rightarrow> 'tx \<times> ledgerListCache \<Rightarrow> ('tx \<times> ledgerListCache) \<times> (error + SessionLedgerEntries)" where
  "ledger_List L st =
     (case cache_loadEntries (snd st) of (cached, g) \<Rightarrow>
       if cached \<noteq> None then (st, Inr cached)
       else (case db_View (fst st) (stList (sl_entries L)) of
               Inl e \<Rightarrow> (st, Inl e)
             | Inr entries \<Rightarrow> ((fst st, cache_storeEntries g entries (snd st)), Inr entries)))"

definition encodeEntries :: "timeJSON \<Rightarrow> SessionLedgerEntries \<Rightarrow> json" where
  "encodeEntries T entries =
     (case entries of None \<Rightarrow> JNull | Some es \<Rightarrow> JArray (map (\<lambda>e. JObject (marshalEntry T e)) es))"

definition ledger_ListJSON ::
  "timeJSON \<Rightarrow> 'tx sessionLedgerStore \<Rightarrow> 'tx \<times> ledgerListCache \<Rightarrow> ('tx \<times> ledgerListCache) \<times> (error + json)" where
  "ledger_ListJSON T L st =
     (case cache_load (snd st) of (cached, g) \<Rightarrow>
       (case cached of
          Some b \<Rightarrow> (st, Inr b)
        | None \<Rightarrow>
            (case ledger_List L st of
               (st, Inl e) \<Rightarrow> (st, Inl e)
             | (st, Inr entries) \<Rightarrow>
                 ((fst st, cache_store g (encodeEntries T entries) (snd st)), Inr (encodeEntries T entries)))))"

end
