(* ===== verification/LedgerLaws.thy ===== *)
theory LedgerLaws
  imports LedgerStore
begin

text \<open>
  What the ledger's operations do to its rows, under the documented behaviour of the
  key-value library (locale \<open>ledger_lib\<close>), and why the list cache never outlives a write: the
  inductive relation \<open>ledger_step\<close> interleaves readers and writers at every point where the code
  takes or releases the cache's lock.
\<close>

section \<open>The library\<close>

definition listed :: "SessionLedgerEntries \<Rightarrow> SessionLedgerEntry list" where
  "listed es = (case es of None \<Rightarrow> [] | Some es \<Rightarrow> es)"

locale ledger_lib =
  fixes L :: "'tx sessionLedgerStore"
    and rows :: "'tx \<Rightarrow> (string \<rightharpoonup> SessionLedgerEntry) option"
  assumes commit_ok [simp]: "txCommit (sl_db L) tx = None"
    and finite_rows [simp]: "finite (dom (optMap (rows tx)))"
    and row_Get: "stGet (sl_entries L) tx k =
      (case rows tx of
         None \<Rightarrow> Inl ErrBucketNotFound
       | Some m \<Rightarrow> (case m k of None \<Rightarrow> Inl ErrKeyNotFound | Some e \<Rightarrow> Inr e))"
    and row_Add: "k \<noteq> [] \<Longrightarrow> \<exists>tx'. stAdd (sl_entries L) tx k e = Inr tx' \<and>
      rows tx' = Some ((optMap (rows tx))(k \<mapsto> e))"
    and row_List: "\<exists>es. stList (sl_entries L) tx = Inr es \<and>
      listed es = map snd (sorted_entries (optMap (rows tx)))"
begin

definition rowsOf :: "'tx \<Rightarrow> (string \<rightharpoonup> SessionLedgerEntry)" where
  "rowsOf tx = optMap (rows tx)"

lemma Get_rowsOf:
  "stGet (sl_entries L) tx k = Inr e \<longleftrightarrow> rowsOf tx k = Some e"
  "(\<exists>err. stGet (sl_entries L) tx k = Inl err \<and> isNotFound err) \<longleftrightarrow> rowsOf tx k = None"
  by (auto simp: row_Get rowsOf_def split: option.splits)

lemma Add_rowsOf:
  assumes "k \<noteq> []"
  obtains tx' where "stAdd (sl_entries L) tx k e = Inr tx'" "rowsOf tx' = (rowsOf tx)(k \<mapsto> e)"
  using row_Add[OF assms, of tx e] by (auto simp: rowsOf_def)

lemma finite_rowsOf [simp]: "finite (dom (rowsOf tx))"
  by (simp add: rowsOf_def)

lemma get_row: "ledger_Get L k (s, c) = Inr (rowsOf s k)"
  by (auto simp: ledger_Get_def db_View_def row_Get rowsOf_def split: option.splits)

end

section \<open>Valid rows\<close>

context runtime_lib
begin

lemma Ledger_Validate_iff:
  "Ledger_Validate R e = None \<longleftrightarrow>
     SessionID_Validate (led_SessionID e) = None \<and> (led_Task e = [] \<longleftrightarrow> led_Vault e = []) \<and>
     led_Location e \<in> set AvailableSessionHeartbeatLocations \<and> led_SpawnedAt e \<noteq> zeroTime"
  by (auto simp: Ledger_Validate_def Ledger_validateOptionalTask_def Ledger_validateOptionalVault_def
      SessionHeartbeatLocation_Validate_def validateSpawnedAt_def)

lemma Ledger_Validate_key: "Ledger_Validate R e = None \<Longrightarrow> led_SessionID e \<noteq> []"
  using SessionID_Validate_length[of "led_SessionID e"] by (auto simp: Ledger_Validate_iff)

end

section \<open>Posting, patching and importing\<close>

locale ledger_run = ledger_lib L rows + runtime_lib R
  for L :: "'tx sessionLedgerStore" and rows and R
begin

lemma post_ok:
  assumes "Ledger_Validate R e = None"
  shows "\<exists>s'. commitPost R L e s = (s', Inr ()) \<and> rowsOf s' = (rowsOf s)(led_SessionID e \<mapsto> e)"
proof -
  obtain s' where "stAdd (sl_entries L) s (led_SessionID e) e = Inr s'"
    "rowsOf s' = (rowsOf s)(led_SessionID e \<mapsto> e)"
    using Add_rowsOf[OF Ledger_Validate_key[OF assms]] by blast
  then show ?thesis using assms by (simp add: commitPost_def postTx_def db_Update_def)
qed

text \<open>What a patch does to one row: none there, refused, or the merged row.\<close>

lemma patch_absent: "rowsOf s sid = None \<Longrightarrow> commitPatch R T L sid p s = (s, Inr None)"
  using Get_rowsOf(2)[of s sid] by (auto simp: commitPatch_def patchTx_def db_Update_def)

lemma patch_rejects:
  assumes "rowsOf s sid = Some e" and "Patch_Apply T p e = Inl err"
  shows "commitPatch R T L sid p s = (s, Inl err)"
  using assms Get_rowsOf(1)[of s sid e] by (simp add: commitPatch_def patchTx_def db_Update_def)

lemma patch_invalid:
  assumes "rowsOf s sid = Some e" and "Patch_Apply T p e = Inr merged" and "Ledger_Validate R merged \<noteq> None"
  shows "commitPatch R T L sid p s = (s, Inl ErrSessionLedgerPatchInvalid)"
  using assms Get_rowsOf(1)[of s sid e] by (simp add: commitPatch_def patchTx_def db_Update_def)

lemma patch_ok:
  assumes "rowsOf s sid = Some e" and "Patch_Apply T p e = Inr merged" and "Ledger_Validate R merged = None"
    and "sid \<noteq> []"
  shows "\<exists>s'. commitPatch R T L sid p s = (s', Inr (Some merged)) \<and> rowsOf s' = (rowsOf s)(sid \<mapsto> merged)"
proof -
  obtain s' where "stAdd (sl_entries L) s sid merged = Inr s'" "rowsOf s' = (rowsOf s)(sid \<mapsto> merged)"
    using Add_rowsOf[OF assms(4)] by blast
  then show ?thesis
    using assms(1-3) Get_rowsOf(1)[of s sid e] by (simp add: commitPatch_def patchTx_def db_Update_def)
qed

text \<open>The import adds a row for each session that has none.\<close>

definition importRow :: "SessionLedgerEntry \<Rightarrow> (string \<rightharpoonup> SessionLedgerEntry) \<Rightarrow> (string \<rightharpoonup> SessionLedgerEntry)" where
  "importRow e m = (if m (led_SessionID e) = None then m(led_SessionID e \<mapsto> e) else m)"

lemma importOne_ok:
  assumes "Ledger_Validate R e = None"
  shows "\<exists>s' n'. importOne R L (s, n) e = Inr (s', n') \<and> rowsOf s' = importRow e (rowsOf s) \<and>
    n' = n + card (dom (rowsOf s') - dom (rowsOf s)) \<and> (rowsOf s (led_SessionID e) \<noteq> None \<longrightarrow> s' = s)"
proof (cases "rowsOf s (led_SessionID e)")
  case None
  then obtain err where err: "stGet (sl_entries L) s (led_SessionID e) = Inl err" "isNotFound err"
    using Get_rowsOf(2) by blast
  obtain s' where s': "stAdd (sl_entries L) s (led_SessionID e) e = Inr s'"
    "rowsOf s' = (rowsOf s)(led_SessionID e \<mapsto> e)"
    using Add_rowsOf[OF Ledger_Validate_key[OF assms]] by blast
  have "dom (rowsOf s') - dom (rowsOf s) = {led_SessionID e}" using None s'(2) by auto
  then show ?thesis using assms err s' None by (simp add: importOne_def importRow_def)
next
  case (Some e')
  then have "stGet (sl_entries L) s (led_SessionID e) = Inr e'" using Get_rowsOf(1) by blast
  then show ?thesis using assms Some by (simp add: importOne_def importRow_def)
qed

lemma importRow_dom: "dom m \<subseteq> dom (importRow e m)"
  by (auto simp: importRow_def)

lemma importRows_dom: "dom m \<subseteq> dom (fold importRow es m)"
proof (induction es arbitrary: m)
  case (Cons e es)
  then show ?case using importRow_dom[of m e] by (metis fold_simps(2) subset_trans)
qed simp

lemma import_loop:
  assumes "\<forall>e \<in> set es. Ledger_Validate R e = None"
  shows "\<exists>s' n'. efold (importOne R L) (s, n) es = Inr (s', n') \<and> rowsOf s' = fold importRow es (rowsOf s) \<and>
    n' = n + card (dom (rowsOf s') - dom (rowsOf s)) \<and>
    (led_SessionID ` set es \<subseteq> dom (rowsOf s) \<longrightarrow> s' = s)"
  using assms
proof (induction es arbitrary: s n)
  case (Cons e es)
  then obtain s1 n1 where one: "importOne R L (s, n) e = Inr (s1, n1)" "rowsOf s1 = importRow e (rowsOf s)"
    "n1 = n + card (dom (rowsOf s1) - dom (rowsOf s))" "rowsOf s (led_SessionID e) \<noteq> None \<longrightarrow> s1 = s"
    using importOne_ok[of e s n] by auto
  obtain s' n' where rest: "efold (importOne R L) (s1, n1) es = Inr (s', n')"
    "rowsOf s' = fold importRow es (rowsOf s1)" "n' = n1 + card (dom (rowsOf s') - dom (rowsOf s1))"
    "led_SessionID ` set es \<subseteq> dom (rowsOf s1) \<longrightarrow> s' = s1"
    using Cons.IH[of s1 n1] Cons.prems by (metis list.set_intros(2))
  have sub: "dom (rowsOf s) \<subseteq> dom (rowsOf s1)" "dom (rowsOf s1) \<subseteq> dom (rowsOf s')"
    using importRow_dom importRows_dom one(2) rest(2) by metis+
  then have "dom (rowsOf s') - dom (rowsOf s) =
      (dom (rowsOf s') - dom (rowsOf s1)) \<union> (dom (rowsOf s1) - dom (rowsOf s))" by auto
  moreover have "(dom (rowsOf s') - dom (rowsOf s1)) \<inter> (dom (rowsOf s1) - dom (rowsOf s)) = {}" by auto
  ultimately have "card (dom (rowsOf s') - dom (rowsOf s)) =
      card (dom (rowsOf s') - dom (rowsOf s1)) + card (dom (rowsOf s1) - dom (rowsOf s))"
    by (simp add: card_Un_disjoint)
  then show ?case using one rest by (auto simp: domIff subset_iff)
qed simp

lemma import_invalid:
  assumes "e \<in> set es" and "Ledger_Validate R e \<noteq> None"
  shows "\<exists>err. efold (importOne R L) acc es = Inl err"
  using assms(1)
proof (induction es arbitrary: acc)
  case (Cons a es)
  show ?case
  proof (cases "importOne R L acc a")
    case (Inr acc')
    then have "a \<noteq> e" using assms(2) by (auto simp: importOne_def split: prod.splits)
    then show ?thesis using Cons Inr by auto
  qed simp
qed simp

lemma importRows_apply:
  "fold importRow es m k =
     (case m k of Some e \<Rightarrow> Some e | None \<Rightarrow> find (\<lambda>e. led_SessionID e = k) es)"
  by (induction es arbitrary: m) (auto simp: importRow_def split: option.splits)

end

section \<open>The list cache and concurrent writers\<close>

text \<open>
  A call in progress. A reader of the rows has taken the cached value and its generation
  (\<open>ListLoaded\<close>) and then the rows of a transaction (\<open>ListRead\<close>); a reader of the body
  does the same after it has taken the cached body and generation (\<open>BodyLoaded\<close>), and ends with the
  rows it encodes (\<open>BodyHas\<close>). A writer has committed and not yet dropped the cache
  (\<open>Committed\<close>).
\<close>

datatype call =
    Idle
  | ListLoaded "64 word"
  | ListRead "64 word" SessionLedgerEntries
  | BodyLoaded "64 word"
  | BodyListLoaded "64 word" "64 word"
  | BodyListRead "64 word" "64 word" SessionLedgerEntries
  | BodyHas "64 word" SessionLedgerEntries
  | Committed

record 'tx ledgerSystem =
  sys_db :: 'tx
  sys_cache :: ledgerListCache
  sys_calls :: "nat \<Rightarrow> call"
  sys_drops :: nat

definition setCall :: "nat \<Rightarrow> call \<Rightarrow> 'tx ledgerSystem \<Rightarrow> 'tx ledgerSystem" where
  "setCall t c s = s\<lparr>sys_calls := (sys_calls s)(t := c)\<rparr>"

text \<open>The write transactions: each changes the database as one of the three writes does.\<close>

definition ledgerCommit :: "runtime \<Rightarrow> timeJSON \<Rightarrow> 'tx sessionLedgerStore \<Rightarrow> 'tx \<Rightarrow> 'tx \<Rightarrow> bool" where
  "ledgerCommit R T L s s' \<longleftrightarrow>
     (\<exists>e. s' = fst (commitPost R L e s)) \<or> (\<exists>sid p. s' = fst (commitPatch R T L sid p s)) \<or>
     (\<exists>es. s' = fst (commitImport R L es s))"

inductive ledger_step ::
  "runtime \<Rightarrow> timeJSON \<Rightarrow> 'tx sessionLedgerStore \<Rightarrow> 'tx ledgerSystem \<Rightarrow> 'tx ledgerSystem \<Rightarrow> bool"
  for R T L where
  commit: "sys_calls s t = Idle \<Longrightarrow> ledgerCommit R T L (sys_db s) db' \<Longrightarrow>
    ledger_step R T L s (setCall t Committed (s\<lparr>sys_db := db'\<rparr>))"
| drop: "sys_calls s t = Committed \<Longrightarrow>
    ledger_step R T L s (setCall t Idle (s\<lparr>sys_cache := cache_invalidate (sys_cache s), sys_drops := sys_drops s + 1\<rparr>))"
| list_load: "sys_calls s t = Idle \<Longrightarrow> cache_loadEntries (sys_cache s) = (None, g) \<Longrightarrow>
    ledger_step R T L s (setCall t (ListLoaded g) s)"
| list_read: "sys_calls s t = ListLoaded g \<Longrightarrow> stList (sl_entries L) (sys_db s) = Inr es \<Longrightarrow>
    ledger_step R T L s (setCall t (ListRead g es) s)"
| list_store: "sys_calls s t = ListRead g es \<Longrightarrow>
    ledger_step R T L s (setCall t Idle (s\<lparr>sys_cache := cache_storeEntries g es (sys_cache s)\<rparr>))"
| body_load: "sys_calls s t = Idle \<Longrightarrow> cache_load (sys_cache s) = (None, g) \<Longrightarrow>
    ledger_step R T L s (setCall t (BodyLoaded g) s)"
| body_hit: "sys_calls s t = BodyLoaded g \<Longrightarrow> cache_loadEntries (sys_cache s) = (Some es, g') \<Longrightarrow>
    ledger_step R T L s (setCall t (BodyHas g (Some es)) s)"
| body_list: "sys_calls s t = BodyLoaded g \<Longrightarrow> cache_loadEntries (sys_cache s) = (None, g') \<Longrightarrow>
    ledger_step R T L s (setCall t (BodyListLoaded g g') s)"
| body_read: "sys_calls s t = BodyListLoaded g g' \<Longrightarrow> stList (sl_entries L) (sys_db s) = Inr es \<Longrightarrow>
    ledger_step R T L s (setCall t (BodyListRead g g' es) s)"
| body_list_store: "sys_calls s t = BodyListRead g g' es \<Longrightarrow>
    ledger_step R T L s (setCall t (BodyHas g es) (s\<lparr>sys_cache := cache_storeEntries g' es (sys_cache s)\<rparr>))"
| body_store: "sys_calls s t = BodyHas g es \<Longrightarrow>
    ledger_step R T L s (setCall t Idle (s\<lparr>sys_cache := cache_store g (encodeEntries T es) (sys_cache s)\<rparr>))"

text \<open>The generations a call may still store under, with the rows it would store.\<close>

fun holds :: "call \<Rightarrow> (64 word \<times> SessionLedgerEntries) set" where
  "holds (ListRead g es) = {(g, es)}"
| "holds (BodyListRead g g' es) = {(g, es), (g', es)}"
| "holds (BodyHas g es) = {(g, es)}"
| "holds _ = {}"

fun begunAt :: "call \<Rightarrow> (64 word) set" where
  "begunAt (ListLoaded g) = {g}"
| "begunAt (BodyLoaded g) = {g}"
| "begunAt (BodyListLoaded g g') = {g, g'}"
| "begunAt _ = {}"

definition writing :: "'tx ledgerSystem \<Rightarrow> bool" where
  "writing s \<longleftrightarrow> (\<exists>t. sys_calls s t = Committed)"

text \<open>A value read under a generation is current while that generation is, unless a writer is in
  progress. Generations are compared through the number of drops, which a run keeps below the range
  of the counter.\<close>

definition current :: "'tx sessionLedgerStore \<Rightarrow> 'tx ledgerSystem \<Rightarrow> SessionLedgerEntries \<Rightarrow> bool" where
  "current L s es \<longleftrightarrow> writing s \<or> stList (sl_entries L) (sys_db s) = Inr es"

definition fromPast :: "'tx ledgerSystem \<Rightarrow> 64 word \<Rightarrow> bool \<Rightarrow> bool" where
  "fromPast s g ok \<longleftrightarrow> (\<exists>n \<le> sys_drops s. g = of_nat n \<and> (n = sys_drops s \<longrightarrow> ok))"

definition cacheInv :: "timeJSON \<Rightarrow> 'tx sessionLedgerStore \<Rightarrow> 'tx ledgerSystem \<Rightarrow> bool" where
  "cacheInv T L s \<longleftrightarrow>
     cache_gen (sys_cache s) = of_nat (sys_drops s) \<and>
     (\<forall>es. cache_entries (sys_cache s) = Some es \<longrightarrow> current L s (Some es)) \<and>
     (\<forall>b. cache_body (sys_cache s) = Some b \<longrightarrow> (\<exists>es. b = encodeEntries T es \<and> current L s es)) \<and>
     (\<forall>t. \<forall>g \<in> begunAt (sys_calls s t). fromPast s g True) \<and>
     (\<forall>t. \<forall>(g, es) \<in> holds (sys_calls s t). fromPast s g (current L s es))"

lemma fromPast_now [simp]: "ok \<Longrightarrow> fromPast s (of_nat (sys_drops s)) ok"
  by (auto simp: fromPast_def)

lemma fromPast_eqD:
  assumes "fromPast s g ok" and "of_nat (sys_drops s) = g" and "sys_drops s < 2 ^ 64"
  shows ok
proof -
  obtain n where n: "n \<le> sys_drops s" "g = of_nat n" "n = sys_drops s \<longrightarrow> ok"
    using assms(1) by (auto simp: fromPast_def)
  have "n = sys_drops s"
    using n(1,2) assms(2,3) by (simp add: word_of_nat_eq_iff take_bit_nat_eq_self)
  then show ok using n(3) by simp
qed

lemma fromPast_mono: "fromPast s g ok \<Longrightarrow> sys_drops s' = sys_drops s \<Longrightarrow> (ok \<Longrightarrow> ok') \<Longrightarrow> fromPast s' g ok'"
  by (auto simp: fromPast_def)

lemma fromPast_drop: "fromPast s g ok \<Longrightarrow> sys_drops s' = sys_drops s + 1 \<Longrightarrow> fromPast s' g ok'"
  by (auto simp: fromPast_def intro: le_SucI)

lemma setCall_simps [simp]:
  "sys_db (setCall t c s) = sys_db s" "sys_cache (setCall t c s) = sys_cache s"
  "sys_drops (setCall t c s) = sys_drops s" "sys_calls (setCall t c s) = (sys_calls s)(t := c)"
  by (simp_all add: setCall_def)

text \<open>A step of a reader moves one call and may store into the cache.\<close>

lemma reader_inv:
  assumes inv: "cacheInv T L s" and old: "sys_calls s t \<noteq> Committed" and new: "c \<noteq> Committed"
    and s': "s' = setCall t c (s\<lparr>sys_cache := k\<rparr>)"
    and gen: "cache_gen k = cache_gen (sys_cache s)"
    and entries: "\<And>es. cache_entries k = Some es \<Longrightarrow> current L s (Some es)"
    and body: "\<And>b. cache_body k = Some b \<Longrightarrow> \<exists>es. b = encodeEntries T es \<and> current L s es"
    and begun: "\<And>g. g \<in> begunAt c \<Longrightarrow> fromPast s g True"
    and held: "\<And>g es. (g, es) \<in> holds c \<Longrightarrow> fromPast s g (current L s es)"
  shows "cacheInv T L s'"
proof -
  have cur: "current L s' es = current L s es" for es
    using old new by (auto simp: current_def writing_def s' split: if_splits)
  have past: "fromPast s' g ok = fromPast s g ok" for g ok by (simp add: fromPast_def s')
  show ?thesis
    using inv entries body begun held unfolding cacheInv_def cur past
    by (auto simp: s' gen)
qed

lemma cacheInvD:
  assumes "cacheInv T L s"
  shows "cache_gen (sys_cache s) = of_nat (sys_drops s)"
    and "cache_entries (sys_cache s) = Some es \<Longrightarrow> current L s (Some es)"
    and "cache_body (sys_cache s) = Some b \<Longrightarrow> \<exists>es. b = encodeEntries T es \<and> current L s es"
    and "sys_calls s t = c \<Longrightarrow> g \<in> begunAt c \<Longrightarrow> fromPast s g True"
    and "sys_calls s t = c \<Longrightarrow> (g, es') \<in> holds c \<Longrightarrow> fromPast s g (current L s es')"
  using assms by (auto simp: cacheInv_def)

lemma cacheInv_now: "cacheInv T L s \<Longrightarrow> fromPast s (cache_gen (sys_cache s)) True"
  by (simp add: cacheInv_def)

lemma current_readI: "stList (sl_entries L) (sys_db s) = Inr es \<Longrightarrow> current L s es"
  by (simp add: current_def)

lemma ledger_step_inv:
  assumes "ledger_step R T L s s'" and "cacheInv T L s" and "sys_drops s' < 2 ^ 64"
  shows "cacheInv T L s'"
  using assms
proof (induction rule: ledger_step.induct)
  case (commit s t db')
  let ?s = "setCall t Committed (s\<lparr>sys_db := db'\<rparr>)"
  have [simp]: "current L ?s es" for es by (auto simp: current_def writing_def)
  have past: "fromPast ?s g True" if "fromPast s g ok" for g ok
    using that by (rule fromPast_mono) auto
  note D = cacheInvD[OF commit(3)]
  show ?case
    using D(1) past[OF D(4)] past[OF D(5)] D(3) unfolding cacheInv_def
    by (auto simp: split_beta)
next
  case (drop s t)
  let ?s = "setCall t Idle (s\<lparr>sys_cache := cache_invalidate (sys_cache s), sys_drops := sys_drops s + 1\<rparr>)"
  have past: "fromPast ?s g ok'" if "fromPast s g ok" for g ok ok'
    using that by (rule fromPast_drop) simp
  note D = cacheInvD[OF drop(2)]
  show ?case
    using D(1) past[OF D(4)] past[OF D(5)] unfolding cacheInv_def
    by (auto simp: cache_invalidate_def split_beta)
next
  case (list_load s t g)
  note D = cacheInvD[OF list_load(3)]
  show ?case
    using list_load(1,2) cacheInv_now[OF list_load(3)] D(2,3)
    by (intro reader_inv[OF list_load(3), of t _ _ "sys_cache s"]) (auto simp: cache_loadEntries_def)
next
  case (list_read s t g es)
  note D = cacheInvD[OF list_read(3)]
  have "fromPast s g (current L s es)"
    using D(4)[OF list_read(1)] current_readI[OF list_read(2)] by (auto elim!: fromPast_mono)
  then show ?case
    using list_read(1) D(2,3) by (intro reader_inv[OF list_read(3), of t _ _ "sys_cache s"]) auto
next
  case (list_store s t g es)
  note D = cacheInvD[OF list_store(2)]
  have "cache_gen (sys_cache s) = g \<Longrightarrow> current L s es"
    using D(1) fromPast_eqD[OF D(5)[OF list_store(1), of g es]] list_store(3) by simp
  then show ?case
    using list_store(1) D(2,3)
    by (intro reader_inv[OF list_store(2), of t _ _ "cache_storeEntries g es (sys_cache s)"])
       (auto simp: cache_storeEntries_def split: if_splits)
next
  case (body_load s t g)
  note D = cacheInvD[OF body_load(3)]
  show ?case
    using body_load(1,2) cacheInv_now[OF body_load(3)] D(2,3)
    by (intro reader_inv[OF body_load(3), of t _ _ "sys_cache s"]) (auto simp: cache_load_def)
next
  case (body_hit s t g es g')
  note D = cacheInvD[OF body_hit(3)]
  have "fromPast s g (current L s (Some es))"
    using D(4)[OF body_hit(1)] D(2)[of es] body_hit(2)
    by (auto simp: cache_loadEntries_def elim!: fromPast_mono)
  then show ?case
    using body_hit(1) D(2,3) by (intro reader_inv[OF body_hit(3), of t _ _ "sys_cache s"]) auto
next
  case (body_list s t g g')
  note D = cacheInvD[OF body_list(3)]
  show ?case
    using body_list(1,2) cacheInv_now[OF body_list(3)] D(2,3) D(4)[OF body_list(1)]
    by (intro reader_inv[OF body_list(3), of t _ _ "sys_cache s"]) (auto simp: cache_loadEntries_def)
next
  case (body_read s t g g' es)
  note D = cacheInvD[OF body_read(3)]
  have "fromPast s h (current L s es)" if "h \<in> {g, g'}" for h
    using D(4)[OF body_read(1)] that current_readI[OF body_read(2)] by (auto elim!: fromPast_mono)
  then show ?case
    using body_read(1) D(2,3) by (intro reader_inv[OF body_read(3), of t _ _ "sys_cache s"]) auto
next
  case (body_list_store s t g g' es)
  note D = cacheInvD[OF body_list_store(2)]
  have "cache_gen (sys_cache s) = g' \<Longrightarrow> current L s es"
    using D(1) fromPast_eqD[OF D(5)[OF body_list_store(1), of g' es]] body_list_store(3) by simp
  then show ?case
    using body_list_store(1) D(2,3) D(5)[OF body_list_store(1), of g es]
    by (intro reader_inv[OF body_list_store(2), of t _ _ "cache_storeEntries g' es (sys_cache s)"])
       (auto simp: cache_storeEntries_def split: if_splits)
next
  case (body_store s t g es)
  note D = cacheInvD[OF body_store(2)]
  have "cache_gen (sys_cache s) = g \<Longrightarrow> current L s es"
    using D(1) fromPast_eqD[OF D(5)[OF body_store(1), of g es]] body_store(3) by simp
  then show ?case
    using body_store(1) D(2,3)
    by (intro reader_inv[OF body_store(2), of t _ _ "cache_store g (encodeEntries T es) (sys_cache s)"])
       (auto simp: cache_store_def split: if_splits)
qed

definition newLedger :: "'tx \<Rightarrow> 'tx ledgerSystem" where
  "newLedger db = \<lparr>sys_db = db, sys_cache = emptyCache, sys_calls = (\<lambda>_. Idle), sys_drops = 0\<rparr>"

abbreviation ledger_runs where "ledger_runs R T L \<equiv> (ledger_step R T L)\<^sup>*\<^sup>*"

lemma ledger_step_drops: "ledger_step R T L s s' \<Longrightarrow> sys_drops s \<le> sys_drops s'"
  by (induction rule: ledger_step.induct) auto

lemma cacheInv_new: "cacheInv T L (newLedger db)"
  by (simp add: cacheInv_def newLedger_def emptyCache_def)

lemma ledger_runs_inv:
  assumes "ledger_runs R T L s s'" and "cacheInv T L s" and "sys_drops s' < 2 ^ 64"
  shows "cacheInv T L s'"
  using assms
proof (induction rule: rtranclp_induct)
  case (step y z)
  then have "sys_drops y < 2 ^ 64" using ledger_step_drops by (meson le_less_trans)
  then show ?case using step ledger_step_inv by blast
qed simp

text \<open>With no writer in progress both reads answer what the database holds.\<close>

lemma cacheInv_answers:
  assumes "cacheInv T L s" and "\<not> writing s"
  shows "snd (ledger_List L (sys_db s, sys_cache s)) = stList (sl_entries L) (sys_db s)"
    and "snd (ledger_ListJSON T L (sys_db s, sys_cache s)) =
      map_sum id (encodeEntries T) (stList (sl_entries L) (sys_db s))"
proof -
  note D = cacheInvD[OF assms(1), unfolded current_def]
  have list: "snd (ledger_List L (sys_db s, c)) = stList (sl_entries L) (sys_db s)"
    if "cache_entries c = cache_entries (sys_cache s)" for c
    using D(2) assms(2) that
    by (cases "cache_entries (sys_cache s)")
       (auto simp: ledger_List_def cache_loadEntries_def db_View_def split: sum.splits)
  then show "snd (ledger_List L (sys_db s, sys_cache s)) = stList (sl_entries L) (sys_db s)" by simp
  have "map_sum id (encodeEntries T) (snd (ledger_List L (sys_db s, sys_cache s))) =
      snd (ledger_ListJSON T L (sys_db s, sys_cache s))" if "cache_body (sys_cache s) = None"
    using that by (auto simp: ledger_ListJSON_def cache_load_def split: prod.splits sum.splits)
  moreover have "snd (ledger_ListJSON T L (sys_db s, sys_cache s)) =
      map_sum id (encodeEntries T) (stList (sl_entries L) (sys_db s))" if "cache_body (sys_cache s) = Some b" for b
    using D(3)[OF that] assms(2) that by (auto simp: ledger_ListJSON_def cache_load_def)
  ultimately show "snd (ledger_ListJSON T L (sys_db s, sys_cache s)) =
      map_sum id (encodeEntries T) (stList (sl_entries L) (sys_db s))"
    using list[of "sys_cache s"] by (cases "cache_body (sys_cache s)") auto
qed

text \<open>A call that runs alone is its steps in sequence.\<close>

definition alone :: "'tx \<times> ledgerListCache \<Rightarrow> nat \<Rightarrow> 'tx ledgerSystem" where
  "alone st drops = \<lparr>sys_db = fst st, sys_cache = snd st, sys_calls = (\<lambda>_. Idle), sys_drops = drops\<rparr>"

lemma write_alone:
  assumes "ledgerCommit R T L (fst st) (fst result)"
  shows "ledger_runs R T L (alone st n) (alone (fst (thenInvalidate result (snd st))) (n + 1))"
proof -
  let ?s = "setCall 0 Committed ((alone st n)\<lparr>sys_db := fst result\<rparr>)"
  have "ledger_step R T L (alone st n) ?s"
    by (rule ledger_step.commit) (use assms in \<open>auto simp: alone_def\<close>)
  moreover have "ledger_step R T L ?s
      (setCall 0 Idle (?s\<lparr>sys_cache := cache_invalidate (sys_cache ?s), sys_drops := sys_drops ?s + 1\<rparr>))"
    by (rule ledger_step.drop) simp
  moreover have "setCall 0 Idle (?s\<lparr>sys_cache := cache_invalidate (sys_cache ?s), sys_drops := sys_drops ?s + 1\<rparr>)
      = alone (fst (thenInvalidate result (snd st))) (n + 1)"
    by (simp add: alone_def setCall_def thenInvalidate_def fun_eq_iff)
  ultimately show ?thesis by (metis converse_rtranclp_into_rtranclp rtranclp.rtrancl_refl)
qed

lemma list_alone:
  "ledger_runs R T L (alone st n) (alone (fst (ledger_List L st)) n)"
proof (cases "cache_entries (snd st) = None \<and> (\<exists>es. stList (sl_entries L) (fst st) = Inr es)")
  case True
  then obtain es where es: "stList (sl_entries L) (fst st) = Inr es" by blast
  let ?g = "cache_gen (snd st)"
  let ?s1 = "setCall 0 (ListLoaded ?g) (alone st n)"
  let ?s2 = "setCall 0 (ListRead ?g es) ?s1"
  have "ledger_step R T L (alone st n) ?s1"
    by (rule ledger_step.list_load) (use True in \<open>auto simp: alone_def cache_loadEntries_def\<close>)
  moreover have "ledger_step R T L ?s1 ?s2"
    by (rule ledger_step.list_read) (use es in \<open>auto simp: alone_def\<close>)
  moreover have "ledger_step R T L ?s2 (setCall 0 Idle (?s2\<lparr>sys_cache := cache_storeEntries ?g es (sys_cache ?s2)\<rparr>))"
    by (rule ledger_step.list_store) simp
  moreover have "setCall 0 Idle (?s2\<lparr>sys_cache := cache_storeEntries ?g es (sys_cache ?s2)\<rparr>) =
      alone (fst (ledger_List L st)) n"
    using True es by (simp add: alone_def setCall_def ledger_List_def cache_loadEntries_def db_View_def fun_eq_iff)
  ultimately show ?thesis by (metis converse_rtranclp_into_rtranclp rtranclp.rtrancl_refl)
next
  case False
  then have "fst (ledger_List L st) = st"
    by (auto simp: ledger_List_def cache_loadEntries_def db_View_def split: sum.splits)
  then show ?thesis by simp
qed

end
