(* ===== verification/LedgerApi.thy ===== *)
theory LedgerApi
  imports LedgerLaws Handlers
begin

text \<open>
  The ledger's HTTP handlers (\<open>pkg/handler/session-ledger-*.go\<close>) and the one-time import of the
  supervisor's file ledger (\<open>cmd/import-spawn-ledger\<close>). Decoding of a request body or of a file
  is an argument (\<open>None\<close> when it fails), as is the parser of RFC 3339 times.
\<close>

section \<open>Handlers\<close>

definition internalError :: "httpLib \<Rightarrow> 'b reply" where
  "internalError H = Failed 500 (lib_ErrorCodeInternal H) None"

definition rowNotFound :: "httpLib \<Rightarrow> 'b reply" where
  "rowNotFound H = Failed 404 (lib_ErrorCodeNotFound H) None"

definition handleSessionLedgerGet ::
  "httpLib \<Rightarrow> 'tx sessionLedgerStore \<Rightarrow> string \<Rightarrow> 'tx \<times> ledgerListCache \<Rightarrow> SessionLedgerEntry reply" where
  "handleSessionLedgerGet H L sessionID st =
     (case ledger_Get L sessionID st of
        Inl e \<Rightarrow> internalError H
      | Inr None \<Rightarrow> rowNotFound H
      | Inr (Some entry) \<Rightarrow> Sent 200 entry)"

definition handleSessionLedgerList ::
  "httpLib \<Rightarrow> timeJSON \<Rightarrow> 'tx sessionLedgerStore \<Rightarrow> 'tx \<times> ledgerListCache \<Rightarrow>
   ('tx \<times> ledgerListCache) \<times> json reply" where
  "handleSessionLedgerList H T L st =
     (case ledger_ListJSON T L st of
        (st, Inl e) \<Rightarrow> (st, internalError H)
      | (st, Inr body) \<Rightarrow> (st, Sent 200 body))"

definition handleSessionLedgerPatch ::
  "httpLib \<Rightarrow> runtime \<Rightarrow> timeJSON \<Rightarrow> 'tx sessionLedgerStore \<Rightarrow> string \<Rightarrow> SessionLedgerPatch option \<Rightarrow>
   'tx \<times> ledgerListCache \<Rightarrow> ('tx \<times> ledgerListCache) \<times> SessionLedgerEntry reply" where
  "handleSessionLedgerPatch H R T L sessionID body st =
     (case body of
        None \<Rightarrow> (st, badRequest H)
      | Some patch \<Rightarrow>
          (case ledger_Patch R T L sessionID patch st of
             (st, Inl e) \<Rightarrow> (st, if e = ErrSessionLedgerPatchInvalid then badRequest H else internalError H)
           | (st, Inr None) \<Rightarrow> (st, rowNotFound H)
           | (st, Inr (Some entry)) \<Rightarrow> (st, Sent 200 entry)))"

definition handleSessionLedgerPost ::
  "httpLib \<Rightarrow> runtime \<Rightarrow> 'tx sessionLedgerStore \<Rightarrow> SessionLedgerEntry option \<Rightarrow>
   'tx \<times> ledgerListCache \<Rightarrow> ('tx \<times> ledgerListCache) \<times> SessionLedgerEntry reply" where
  "handleSessionLedgerPost H R L body st =
     (case body of
        None \<Rightarrow> (st, badRequest H)
      | Some entry \<Rightarrow>
          if Ledger_Validate R entry \<noteq> None then (st, badRequest H)
          else (case ledger_Post R L entry st of
                  (st, Inl e) \<Rightarrow> (st, internalError H)
                | (st, Inr _) \<Rightarrow>
                    (case ledger_Get L (led_SessionID entry) st of
                       Inl e \<Rightarrow> (st, internalError H)
                     | Inr None \<Rightarrow> (st, internalError H)
                     | Inr (Some stored) \<Rightarrow> (st, Sent 200 stored))))"

section \<open>The import of the file ledger\<close>

record fileRecord =
  fr_SessionID :: string
  fr_AgentID :: string
  fr_Label :: string
  fr_Mode :: string
  fr_ModeSource :: string
  fr_Cwd :: string
  fr_Launcher :: string
  fr_PaneID :: string
  fr_ResumedFrom :: string
  fr_Policy :: string
  fr_ParentSession :: string
  fr_Role :: string
  fr_SpawnedAt :: string
  fr_EndedAt :: string
  fr_Status :: string
  fr_Result :: "json option"
  fr_WorkerID :: string
  fr_Target :: string
  fr_UnknownReason :: string
  fr_SupervisorExit :: string
  fr_Parked :: "json option"

text \<open>The tool's \<open>isJSONNull\<close>: absent, or the literal null.\<close>

definition importIsJSONNull :: "json option \<Rightarrow> bool" where
  "importIsJSONNull raw = (raw = None \<or> raw = Some JNull)"

definition parsedTime :: "(string \<Rightarrow> instant option) \<Rightarrow> string \<Rightarrow> error + instant" where
  "parsedTime parse s = (case parse s of None \<Rightarrow> Inl (OtherError ''parse'') | Some t \<Rightarrow> Inr t)"

definition toEntry :: "(string \<Rightarrow> instant option) \<Rightarrow> fileRecord \<Rightarrow> error + SessionLedgerEntry" where
  "toEntry parse r =
     ebind (parsedTime parse (fr_SpawnedAt r)) (\<lambda>spawnedAt.
       let entry = emptyEntry\<lparr>
         led_SessionID := fr_SessionID r, led_AgentID := fr_AgentID r, led_Label := fr_Label r,
         led_Mode := fr_Mode r, led_ModeSource := fr_ModeSource r, led_Launcher := fr_Launcher r,
         led_Cwd := fr_Cwd r, led_PaneID := fr_PaneID r, led_ResumedFrom := fr_ResumedFrom r,
         led_Policy := fr_Policy r, led_SpawnerSessionID := fr_ParentSession r, led_Role := fr_Role r,
         led_Location := LocalSessionHeartbeatLocation, led_SpawnedAt := spawnedAt,
         led_Status := fr_Status r, led_Result := fr_Result r, led_WorkerID := fr_WorkerID r,
         led_Target := fr_Target r, led_UnknownReason := fr_UnknownReason r\<rparr>;
         entry = (if \<not> importIsJSONNull (fr_Parked r) then entry\<lparr>led_ParkedPermission := fr_Parked r\<rparr> else entry)
       in ebind (if fr_EndedAt r = [] then Inr entry
                 else ebind (parsedTime parse (fr_EndedAt r)) (\<lambda>t. Inr (entry\<lparr>led_EndedAt := Some t\<rparr>))) (\<lambda>entry.
          if fr_SupervisorExit r = [] then Inr entry
          else ebind (parsedTime parse (fr_SupervisorExit r))
                 (\<lambda>t. Inr (entry\<lparr>led_SupervisorExitedAt := Some t\<rparr>))))"

text \<open>\<open>filepath.Ext\<close> of a name without separators: from its last dot.\<close>

definition Ext :: "string \<Rightarrow> string" where
  "Ext name =
     (let after = takeWhile (\<lambda>c. c \<noteq> CHR ''.'') (rev name)
      in if CHR ''.'' \<in> set name then CHR ''.'' # rev after else [])"

text \<open>The directory as the list of its files, in name order: what reading one gives (\<open>Inl\<close> when it
  cannot be read) and what decoding its text gives.\<close>

definition readLedgerFile ::
  "(string \<Rightarrow> instant option) \<Rightarrow> SessionLedgerEntry list \<times> nat \<times> nat \<Rightarrow> string \<times> (error + fileRecord option) \<Rightarrow>
   error + SessionLedgerEntry list \<times> nat \<times> nat" where
  "readLedgerFile parse acc file =
     (case (acc, file) of ((es, unparsable, noID), (name, content)) \<Rightarrow>
       if Ext name \<noteq> ''.json'' then Inr acc
       else ebind content (\<lambda>decoded.
         case decoded of
           None \<Rightarrow> Inr (es, unparsable + 1, noID)
         | Some r \<Rightarrow>
             if fr_SessionID r = [] then Inr (es, unparsable, noID + 1)
             else ebind (toEntry parse r) (\<lambda>entry. Inr (es @ [entry], unparsable, noID))))"

definition readLedgerDir ::
  "(string \<Rightarrow> instant option) \<Rightarrow> error + (string \<times> (error + fileRecord option)) list \<Rightarrow>
   error + SessionLedgerEntry list \<times> nat \<times> nat" where
  "readLedgerDir parse dir = ebind dir (\<lambda>files. efold (readLedgerFile parse) ([], 0, 0) files)"

text \<open>The run of the tool on an opened store: nothing is written unless every file maps to a row.\<close>

definition importSpawnLedger ::
  "runtime \<Rightarrow> (string \<Rightarrow> instant option) \<Rightarrow> 'tx sessionLedgerStore \<Rightarrow>
   error + (string \<times> (error + fileRecord option)) list \<Rightarrow> 'tx \<times> ledgerListCache \<Rightarrow>
   ('tx \<times> ledgerListCache) \<times> (error + nat)" where
  "importSpawnLedger R parse L dir st =
     (case readLedgerDir parse dir of
        Inl e \<Rightarrow> (st, Inl e)
      | Inr (es, _, _) \<Rightarrow> ledger_Import R L es st)"

section \<open>What the import maps\<close>

lemma toEntry_fields:
  assumes "toEntry parse r = Inr e"
  shows "led_SessionID e = fr_SessionID r \<and> led_SpawnerSessionID e = fr_ParentSession r \<and>
    led_Location e = LocalSessionHeartbeatLocation \<and> led_Result e = fr_Result r \<and>
    parse (fr_SpawnedAt r) = Some (led_SpawnedAt e) \<and> led_Task e = [] \<and> led_Vault e = [] \<and>
    (led_ParkedPermission e = (if fr_Parked r = Some JNull then None else fr_Parked r))"
  using assms
  by (auto simp: toEntry_def parsedTime_def emptyEntry_def importIsJSONNull_def Let_def ebind_eq_Inr
      split: option.splits if_splits)



end
