(* ===== verification/LedgerProperties.thy ===== *)
theory LedgerProperties
  imports LedgerApi Demo
begin

text \<open>
  The properties of the spawn ledger, with an in-memory database that holds the ledger's
  bucket beside the attention buckets, a fixed-width decimal text for its times, and the rows
  the witnesses use.
\<close>

section \<open>An in-memory ledger\<close>

type_synonym ledgerdb = "memdb \<times> (string \<times> SessionLedgerEntry) list option"

definition onFst :: "(memdb, 'v) StoreTx \<Rightarrow> (ledgerdb, 'v) StoreTx" where
  "onFst S = \<lparr>
     stGet = (\<lambda>s k. stGet S (fst s) k),
     stAdd = (\<lambda>s k v. map_sum id (\<lambda>m. (m, snd s)) (stAdd S (fst s) k v)),
     stRemove = (\<lambda>s k. map_sum id (\<lambda>m. (m, snd s)) (stRemove S (fst s) k)),
     stExists = (\<lambda>s k. stExists S (fst s) k),
     stMap = (\<lambda>s. stMap S (fst s))\<rparr>"

definition demo_kv :: "ledgerdb libkv" where
  "demo_kv = \<lparr>itemStoreTx = onFst \<circ> itemStoreTx mem_kv, attemptStoreTx = onFst \<circ> attemptStoreTx mem_kv,
     txBucket = txBucket mem_kv \<circ> fst, txReverse = txReverse mem_kv \<circ> fst, txCommit = txCommit mem_kv \<circ> fst\<rparr>"

definition demo_rows :: "string \<Rightarrow> (ledgerdb, SessionLedgerEntry) ListStoreTx" where
  "demo_rows b = \<lparr>
     stGet = (\<lambda>s k. alist_Get (snd s) k),
     stAdd = (\<lambda>s k v. if k = [] then Inl (OtherError ''key required'')
       else Inr (fst s, Some ((k, v) # alist_of (snd s)))),
     stRemove = (\<lambda>s k. Inr (fst s, Some (filter (\<lambda>e. fst e \<noteq> k) (alist_of (snd s))))),
     stExists = (\<lambda>s k. Inr (map_of (alist_of (snd s)) k \<noteq> None)),
     stMap = (\<lambda>s. Inr (alist_entries (alist_of (snd s)))),
     stList = (\<lambda>s. Inr (map_option (\<lambda>es. map snd (alist_entries es)) (snd s)))\<rparr>"

definition demo_ledger :: "ledgerdb sessionLedgerStore" where
  "demo_ledger = NewSessionLedgerStore demo_kv demo_rows"

definition demo_table :: "ledgerdb \<Rightarrow> (string \<rightharpoonup> SessionLedgerEntry) option" where
  "demo_table s = map_option map_of (snd s)"

lemma demo_ledger_simps [simp]: "sl_db demo_ledger = demo_kv" "sl_entries demo_ledger = demo_rows sessionLedgerBucketName"
  by (simp_all add: demo_ledger_def NewSessionLedgerStore_def)

interpretation demo_lib: ledger_lib demo_ledger demo_table
proof unfold_locales
  show "\<exists>es. stList (sl_entries demo_ledger) tx = Inr es \<and>
      listed es = map snd (sorted_entries (optMap (demo_table tx)))" for tx
    by (cases "snd tx") (simp_all add: demo_rows_def demo_table_def listed_def alist_entries_sorted alist_of_def
        sorted_entries_def)
qed (auto simp: demo_rows_def demo_kv_def demo_table_def mem_kv_def alist_Get_eq finite_dom_map_of alist_of_def
    split: option.splits)

interpretation demo_run: ledger_run demo_ledger demo_table std_runtime
  by unfold_locales

section \<open>A text for times\<close>

definition digitsValue :: "string \<Rightarrow> int" where
  "digitsValue s = foldl (\<lambda>n c. 10 * n + (int (of_char c) - 48)) 0 s"

definition demo_textual :: "instant \<Rightarrow> bool" where
  "demo_textual t \<longleftrightarrow> 0 \<le> t \<and> t < 10 ^ 20"

definition demo_time :: timeJSON where
  "demo_time = \<lparr>tj_encode = (\<lambda>t. JString (padDigits 20 t)),
     tj_decode = (\<lambda>j. case j of JString s \<Rightarrow> if length s = 20 then Some (digitsValue s) else None | _ \<Rightarrow> None)\<rparr>"

lemma digitsValue_padDigits: "0 \<le> x \<Longrightarrow> x < 10 ^ k \<Longrightarrow> digitsValue (padDigits k x) = x"
proof (induction k arbitrary: x)
  case (Suc k)
  have "x div 10 < 10 ^ k" using Suc.prems by (simp add: div_less_iff_less_mult mult.commute)
  then have "digitsValue (padDigits k (x div 10)) = x div 10" using Suc by simp
  moreover have "of_char (digitChar (x mod 10)) = 48 + nat (x mod 10)" by (rule digitChar_cases) simp_all
  ultimately show ?case by (simp add: digitsValue_def)
qed (simp add: digitsValue_def)

interpretation demo_tj: time_json demo_time demo_textual
  by unfold_locales (auto simp: demo_time_def demo_textual_def digitsValue_padDigits)

section \<open>Demo rows\<close>

definition demo_sid :: string where "demo_sid = ''00000000-0000-0000-0000-000000000000''"
definition demo_other :: string where "demo_other = ''11111111-1111-1111-1111-111111111111''"

definition demo_row :: SessionLedgerEntry where
  "demo_row = emptyEntry\<lparr>led_SessionID := demo_sid, led_Location := ''local'', led_SpawnedAt := 7,
     led_Status := ''running''\<rparr>"

definition demo_ldb :: ledgerdb where "demo_ldb = (mem_empty, Some [(demo_sid, demo_row)])"

lemma demo_sid_ne [simp]: "demo_sid \<noteq> []" by (simp add: demo_sid_def)

lemma demo_table_row [simp]: "optMap (demo_table demo_ldb) = [demo_sid \<mapsto> demo_row]"
  by (simp add: demo_table_def demo_ldb_def optMap_def)

lemma demo_row_valid: "Ledger_Validate std_runtime demo_row = None" by code_simp

lemma demo_row_textual: "rowTextual demo_textual demo_row"
  by (simp add: rowTextual_def demo_textual_def demo_row_def emptyEntry_def)

lemma demo_row_spawned: "led_SpawnedAt demo_row = 7" by (simp add: demo_row_def)

section \<open>Patching\<close>

text \<open>C36: a patch that names fields by their wire names with values of their types merges: each named
  field takes the given value, a null clears it to what an empty row shows, and every field that is not
  named is exactly as its owner wrote it. The merged row is stored under the session, and no
  other row changes, unless it would be invalid, which is refused and changes nothing.\<close>

theorem patch_merges_fields:
  assumes "ledger_run L rows R" and "time_json T ok" and "optMap (rows s) sid = Some e" and "sid \<noteq> []"
    and "rowTextual ok e" and "distinct (map fst p)" and "sessionIDField \<notin> set (map fst p)"
    and "\<forall>kv \<in> set p. snd kv \<noteq> JNull \<longrightarrow> wellTyped T kv"
  shows "\<exists>merged.
     (\<forall>f \<in> set ledgerFields. fieldVal T merged f =
        (case map_of p f of
           None \<Rightarrow> fieldVal T e f
         | Some j \<Rightarrow> if j = JNull then fieldVal T emptyEntry f else the (readsAs T f j))) \<and>
     (if Ledger_Validate R merged = None
      then \<exists>s'. ledger_Patch R T L sid p (s, c) = ((s', cache_invalidate c), Inr (Some merged)) \<and>
             optMap (rows s') = (optMap (rows s))(sid \<mapsto> merged)
      else ledger_Patch R T L sid p (s, c) = ((s, cache_invalidate c), Inl ErrSessionLedgerPatchInvalid))"
proof -
  note lib = ledger_run.axioms(1)[OF assms(1)]
  note rowsOf = ledger_lib.rowsOf_def[OF lib]
  obtain merged where m: "Patch_Apply T p e = Inr merged"
    "\<forall>f \<in> set ledgerFields. fieldVal T merged f = (case map_of p f of None \<Rightarrow> fieldVal T e f
       | Some j \<Rightarrow> if j = JNull then fieldVal T emptyEntry f else the (readsAs T f j))"
    using time_json.patch_fields[OF assms(2,5-8)] by blast
  show ?thesis
    using ledger_run.patch_ok[OF assms(1) _ m(1), of s sid] ledger_run.patch_invalid[OF assms(1) _ m(1), of s sid]
      assms(3,4) m(2)
    by (intro exI[of _ merged]) (auto simp: ledger_Patch_def thenInvalidate_def rowsOf)
qed

lemma patch_merges_fields_witness:
  "\<exists>merged. fieldVal demo_time merged ''status'' = Some (JString ''stopped'') \<and>
     fieldVal demo_time merged ''spawned_at'' = fieldVal demo_time demo_row ''spawned_at'' \<and>
     snd (ledger_Patch std_runtime demo_time demo_ledger demo_sid [(''status'', JString ''stopped'')] (demo_ldb, emptyCache))
       \<in> {Inr (Some merged), Inl ErrSessionLedgerPatchInvalid}"
proof -
  let ?p = "[(''status'', JString ''stopped'')]"
  obtain merged where "\<forall>f \<in> set ledgerFields. fieldVal demo_time merged f =
      (case map_of ?p f of None \<Rightarrow> fieldVal demo_time demo_row f
       | Some j \<Rightarrow> if j = JNull then fieldVal demo_time emptyEntry f else the (readsAs demo_time f j))"
    "snd (ledger_Patch std_runtime demo_time demo_ledger demo_sid ?p (demo_ldb, emptyCache))
       \<in> {Inr (Some merged), Inl ErrSessionLedgerPatchInvalid}"
    using patch_merges_fields[OF demo_run.ledger_run_axioms demo_tj.time_json_axioms _ demo_sid_ne demo_row_textual,
        of demo_ldb ?p emptyCache]
    by (auto simp: wellTyped_def sessionIDField_def ledgerFields_def readsAs_def rawFields_def timeFields_def
        split: if_splits)
  then show ?thesis
    by (intro exI[of _ merged]) (auto simp: ledgerFields_def readsAs_def rawFields_def timeFields_def)
qed

text \<open>A patch whose one key is a field's name in another spelling (the decoder folds case)
  is always reported as merged, and it sets the field only when the key sorts after the name or the row has no
  such field; otherwise the row's own value, decoded later, wins and the row is what it was.\<close>

theorem other_spelling_ignored:
  assumes "time_json T ok" and "rowTextual ok e" and "k \<notin> set ledgerFields" and "fieldOf k = Some f"
    and "j \<noteq> JNull" and "readsAs T f j = Some v"
  shows "\<exists>merged. Patch_Apply T [(k, j)] e = Inr merged \<and>
    (\<forall>g \<in> set ledgerFields. fieldVal T merged g =
       (if g = f \<and> (f < k \<or> fieldVal T e f = None) then v else fieldVal T e g))"
  using time_json.patch_spelling[OF assms(1,2,3,4,5,6)] by blast

lemma other_spelling_ignored_witness:
  "\<exists>merged. Patch_Apply demo_time [(''Status'', JString ''stopped'')] demo_row = Inr merged \<and>
     (\<forall>g \<in> set ledgerFields. fieldVal demo_time merged g = fieldVal demo_time demo_row g)"
proof -
  have k: "''Status'' \<notin> set ledgerFields" by (simp add: ledgerFields_def)
  have f: "fieldOf ''Status'' = Some ''status''" by code_simp
  have "\<not> ''status'' < ''Status''" by code_simp
  moreover have "fieldVal demo_time demo_row ''status'' \<noteq> None"
    by (simp add: fieldVal_table entryFields_def)
  ultimately show ?thesis
    using other_spelling_ignored[OF demo_tj.time_json_axioms demo_row_textual k f, of "JString ''stopped''"
        "Some (JString ''stopped'')"]
    by (auto simp: readsAs_def rawFields_def timeFields_def)
qed

text \<open>The name of the session id with its first letter written as the long s.\<close>

definition longSessionID :: string where
  "longSessionID = CHR 0xC5 # CHR 0xBF # ''ession_id''"

lemma longSessionID_field: "fieldOf longSessionID = Some ''session_id''" by code_simp

lemma longSessionID_after: "''session_id'' < longSessionID" by code_simp

lemma longSessionID_new: "longSessionID \<notin> set ledgerFields" by code_simp

lemma row_fields:
  assumes "\<forall>g \<in> set ledgerFields. g \<noteq> ''session_id'' \<longrightarrow> fieldVal T e' g = fieldVal T e g"
  shows "led_Task e' = led_Task e \<and> led_Vault e' = led_Vault e \<and> led_Location e' = led_Location e"
  using assms by (simp add: ledgerFields_def fieldVal_table entryFields_def)

lemma session_id_field: "fieldVal T e ''session_id'' = Some (JString (led_SessionID e))"
  by (simp add: fieldVal_table entryFields_def)

text \<open>The guard that keeps a patch from naming the session compares bytes while the decoder folds
  case: a patch whose key is the session id's name with a long s passes it. For a valid row and any
  other valid session id the endpoint answers 200 and stores, under the session of the path, a row that names
  the other session.\<close>

theorem patch_replaces_identity:
  assumes "ledger_run L rows R" and "time_json T ok" and "optMap (rows s) sid = Some e" and "sid \<noteq> []"
    and "rowTextual ok e" and "Ledger_Validate R e = None" and "SessionID_Validate other = None"
  shows "\<exists>s' merged.
    handleSessionLedgerPatch H R T L sid (Some [(longSessionID, JString other)]) (s, c) =
      ((s', cache_invalidate c), Sent 200 merged) \<and>
    led_SessionID merged = other \<and> optMap (rows s') = (optMap (rows s))(sid \<mapsto> merged)"
proof -
  note lib = ledger_run.axioms(1)[OF assms(1)] and rt = ledger_run.axioms(2)[OF assms(1)]
  note rowsOf = ledger_lib.rowsOf_def[OF lib]
  have v: "readsAs T ''session_id'' (JString other) = Some (Some (JString other))"
    by (simp add: readsAs_def rawFields_def timeFields_def)
  obtain merged where m: "Patch_Apply T [(longSessionID, JString other)] e = Inr merged"
    "\<forall>g \<in> set ledgerFields. fieldVal T merged g =
       (if g = ''session_id'' \<and> (''session_id'' < longSessionID \<or> fieldVal T e ''session_id'' = None)
        then Some (JString other) else fieldVal T e g)"
    "led_SpawnedAt merged = led_SpawnedAt e"
    using time_json.patch_spelling[OF assms(2,5) longSessionID_new longSessionID_field _ v] by auto
  have "fieldVal T merged ''session_id'' = Some (JString other)"
    using m(2) longSessionID_after by (simp add: ledgerFields_def)
  then have sid: "led_SessionID merged = other" by (simp add: session_id_field)
  have "Ledger_Validate R merged = None"
    using runtime_lib.Ledger_Validate_iff[OF rt] row_fields[of T merged e] m(2,3) sid assms(6,7) by simp
  then show ?thesis
    using ledger_run.patch_ok[OF assms(1) _ m(1), of s sid] assms(3,4) sid
    by (auto simp: handleSessionLedgerPatch_def ledger_Patch_def thenInvalidate_def rowsOf)
qed

definition demo_codes :: httpLib where
  "demo_codes = \<lparr>lib_ErrorCodeValidation = ''VALIDATION_ERROR'', lib_ErrorCodeNotFound = ''NOT_FOUND'',
     lib_ErrorCodeInternal = ''INTERNAL_ERROR'', lib_uncoded = (500, ''INTERNAL_ERROR'')\<rparr>"

lemma patch_replaces_identity_witness:
  "\<exists>s' merged. handleSessionLedgerPatch demo_codes std_runtime demo_time demo_ledger demo_sid
       (Some [(longSessionID, JString demo_other)]) (demo_ldb, emptyCache)
         = ((s', cache_invalidate emptyCache), Sent 200 merged) \<and>
     led_SessionID merged = demo_other \<and> optMap (demo_table s') = [demo_sid \<mapsto> merged]"
proof -
  have other: "SessionID_Validate demo_other = None" by code_simp
  have row: "optMap (demo_table demo_ldb) demo_sid = Some demo_row" by simp
  show ?thesis
    using patch_replaces_identity[OF demo_run.ledger_run_axioms demo_tj.time_json_axioms row demo_sid_ne
        demo_row_textual demo_row_valid other, of demo_codes emptyCache]
    by simp
qed

section \<open>Importing\<close>

text \<open>The import is all or nothing and never overwrites: with an invalid row among them nothing is
  stored; otherwise each session without a row gets the first row given for it, every row already there
  stays, the count is the number of sessions added, and importing the same rows again adds none.\<close>

theorem import_adds_missing:
  assumes "ledger_run L rows R"
  shows "if \<forall>e \<in> set es. Ledger_Validate R e = None
    then \<exists>s'. ledger_Import R L es (s, c) =
        ((s', cache_invalidate c), Inr (card (led_SessionID ` set es - dom (optMap (rows s))))) \<and>
      (\<forall>k. optMap (rows s') k = (case optMap (rows s) k of
          Some e \<Rightarrow> Some e | None \<Rightarrow> find (\<lambda>e. led_SessionID e = k) es)) \<and>
      ledger_Import R L es (s', c) = ((s', cache_invalidate c), Inr 0)
    else \<exists>err. ledger_Import R L es (s, c) = ((s, cache_invalidate c), Inl err)"
proof (cases "\<forall>e \<in> set es. Ledger_Validate R e = None")
  case True
  note lib = ledger_run.axioms(1)[OF assms]
  note rowsOf = ledger_lib.rowsOf_def[OF lib] and commit = ledger_lib.commit_ok[OF lib]
  obtain s' n where one: "efold (importOne R L) (s, 0) es = Inr (s', n)"
    "optMap (rows s') = fold demo_run.importRow es (optMap (rows s))"
    "n = card (dom (optMap (rows s')) - dom (optMap (rows s)))"
    using ledger_run.import_loop[OF assms True, of s 0] unfolding rowsOf by (metis add_0)
  have at: "optMap (rows s') k = (case optMap (rows s) k of
      Some e \<Rightarrow> Some e | None \<Rightarrow> find (\<lambda>e. led_SessionID e = k) es)" for k
    using ledger_run.importRows_apply[OF assms] one(2) by metis
  have found: "find (\<lambda>e. led_SessionID e = k) es \<noteq> None \<longleftrightarrow> k \<in> led_SessionID ` set es" for k
    by (auto simp: find_None_iff)
  have dom: "k \<in> dom (optMap (rows s')) \<longleftrightarrow> k \<in> dom (optMap (rows s)) \<or> k \<in> led_SessionID ` set es" for k
    using found[of k] at[of k] by (auto simp: domIff split: option.splits)
  then have n: "n = card (led_SessionID ` set es - dom (optMap (rows s)))"
    unfolding one(3) by (intro arg_cong[of _ _ card]) blast
  obtain s2 n2 where two: "efold (importOne R L) (s', 0) es = Inr (s2, n2)"
    "n2 = card (dom (optMap (rows s2)) - dom (optMap (rows s')))"
    "led_SessionID ` set es \<subseteq> dom (optMap (rows s')) \<longrightarrow> s2 = s'"
    using ledger_run.import_loop[OF assms True, of s' 0] unfolding rowsOf by (metis add_0)
  then have "s2 = s'" "n2 = 0" using dom by auto
  then show ?thesis
    using True one(1) two(1) at n commit
    by (auto simp: ledger_Import_def commitImport_def db_Update_def thenInvalidate_def)
next
  case False
  then obtain err where "efold (importOne R L) (s, 0) es = Inl err"
    using ledger_run.import_invalid[OF assms] by blast
  then show ?thesis
    using False by (auto simp: ledger_Import_def commitImport_def db_Update_def thenInvalidate_def)
qed

lemma import_adds_missing_witness:
  "\<exists>s'. ledger_Import std_runtime demo_ledger [demo_row, demo_row] ((mem_empty, None), emptyCache) =
       ((s', cache_invalidate emptyCache), Inr 1) \<and>
     optMap (demo_table s') demo_sid = Some demo_row"
proof -
  have id: "led_SessionID demo_row = demo_sid" by (simp add: demo_row_def)
  have empty: "optMap (demo_table (mem_empty, None)) = Map.empty" by (simp add: demo_table_def optMap_def)
  have "card (led_SessionID ` set [demo_row, demo_row] - dom (optMap (demo_table (mem_empty, None)))) = 1"
    by (simp add: id empty)
  then show ?thesis
    using import_adds_missing[OF demo_run.ledger_run_axioms, of "[demo_row, demo_row]" "(mem_empty, None)" emptyCache]
      demo_row_valid
    by (fastforce simp: id empty)
qed

section \<open>The cached list\<close>

text \<open>C37: no stale list: in every state that readers and writers reach in any interleaving of their
  locked sections (short of 2^64 writes), when no write is between its commit and its return, the list and
  the list body are what the database holds, whether they come from the cache or not.\<close>

theorem ledger_list_current:
  assumes "ledger_runs R T L (newLedger s0) s" and "sys_drops s < 2 ^ 64" and "\<not> writing s"
  shows "snd (ledger_List L (sys_db s, sys_cache s)) = stList (sl_entries L) (sys_db s) \<and>
    snd (ledger_ListJSON T L (sys_db s, sys_cache s)) =
      map_sum id (encodeEntries T) (stList (sl_entries L) (sys_db s))"
  using cacheInv_answers[OF ledger_runs_inv[OF assms(1) cacheInv_new assms(2)] assms(3)] by blast

text \<open>A row is posted, the list is read, and read again from the cache.\<close>

definition demo_lst :: "ledgerdb \<times> ledgerListCache" where
  "demo_lst = fst (ledger_List demo_ledger (fst (ledger_Post std_runtime demo_ledger demo_row ((mem_empty, None), emptyCache))))"

lemma ledger_list_current_witness:
  "cache_entries (snd demo_lst) = Some [demo_row] \<and>
   snd (ledger_ListJSON demo_time demo_ledger demo_lst) = Inr (JArray [JObject (marshalEntry demo_time demo_row)])"
proof -
  let ?st0 = "((mem_empty, None), emptyCache) :: ledgerdb \<times> ledgerListCache"
  let ?st1 = "fst (ledger_Post std_runtime demo_ledger demo_row ?st0)"
  have new: "alone ?st0 0 = newLedger (mem_empty, None)" by (simp add: alone_def newLedger_def)
  have id: "led_SessionID demo_row = demo_sid" by (simp add: demo_row_def)
  have post: "commitPost std_runtime demo_ledger demo_row (mem_empty, None) = ((mem_empty, Some [(demo_sid, demo_row)]), Inr ())"
    by (simp add: commitPost_def demo_row_valid db_Update_def postTx_def demo_rows_def demo_kv_def mem_kv_def id
        alist_of_def)
  have "ledgerCommit std_runtime demo_time demo_ledger (mem_empty, None)
      (fst (commitPost std_runtime demo_ledger demo_row (mem_empty, None)))"
    by (auto simp: ledgerCommit_def)
  then have "ledger_runs std_runtime demo_time demo_ledger (alone ?st0 0) (alone ?st1 1)"
    using write_alone[of std_runtime demo_time demo_ledger ?st0 "commitPost std_runtime demo_ledger demo_row (mem_empty, None)" 0]
    by (simp add: ledger_Post_def)
  then have run: "ledger_runs std_runtime demo_time demo_ledger (newLedger (mem_empty, None)) (alone demo_lst 1)"
    using list_alone[of std_runtime demo_time demo_ledger ?st1 1] by (simp add: new demo_lst_def)
  have lst: "demo_lst = ((mem_empty, Some [(demo_sid, demo_row)]),
      (cache_invalidate emptyCache)\<lparr>cache_entries := Some [demo_row]\<rparr>)"
    by (simp add: demo_lst_def ledger_Post_def post thenInvalidate_def ledger_List_def cache_loadEntries_def
        cache_invalidate_def emptyCache_def db_View_def demo_rows_def alist_entries_def cache_storeEntries_def)
  have "stList (sl_entries demo_ledger) (fst demo_lst) = Inr (Some [demo_row])"
    by (simp add: lst demo_rows_def alist_entries_def)
  then show ?thesis
    using ledger_list_current[OF run] by (simp add: alone_def writing_def encodeEntries_def) (simp add: lst)
qed

end
