(* ===== verification/Paths.thy ===== *)
theory Paths
  imports Prelude
begin

text \<open>
  The functions of Go's \<open>strings\<close> and \<open>path/filepath\<close> on byte strings that the file-based components
  use: splitting, cutting, prefixes and suffixes, and cleaned paths as lists of components.
\<close>

section \<open>Splitting and cutting\<close>

text \<open>\<open>strings.Split\<close> at one byte.\<close>

fun splitAt1 :: "char \<Rightarrow> string \<Rightarrow> string list" where
  "splitAt1 c [] = [[]]"
| "splitAt1 c (x # xs) =
     (if x = c then [] # splitAt1 c xs
      else (case splitAt1 c xs of [] \<Rightarrow> [[x]] | p # ps \<Rightarrow> (x # p) # ps))"

definition hasPrefix :: "string \<Rightarrow> string \<Rightarrow> bool" where
  "hasPrefix s p = (take (length p) s = p)"

definition trimPrefix :: "string \<Rightarrow> string \<Rightarrow> string" where
  "trimPrefix s p = (if hasPrefix s p then drop (length p) s else s)"

definition cutPrefix :: "string \<Rightarrow> string \<Rightarrow> string option" where
  "cutPrefix s p = (if hasPrefix s p then Some (drop (length p) s) else None)"

definition HasSuffix :: "string \<Rightarrow> string \<Rightarrow> bool" where
  "HasSuffix s suf = (length suf \<le> length s \<and> drop (length s - length suf) s = suf)"

definition TrimSuffix :: "string \<Rightarrow> string \<Rightarrow> string" where
  "TrimSuffix s suf = (if HasSuffix s suf then take (length s - length suf) s else s)"

text \<open>\<open>strings.Index\<close>: the first position of a substring.\<close>

fun indexOf :: "string \<Rightarrow> string \<Rightarrow> nat option" where
  "indexOf pat [] = (if pat = [] then Some 0 else None)"
| "indexOf pat (c # cs) =
     (if hasPrefix (c # cs) pat then Some 0 else map_option Suc (indexOf pat cs))"

text \<open>\<open>strings.Cut\<close> at a separator.\<close>

definition cutAt :: "string \<Rightarrow> string \<Rightarrow> (string \<times> string) option" where
  "cutAt sep s = map_option (\<lambda>i. (take i s, drop (i + length sep) s)) (indexOf sep s)"

lemma splitAt1_plain: "c \<notin> set s \<Longrightarrow> splitAt1 c s = [s]"
  by (induction s) auto

lemma splitAt1_ne [simp]: "splitAt1 c s \<noteq> []"
  by (cases s) (auto split: list.split)

lemma splitAt1_append: "splitAt1 c (a @ c # b) = splitAt1 c a @ splitAt1 c b"
  by (induction a) (auto split: list.split)

lemma HasSuffix_append [simp]: "HasSuffix (s @ suf) suf"
  by (simp add: HasSuffix_def)

lemma TrimSuffix_append [simp]: "TrimSuffix (s @ suf) suf = s"
  by (simp add: TrimSuffix_def)

lemma HasSuffix_split: "HasSuffix s suf \<Longrightarrow> s = TrimSuffix s suf @ suf"
  by (metis HasSuffix_def TrimSuffix_def append_take_drop_id)

section \<open>Paths\<close>

text \<open>Cleaning a relative path: dots are removed, a double dot removes the component before it.\<close>

fun cleanParts :: "string list \<Rightarrow> string list \<Rightarrow> string list" where
  "cleanParts acc [] = rev acc"
| "cleanParts acc (p # ps) =
     (if p = [] \<or> p = ''.'' then cleanParts acc ps
      else if p = ''..'' \<and> acc \<noteq> [] \<and> hd acc \<noteq> ''..'' then cleanParts (tl acc) ps
      else cleanParts (p # acc) ps)"

definition cleanPath :: "string \<Rightarrow> string list" where
  "cleanPath path = cleanParts [] (splitAt1 (CHR ''/'') path)"

lemma cleanPath_plain: "CHR ''/'' \<notin> set s \<Longrightarrow> s \<notin> {[], ''.'', ''..''} \<Longrightarrow> cleanPath s = [s]"
  by (simp add: cleanPath_def splitAt1_plain)

end
