(* ===== verification/Heartbeat.thy ===== *)
theory Heartbeat
  imports Ledger TimeKey Paths "HOL-Library.AList"
begin

text \<open>
  The session heartbeats (\<open>session-heartbeat.go\<close>, \<open>-store.go\<close>, \<open>-view.go\<close>, \<open>-watcher.go\<close>): a
  directory with one JSON file per session, an in-memory snapshot of its rows, and the loop
  that keeps the snapshot current and deletes rows past the retention. The directory is
  a value: what each path in it holds, decoded, since other programs write it too. The outcome of
  a file operation that may fail is an argument. Ages are whole nanoseconds; the seconds of an age
  are exact here, as Go's \<open>float64\<close> of them is below 2^23 seconds (97 days).
\<close>

section \<open>The declaration\<close>

definition IdleSessionHeartbeatState :: string where "IdleSessionHeartbeatState = ''idle''"
definition BusySessionHeartbeatState :: string where "BusySessionHeartbeatState = ''busy''"
definition WaitingOnOperatorSessionHeartbeatState :: string where
  "WaitingOnOperatorSessionHeartbeatState = ''waiting-on-operator''"

definition AvailableSessionHeartbeatStates :: "string list" where
  "AvailableSessionHeartbeatStates =
     [IdleSessionHeartbeatState, BusySessionHeartbeatState, WaitingOnOperatorSessionHeartbeatState]"

definition SessionHeartbeatState_Validate :: "runtime \<Rightarrow> string \<Rightarrow> error option" where
  "SessionHeartbeatState_Validate R s =
     (if \<not> contains R AvailableSessionHeartbeatStates s then Some ValidationError else None)"

definition HookSessionHeartbeatSource :: string where "HookSessionHeartbeatSource = ''hook''"
definition MCPTimerSessionHeartbeatSource :: string where "MCPTimerSessionHeartbeatSource = ''mcp-timer''"
definition ManualSessionHeartbeatSource :: string where "ManualSessionHeartbeatSource = ''manual''"

definition AvailableSessionHeartbeatSources :: "string list" where
  "AvailableSessionHeartbeatSources =
     [HookSessionHeartbeatSource, MCPTimerSessionHeartbeatSource, ManualSessionHeartbeatSource]"

definition SessionHeartbeatSource_Validate :: "runtime \<Rightarrow> string \<Rightarrow> error option" where
  "SessionHeartbeatSource_Validate R s =
     (if \<not> contains R AvailableSessionHeartbeatSources s then Some ValidationError else None)"

record SessionHeartbeat =
  hb_SessionID :: string
  hb_Task :: string
  hb_Vault :: string
  hb_Location :: SessionHeartbeatLocation
  hb_State :: string
  hb_Source :: string
  hb_At :: instant

definition Heartbeat_validateOptionalTask :: "SessionHeartbeat \<Rightarrow> error option" where
  "Heartbeat_validateOptionalTask h = (if hb_Task h = [] \<and> hb_Vault h \<noteq> [] then Some ValidationError else None)"

definition Heartbeat_validateOptionalVault :: "SessionHeartbeat \<Rightarrow> error option" where
  "Heartbeat_validateOptionalVault h = (if hb_Vault h = [] \<and> hb_Task h \<noteq> [] then Some ValidationError else None)"

definition Heartbeat_Validate :: "runtime \<Rightarrow> SessionHeartbeat \<Rightarrow> error option" where
  "Heartbeat_Validate R h =
     validateAll R
       [(''SessionID'', notEmptyString R (hb_SessionID h)),
        (''Task'', Heartbeat_validateOptionalTask h),
        (''Vault'', Heartbeat_validateOptionalVault h),
        (''Location'', SessionHeartbeatLocation_Validate R (hb_Location h)),
        (''State'', SessionHeartbeatState_Validate R (hb_State h)),
        (''Source'', SessionHeartbeatSource_Validate R (hb_Source h))]"

definition IsFresh :: "SessionHeartbeat \<Rightarrow> instant \<Rightarrow> duration \<Rightarrow> bool" where
  "IsFresh h now window =
     (let age = timeSub now (hb_At h) in if age < 0 then False else age \<le> window)"

section \<open>The view\<close>

record SessionHeartbeatView =
  view_Heartbeat :: SessionHeartbeat
  view_AgeSeconds :: int
  view_Live :: bool

definition ceilSeconds :: "duration \<Rightarrow> int" where
  "ceilSeconds d = - ((- d) div nsPerSecond)"

definition floorSeconds :: "duration \<Rightarrow> int" where
  "floorSeconds d = d div nsPerSecond"

definition NewSessionHeartbeatView :: "SessionHeartbeat \<Rightarrow> instant \<Rightarrow> duration \<Rightarrow> SessionHeartbeatView" where
  "NewSessionHeartbeatView h now window =
     (let age = timeSub now (hb_At h);
          rounded = (if age < 0 then floorSeconds age else ceilSeconds age)
      in \<lparr>view_Heartbeat = h, view_AgeSeconds = rounded, view_Live = IsFresh h now window\<rparr>)"

definition NewSessionHeartbeatViews ::
  "SessionHeartbeat list \<Rightarrow> instant \<Rightarrow> duration \<Rightarrow> SessionHeartbeatView list" where
  "NewSessionHeartbeatViews hs now window = map (\<lambda>h. NewSessionHeartbeatView h now window) hs"

section \<open>The directory\<close>

record sessionHeartbeatFile =
  file_SessionID :: string
  file_PID :: "int option"
  file_Mode :: string
  file_At :: instant
  file_Source :: string
  file_Task :: string
  file_Vault :: string
  file_Location :: string
  file_Activity :: string

text \<open>What reading a path gives: a subdirectory, a failed read, text that does not decode, or a
  decoded record.\<close>

datatype pathContent = Subdirectory | Unreadable | Undecodable | FileRecord sessionHeartbeatFile

text \<open>A path is its cleaned components relative to the heartbeat directory.\<close>

record heartbeatDir =
  dir_exists :: bool
  dir_files :: "(string list \<times> pathContent) list"

definition sessionHeartbeatFileSuffix :: string where "sessionHeartbeatFileSuffix = ''.json''"

definition heartbeatPath :: "string \<Rightarrow> string list" where
  "heartbeatPath sessionID = cleanPath (sessionID @ sessionHeartbeatFileSuffix)"

definition contentAt :: "heartbeatDir \<Rightarrow> string list \<Rightarrow> pathContent option" where
  "contentAt d path = map_of (dir_files d) path"

text \<open>\<open>os.ReadDir\<close>: the direct entries in name order.\<close>

definition dirEntries :: "heartbeatDir \<Rightarrow> (string \<times> pathContent) list" where
  "dirEntries d =
     (let names = sort (remdups (concat (map (\<lambda>(path, _). case path of [name] \<Rightarrow> [name] | _ \<Rightarrow> []) (dir_files d))))
      in map (\<lambda>name. (name, the (contentAt d [name]))) names)"

text \<open>What the outside world makes of the file operations of one call; \<open>None\<close> is success.\<close>

record fileIO =
  io_mkdir :: "error option"
  io_write :: "error option"
  io_readDir :: "error option"
  io_remove :: "error option"

definition workingIO :: fileIO where
  "workingIO = \<lparr>io_mkdir = None, io_write = None, io_readDir = None, io_remove = None\<rparr>"

section \<open>The store\<close>

record heartbeatStore =
  hb_rows :: "(string \<times> SessionHeartbeat) list"
  hb_loaded :: bool

definition NewSessionHeartbeatStore :: heartbeatStore where
  "NewSessionHeartbeatStore = \<lparr>hb_rows = [], hb_loaded = False\<rparr>"

definition validateSessionID :: "string \<Rightarrow> error option" where
  "validateSessionID sessionID =
     (if sessionID = [] then Some ErrInvalidSessionID
      else if sessionID = ''.'' \<or> sessionID = ''..'' then Some ErrInvalidSessionID
      else if CHR ''/'' \<in> set sessionID \<or> CHR 0x5C \<in> set sessionID then Some ErrInvalidSessionID
      else None)"

definition toHeartbeat :: "sessionHeartbeatFile \<Rightarrow> SessionHeartbeat" where
  "toHeartbeat r = \<lparr>hb_SessionID = file_SessionID r, hb_Task = file_Task r, hb_Vault = file_Vault r,
     hb_Location = file_Location r, hb_State = file_Activity r, hb_Source = file_Source r, hb_At = file_At r\<rparr>"

definition postedRecord :: "instant \<Rightarrow> SessionHeartbeat \<Rightarrow> sessionHeartbeatFile" where
  "postedRecord now h = \<lparr>file_SessionID = hb_SessionID h, file_PID = None, file_Mode = [], file_At = now,
     file_Source = hb_Source h, file_Task = hb_Task h, file_Vault = hb_Vault h,
     file_Location = hb_Location h, file_Activity = hb_State h\<rparr>"

text \<open>Either the target holds the new content or it is as it was: the temporary file is not
  a heartbeat row (its name has another suffix) and is removed.\<close>

definition writeAtomic :: "fileIO \<Rightarrow> string \<Rightarrow> pathContent \<Rightarrow> heartbeatDir \<Rightarrow> error + heartbeatDir" where
  "writeAtomic io sessionID content d =
     (case io_write io of
        Some e \<Rightarrow> Inl e
      | None \<Rightarrow> Inr (d\<lparr>dir_files := AList.update (heartbeatPath sessionID) content (dir_files d)\<rparr>))"

definition hb_Post ::
  "runtime \<Rightarrow> fileIO \<Rightarrow> instant \<Rightarrow> SessionHeartbeat \<Rightarrow> heartbeatDir \<times> heartbeatStore \<Rightarrow>
   (heartbeatDir \<times> heartbeatStore) \<times> (error + unit)" where
  "hb_Post R io now h st =
     (case st of (d, s) \<Rightarrow>
       (case Heartbeat_Validate R h of Some e \<Rightarrow> (st, Inl e) | None \<Rightarrow>
       (case validateSessionID (hb_SessionID h) of Some e \<Rightarrow> (st, Inl e) | None \<Rightarrow>
       (case io_mkdir io of Some e \<Rightarrow> (st, Inl e) | None \<Rightarrow>
         (let d = d\<lparr>dir_exists := True\<rparr>;
              row = postedRecord now h
          in case writeAtomic io (hb_SessionID h) (FileRecord row) d of
               Inl e \<Rightarrow> ((d, s), Inl e)
             | Inr d \<Rightarrow>
                 ((d, if hb_loaded s
                      then s\<lparr>hb_rows := AList.update (hb_SessionID h) (toHeartbeat row) (hb_rows s)\<rparr>
                      else s), Inr ()))))))"

definition parseSessionHeartbeatFile :: "sessionHeartbeatFile option \<Rightarrow> error + sessionHeartbeatFile option" where
  "parseSessionHeartbeatFile decoded =
     (case decoded of
        None \<Rightarrow> Inl (OtherError ''unmarshal'')
      | Some record \<Rightarrow> (if file_SessionID record = [] then Inr None else Inr (Some record)))"

text \<open>Reading a path: \<open>Inl\<close> is a failed read; \<open>Inr None\<close> text that does not decode.\<close>

definition readPath :: "pathContent \<Rightarrow> error + sessionHeartbeatFile option" where
  "readPath content =
     (case content of
        Subdirectory \<Rightarrow> Inl (OtherError ''is a directory'')
      | Unreadable \<Rightarrow> Inl (OtherError ''read'')
      | Undecodable \<Rightarrow> Inr None
      | FileRecord record \<Rightarrow> Inr (Some record))"

definition hb_Get :: "string \<Rightarrow> heartbeatDir \<Rightarrow> error + SessionHeartbeat option" where
  "hb_Get sessionID d =
     guardE (validateSessionID sessionID)
       (case contentAt d (heartbeatPath sessionID) of
          None \<Rightarrow> Inr None
        | Some content \<Rightarrow>
            ebind (readPath content) (\<lambda>decoded.
            ebind (parseSessionHeartbeatFile decoded) (\<lambda>record.
              Inr (map_option toHeartbeat record))))"

section \<open>The snapshot\<close>

text \<open>One entry of a scan: a row, or nothing for what is skipped.\<close>

definition entryRow :: "string \<times> pathContent \<Rightarrow> SessionHeartbeat option" where
  "entryRow entry =
     (case entry of (name, content) \<Rightarrow>
       if content = Subdirectory \<or> \<not> HasSuffix name sessionHeartbeatFileSuffix then None
       else (case readPath content of
               Inl _ \<Rightarrow> None
             | Inr decoded \<Rightarrow>
                 (case parseSessionHeartbeatFile decoded of
                    Inl _ \<Rightarrow> None
                  | Inr record \<Rightarrow> map_option toHeartbeat record)))"

definition scanEntry ::
  "runtime \<Rightarrow> (string \<times> SessionHeartbeat) list \<Rightarrow> string \<times> pathContent \<Rightarrow> error + (string \<times> SessionHeartbeat) list" where
  "scanEntry R rows entry =
     guardE (ctxErr R)
       (Inr (case entryRow entry of None \<Rightarrow> rows | Some h \<Rightarrow> AList.update (hb_SessionID h) h rows))"

definition readAll :: "runtime \<Rightarrow> fileIO \<Rightarrow> heartbeatDir \<Rightarrow> error + (string \<times> SessionHeartbeat) list" where
  "readAll R io d =
     (if \<not> dir_exists d then Inr []
      else (case io_readDir io of
              Some e \<Rightarrow> Inl e
            | None \<Rightarrow> efold (scanEntry R) [] (dirEntries d)))"

definition ensureLoaded :: "runtime \<Rightarrow> fileIO \<Rightarrow> heartbeatDir \<Rightarrow> heartbeatStore \<Rightarrow> error + heartbeatStore" where
  "ensureLoaded R io d s =
     (if hb_loaded s then Inr s
      else ebind (readAll R io d) (\<lambda>rows. Inr (s\<lparr>hb_rows := rows, hb_loaded := True\<rparr>)))"

definition hb_List ::
  "runtime \<Rightarrow> fileIO \<Rightarrow> heartbeatDir \<times> heartbeatStore \<Rightarrow>
   (heartbeatDir \<times> heartbeatStore) \<times> (error + SessionHeartbeat list)" where
  "hb_List R io st =
     (case st of (d, s) \<Rightarrow>
       (case ensureLoaded R io d s of
          Inl e \<Rightarrow> (st, Inl e)
        | Inr s \<Rightarrow>
            ((d, s), if hb_rows s \<noteq> [] \<and> ctxErr R \<noteq> None then Inl (the (ctxErr R))
                     else Inr (sort_key hb_SessionID (map snd (hb_rows s))))))"

section \<open>The watcher\<close>

text \<open>The change a burst names for one file: the session it is about and its row, \<open>None\<close> when the
  row is gone. A file that cannot be read, or has no session in its name, names none.\<close>

definition pathUpdate :: "heartbeatDir \<Rightarrow> string \<Rightarrow> (string \<times> SessionHeartbeat option) option" where
  "pathUpdate d name =
     (let sessionID = TrimSuffix name sessionHeartbeatFileSuffix in
      if sessionID = [] then None
      else (case contentAt d [name] of
              None \<Rightarrow> Some (sessionID, None)
            | Some content \<Rightarrow>
                (case readPath content of
                   Inl _ \<Rightarrow> None
                 | Inr decoded \<Rightarrow>
                     (case parseSessionHeartbeatFile decoded of
                        Inl _ \<Rightarrow> Some (sessionID, None)
                      | Inr None \<Rightarrow> Some (sessionID, None)
                      | Inr (Some record) \<Rightarrow> Some (file_SessionID record, Some (toHeartbeat record))))))"

definition collectUpdates :: "heartbeatDir \<Rightarrow> string list \<Rightarrow> (string \<times> SessionHeartbeat option) list" where
  "collectUpdates d names =
     fold (\<lambda>name updates. case pathUpdate d name of None \<Rightarrow> updates | Some (k, u) \<Rightarrow> AList.update k u updates)
       names []"

definition applyUpdate ::
  "string \<times> SessionHeartbeat option \<Rightarrow> (string \<times> SessionHeartbeat) list \<Rightarrow> (string \<times> SessionHeartbeat) list" where
  "applyUpdate u rows =
     (case u of (sessionID, None) \<Rightarrow> AList.delete sessionID rows
              | (sessionID, Some h) \<Rightarrow> AList.update sessionID h rows)"

definition applyPaths :: "runtime \<Rightarrow> heartbeatDir \<Rightarrow> string list \<Rightarrow> heartbeatStore \<Rightarrow> heartbeatStore" where
  "applyPaths R d names s =
     (if names = [] \<or> ctxErr R \<noteq> None \<or> \<not> hb_loaded s then s
      else s\<lparr>hb_rows := fold applyUpdate (collectUpdates d names) (hb_rows s)\<rparr>)"

text \<open>The names of a burst: those of row files, in the order of their events.\<close>

definition applyEventBurst :: "runtime \<Rightarrow> heartbeatDir \<Rightarrow> string list \<Rightarrow> heartbeatStore \<Rightarrow> heartbeatStore" where
  "applyEventBurst R d events s =
     applyPaths R d (filter (\<lambda>name. HasSuffix name sessionHeartbeatFileSuffix) events) s"

definition pruneRow ::
  "fileIO \<Rightarrow> instant \<Rightarrow> string \<times> SessionHeartbeat \<Rightarrow> heartbeatDir \<times> (string \<times> SessionHeartbeat) list \<Rightarrow>
   heartbeatDir \<times> (string \<times> SessionHeartbeat) list" where
  "pruneRow io cutoff row acc =
     (case (row, acc) of ((sessionID, h), (d, rows)) \<Rightarrow>
       if hb_At h = zeroTime \<or> \<not> hb_At h < cutoff then acc
       else (if io_remove io = None then d\<lparr>dir_files := AList.delete (heartbeatPath sessionID) (dir_files d)\<rparr> else d,
             AList.delete sessionID rows))"

definition pruneExpired ::
  "runtime \<Rightarrow> fileIO \<Rightarrow> instant \<Rightarrow> duration \<Rightarrow> heartbeatDir \<times> (string \<times> SessionHeartbeat) list \<Rightarrow>
   heartbeatDir \<times> (string \<times> SessionHeartbeat) list" where
  "pruneExpired R io now retention acc =
     (if retention \<le> 0 \<or> ctxErr R \<noteq> None then acc
      else fold (pruneRow io (now + negDuration retention)) (snd acc) acc)"

text \<open>A reconcile reads the directory and then, on the directory it finds at that time, prunes
  and installs what it has read.\<close>

definition reconcileApply ::
  "runtime \<Rightarrow> fileIO \<Rightarrow> instant \<Rightarrow> duration \<Rightarrow> (string \<times> SessionHeartbeat) list \<Rightarrow>
   heartbeatDir \<times> heartbeatStore \<Rightarrow> heartbeatDir \<times> heartbeatStore" where
  "reconcileApply R io now retention rows st =
     (case pruneExpired R io now retention (fst st, rows) of
        (d, rows) \<Rightarrow> (d, (snd st)\<lparr>hb_rows := rows, hb_loaded := True\<rparr>))"

definition reconcile ::
  "runtime \<Rightarrow> fileIO \<Rightarrow> instant \<Rightarrow> duration \<Rightarrow> heartbeatDir \<times> heartbeatStore \<Rightarrow>
   (heartbeatDir \<times> heartbeatStore) \<times> (error + unit)" where
  "reconcile R io now retention st =
     (case readAll R io (fst st) of
        Inl e \<Rightarrow> (st, Inl e)
      | Inr rows \<Rightarrow> (reconcileApply R io now retention rows st, Inr ()))"

end
