(* ===== verification/HeartbeatLaws.thy ===== *)
theory HeartbeatLaws
  imports Heartbeat LedgerApi
begin

text \<open>
  The heartbeat endpoints (\<open>pkg/handler/session-heartbeat-*.go\<close>) and what the lemmas of the store
  rest on: file names of session ids, the scan of an orderly directory, and the step relation
  \<open>hb_step\<close> of posts, foreign writes, bursts of file events, reconciles and lists, with the
  invariant that the snapshot of every session is the directory's row or has an event
  waiting.
\<close>

section \<open>Handlers\<close>

definition heartbeatFailed :: "httpLib \<Rightarrow> error \<Rightarrow> 'b reply" where
  "heartbeatFailed H e = (if e = ErrInvalidSessionID then badRequest H else internalError H)"

definition handleSessionHeartbeatPost ::
  "httpLib \<Rightarrow> runtime \<Rightarrow> fileIO \<Rightarrow> instant \<Rightarrow> SessionHeartbeat option \<Rightarrow> heartbeatDir \<times> heartbeatStore \<Rightarrow>
   (heartbeatDir \<times> heartbeatStore) \<times> SessionHeartbeat reply" where
  "handleSessionHeartbeatPost H R io now body st =
     (case body of
        None \<Rightarrow> (st, badRequest H)
      | Some h \<Rightarrow>
          if Heartbeat_Validate R h \<noteq> None then (st, badRequest H)
          else (case hb_Post R io now h st of
                  (st, Inl e) \<Rightarrow> (st, heartbeatFailed H e)
                | (st, Inr _) \<Rightarrow>
                    (case hb_Get (hb_SessionID h) (fst st) of
                       Inl e \<Rightarrow> (st, internalError H)
                     | Inr None \<Rightarrow> (st, internalError H)
                     | Inr (Some stored) \<Rightarrow> (st, Sent 200 stored))))"

definition handleSessionHeartbeatGet ::
  "httpLib \<Rightarrow> instant \<Rightarrow> duration \<Rightarrow> string \<Rightarrow> heartbeatDir \<Rightarrow> SessionHeartbeatView reply" where
  "handleSessionHeartbeatGet H now window sessionID d =
     (case hb_Get sessionID d of
        Inl e \<Rightarrow> heartbeatFailed H e
      | Inr None \<Rightarrow> rowNotFound H
      | Inr (Some h) \<Rightarrow> Sent 200 (NewSessionHeartbeatView h now window))"

definition handleSessionHeartbeatList ::
  "httpLib \<Rightarrow> runtime \<Rightarrow> fileIO \<Rightarrow> instant \<Rightarrow> duration \<Rightarrow> heartbeatDir \<times> heartbeatStore \<Rightarrow>
   (heartbeatDir \<times> heartbeatStore) \<times> SessionHeartbeatView list reply" where
  "handleSessionHeartbeatList H R io now window st =
     (case hb_List R io st of
        (st, Inl e) \<Rightarrow> (st, internalError H)
      | (st, Inr hs) \<Rightarrow> (st, Sent 200 (NewSessionHeartbeatViews hs now window)))"

section \<open>Ages\<close>

lemma nsPerSecond_gt0: "0 < nsPerSecond"
  by (simp add: nsPerSecond_def)

lemma ceilSeconds_bounds: "d \<le> ceilSeconds d * nsPerSecond \<and> ceilSeconds d * nsPerSecond < d + nsPerSecond"
  using minus_div_mult_eq_mod[of "- d" nsPerSecond] pos_mod_bound[OF nsPerSecond_gt0, of "- d"]
    pos_mod_sign[OF nsPerSecond_gt0, of "- d"]
  unfolding ceilSeconds_def mult_minus_left by linarith

lemma floorSeconds_bounds: "floorSeconds d * nsPerSecond \<le> d \<and> d < floorSeconds d * nsPerSecond + nsPerSecond"
  using minus_div_mult_eq_mod[of d nsPerSecond] pos_mod_bound[OF nsPerSecond_gt0, of d]
    pos_mod_sign[OF nsPerSecond_gt0, of d]
  unfolding floorSeconds_def by linarith

lemma ceilSeconds_le: "ceilSeconds d \<le> w \<longleftrightarrow> d \<le> w * nsPerSecond"
proof
  assume "ceilSeconds d \<le> w"
  then have "ceilSeconds d * nsPerSecond \<le> w * nsPerSecond" using nsPerSecond_gt0 by simp
  then show "d \<le> w * nsPerSecond" using ceilSeconds_bounds[of d] by linarith
next
  assume "d \<le> w * nsPerSecond"
  then have "ceilSeconds d * nsPerSecond < (w + 1) * nsPerSecond"
    using ceilSeconds_bounds[of d] by (simp add: distrib_right)
  then show "ceilSeconds d \<le> w" using nsPerSecond_gt0 by simp
qed

lemma ceilSeconds_ge0: "0 \<le> d \<Longrightarrow> 0 \<le> ceilSeconds d"
  by (simp add: ceilSeconds_def div_nonpos_pos_le0 nsPerSecond_def)

lemma floorSeconds_neg: "d < 0 \<Longrightarrow> floorSeconds d < 0"
  by (simp add: floorSeconds_def div_neg_pos_less0 nsPerSecond_def)

section \<open>Names of session files\<close>

lemma heartbeatPath_valid:
  assumes "validateSessionID sid = None"
  shows "heartbeatPath sid = [sid @ ''.json'']"
proof -
  have "CHR ''/'' \<notin> set (sid @ ''.json'')" using assms by (auto simp: validateSessionID_def split: if_splits)
  moreover have "sid @ ''.json'' \<notin> {[], ''.'', ''..''}" by (cases sid; cases "tl sid") auto
  ultimately show ?thesis by (simp add: heartbeatPath_def sessionHeartbeatFileSuffix_def cleanPath_plain)
qed

lemma contentAt_update: "contentAt (d\<lparr>dir_files := AList.update p c (dir_files d)\<rparr>) = (contentAt d)(p \<mapsto> c)"
  by (simp add: contentAt_def update_conv' fun_eq_iff)

lemma contentAt_delete: "contentAt (d\<lparr>dir_files := AList.delete p (dir_files d)\<rparr>) = (contentAt d)(p := None)"
  by (simp add: contentAt_def delete_conv' fun_eq_iff)

section \<open>Posting\<close>

lemma hb_Post_ok:
  assumes "Heartbeat_Validate R h = None" and "validateSessionID (hb_SessionID h) = None"
    and "io_mkdir io = None" and "io_write io = None"
  shows "\<exists>d' s'. hb_Post R io now h (d, s) = ((d', s'), Inr ()) \<and> dir_exists d' \<and>
    contentAt d' = (contentAt d)([hb_SessionID h @ ''.json''] \<mapsto> FileRecord (postedRecord now h)) \<and>
    hb_loaded s' = hb_loaded s \<and>
    hb_rows s' = (if hb_loaded s then AList.update (hb_SessionID h) (h\<lparr>hb_At := now\<rparr>) (hb_rows s) else hb_rows s)"
proof -
  have "toHeartbeat (postedRecord now h) = h\<lparr>hb_At := now\<rparr>"
    by (cases h) (simp add: toHeartbeat_def postedRecord_def)
  then show ?thesis
    using assms
    by (simp add: hb_Post_def writeAtomic_def heartbeatPath_valid Let_def contentAt_def update_conv' fun_eq_iff)
qed

lemma hb_Get_posted:
  assumes "validateSessionID sid = None" and "hb_SessionID h = sid"
    and "contentAt d [sid @ ''.json''] = Some (FileRecord (postedRecord now h))"
  shows "hb_Get sid d = Inr (Some (h\<lparr>hb_At := now\<rparr>))"
proof -
  have "sid \<noteq> []" using assms(1) by (auto simp: validateSessionID_def)
  then show ?thesis
    using assms by (cases h) (simp add: hb_Get_def heartbeatPath_valid readPath_def
        parseSessionHeartbeatFile_def postedRecord_def toHeartbeat_def)
qed

section \<open>An orderly directory\<close>

text \<open>Every row file is readable and named after the session it declares, as all writers name
  theirs.\<close>

definition orderly :: "heartbeatDir \<Rightarrow> bool" where
  "orderly d \<longleftrightarrow>
     (\<not> dir_exists d \<longrightarrow> dir_files d = []) \<and>
     (\<forall>name c. contentAt d [name] = Some c \<and> HasSuffix name ''.json'' \<longrightarrow>
        c \<noteq> Subdirectory \<and> c \<noteq> Unreadable \<and>
        (\<forall>r. c = FileRecord r \<and> file_SessionID r \<noteq> [] \<longrightarrow>
           name = file_SessionID r @ ''.json'' \<and> validateSessionID (file_SessionID r) = None))"

lemma orderlyD:
  assumes "orderly d" and "contentAt d [name] = Some c" and "HasSuffix name ''.json''"
  shows "c \<noteq> Subdirectory" "c \<noteq> Unreadable"
    and "c = FileRecord r \<Longrightarrow> file_SessionID r \<noteq> [] \<Longrightarrow>
      name = file_SessionID r @ ''.json'' \<and> validateSessionID (file_SessionID r) = None"
  using assms unfolding orderly_def by blast+

text \<open>The row the directory holds for a session.\<close>

definition rowAt :: "heartbeatDir \<Rightarrow> string \<Rightarrow> SessionHeartbeat option" where
  "rowAt d k = (case contentAt d [k @ ''.json''] of None \<Rightarrow> None | Some c \<Rightarrow> entryRow (k @ ''.json'', c))"

lemma entryRow_record:
  "entryRow (name, c) = Some h \<longleftrightarrow>
     HasSuffix name ''.json'' \<and> (\<exists>r. c = FileRecord r \<and> file_SessionID r \<noteq> [] \<and> h = toHeartbeat r)"
  by (auto simp: entryRow_def readPath_def parseSessionHeartbeatFile_def sessionHeartbeatFileSuffix_def
      split: pathContent.splits if_splits)

lemma toHeartbeat_id [simp]: "hb_SessionID (toHeartbeat r) = file_SessionID r"
  by (simp add: toHeartbeat_def)

lemma orderly_row:
  assumes "orderly d" and "contentAt d [name] = Some c" and "entryRow (name, c) = Some h"
  shows "name = hb_SessionID h @ ''.json'' \<and> validateSessionID (hb_SessionID h) = None"
  using assms orderlyD(3)[OF assms(1,2)] by (auto simp: entryRow_record)

lemma rowAt_id: "orderly d \<Longrightarrow> rowAt d k = Some h \<Longrightarrow> hb_SessionID h = k \<and> validateSessionID k = None"
  using orderly_row[of d "k @ ''.json''" _ h] by (auto simp: rowAt_def split: option.splits)

lemma set_dirEntries: "(name, c) \<in> set (dirEntries d) \<longleftrightarrow> contentAt d [name] = Some c"
proof -
  have "[name] \<in> fst ` set (dir_files d) \<longleftrightarrow> contentAt d [name] \<noteq> None"
    by (simp add: contentAt_def map_of_eq_None_iff)
  then show ?thesis
    by (auto simp: dirEntries_def Let_def image_iff split: list.splits prod.splits) force+
qed

lemma distinct_dirEntries: "distinct (map fst (dirEntries d))"
  by (simp add: dirEntries_def Let_def comp_def)

definition scanRow :: "string \<times> pathContent \<Rightarrow> (string \<times> SessionHeartbeat) list \<Rightarrow> (string \<times> SessionHeartbeat) list" where
  "scanRow e rows = (case entryRow e of None \<Rightarrow> rows | Some h \<Rightarrow> AList.update (hb_SessionID h) h rows)"

lemma scan_fold: "ctxErr R = None \<Longrightarrow> efold (scanEntry R) rows es = Inr (fold scanRow es rows)"
  by (induction es arbitrary: rows) (auto simp: scanEntry_def scanRow_def)

definition rowFor :: "string \<Rightarrow> string \<times> pathContent \<Rightarrow> bool" where
  "rowFor k e \<longleftrightarrow> (\<exists>h. entryRow e = Some h \<and> hb_SessionID h = k)"

lemma map_of_scan:
  "map_of (fold scanRow es []) k = (case find (rowFor k) (rev es) of None \<Rightarrow> None | Some e \<Rightarrow> entryRow e)"
proof (induction es rule: rev_induct)
  case (snoc e es)
  then show ?case by (auto simp: scanRow_def rowFor_def update_conv' split: option.split)
qed simp

lemma distinct_scan: "distinct (map fst rows) \<Longrightarrow> distinct (map fst (fold scanRow es rows))"
  by (induction es arbitrary: rows) (auto simp: scanRow_def distinct_update split: option.split)

lemma readAll_rowAt:
  assumes "ctxErr R = None" and "orderly d" and "readAll R io d = Inr rows"
  shows "map_of rows = rowAt d" and "distinct (map fst rows)"
proof -
  have "map_of rows = rowAt d \<and> distinct (map fst rows)"
  proof (cases "dir_exists d")
    case True
    then have fold: "efold (scanEntry R) [] (dirEntries d) = Inr rows"
      using assms(3) by (auto simp: readAll_def split: option.splits)
    have rows: "rows = fold scanRow (dirEntries d) []" using fold scan_fold[OF assms(1)] by simp
    have dist: "distinct (map fst rows)" unfolding rows by (rule distinct_scan) simp
    note at = map_of_scan[of "dirEntries d", folded rows]
    have "map_of rows k = rowAt d k" for k
    proof (cases "find (rowFor k) (rev (dirEntries d))")
      case None
      have "rowAt d k = None"
      proof (rule ccontr)
        assume "rowAt d k \<noteq> None"
        then obtain c h where c: "contentAt d [k @ ''.json''] = Some c" "entryRow (k @ ''.json'', c) = Some h"
          by (auto simp: rowAt_def split: option.splits)
        then have "(k @ ''.json'', c) \<in> set (dirEntries d)" by (simp add: set_dirEntries)
        moreover have "rowFor k (k @ ''.json'', c)" using orderly_row[OF assms(2) c] c(2) by (simp add: rowFor_def)
        ultimately show False using None by (auto simp: find_None_iff)
      qed
      then show ?thesis using None at by simp
    next
      case (Some e)
      then have "e \<in> set (dirEntries d)" "rowFor k e" by (metis find_Some_iff nth_mem set_rev)+
      moreover obtain name c where e: "e = (name, c)" by fastforce
      ultimately obtain h where h: "contentAt d [name] = Some c" "entryRow (name, c) = Some h" "hb_SessionID h = k"
        by (auto simp: rowFor_def set_dirEntries)
      then show ?thesis using orderly_row[OF assms(2) h(1,2)] Some at e by (simp add: rowAt_def)
    qed
    then show ?thesis using dist by blast
  next
    case False
    then have "rowAt d k = None" for k using assms(2) by (simp add: orderly_def rowAt_def contentAt_def)
    then show ?thesis using False assms(3) by (simp add: readAll_def fun_eq_iff)
  qed
  then show "map_of rows = rowAt d" "distinct (map fst rows)" by auto
qed

section \<open>Events and pruning\<close>

lemma pathUpdate_orderly:
  assumes "orderly d" and "k \<noteq> []"
  shows "pathUpdate d (k @ ''.json'') = Some (k, rowAt d k)"
proof (cases "contentAt d [k @ ''.json'']")
  case None
  then show ?thesis using assms(2) by (simp add: pathUpdate_def sessionHeartbeatFileSuffix_def rowAt_def)
next
  case (Some c)
  then show ?thesis
    using assms(2) Some orderlyD[OF assms(1) Some]
    by (cases c) (auto simp: pathUpdate_def sessionHeartbeatFileSuffix_def rowAt_def entryRow_def readPath_def
        parseSessionHeartbeatFile_def)
qed

lemma pathUpdate_nameless: "pathUpdate d ''.json'' = None"
  using TrimSuffix_append[of "[]" "''.json''"] by (simp add: pathUpdate_def sessionHeartbeatFileSuffix_def)

lemma rowAt_nameless: "orderly d \<Longrightarrow> rowAt d [] = None"
  using rowAt_id[of d "[]"] by (cases "rowAt d []") (auto simp: validateSessionID_def)

lemma map_of_collectUpdates:
  assumes "orderly d" and "\<forall>name \<in> set names. HasSuffix name ''.json''"
  shows "map_of (collectUpdates d names) k =
      (if k \<noteq> [] \<and> k @ ''.json'' \<in> set names then Some (rowAt d k) else None) \<and>
    distinct (map fst (collectUpdates d names))"
  using assms(2)
proof (induction names rule: rev_induct)
  case Nil
  then show ?case by (simp add: collectUpdates_def)
next
  case (snoc name names)
  let ?id = "TrimSuffix name ''.json''"
  have name: "name = ?id @ ''.json''" using snoc.prems HasSuffix_split by simp
  have step: "collectUpdates d (names @ [name]) =
      (if ?id = [] then collectUpdates d names else AList.update ?id (rowAt d ?id) (collectUpdates d names))"
    using pathUpdate_orderly[OF assms(1), of ?id] name pathUpdate_nameless
    by (auto simp: collectUpdates_def split: if_splits)
  have "k @ ''.json'' = name \<longleftrightarrow> k = ?id" using name by (metis append_same_eq)
  then show ?case
    using snoc.IH snoc.prems by (auto simp: step update_conv' distinct_update simp del: map_of_eq_Some_iff)
qed

lemma map_of_applyUpdates:
  "distinct (map fst us) \<Longrightarrow> map_of (fold applyUpdate us rows) k =
     (case map_of us k of None \<Rightarrow> map_of rows k | Some u \<Rightarrow> u)"
proof (induction us arbitrary: rows)
  case (Cons u us)
  obtain key val where u: "u = (key, val)" by (cases u)
  then have "map_of us key = None" using Cons.prems by (simp add: map_of_eq_None_iff)
  then show ?case
    using Cons u by (cases val) (auto simp: applyUpdate_def update_conv' delete_conv' split: option.split)
qed simp

lemma distinct_applyUpdates: "distinct (map fst rows) \<Longrightarrow> distinct (map fst (fold applyUpdate us rows))"
  by (induction us arbitrary: rows)
    (auto simp: applyUpdate_def distinct_update distinct_delete split: prod.split option.split)

definition expired :: "instant \<Rightarrow> SessionHeartbeat \<Rightarrow> bool" where
  "expired cutoff h \<longleftrightarrow> hb_At h \<noteq> zeroTime \<and> hb_At h < cutoff"

lemma prune_fold:
  assumes "io_remove io = None"
  shows "fold (pruneRow io cutoff) xs (d, rows) = (d', rows') \<Longrightarrow>
    (map_of rows' k = (if \<exists>h. (k, h) \<in> set xs \<and> expired cutoff h then None else map_of rows k)) \<and>
    (contentAt d' p = (if \<exists>key h. (key, h) \<in> set xs \<and> expired cutoff h \<and> heartbeatPath key = p then None
       else contentAt d p)) \<and>
    dir_exists d' = dir_exists d \<and> (dir_files d = [] \<longrightarrow> dir_files d' = []) \<and>
    (distinct (map fst rows) \<longrightarrow> distinct (map fst rows'))"
proof (induction xs arbitrary: d rows)
  case (Cons x xs)
  obtain key h where x: "x = (key, h)" by (cases x)
  show ?case
  proof (cases "expired cutoff h")
    case True
    then have "pruneRow io cutoff x (d, rows) =
        (d\<lparr>dir_files := AList.delete (heartbeatPath key) (dir_files d)\<rparr>, AList.delete key rows)"
      using assms by (simp add: pruneRow_def x expired_def)
    then show ?thesis
      using Cons True by (auto simp: x contentAt_delete delete_conv' distinct_delete)
  next
    case False
    then have "pruneRow io cutoff x (d, rows) = (d, rows)" by (auto simp: pruneRow_def x expired_def)
    then show ?thesis using Cons False by (auto simp: x)
  qed
qed simp

lemma contentAt_empty [simp]: "dir_files d = [] \<Longrightarrow> contentAt d p = None"
  by (simp add: contentAt_def)

lemma prune_exact:
  assumes "io_remove io = None" and "orderly d" and "map_of rows = rowAt d" and "distinct (map fst rows)"
    and "pruneExpired R io now retention (d, rows) = (d', rows')"
  shows "map_of rows' = rowAt d' \<and> orderly d' \<and> distinct (map fst rows')"
proof (cases "retention \<le> 0 \<or> ctxErr R \<noteq> None")
  case True
  then show ?thesis using assms by (auto simp: pruneExpired_def split: if_splits)
next
  case False
  let ?cut = "now + negDuration retention"
  have fold: "fold (pruneRow io ?cut) rows (d, rows) = (d', rows')"
    using False assms(5) by (simp add: pruneExpired_def)
  have rows: "(key, h) \<in> set rows \<longleftrightarrow> rowAt d key = Some h" for key h
    using assms(3,4) by (metis map_of_eq_Some_iff)
  have path: "heartbeatPath key = [key @ ''.json'']" if "rowAt d key = Some h" for key h
    using heartbeatPath_valid rowAt_id[OF assms(2) that] by simp
  have gone: "contentAt d' [name] =
      (if \<exists>key h. rowAt d key = Some h \<and> expired ?cut h \<and> name = key @ ''.json'' then None else contentAt d [name])" for name
  proof -
    have "(\<exists>key h. (key, h) \<in> set rows \<and> expired ?cut h \<and> heartbeatPath key = [name]) \<longleftrightarrow>
        (\<exists>key h. rowAt d key = Some h \<and> expired ?cut h \<and> name = key @ ''.json'')"
      using path by (auto simp: rows)
    then show ?thesis using prune_fold[OF assms(1) fold, where p = "[name]"] by simp
  qed
  have "map_of rows' k = rowAt d' k" for k
    using prune_fold[OF assms(1) fold, where k = k] gone[of "k @ ''.json''"] assms(3)
    by (auto simp: rows rowAt_def split: option.splits)
  moreover have "orderly d'"
    using assms(2) prune_fold[OF assms(1) fold]
    by (auto simp: orderly_def gone split: if_splits)
  ultimately show ?thesis using prune_fold[OF assms(1) fold] assms(4) by (auto simp: fun_eq_iff)
qed

section \<open>Runs\<close>

text \<open>
  The directory, the store and the file events not yet applied. A post of this process and a write by another
  program leave an event behind; the loop takes events off the front; a list loads the
  snapshot when there is none; a reconcile replaces it.
\<close>

type_synonym heartbeatSystem = "(heartbeatDir \<times> heartbeatStore) \<times> string list"

inductive hb_step :: "runtime \<Rightarrow> duration \<Rightarrow> heartbeatSystem \<Rightarrow> heartbeatSystem \<Rightarrow> bool" for R retention where
  post: "hb_Post R io now h st = (st', result) \<Longrightarrow>
    hb_step R retention (st, events) (st', events @ (case result of Inl _ \<Rightarrow> [] | Inr _ \<Rightarrow> [hb_SessionID h @ ''.json'']))"
| foreign: "orderly d' \<Longrightarrow> \<forall>path. path \<noteq> [name] \<longrightarrow> contentAt d' path = contentAt d path \<Longrightarrow>
    hb_step R retention ((d, s), events) ((d', s), events @ [name])"
| stray: "hb_step R retention (st, events) (st, events @ [name])"
| burst: "hb_step R retention ((d, s), events @ later) ((d, applyEventBurst R d events s), later)"
| list: "hb_List R io st = (st', result) \<Longrightarrow> hb_step R retention (st, events) (st', events)"
| reconcile: "io_remove io = None \<Longrightarrow> reconcile R io now retention st = (st', result) \<Longrightarrow>
    hb_step R retention (st, events) (st', events)"

definition snapshotInv :: "heartbeatSystem \<Rightarrow> bool" where
  "snapshotInv sys \<longleftrightarrow> (case sys of ((d, s), events) \<Rightarrow>
     orderly d \<and> distinct (map fst (hb_rows s)) \<and> map_of (hb_rows s) [] = None \<and>
     (hb_loaded s \<longrightarrow> (\<forall>k. map_of (hb_rows s) k = rowAt d k \<or> k @ ''.json'' \<in> set events)))"

lemma rowAt_posted:
  assumes "contentAt d' = (contentAt d)([sid @ ''.json''] \<mapsto> FileRecord (postedRecord now h))"
    and "hb_SessionID h = sid" and "sid \<noteq> []"
  shows "rowAt d' = (rowAt d)(sid \<mapsto> h\<lparr>hb_At := now\<rparr>)"
  using assms
  by (cases h) (auto simp: rowAt_def fun_eq_iff entryRow_record toHeartbeat_def postedRecord_def)

lemma orderly_posted:
  assumes "orderly d" and "dir_exists d'" and "validateSessionID sid = None" and "hb_SessionID h = sid"
    and "contentAt d' = (contentAt d)([sid @ ''.json''] \<mapsto> FileRecord (postedRecord now h))"
  shows "orderly d'"
  unfolding orderly_def
proof (intro conjI allI impI)
  fix name c
  assume c: "contentAt d' [name] = Some c \<and> HasSuffix name ''.json''"
  show "c \<noteq> Subdirectory" "c \<noteq> Unreadable"
    using c orderlyD(1,2)[OF assms(1)] by (auto simp: assms(5) split: if_splits)
  fix r
  assume "c = FileRecord r \<and> file_SessionID r \<noteq> []"
  then show "name = file_SessionID r @ ''.json''" "validateSessionID (file_SessionID r) = None"
    using c orderlyD(3)[OF assms(1)] assms(3,4) by (auto simp: assms(5) postedRecord_def split: if_splits)
qed (use assms(2) in simp)

context runtime_lib
begin

lemma snapshotInv_load:
  assumes "snapshotInv ((d, s), events)" and "readAll R io d = Inr rows"
  shows "snapshotInv ((d, s\<lparr>hb_rows := rows, hb_loaded := True\<rparr>), events)"
  using assms readAll_rowAt[OF ctx_live _ assms(2)] rowAt_nameless by (auto simp: snapshotInv_def)

lemma hb_step_inv: "hb_step R retention sys sys' \<Longrightarrow> snapshotInv sys \<Longrightarrow> snapshotInv sys'"
proof (induction rule: hb_step.induct)
  case (post io now h st st' result events)
  obtain d s where st: "st = (d, s)" by (cases st)
  show ?case
  proof (cases result)
    case (Inl e)
    then have "snd st' = s \<and> dir_files (fst st') = dir_files d \<and> (dir_exists d \<longrightarrow> dir_exists (fst st'))"
      using post(1) by (auto simp: hb_Post_def st writeAtomic_def Let_def split: option.splits if_splits)
    then show ?thesis
      using post(2) Inl by (cases st') (auto simp: snapshotInv_def st orderly_def contentAt_def rowAt_def)
  next
    case (Inr u)
    then have ok: "Heartbeat_Validate R h = None" "validateSessionID (hb_SessionID h) = None"
      "io_mkdir io = None" "io_write io = None"
      using post(1) by (auto simp: hb_Post_def st writeAtomic_def Let_def split: option.splits)
    then obtain d' s' where new: "st' = (d', s')" "dir_exists d'"
      "contentAt d' = (contentAt d)([hb_SessionID h @ ''.json''] \<mapsto> FileRecord (postedRecord now h))"
      "hb_loaded s' = hb_loaded s"
      "hb_rows s' = (if hb_loaded s then AList.update (hb_SessionID h) (h\<lparr>hb_At := now\<rparr>) (hb_rows s) else hb_rows s)"
      using hb_Post_ok[OF ok, of now d s] post(1) st by auto
    have inv: "orderly d" "distinct (map fst (hb_rows s))" "map_of (hb_rows s) [] = None"
      "hb_loaded s \<Longrightarrow> map_of (hb_rows s) k = rowAt d k \<or> k @ ''.json'' \<in> set events" for k
      using post(2) by (auto simp: snapshotInv_def st)
    have "hb_SessionID h \<noteq> []" using ok(2) by (auto simp: validateSessionID_def)
    note ne = this and at = rowAt_posted[OF new(3) refl this]
    show ?thesis
      using inv orderly_posted[OF inv(1) new(2) ok(2) refl new(3)] Inr ne
      by (auto simp: snapshotInv_def new(1,4,5) at update_conv' distinct_update)
  qed
next
  case (foreign d' name d s events)
  have "rowAt d' k = rowAt d k" if "k @ ''.json'' \<noteq> name" for k
    using foreign(2) that by (simp add: rowAt_def)
  then show ?case using foreign(1,3) by (fastforce simp: snapshotInv_def)
next
  case (burst d s events later)
  let ?names = "filter (\<lambda>name. HasSuffix name ''.json'') events"
  have inv: "orderly d" "distinct (map fst (hb_rows s))" "map_of (hb_rows s) [] = None"
    "hb_loaded s \<Longrightarrow> map_of (hb_rows s) k = rowAt d k \<or> k @ ''.json'' \<in> set events \<union> set later" for k
    using burst by (auto simp: snapshotInv_def)
  show ?case
  proof (cases "?names = [] \<or> \<not> hb_loaded s")
    case True
    then have "k @ ''.json'' \<notin> set events \<or> \<not> hb_loaded s" for k
      by (metis HasSuffix_append empty_iff filter_empty_conv)
    then show ?thesis
      using True inv by (auto simp: snapshotInv_def applyEventBurst_def applyPaths_def sessionHeartbeatFileSuffix_def)
  next
    case False
    have names: "\<forall>name \<in> set ?names. HasSuffix name ''.json''" by simp
    note us = map_of_collectUpdates[OF inv(1) names]
    have applied: "map_of (fold applyUpdate (collectUpdates d ?names) (hb_rows s)) k =
        (if k \<noteq> [] \<and> k @ ''.json'' \<in> set ?names then rowAt d k else map_of (hb_rows s) k)" for k
      using map_of_applyUpdates[of "collectUpdates d ?names" "hb_rows s" k] us[of k] by auto
    have "map_of (fold applyUpdate (collectUpdates d ?names) (hb_rows s)) k = rowAt d k \<or> k @ ''.json'' \<in> set later" for k
      using inv(4)[of k] inv(3) False rowAt_nameless[OF inv(1)] by (cases "k = []") (auto simp: applied)
    then show ?thesis
      using False inv(1-3) distinct_applyUpdates applied[of "[]"]
      by (simp add: snapshotInv_def applyEventBurst_def applyPaths_def sessionHeartbeatFileSuffix_def)
  qed
next
  case (list io st st' result events)
  obtain d s where st: "st = (d, s)" by (cases st)
  show ?case
    using list snapshotInv_load[of d s events io]
    by (auto simp: hb_List_def ensureLoaded_def st ebind_eq_Inr split: sum.splits if_splits)
next
  case (reconcile io now st st' result events)
  obtain d s where st: "st = (d, s)" by (cases st)
  show ?case
  proof (cases "readAll R io d")
    case (Inr rows)
    have ord: "orderly d" using reconcile(3) by (simp add: snapshotInv_def st)
    obtain d' rows' where p: "pruneExpired R io now retention (d, rows) = (d', rows')" by fastforce
    have "st' = (d', s\<lparr>hb_rows := rows', hb_loaded := True\<rparr>)"
      using reconcile(2) p Inr by (simp add: reconcile_def reconcileApply_def st)
    then show ?thesis
      using prune_exact[OF reconcile(1) ord readAll_rowAt[OF ctx_live ord Inr] p] rowAt_nameless
      by (auto simp: snapshotInv_def)
  qed (use reconcile in \<open>simp add: reconcile_def st\<close>)
qed (auto simp: snapshotInv_def)

text \<open>With no event of a row file waiting the list is the directory's rows.\<close>

lemma list_exact:
  assumes "snapshotInv ((d, s), events)" and "\<forall>name \<in> set events. \<not> HasSuffix name ''.json''"
  shows "\<exists>s' hs. hb_List R workingIO (d, s) = ((d, s'), Inr hs) \<and> set hs = ran (rowAt d) \<and>
    sorted (map hb_SessionID hs) \<and> distinct (map hb_SessionID hs)"
proof -
  have ord: "orderly d" using assms(1) by (simp add: snapshotInv_def)
  have "\<exists>s'. ensureLoaded R workingIO d s = Inr s' \<and> map_of (hb_rows s') = rowAt d \<and> distinct (map fst (hb_rows s'))"
  proof (cases "hb_loaded s")
    case True
    have "map_of (hb_rows s) k = rowAt d k" for k
      using assms True HasSuffix_append by (fastforce simp: snapshotInv_def)
    then show ?thesis using True assms(1) by (auto simp: ensureLoaded_def snapshotInv_def)
  next
    case False
    have "\<exists>rows. readAll R workingIO d = Inr rows"
      using scan_fold[OF ctx_live] by (simp add: readAll_def workingIO_def)
    then obtain rows where "readAll R workingIO d = Inr rows" by blast
    then show ?thesis using readAll_rowAt[OF ctx_live ord] False by (auto simp: ensureLoaded_def)
  qed
  then obtain s' where s': "ensureLoaded R workingIO d s = Inr s'" "map_of (hb_rows s') = rowAt d"
    "distinct (map fst (hb_rows s'))" by blast
  let ?hs = "sort_key hb_SessionID (map snd (hb_rows s'))"
  have "hb_List R workingIO (d, s) = ((d, s'), Inr ?hs)" by (simp add: hb_List_def s'(1))
  moreover have "set ?hs = ran (rowAt d)" using s'(2,3) by (metis ran_distinct set_map set_sort)
  moreover have "map hb_SessionID (map snd (hb_rows s')) = map fst (hb_rows s')"
    using s'(2,3) rowAt_id[OF ord] by (auto simp: comp_def intro!: map_cong) (metis map_of_eq_Some_iff prod.collapse)
  then have "distinct (map hb_SessionID ?hs)"
    using s'(3) by (metis distinct_sort mset_map mset_sort mset_eq_imp_distinct_iff)
  ultimately show ?thesis by (auto intro: sorted_sort_key)
qed

end

end
