(* ===== verification/HeartbeatProperties.thy ===== *)
theory HeartbeatProperties
  imports HeartbeatLaws LedgerProperties
begin

text \<open>
  The properties of the session heartbeats, with one posted session and one directory
  for the witnesses.
\<close>

section \<open>Demo values\<close>

definition demo_beat :: SessionHeartbeat where
  "demo_beat = \<lparr>hb_SessionID = ''s1'', hb_Task = [], hb_Vault = [], hb_Location = ''local'',
     hb_State = ''idle'', hb_Source = ''hook'', hb_At = 0\<rparr>"

definition demo_dir :: heartbeatDir where
  "demo_dir = \<lparr>dir_exists = True, dir_files = [([''s1.json''], FileRecord (postedRecord 1 demo_beat))]\<rparr>"

lemma demo_beat_valid: "Heartbeat_Validate std_runtime demo_beat = None" by code_simp

lemma demo_beat_id: "hb_SessionID demo_beat = ''s1''" by (simp add: demo_beat_def)

lemma demo_beat_session: "validateSessionID (hb_SessionID demo_beat) = None"
  by (simp add: demo_beat_def validateSessionID_def)

lemma demo_dir_orderly: "orderly demo_dir"
  by (auto simp: orderly_def demo_dir_def contentAt_def postedRecord_def demo_beat_def validateSessionID_def)

lemma demo_rt: "runtime_lib std_runtime" ..

section \<open>What a reader is told\<close>

text \<open>The rendered age never understates the distance from the stamp and agrees with the verdict:
  for a window of whole seconds a row is live exactly when its age lies between zero and the window, exactly
  when the seconds shown do; the seconds round up a past stamp and round down, to a negative number, a stamp
  ahead of the clock.\<close>

theorem heartbeat_view_honest:
  assumes "v = NewSessionHeartbeatView h now (w * nsPerSecond)" and "a = timeSub now (hb_At h)"
  shows "(view_Live v \<longleftrightarrow> 0 \<le> a \<and> a \<le> w * nsPerSecond) \<and>
    (view_Live v \<longleftrightarrow> 0 \<le> view_AgeSeconds v \<and> view_AgeSeconds v \<le> w) \<and>
    (if a < 0 then view_AgeSeconds v < 0 \<and> view_AgeSeconds v * nsPerSecond \<le> a \<and>
         a < view_AgeSeconds v * nsPerSecond + nsPerSecond
     else a \<le> view_AgeSeconds v * nsPerSecond \<and> view_AgeSeconds v * nsPerSecond < a + nsPerSecond)"
proof (cases "a < 0")
  case True
  then show ?thesis
    using floorSeconds_bounds[of a] floorSeconds_neg[of a] assms
    by (simp add: NewSessionHeartbeatView_def IsFresh_def Let_def)
next
  case False
  then show ?thesis
    using ceilSeconds_bounds[of a] ceilSeconds_ge0[of a] ceilSeconds_le[of a w] assms
    by (simp add: NewSessionHeartbeatView_def IsFresh_def Let_def)
qed

lemma heartbeat_view_honest_witness:
  "\<not> view_Live (NewSessionHeartbeatView demo_beat (-300000000) (60 * nsPerSecond)) \<and>
   view_AgeSeconds (NewSessionHeartbeatView demo_beat (-300000000) (60 * nsPerSecond)) < 0"
proof -
  have "timeSub (-300000000) (hb_At demo_beat) = -300000000"
    by (simp add: demo_beat_def timeSub_def minDuration_def maxDuration_def)
  then show ?thesis using heartbeat_view_honest[OF refl refl, of demo_beat "-300000000" 60] by simp
qed

lemma posted_row:
  assumes "Heartbeat_Validate R h = None" and "validateSessionID (hb_SessionID h) = None"
    and "io_mkdir io = None" and "io_write io = None"
  obtains d' s' where "handleSessionHeartbeatPost H R io now (Some h) (d, s) = ((d', s'), Sent 200 (h\<lparr>hb_At := now\<rparr>))"
    and "contentAt d' = (contentAt d)([hb_SessionID h @ ''.json''] \<mapsto> FileRecord (postedRecord now h))"
    and "hb_Get (hb_SessionID h) d' = Inr (Some (h\<lparr>hb_At := now\<rparr>))"
proof -
  obtain d' s' where post: "hb_Post R io now h (d, s) = ((d', s'), Inr ())"
    "contentAt d' = (contentAt d)([hb_SessionID h @ ''.json''] \<mapsto> FileRecord (postedRecord now h))"
    using hb_Post_ok[OF assms] by blast
  moreover have get: "hb_Get (hb_SessionID h) d' = Inr (Some (h\<lparr>hb_At := now\<rparr>))"
    by (rule hb_Get_posted[OF assms(2) refl]) (simp add: post(2))
  moreover have "handleSessionHeartbeatPost H R io now (Some h) (d, s) = ((d', s'), Sent 200 (h\<lparr>hb_At := now\<rparr>))"
    using assms(1) post(1) get by (simp add: handleSessionHeartbeatPost_def)
  ultimately show thesis using that by blast
qed

text \<open>A session that posts is answered its row with the store's stamp, whatever stamp it sent, and
  from then on a read of that session shows this row, live as long as the time since the post is between
  zero and the window; the files of other sessions are unchanged.\<close>

theorem posted_session_live_for_window:
  assumes "Heartbeat_Validate R h = None" and "validateSessionID (hb_SessionID h) = None"
    and "io_mkdir io = None" and "io_write io = None"
  shows "\<exists>d' s'. handleSessionHeartbeatPost H R io now (Some h) (d, s) = ((d', s'), Sent 200 (h\<lparr>hb_At := now\<rparr>)) \<and>
    (\<exists>v. handleSessionHeartbeatGet H later window (hb_SessionID h) d' = Sent 200 v \<and>
       view_Heartbeat v = h\<lparr>hb_At := now\<rparr> \<and>
       (view_Live v \<longleftrightarrow> 0 \<le> timeSub later now \<and> timeSub later now \<le> window)) \<and>
    (validateSessionID k = None \<and> k \<noteq> hb_SessionID h \<longrightarrow> hb_Get k d' = hb_Get k d)"
proof -
  obtain d' s' where post: "handleSessionHeartbeatPost H R io now (Some h) (d, s) = ((d', s'), Sent 200 (h\<lparr>hb_At := now\<rparr>))"
    "contentAt d' = (contentAt d)([hb_SessionID h @ ''.json''] \<mapsto> FileRecord (postedRecord now h))"
    and get: "hb_Get (hb_SessionID h) d' = Inr (Some (h\<lparr>hb_At := now\<rparr>))"
    using posted_row[OF assms] by blast
  note post(1)
  moreover have "handleSessionHeartbeatGet H later window (hb_SessionID h) d' =
      Sent 200 (NewSessionHeartbeatView (h\<lparr>hb_At := now\<rparr>) later window)"
    using get by (simp add: handleSessionHeartbeatGet_def)
  moreover have "hb_Get k d' = hb_Get k d" if "validateSessionID k = None" "k \<noteq> hb_SessionID h"
    using that by (simp add: hb_Get_def heartbeatPath_valid post(2))
  ultimately show ?thesis
    by (auto simp: NewSessionHeartbeatView_def IsFresh_def Let_def)
qed

lemma posted_session_live_for_window_witness:
  "\<exists>d' s' v. handleSessionHeartbeatPost demo_codes std_runtime workingIO 5 (Some demo_beat) (demo_dir, NewSessionHeartbeatStore)
       = ((d', s'), Sent 200 (demo_beat\<lparr>hb_At := 5\<rparr>)) \<and>
     handleSessionHeartbeatGet demo_codes 9 10 ''s1'' d' = Sent 200 v \<and> view_Live v"
proof -
  have "io_mkdir workingIO = None" "io_write workingIO = None" by (simp_all add: workingIO_def)
  then show ?thesis
    using posted_session_live_for_window[OF demo_beat_valid demo_beat_session, of workingIO demo_codes 5 demo_dir
        NewSessionHeartbeatStore 9 10 "''s2''"]
    by (auto simp: demo_beat_id timeSub_def minDuration_def maxDuration_def)
qed

text \<open>The answers of a read are kept apart: a malformed id is the caller's error, a session without a row is
  absent, a row is shown live or stale, and a file that cannot be read or decoded is a failure of the
  server, never absence.\<close>

theorem heartbeat_answers_distinct:
  "handleSessionHeartbeatGet H now window k d =
     (if validateSessionID k \<noteq> None then Failed 400 (lib_ErrorCodeValidation H) None
      else case contentAt d [k @ ''.json''] of
        None \<Rightarrow> Failed 404 (lib_ErrorCodeNotFound H) None
      | Some (FileRecord r) \<Rightarrow>
          if file_SessionID r = [] then Failed 404 (lib_ErrorCodeNotFound H) None
          else Sent 200 (NewSessionHeartbeatView (toHeartbeat r) now window)
      | Some _ \<Rightarrow> Failed 500 (lib_ErrorCodeInternal H) None)"
proof (cases "validateSessionID k")
  case None
  then show ?thesis
    by (simp add: handleSessionHeartbeatGet_def hb_Get_def heartbeatPath_valid readPath_def
        parseSessionHeartbeatFile_def rowNotFound_def heartbeatFailed_def internalError_def
        split: option.split pathContent.split)
next
  case (Some e)
  then have "e = ErrInvalidSessionID" by (auto simp: validateSessionID_def split: if_splits)
  then show ?thesis
    using Some by (simp add: handleSessionHeartbeatGet_def hb_Get_def heartbeatFailed_def badRequest_def)
qed

section \<open>The snapshot\<close>

text \<open>C40: the snapshot converges on the directory: in every state reached from an orderly directory
  by posts, writes and removals of other programs, bursts of file events, lists and reconciles in any order, when no
  event of a row file waits, the list is exactly the rows the directory holds, one per session and in order
  of the session ids.\<close>

theorem heartbeat_list_exact:
  assumes "runtime_lib R" and "orderly d0"
    and "(hb_step R retention)\<^sup>*\<^sup>* ((d0, NewSessionHeartbeatStore), []) ((d, s), events)"
    and "\<forall>name \<in> set events. \<not> HasSuffix name ''.json''"
  shows "\<exists>s' hs. hb_List R workingIO (d, s) = ((d, s'), Inr hs) \<and> set hs = ran (rowAt d) \<and>
    sorted (map hb_SessionID hs) \<and> distinct (map hb_SessionID hs)"
proof -
  have "snapshotInv ((d, s), events)"
    using assms(3)
  proof (induction rule: rtranclp_induct)
    case base
    then show ?case using assms(2) by (simp add: snapshotInv_def NewSessionHeartbeatStore_def)
  next
    case (step y z)
    then show ?case using runtime_lib.hb_step_inv[OF assms(1)] by blast
  qed
  then show ?thesis by (rule runtime_lib.list_exact[OF assms(1) _ assms(4)])
qed

lemma heartbeat_list_exact_witness:
  "\<exists>s'. hb_List std_runtime workingIO (demo_dir, NewSessionHeartbeatStore) = ((demo_dir, s'), Inr [demo_beat\<lparr>hb_At := 1\<rparr>])"
proof -
  have row: "rowAt demo_dir = [''s1'' \<mapsto> demo_beat\<lparr>hb_At := 1\<rparr>]"
  proof
    fix k
    show "rowAt demo_dir k = [''s1'' \<mapsto> demo_beat\<lparr>hb_At := 1\<rparr>] k"
      using append_same_eq[of k "''.json''" "''s1''"]
      by (simp add: rowAt_def demo_dir_def contentAt_def entryRow_record toHeartbeat_def postedRecord_def demo_beat_def
          HasSuffix_def)
  qed
  obtain s' hs where hs: "hb_List std_runtime workingIO (demo_dir, NewSessionHeartbeatStore) = ((demo_dir, s'), Inr hs)"
    "set hs = {demo_beat\<lparr>hb_At := 1\<rparr>}" "distinct (map hb_SessionID hs)"
    using heartbeat_list_exact[OF demo_rt demo_dir_orderly rtranclp.rtrancl_refl] by (auto simp: row)
  then have "length hs = 1"
    by (metis card.empty card_insert_disjoint distinct_card distinct_map empty_iff finite.emptyI One_nat_def)
  then have "hs = [demo_beat\<lparr>hb_At := 1\<rparr>]"
    using hs(2) by (cases hs) auto
  then show ?thesis using hs(1) by blast
qed

section \<open>What the prune deletes\<close>

text \<open>A post can be answered with success and lost: when a reconcile has read an expired row of
  a session and the session posts before the prune, the prune deletes the file just written; the next
  read of that session says absent, and the snapshot has no row of it either.\<close>

theorem fresh_heartbeat_pruned:
  assumes "readAll R io0 d0 = Inr rows" and "distinct (map fst rows)"
    and "map_of rows (hb_SessionID h) = Some old" and "expired (later + negDuration retention) old"
    and "0 < retention" and "ctxErr R = None" and "io_remove io = None"
    and "Heartbeat_Validate R h = None" and "validateSessionID (hb_SessionID h) = None"
    and "io_mkdir io = None" and "io_write io = None"
  shows "\<exists>d1 s1 d2 s2. handleSessionHeartbeatPost H R io now (Some h) (d0, s) = ((d1, s1), Sent 200 (h\<lparr>hb_At := now\<rparr>)) \<and>
    reconcileApply R io later retention rows (d1, s1) = (d2, s2) \<and>
    handleSessionHeartbeatGet H later window (hb_SessionID h) d2 = Failed 404 (lib_ErrorCodeNotFound H) None \<and>
    map_of (hb_rows s2) (hb_SessionID h) = None"
proof -
  let ?k = "hb_SessionID h"
  obtain d1 s1 where post: "handleSessionHeartbeatPost H R io now (Some h) (d0, s) = ((d1, s1), Sent 200 (h\<lparr>hb_At := now\<rparr>))"
    using posted_row[OF assms(8-11)] by blast
  obtain d2 rows2 where p: "fold (pruneRow io (later + negDuration retention)) rows (d1, rows) = (d2, rows2)"
    by fastforce
  have old: "(?k, old) \<in> set rows" using assms(3) by (rule map_of_SomeD)
  have "contentAt d2 [?k @ ''.json''] = None"
    using prune_fold[OF assms(7) p, where p = "[?k @ ''.json'']"] old assms(4) heartbeatPath_valid[OF assms(9)] by auto
  moreover have "map_of rows2 ?k = None"
    using prune_fold[OF assms(7) p, where k = ?k] old assms(4) by auto
  moreover have "reconcileApply R io later retention rows (d1, s1) = (d2, s1\<lparr>hb_rows := rows2, hb_loaded := True\<rparr>)"
    using p assms(5,6) by (simp add: reconcileApply_def pruneExpired_def)
  ultimately show ?thesis
    using post assms(9)
    by (auto simp: handleSessionHeartbeatGet_def hb_Get_def heartbeatPath_valid rowNotFound_def)
qed

lemma demo_rows_read:
  "readAll std_runtime workingIO demo_dir = Inr [(''s1'', demo_beat\<lparr>hb_At := 1\<rparr>)]"
  by code_simp

lemma demo_expired: "expired (100 + negDuration 10) (demo_beat\<lparr>hb_At := 1\<rparr>)"
  by code_simp

lemma fresh_heartbeat_pruned_witness:
  "\<exists>d1 s1 d2 s2. handleSessionHeartbeatPost demo_codes std_runtime workingIO 99 (Some demo_beat)
       (demo_dir, NewSessionHeartbeatStore) = ((d1, s1), Sent 200 (demo_beat\<lparr>hb_At := 99\<rparr>)) \<and>
     reconcileApply std_runtime workingIO 100 10 [(''s1'', demo_beat\<lparr>hb_At := 1\<rparr>)] (d1, s1) = (d2, s2) \<and>
     handleSessionHeartbeatGet demo_codes 100 60 ''s1'' d2 = Failed 404 ''NOT_FOUND'' None"
proof -
  have io: "io_mkdir workingIO = None" "io_write workingIO = None" "io_remove workingIO = None"
    by (simp_all add: workingIO_def)
  have ctx: "ctxErr std_runtime = None" by (simp add: std_runtime_def)
  have row: "map_of [(''s1'', demo_beat\<lparr>hb_At := 1\<rparr>)] (hb_SessionID demo_beat) = Some (demo_beat\<lparr>hb_At := 1\<rparr>)"
    by (simp add: demo_beat_id)
  show ?thesis
    using fresh_heartbeat_pruned[OF demo_rows_read _ row demo_expired _ ctx io(3) demo_beat_valid demo_beat_session
        io(1,2), of demo_codes 99 NewSessionHeartbeatStore 60]
    by (simp add: demo_beat_id demo_codes_def) blast
qed

text \<open>A reconcile can delete a file outside its directory: the session id a row file declares is
  not checked when it is read, so an expired row that declares \<open>../x\<close> makes the prune remove \<open>x.json\<close>
  beside the directory.\<close>

theorem prune_leaves_directory:
  assumes "readAll R io d = Inr rows" and "map_of rows (''../'' @ x) = Some h"
    and "expired (now + negDuration retention) h" and "0 < retention" and "ctxErr R = None"
    and "io_remove io = None" and "CHR ''/'' \<notin> set x"
  shows "\<exists>d' s'. reconcile R io now retention (d, s) = ((d', s'), Inr ()) \<and>
    contentAt d' [''..'', x @ ''.json''] = None"
proof -
  have "x @ ''.json'' \<notin> {[], ''.'', ''..''}" by (cases x; cases "tl x") auto
  then have path: "heartbeatPath (''../'' @ x) = [''..'', x @ ''.json'']"
    using assms(7) by (simp add: heartbeatPath_def sessionHeartbeatFileSuffix_def cleanPath_def splitAt1_plain)
  obtain d' rows' where p: "fold (pruneRow io (now + negDuration retention)) rows (d, rows) = (d', rows')"
    by fastforce
  have "contentAt d' [''..'', x @ ''.json''] = None"
    using prune_fold[OF assms(6) p, where p = "[''..'', x @ ''.json'']"] map_of_SomeD[OF assms(2)] assms(3) path
    by metis
  then show ?thesis
    using p assms(1,4,5) by (simp add: reconcile_def reconcileApply_def pruneExpired_def)
qed

definition demo_escaping :: heartbeatDir where
  "demo_escaping = \<lparr>dir_exists = True, dir_files =
     [([''a.json''], FileRecord (postedRecord 1 (demo_beat\<lparr>hb_SessionID := ''../x''\<rparr>))),
      ([''..'', ''x.json''], Undecodable)]\<rparr>"

lemma prune_leaves_directory_witness:
  "\<exists>d' s'. reconcile std_runtime workingIO 100 10 (demo_escaping, NewSessionHeartbeatStore) = ((d', s'), Inr ()) \<and>
     contentAt demo_escaping [''..'', ''x.json''] = Some Undecodable \<and> contentAt d' [''..'', ''x.json''] = None"
proof -
  let ?h = "demo_beat\<lparr>hb_SessionID := ''../x'', hb_At := 1\<rparr>"
  have rows: "readAll std_runtime workingIO demo_escaping = Inr [(''../x'', ?h)]" by code_simp
  have old: "expired (100 + negDuration 10) ?h" by code_simp
  have "map_of [(''../x'', ?h)] (''../'' @ ''x'') = Some ?h" by simp
  moreover have "ctxErr std_runtime = None" by (simp add: std_runtime_def)
  moreover have "io_remove workingIO = None" by (simp add: workingIO_def)
  ultimately show ?thesis
    using prune_leaves_directory[OF rows _ old, of "''x''" NewSessionHeartbeatStore]
    by (simp add: demo_escaping_def contentAt_def)
qed

end
