(* ===== verification/TaskText.thy ===== *)
theory TaskText
  imports GoText Paths
begin

text \<open>
  Reading a vault note (\<open>task-index.go\<close>): its frontmatter block and values, wiki links, the goal section
  of a topic note, and the production-touching marker (\<open>provenance.go\<close>). Notes are byte
  strings.
\<close>

section \<open>String functions\<close>

definition newline :: char where "newline = CHR 0x0A"

text \<open>\<open>strings.ReplaceAll\<close> of a carriage return and newline by a newline.\<close>

fun unixLines :: "string \<Rightarrow> string" where
  "unixLines (a # b # cs) =
     (if a = CHR 0x0D \<and> b = newline then newline # unixLines cs else a # unixLines (b # cs))"
| "unixLines cs = cs"

section \<open>Frontmatter\<close>

fun indexNewline :: "string \<Rightarrow> nat option" where
  "indexNewline [] = None"
| "indexNewline (c # cs) = (if c = newline then Some 0 else map_option Suc (indexNewline cs))"

definition trimCarriageReturn :: "string \<Rightarrow> string" where
  "trimCarriageReturn b = (if b \<noteq> [] \<and> last b = CHR 0x0D then butlast b else b)"

definition contentLine :: "string \<Rightarrow> nat \<Rightarrow> string \<times> nat" where
  "contentLine content pos =
     (let rest = drop pos content in
      case indexNewline rest of
        Some i \<Rightarrow> (trimCarriageReturn (take i rest), pos + i + 1)
      | None \<Rightarrow> (trimCarriageReturn rest, length content))"

definition isFrontmatterDelimiter :: "string \<Rightarrow> bool" where
  "isFrontmatterDelimiter line = (line = ''---'')"

lemma contentLine_forward: "pos < length content \<Longrightarrow> pos < snd (contentLine content pos)"
  by (simp add: contentLine_def Let_def split: option.split)

function frontmatterFrom :: "string \<Rightarrow> nat option \<Rightarrow> nat \<Rightarrow> string option" where
  "frontmatterFrom content start pos =
     (if pos < length content then
        (let (line, next) = contentLine content pos in
         if isFrontmatterDelimiter line then
           (case start of
              Some st \<Rightarrow> Some (take (pos - st) (drop st content))
            | None \<Rightarrow> frontmatterFrom content (Some next) next)
         else frontmatterFrom content start next)
      else None)"
  by pat_completeness auto
termination
proof (relation "measure (\<lambda>(content, start, pos). length content - pos)", goal_cases)
  case (2 content start pos x line n)
  then have "n = snd (contentLine content pos)" by (metis snd_conv)
  then show ?case using 2 contentLine_forward[of pos content] by simp
next
  case (3 content start pos x line n)
  then have "n = snd (contentLine content pos)" by (metis snd_conv)
  then show ?case using 3 contentLine_forward[of pos content] by simp
qed auto

declare frontmatterFrom.simps [simp del]

definition frontmatterBlock :: "string \<Rightarrow> string option" where
  "frontmatterBlock content = frontmatterFrom content None 0"

definition frontmatterLines :: "string \<Rightarrow> string list" where
  "frontmatterLines content =
     (case frontmatterBlock content of None \<Rightarrow> [] | Some block \<Rightarrow> splitAt1 newline (unixLines block))"

text \<open>The value of the first line with the key.\<close>

fun valueIn :: "string \<Rightarrow> string list \<Rightarrow> string" where
  "valueIn key [] = []"
| "valueIn key (line # lines) =
     (case cutAt '':'' line of
        None \<Rightarrow> valueIn key lines
      | Some (name, val) \<Rightarrow> (if TrimSpace name \<noteq> key then valueIn key lines else TrimSpace val))"

definition frontmatterValue :: "string \<Rightarrow> string \<Rightarrow> string" where
  "frontmatterValue content key = valueIn key (frontmatterLines content)"

text \<open>The entries below a key, until a line that is not one.\<close>

fun listEntries :: "string list \<Rightarrow> string list" where
  "listEntries [] = []"
| "listEntries (line # lines) =
     (let trimmed = TrimSpace line in
      if \<not> hasPrefix trimmed ''-'' then [] else trimmed # listEntries lines)"

fun listIn :: "string \<Rightarrow> string list \<Rightarrow> string list" where
  "listIn key [] = []"
| "listIn key (line # lines) =
     (case cutAt '':'' line of
        None \<Rightarrow> listIn key lines
      | Some (name, val) \<Rightarrow>
          if TrimSpace name \<noteq> key then listIn key lines
          else if TrimSpace val = ''[]'' then []
          else listEntries lines)"

definition frontmatterList :: "string \<Rightarrow> string \<Rightarrow> string list" where
  "frontmatterList content key = listIn key (frontmatterLines content)"

section \<open>Wiki links\<close>

definition unquoted :: "string \<Rightarrow> string" where
  "unquoted entry =
     (if 2 \<le> length entry \<and> (hd entry = CHR 0x22 \<or> hd entry = CHR 0x27) \<and> hd entry = last entry
      then TrimSpace (butlast (tl entry)) else entry)"

definition wikilinkTitle :: "string \<Rightarrow> string option" where
  "wikilinkTitle raw =
     (let entry = unquoted (TrimSpace (trimPrefix (TrimSpace raw) ''-'')) in
      case cutAt ''[['' entry of
        None \<Rightarrow> None
      | Some (_, rest) \<Rightarrow>
          (case cutAt '']]'' rest of
             None \<Rightarrow> None
           | Some (inner, _) \<Rightarrow>
               (let title = TrimSpace (case cutAt ''|'' inner of None \<Rightarrow> inner | Some (target, _) \<Rightarrow> target)
                in if title = [] then None else Some title)))"

definition taskDirName :: string where "taskDirName = ''25 Tasks''"
definition goalDirName :: string where "goalDirName = ''24 Goals''"
definition topicDirName :: string where "topicDirName = ''23 Topics''"
definition taskSessionKey :: string where "taskSessionKey = ''claude_session_id''"
definition taskStatusKey :: string where "taskStatusKey = ''status''"
definition taskGoalsKey :: string where "taskGoalsKey = ''goals''"
definition topicGoalsHeading :: string where "topicGoalsHeading = ''## Goals''"

definition declaredGoalTitles :: "string \<Rightarrow> string list" where
  "declaredGoalTitles content = List.map_filter wikilinkTitle (frontmatterList content taskGoalsKey)"

fun sectionTitles :: "bool \<Rightarrow> string list \<Rightarrow> string list" where
  "sectionTitles inSection [] = []"
| "sectionTitles inSection (line # lines) =
     (let trimmed = TrimSpace line in
      if \<not> inSection then sectionTitles (trimmed = topicGoalsHeading) lines
      else if hasPrefix trimmed ''#'' then []
      else if \<not> hasPrefix trimmed ''-'' then sectionTitles True lines
      else (case wikilinkTitle trimmed of
              None \<Rightarrow> sectionTitles True lines
            | Some title \<Rightarrow> title # sectionTitles True lines))"

definition goalSectionTitles :: "string \<Rightarrow> string list" where
  "goalSectionTitles content = sectionTitles False (splitAt1 newline (unixLines content))"

definition isTerminalTaskStatus :: "string \<Rightarrow> bool" where
  "isTerminalTaskStatus status = (status = ''completed'' \<or> status = ''aborted'')"

section \<open>The production-touching marker\<close>

text \<open>The pattern \<open>(?m)^\s*-\s*\[[ x/]\]\s*(?:W?)?\s*production-touching\s*D\<close> for the warning sign W with
  its variation selector and the dash D. Each piece starts with a byte the white space before it does
  not have, so the search does not backtrack.\<close>

definition isRE2Space :: "char \<Rightarrow> bool" where
  "isRE2Space c = (c = CHR 0x09 \<or> c = CHR 0x0A \<or> c = CHR 0x0C \<or> c = CHR 0x0D \<or> c = CHR '' '')"

definition skipSpace :: "string \<Rightarrow> string" where "skipSpace s = dropWhile isRE2Space s"

definition afterLiteral :: "string \<Rightarrow> string \<Rightarrow> string option" where
  "afterLiteral p s = (if hasPrefix s p then Some (drop (length p) s) else None)"

definition warningSign :: string where "warningSign = [CHR 0xE2, CHR 0x9A, CHR 0xA0]"
definition variationSelector :: string where "variationSelector = [CHR 0xEF, CHR 0xB8, CHR 0x8F]"
definition emDash :: string where "emDash = [CHR 0xE2, CHR 0x80, CHR 0x94]"

definition skipWarning :: "string \<Rightarrow> string" where
  "skipWarning s = (if hasPrefix s warningSign then trimPrefix (trimPrefix s warningSign) variationSelector else s)"

definition markerAt :: "string \<Rightarrow> bool" where
  "markerAt s =
     (case afterLiteral ''-'' (skipSpace s) of
        None \<Rightarrow> False
      | Some s \<Rightarrow>
          (case afterLiteral ''['' (skipSpace s) of
             None \<Rightarrow> False
           | Some s \<Rightarrow>
               s \<noteq> [] \<and> hd s \<in> set '' x/'' \<and>
               (case afterLiteral '']'' (tl s) of
                  None \<Rightarrow> False
                | Some s \<Rightarrow>
                    (case afterLiteral ''production-touching'' (skipSpace (skipWarning (skipSpace s))) of
                       None \<Rightarrow> False
                     | Some s \<Rightarrow> afterLiteral emDash (skipSpace s) \<noteq> None))))"

fun markerFrom :: "bool \<Rightarrow> string \<Rightarrow> bool" where
  "markerFrom lineStart [] = False"
| "markerFrom lineStart (c # cs) = ((lineStart \<and> markerAt (c # cs)) \<or> markerFrom (c = newline) cs)"

definition hasProductionTouchingMarker :: "string \<Rightarrow> bool" where
  "hasProductionTouchingMarker content = markerFrom True content"

end
