(* ===== verification/TaskIndex.thy ===== *)
theory TaskIndex
  imports TaskText Runtime "HOL-Library.Word"
begin

text \<open>
  The index of vault tasks by session (\<open>task-index.go\<close>): the full build, the incremental update from
  changed paths, the reconcile that reuses what did not change, and the lookup. The vault is a
  value. Each directory is what listing and opening it give; a map of the code is a map
  here, and the sequence counter is kept at its 64 bits.
\<close>

section \<open>The vault\<close>

record fileStamp =
  stamp_size :: int
  stamp_modTimeNano :: int

text \<open>A directory entry: its contents are \<open>None\<close> when it cannot be read, its stamp when it cannot be
  inspected.\<close>

record vaultFile =
  vf_isDir :: bool
  vf_content :: "string option"
  vf_stamp :: "fileStamp option"

text \<open>A directory: its entries in name order, whether it can be listed and whether it opens.\<close>

record vaultDir =
  vd_files :: "(string \<times> vaultFile) list"
  vd_lists :: bool
  vd_opens :: bool

record vault =
  va_set :: bool
  va_tasks :: vaultDir
  va_goals :: vaultDir
  va_topics :: vaultDir

definition listDir :: "vaultDir \<Rightarrow> (string \<times> vaultFile) list option" where
  "listDir d = (if vd_lists d then Some (vd_files d) else None)"

definition isNote :: "string \<times> vaultFile \<Rightarrow> bool" where
  "isNote entry = (\<not> vf_isDir (snd entry) \<and> HasSuffix (fst entry) ''.md'')"

definition noteTitle :: "string \<Rightarrow> string" where
  "noteTitle name = TrimSuffix name ''.md''"

definition inDir :: "string \<Rightarrow> string \<Rightarrow> string" where
  "inDir dir name = dir @ ''/'' @ name"

section \<open>The index\<close>

record Task =
  task_Name :: string
  task_Path :: string
  task_GoalName :: string
  task_GoalPath :: string
  task_Goals :: "string list"
  task_TopicName :: string
  task_TopicPath :: string
  task_ProductionTouching :: bool

record taskEntry =
  te_task :: Task
  te_terminal :: bool
  te_declaredGoals :: "string list"

type_synonym goalTopic = "string \<times> string"

record taskIndex =
  ti_bySession :: "string \<rightharpoonup> taskEntry"
  ti_byPath :: "string \<rightharpoonup> string \<times> taskEntry"
  ti_bySessionPaths :: "string \<rightharpoonup> string set"
  ti_fileStamps :: "string \<rightharpoonup> fileStamp"
  ti_goals :: "string set"
  ti_goalTopics :: "string \<rightharpoonup> goalTopic"
  ti_topics :: "string set"
  ti_baseSeq :: "64 word"
  ti_appliedSeq :: "64 word"
  ti_builtAt :: instant
  ti_refreshing :: bool
  ti_refreshes :: nat

definition emptyIndex :: taskIndex where
  "emptyIndex = \<lparr>ti_bySession = Map.empty, ti_byPath = Map.empty, ti_bySessionPaths = Map.empty,
     ti_fileStamps = Map.empty, ti_goals = {}, ti_goalTopics = Map.empty, ti_topics = {}, ti_baseSeq = 0,
     ti_appliedSeq = 0, ti_builtAt = zeroTime, ti_refreshing = False, ti_refreshes = 0\<rparr>"

section \<open>Candidates\<close>

definition pickWinner :: "taskEntry \<Rightarrow> taskEntry \<Rightarrow> taskEntry" where
  "pickWinner candidate winner = (if \<not> te_terminal winner \<and> te_terminal candidate then winner else candidate)"

definition recomputeSession :: "string \<Rightarrow> taskIndex \<Rightarrow> taskIndex" where
  "recomputeSession sessionID t =
     (let paths = (case ti_bySessionPaths t sessionID of None \<Rightarrow> {} | Some ps \<Rightarrow> ps) in
      if paths = {} then t\<lparr>ti_bySession := (ti_bySession t)(sessionID := None)\<rparr>
      else (let candidates = map (\<lambda>path. snd (the (ti_byPath t path))) (sorted_list_of_set paths);
                winner = fold pickWinner (tl candidates) (hd candidates)
            in t\<lparr>ti_bySession := (ti_bySession t)(sessionID \<mapsto> winner)\<rparr>))"

definition addCandidate :: "string \<Rightarrow> string \<Rightarrow> taskEntry \<Rightarrow> taskIndex \<Rightarrow> taskIndex" where
  "addCandidate path sessionID e t =
     (let paths = (case ti_bySessionPaths t sessionID of None \<Rightarrow> {} | Some ps \<Rightarrow> ps)
      in recomputeSession sessionID
           (t\<lparr>ti_byPath := (ti_byPath t)(path \<mapsto> (sessionID, e)),
              ti_bySessionPaths := (ti_bySessionPaths t)(sessionID \<mapsto> insert path paths)\<rparr>))"

definition forgetPath :: "string \<Rightarrow> taskIndex \<Rightarrow> taskIndex" where
  "forgetPath path t =
     (let t = t\<lparr>ti_fileStamps := (ti_fileStamps t)(path := None)\<rparr> in
      case ti_byPath t path of
        None \<Rightarrow> t
      | Some (sessionID, _) \<Rightarrow>
          (let t = t\<lparr>ti_byPath := (ti_byPath t)(path := None)\<rparr>;
               paths = (case ti_bySessionPaths t sessionID of None \<Rightarrow> {} | Some ps \<Rightarrow> ps) - {path}
           in recomputeSession sessionID
                (t\<lparr>ti_bySessionPaths := (ti_bySessionPaths t)(sessionID := (if paths = {} then None else Some paths))\<rparr>)))"

definition resolveGoal :: "string list \<Rightarrow> string set \<Rightarrow> string \<times> string" where
  "resolveGoal declared goals =
     (case find (\<lambda>title. title \<in> goals) declared of
        None \<Rightarrow> ([], [])
      | Some title \<Rightarrow> (title, inDir goalDirName (title @ ''.md'')))"

definition existingGoals :: "string list \<Rightarrow> string set \<Rightarrow> string list" where
  "existingGoals declared goals = filter (\<lambda>title. title \<in> goals) declared"

text \<open>The fields of a task that depend on the goals and topics.\<close>

definition reresolve :: "taskIndex \<Rightarrow> taskEntry \<Rightarrow> taskEntry" where
  "reresolve t e =
     (case resolveGoal (te_declaredGoals e) (ti_goals t) of (goalName, goalPath) \<Rightarrow>
       let topic = (if goalName \<noteq> [] then (case ti_goalTopics t goalName of None \<Rightarrow> ([], []) | Some topic \<Rightarrow> topic)
                    else ([], []))
       in e\<lparr>te_task := (te_task e)\<lparr>task_GoalName := goalName, task_GoalPath := goalPath,
              task_Goals := existingGoals (te_declaredGoals e) (ti_goals t),
              task_TopicName := fst topic, task_TopicPath := snd topic\<rparr>\<rparr>)"

definition noteEntry :: "taskIndex \<Rightarrow> string \<Rightarrow> string \<Rightarrow> string \<Rightarrow> taskEntry" where
  "noteEntry t path name content =
     (let declared = declaredGoalTitles content;
          (goalName, goalPath) = resolveGoal declared (ti_goals t);
          topic = (if goalName \<noteq> [] then (case ti_goalTopics t goalName of None \<Rightarrow> ([], []) | Some topic \<Rightarrow> topic)
                   else ([], []))
      in \<lparr>te_task = \<lparr>task_Name = noteTitle name, task_Path = path, task_GoalName = goalName,
            task_GoalPath = goalPath, task_Goals = existingGoals declared (ti_goals t),
            task_TopicName = fst topic, task_TopicPath = snd topic,
            task_ProductionTouching = hasProductionTouchingMarker content\<rparr>,
          te_terminal = isTerminalTaskStatus (frontmatterValue content taskStatusKey),
          te_declaredGoals = declared\<rparr>)"

definition indexContent :: "string \<Rightarrow> string \<Rightarrow> string \<Rightarrow> taskIndex \<Rightarrow> taskIndex" where
  "indexContent path name content t =
     (let sessionID = frontmatterValue content taskSessionKey in
      if sessionID = [] then t else addCandidate path sessionID (noteEntry t path name content) t)"

definition addFile :: "bool \<Rightarrow> string \<times> vaultFile \<Rightarrow> taskIndex \<Rightarrow> taskIndex" where
  "addFile opens entry t =
     (case entry of (name, file) \<Rightarrow>
       if \<not> isNote entry then t
       else (let path = inDir taskDirName name;
                 t = (case vf_stamp file of None \<Rightarrow> t
                      | Some stamp \<Rightarrow> t\<lparr>ti_fileStamps := (ti_fileStamps t)(path \<mapsto> stamp)\<rparr>)
             in (case vf_content file of None \<Rightarrow> t | Some content \<Rightarrow> indexContent path name content t)))"

section \<open>Goals and topics\<close>

definition noteTitles :: "vaultDir \<Rightarrow> string set" where
  "noteTitles d =
     (case listDir d of None \<Rightarrow> {}
      | Some es \<Rightarrow> set (map (\<lambda>entry. noteTitle (fst entry)) (filter isNote es)))"

definition readGoalTitles :: "vault \<Rightarrow> taskIndex \<Rightarrow> taskIndex" where
  "readGoalTitles v t = t\<lparr>ti_goals := noteTitles (va_goals v)\<rparr>"

definition recordTopic :: "string set \<Rightarrow> string \<Rightarrow> string \<Rightarrow> (string \<rightharpoonup> goalTopic) \<Rightarrow> (string \<rightharpoonup> goalTopic)" where
  "recordTopic goals name title topics =
     (if title \<notin> goals \<or> topics title \<noteq> None then topics
      else topics(title \<mapsto> (noteTitle name, inDir topicDirName name)))"

definition topicNote :: "string set \<Rightarrow> string \<times> vaultFile \<Rightarrow> (string \<rightharpoonup> goalTopic) \<Rightarrow> (string \<rightharpoonup> goalTopic)" where
  "topicNote goals entry topics =
     (if \<not> isNote entry then topics
      else (case vf_content (snd entry) of
              None \<Rightarrow> topics
            | Some content \<Rightarrow> fold (recordTopic goals (fst entry)) (goalSectionTitles content) topics))"

definition readGoalTopics :: "runtime \<Rightarrow> vault \<Rightarrow> taskIndex \<Rightarrow> taskIndex" where
  "readGoalTopics R v t =
     (let t = t\<lparr>ti_goalTopics := Map.empty, ti_topics := {}\<rparr> in
      case listDir (va_topics v) of
        None \<Rightarrow> t
      | Some es \<Rightarrow>
          (let t = t\<lparr>ti_topics := noteTitles (va_topics v)\<rparr> in
           if ti_goals t = {} \<or> \<not> vd_opens (va_topics v) \<or> ctxErr R \<noteq> None then t
           else t\<lparr>ti_goalTopics := fold (topicNote (ti_goals t)) es Map.empty\<rparr>))"

section \<open>Building and installing\<close>

definition freshIndex :: "runtime \<Rightarrow> vault \<Rightarrow> taskIndex" where
  "freshIndex R v = readGoalTopics R v (readGoalTitles v emptyIndex)"

definition readTasks :: "runtime \<Rightarrow> vault \<Rightarrow> taskIndex \<Rightarrow> taskIndex \<times> bool" where
  "readTasks R v t =
     (case listDir (va_tasks v) of
        None \<Rightarrow> (t, False)
      | Some es \<Rightarrow>
          if \<not> vd_opens (va_tasks v) then (t, False)
          else if ctxErr R \<noteq> None then (t, True)
          else (fold (addFile True) es t, True))"

definition build :: "runtime \<Rightarrow> vault \<Rightarrow> taskIndex \<times> bool" where
  "build R v = (if \<not> va_set v then (emptyIndex, True) else readTasks R v (freshIndex R v))"

definition install :: "instant \<Rightarrow> taskIndex \<Rightarrow> taskIndex \<Rightarrow> taskIndex \<times> bool" where
  "install now fresh t =
     (if ti_baseSeq fresh \<noteq> ti_appliedSeq t then (t, False)
      else (t\<lparr>ti_bySession := ti_bySession fresh, ti_byPath := ti_byPath fresh,
              ti_bySessionPaths := ti_bySessionPaths fresh, ti_fileStamps := ti_fileStamps fresh,
              ti_goals := ti_goals fresh, ti_goalTopics := ti_goalTopics fresh, ti_topics := ti_topics fresh,
              ti_builtAt := now\<rparr>, True))"

definition NewTaskIndex :: "runtime \<Rightarrow> instant \<Rightarrow> vault \<Rightarrow> taskIndex" where
  "NewTaskIndex R now v = fst (install now (fst (build R v)) emptyIndex)"

section \<open>Incremental update\<close>

text \<open>The name of a note whose directory is the tasks directory.\<close>

definition taskFileName :: "string \<Rightarrow> string option" where
  "taskFileName path =
     (let parts = splitAt1 (CHR ''/'') path; name = last parts in
      if hasPrefix path ''/'' \<or> cleanParts [] (butlast parts) \<noteq> [taskDirName] then None
      else if \<not> HasSuffix name ''.md'' then None
      else Some name)"

text \<open>What reading one changed note gives: its content and stamp, \<open>None\<close> when it is gone.\<close>

definition noteAt :: "vault \<Rightarrow> string \<Rightarrow> vaultFile option" where
  "noteAt v name = map_of (vd_files (va_tasks v)) name"

definition readPending :: "vault \<Rightarrow> string \<Rightarrow> (string \<times> string \<times> fileStamp option) option" where
  "readPending v name =
     (case noteAt v name of
        None \<Rightarrow> None
      | Some file \<Rightarrow>
          (case vf_content file of None \<Rightarrow> None
           | Some content \<Rightarrow> if vf_isDir file then None else Some (name, content, vf_stamp file)))"

definition applyPending :: "string \<times> (string \<times> string \<times> fileStamp option) option \<Rightarrow> taskIndex \<Rightarrow> taskIndex" where
  "applyPending pending t =
     (case pending of (path, change) \<Rightarrow>
       let t = forgetPath path t in
       case change of
         None \<Rightarrow> t
       | Some (name, content, stamp) \<Rightarrow>
           indexContent path name content
             (case stamp of None \<Rightarrow> t | Some st \<Rightarrow> t\<lparr>ti_fileStamps := (ti_fileStamps t)(path \<mapsto> st)\<rparr>))"

definition ApplyPaths :: "runtime \<Rightarrow> instant \<Rightarrow> vault \<Rightarrow> string list \<Rightarrow> taskIndex \<Rightarrow> taskIndex" where
  "ApplyPaths R now v paths t =
     (if paths = [] \<or> \<not> va_set v \<or> \<not> vd_opens (va_tasks v) \<or> ctxErr R \<noteq> None then t
      else (let names = List.map_filter taskFileName paths;
                pending = map (\<lambda>name. (inDir taskDirName name, readPending v name)) names;
                t = fold applyPending pending t
            in t\<lparr>ti_appliedSeq := ti_appliedSeq t + 1, ti_builtAt := now\<rparr>))"

section \<open>Reconcile\<close>

definition taskIndexBackstopWindow :: duration where
  "taskIndexBackstopWindow = 5 * 60 * 1000000000"

definition claimRefresh :: "instant \<Rightarrow> bool \<Rightarrow> taskIndex \<Rightarrow> taskIndex option" where
  "claimRefresh now onlyIfLapsed t =
     (if onlyIfLapsed \<and> timeSub now (ti_builtAt t) < taskIndexBackstopWindow then None
      else if ti_refreshing t then None
      else Some (t\<lparr>ti_refreshing := True, ti_refreshes := ti_refreshes t + 1\<rparr>))"

definition finishRefresh :: "taskIndex \<Rightarrow> taskIndex" where
  "finishRefresh t = t\<lparr>ti_refreshing := False\<rparr>"

definition stampFor :: "taskIndex \<Rightarrow> string \<Rightarrow> fileStamp" where
  "stampFor t path =
     (case ti_fileStamps t path of None \<Rightarrow> \<lparr>stamp_size = 0, stamp_modTimeNano = 0\<rparr> | Some stamp \<Rightarrow> stamp)"

text \<open>One entry of the walk: a note whose stamp is the one the snapshot has is taken over, any other is
  read.\<close>

definition reconcileEntry :: "taskIndex \<Rightarrow> string \<times> vaultFile \<Rightarrow> taskIndex \<Rightarrow> taskIndex" where
  "reconcileEntry old entry fresh =
     (if \<not> isNote entry then fresh
      else (let path = inDir taskDirName (fst entry) in
            case vf_stamp (snd entry) of
              None \<Rightarrow> addFile True entry fresh
            | Some stamp \<Rightarrow>
                (let fresh = fresh\<lparr>ti_fileStamps := (ti_fileStamps fresh)(path \<mapsto> stamp)\<rparr> in
                 case ti_byPath old path of
                   None \<Rightarrow> addFile True entry fresh
                 | Some (sessionID, e) \<Rightarrow>
                     if stampFor old path \<noteq> stamp then addFile True entry fresh
                     else addCandidate path sessionID (reresolve fresh e) fresh)))"

text \<open>The listing is taken first; the snapshot of the serving index (\<open>old\<close>) after it.\<close>

definition reconcileWalk :: "runtime \<Rightarrow> (string \<times> vaultFile) list \<Rightarrow> taskIndex \<Rightarrow> taskIndex \<Rightarrow> taskIndex \<times> bool" where
  "reconcileWalk R es old fresh =
     (let fresh = fresh\<lparr>ti_baseSeq := ti_appliedSeq old\<rparr> in
      if es \<noteq> [] \<and> ctxErr R \<noteq> None then (fresh, False)
      else (fold (reconcileEntry old) es fresh, True))"

definition index_reconcile :: "runtime \<Rightarrow> vault \<Rightarrow> taskIndex \<Rightarrow> taskIndex \<times> bool" where
  "index_reconcile R v old =
     (let fresh = freshIndex R v in
      case listDir (va_tasks v) of
        None \<Rightarrow> (fresh, False)
      | Some es \<Rightarrow> if \<not> vd_opens (va_tasks v) then (fresh, False) else reconcileWalk R es old fresh)"

definition installReconciled :: "runtime \<Rightarrow> instant \<Rightarrow> taskIndex \<times> bool \<Rightarrow> taskIndex \<Rightarrow> taskIndex" where
  "installReconciled R now result t =
     (if ctxErr R \<noteq> None \<or> \<not> snd result then t else fst (install now (fst result) t))"

definition reconcileAndInstall :: "runtime \<Rightarrow> instant \<Rightarrow> vault \<Rightarrow> taskIndex \<Rightarrow> taskIndex" where
  "reconcileAndInstall R now v t = finishRefresh (installReconciled R now (index_reconcile R v t) t)"

definition index_Reconcile :: "runtime \<Rightarrow> instant \<Rightarrow> vault \<Rightarrow> taskIndex \<Rightarrow> taskIndex" where
  "index_Reconcile R now v t =
     (if \<not> va_set v then t else case claimRefresh now False t of None \<Rightarrow> t | Some t \<Rightarrow> reconcileAndInstall R now v t)"

definition reconcileIfBackstopLapsed :: "runtime \<Rightarrow> instant \<Rightarrow> vault \<Rightarrow> taskIndex \<Rightarrow> taskIndex" where
  "reconcileIfBackstopLapsed R now v t =
     (case claimRefresh now True t of None \<Rightarrow> t | Some t \<Rightarrow> reconcileAndInstall R now v t)"

definition index_Lookup :: "runtime \<Rightarrow> instant \<Rightarrow> vault \<Rightarrow> string \<Rightarrow> taskIndex \<Rightarrow> taskIndex \<times> Task option" where
  "index_Lookup R now v sessionID t =
     (let t = reconcileIfBackstopLapsed R now v t
      in (t, map_option te_task (ti_bySession t sessionID)))"

definition index_SubjectTitles :: "runtime \<Rightarrow> instant \<Rightarrow> vault \<Rightarrow> taskIndex \<Rightarrow> taskIndex \<times> string list" where
  "index_SubjectTitles R now v t =
     (let t = reconcileIfBackstopLapsed R now v t
      in (t, sorted_list_of_set (ti_goals t) @ sorted_list_of_set (ti_topics t)))"

end
