(* ===== verification/TaskLaws.thy ===== *)
theory TaskLaws
  imports TaskIndex
begin

text \<open>
  The index of the tasks as a function of the vault: the invariant that the three maps of the
  index agree and the winner of a session is chosen among its notes, what adding and forgetting a note do to it,
  and that a built, an updated and a reconciled index all show the vault they were made
  from.
\<close>

section \<open>The maps agree\<close>

definition pathsIn :: "(string \<rightharpoonup> string \<times> taskEntry) \<Rightarrow> string \<Rightarrow> string set" where
  "pathsIn byPath sid = {p. \<exists>e. byPath p = Some (sid, e)}"

definition candidatesIn :: "(string \<rightharpoonup> string \<times> taskEntry) \<Rightarrow> string \<Rightarrow> taskEntry list" where
  "candidatesIn byPath sid = map (\<lambda>p. snd (the (byPath p))) (sorted_list_of_set (pathsIn byPath sid))"

definition winnerIn :: "(string \<rightharpoonup> string \<times> taskEntry) \<Rightarrow> string \<Rightarrow> taskEntry option" where
  "winnerIn byPath sid =
     (case candidatesIn byPath sid of [] \<Rightarrow> None | e # es \<Rightarrow> Some (fold pickWinner es e))"

definition indexInv :: "taskIndex \<Rightarrow> bool" where
  "indexInv t \<longleftrightarrow>
     finite (dom (ti_byPath t)) \<and>
     (\<forall>sid. ti_bySessionPaths t sid =
        (if pathsIn (ti_byPath t) sid = {} then None else Some (pathsIn (ti_byPath t) sid))) \<and>
     (\<forall>sid. ti_bySession t sid = winnerIn (ti_byPath t) sid)"

lemma indexInvD:
  assumes "indexInv t"
  shows "finite (dom (ti_byPath t))"
    and "ti_bySessionPaths t sid =
      (if pathsIn (ti_byPath t) sid = {} then None else Some (pathsIn (ti_byPath t) sid))"
    and "ti_bySession t sid = winnerIn (ti_byPath t) sid"
  using assms by (auto simp: indexInv_def)

lemma finite_pathsIn: "finite (dom byPath) \<Longrightarrow> finite (pathsIn byPath sid)"
  by (rule finite_subset[of _ "dom byPath"]) (auto simp: pathsIn_def)

lemma indexInv_empty: "indexInv emptyIndex"
  by (simp add: indexInv_def emptyIndex_def pathsIn_def winnerIn_def candidatesIn_def)

text \<open>The winner: the last note that is not terminal, or the last when all are.\<close>

lemma fold_pickWinner:
  "fold pickWinner es e =
     (let live = filter (\<lambda>x. \<not> te_terminal x) (e # es) in if live = [] then last (e # es) else last live)"
proof (induction es arbitrary: e)
  case (Cons a es)
  show ?case
    unfolding fold_simps(2) Cons.IH by (auto simp: pickWinner_def Let_def)
qed (simp add: Let_def)

lemma recompute_winner:
  assumes "finite (dom (ti_byPath t))"
    and "ti_bySessionPaths t sid = (if pathsIn (ti_byPath t) sid = {} then None else Some (pathsIn (ti_byPath t) sid))"
  shows "recomputeSession sid t = t\<lparr>ti_bySession := (ti_bySession t)(sid := winnerIn (ti_byPath t) sid)\<rparr>"
proof (cases "pathsIn (ti_byPath t) sid = {}")
  case True
  then show ?thesis using assms(2) by (simp add: recomputeSession_def winnerIn_def candidatesIn_def)
next
  case False
  then have "candidatesIn (ti_byPath t) sid \<noteq> []"
    using finite_pathsIn[OF assms(1)] by (simp add: candidatesIn_def)
  then show ?thesis
    using False assms(2)
    by (auto simp: recomputeSession_def winnerIn_def candidatesIn_def[symmetric] Let_def split: list.split)
qed

text \<open>A change of one note recomputes the one session it is about.\<close>

lemma winnerIn_other:
  assumes "\<And>p e. byPath p = Some (sid, e) \<longleftrightarrow> byPath' p = Some (sid, e)"
  shows "winnerIn byPath sid = winnerIn byPath' sid"
proof -
  have paths: "pathsIn byPath sid = pathsIn byPath' sid" using assms by (auto simp: pathsIn_def)
  have "candidatesIn byPath sid = candidatesIn byPath' sid"
  proof (cases "finite (pathsIn byPath sid)")
    case True
    have "byPath p = byPath' p" if p: "p \<in> pathsIn byPath sid" for p
    proof -
      obtain e where "byPath p = Some (sid, e)" using p by (auto simp: pathsIn_def)
      then show ?thesis using assms[of p e] by simp
    qed
    then show ?thesis
      using True unfolding candidatesIn_def paths[symmetric] by (auto intro!: map_cong)
  qed (simp add: candidatesIn_def paths[symmetric])
  then show ?thesis by (simp add: winnerIn_def)
qed

lemma addCandidate_inv:
  assumes "indexInv t" and "ti_byPath t path = None"
  shows "indexInv (addCandidate path sid e t) \<and>
    addCandidate path sid e t = t\<lparr>ti_byPath := (ti_byPath t)(path \<mapsto> (sid, e)),
      ti_bySessionPaths := ti_bySessionPaths (addCandidate path sid e t),
      ti_bySession := ti_bySession (addCandidate path sid e t)\<rparr>"
proof -
  let ?bp = "(ti_byPath t)(path \<mapsto> (sid, e))"
  note inv = indexInvD[OF assms(1)]
  let ?t = "t\<lparr>ti_byPath := ?bp,
     ti_bySessionPaths := (ti_bySessionPaths t)(sid \<mapsto> insert path (pathsIn (ti_byPath t) sid))\<rparr>"
  have start: "addCandidate path sid e t = recomputeSession sid ?t"
    by (simp add: addCandidate_def inv(2) Let_def)
  have same: "pathsIn ?bp sid = insert path (pathsIn (ti_byPath t) sid)"
    "k \<noteq> sid \<Longrightarrow> pathsIn ?bp k = pathsIn (ti_byPath t) k" for k
    using assms(2) by (auto simp: pathsIn_def)
  have other: "winnerIn ?bp k = winnerIn (ti_byPath t) k" if "k \<noteq> sid" for k
    using that assms(2) by (intro winnerIn_other) auto
  have "recomputeSession sid ?t = ?t\<lparr>ti_bySession := (ti_bySession ?t)(sid := winnerIn (ti_byPath ?t) sid)\<rparr>"
    using inv(1) same by (intro recompute_winner) auto
  then show ?thesis
    unfolding start using inv same other by (auto simp: indexInv_def)
qed

lemma forgetPath_inv:
  assumes "indexInv t"
  shows "indexInv (forgetPath path t) \<and>
    forgetPath path t = t\<lparr>ti_fileStamps := (ti_fileStamps t)(path := None),
      ti_byPath := (ti_byPath t)(path := None),
      ti_bySessionPaths := ti_bySessionPaths (forgetPath path t),
      ti_bySession := ti_bySession (forgetPath path t)\<rparr>"
proof (cases "ti_byPath t path")
  case None
  then have "(ti_byPath t)(path := None) = ti_byPath t" by (simp add: fun_upd_idem)
  then show ?thesis using assms None by (simp add: forgetPath_def Let_def indexInv_def)
next
  case (Some held)
  obtain sid e where held: "held = (sid, e)" by (cases held)
  let ?bp = "(ti_byPath t)(path := None)"
  note inv = indexInvD[OF assms]
  let ?paths = "pathsIn (ti_byPath t) sid - {path}"
  let ?t = "t\<lparr>ti_fileStamps := (ti_fileStamps t)(path := None), ti_byPath := ?bp,
     ti_bySessionPaths := (ti_bySessionPaths t)(sid := (if ?paths = {} then None else Some ?paths))\<rparr>"
  have start: "forgetPath path t = recomputeSession sid ?t"
    using Some by (simp add: forgetPath_def held inv(2) Let_def)
  have same: "pathsIn ?bp sid = ?paths" "k \<noteq> sid \<Longrightarrow> pathsIn ?bp k = pathsIn (ti_byPath t) k" for k
    using Some by (auto simp: pathsIn_def held)
  have other: "winnerIn ?bp k = winnerIn (ti_byPath t) k" if "k \<noteq> sid" for k
    using that Some by (intro winnerIn_other) (auto simp: held)
  have "recomputeSession sid ?t = ?t\<lparr>ti_bySession := (ti_bySession ?t)(sid := winnerIn (ti_byPath ?t) sid)\<rparr>"
    using inv(1) same by (intro recompute_winner) auto
  then show ?thesis
    unfolding start using inv same other by (auto simp: indexInv_def)
qed

section \<open>Indexing notes\<close>

text \<open>Two indexes with the same goals and topics resolve a note alike.\<close>

definition sameSubjects :: "taskIndex \<Rightarrow> taskIndex \<Rightarrow> bool" where
  "sameSubjects t u \<longleftrightarrow> ti_goals t = ti_goals u \<and> ti_goalTopics t = ti_goalTopics u"

definition noteCandidate :: "taskIndex \<Rightarrow> string \<Rightarrow> string \<Rightarrow> string \<Rightarrow> (string \<times> taskEntry) option" where
  "noteCandidate t path name content =
     (let sessionID = frontmatterValue content taskSessionKey in
      if sessionID = [] then None else Some (sessionID, noteEntry t path name content))"

definition entryCandidate :: "taskIndex \<Rightarrow> string \<times> vaultFile \<Rightarrow> (string \<times> taskEntry) option" where
  "entryCandidate t entry =
     (if isNote entry
      then (case vf_content (snd entry) of None \<Rightarrow> None
            | Some content \<Rightarrow> noteCandidate t (inDir taskDirName (fst entry)) (fst entry) content)
      else None)"

definition byPathOf :: "taskIndex \<Rightarrow> (string \<times> vaultFile) list \<Rightarrow> string \<Rightarrow> (string \<times> taskEntry) option" where
  "byPathOf t es path =
     (case map_of (map (\<lambda>entry. (inDir taskDirName (fst entry), entry)) es) path of
        None \<Rightarrow> None | Some entry \<Rightarrow> entryCandidate t entry)"

lemma sameSubjects_entry: "sameSubjects t u \<Longrightarrow> noteEntry t path name content = noteEntry u path name content"
  by (simp add: noteEntry_def sameSubjects_def Let_def cong: if_cong)

lemma sameSubjects_byPathOf: "sameSubjects t u \<Longrightarrow> byPathOf t es = byPathOf u es"
  using sameSubjects_entry
  by (auto simp: byPathOf_def entryCandidate_def noteCandidate_def fun_eq_iff Let_def split: option.split)

lemma inDir_inj [simp]: "inDir d a = inDir d b \<longleftrightarrow> a = b"
  by (simp add: inDir_def)

lemma map_of_inDir:
  "map_of (map (\<lambda>entry. (inDir d (fst entry), entry)) es) (inDir d name) = map_option (Pair name) (map_of es name)"
  by (induction es) auto

text \<open>What an operation on one note leaves alone.\<close>

definition keepsRest :: "taskIndex \<Rightarrow> taskIndex \<Rightarrow> bool" where
  "keepsRest t u \<longleftrightarrow> sameSubjects t u \<and> ti_topics t = ti_topics u \<and> ti_baseSeq t = ti_baseSeq u \<and>
     ti_appliedSeq t = ti_appliedSeq u \<and> ti_builtAt t = ti_builtAt u \<and> ti_refreshing t = ti_refreshing u \<and>
     ti_refreshes t = ti_refreshes u"

lemma keepsRest_refl [simp]: "keepsRest t t"
  by (simp add: keepsRest_def sameSubjects_def)

lemma keepsRest_trans: "keepsRest t u \<Longrightarrow> keepsRest u v \<Longrightarrow> keepsRest t v"
  by (simp add: keepsRest_def sameSubjects_def)

lemma keepsRest_baseSeq: "keepsRest t u \<Longrightarrow> ti_baseSeq u = ti_baseSeq t"
  by (simp add: keepsRest_def)

lemma stamps_update:
  "indexInv (t\<lparr>ti_fileStamps := s\<rparr>) = indexInv t" "keepsRest t (t\<lparr>ti_fileStamps := s\<rparr>)"
  "noteCandidate (t\<lparr>ti_fileStamps := s\<rparr>) = noteCandidate t"
  by (simp_all add: indexInv_def keepsRest_def sameSubjects_def noteCandidate_def noteEntry_def fun_eq_iff
      Let_def cong: if_cong)

lemma addCandidate_at:
  assumes "indexInv t" and "ti_byPath t path = None"
  shows "indexInv (addCandidate path sid e t)" "keepsRest t (addCandidate path sid e t)"
    and "ti_byPath (addCandidate path sid e t) = (ti_byPath t)(path \<mapsto> (sid, e))"
    and "ti_fileStamps (addCandidate path sid e t) = ti_fileStamps t"
proof -
  note A = addCandidate_inv[OF assms, of sid e]
  show "indexInv (addCandidate path sid e t)" using A by blast
  have eq: "addCandidate path sid e t = t\<lparr>ti_byPath := (ti_byPath t)(path \<mapsto> (sid, e)),
      ti_bySessionPaths := ti_bySessionPaths (addCandidate path sid e t),
      ti_bySession := ti_bySession (addCandidate path sid e t)\<rparr>" using A by blast
  show "keepsRest t (addCandidate path sid e t)"
    by (subst eq) (simp add: keepsRest_def sameSubjects_def)
  show "ti_byPath (addCandidate path sid e t) = (ti_byPath t)(path \<mapsto> (sid, e))"
    "ti_fileStamps (addCandidate path sid e t) = ti_fileStamps t"
    by (subst eq, simp)+
qed

lemma forgetPath_at:
  assumes "indexInv t"
  shows "indexInv (forgetPath path t)" "keepsRest t (forgetPath path t)"
    and "ti_byPath (forgetPath path t) = (ti_byPath t)(path := None)"
    and "ti_fileStamps (forgetPath path t) = (ti_fileStamps t)(path := None)"
proof -
  note A = forgetPath_inv[OF assms, of path]
  show "indexInv (forgetPath path t)" using A by blast
  have eq: "forgetPath path t = t\<lparr>ti_fileStamps := (ti_fileStamps t)(path := None),
      ti_byPath := (ti_byPath t)(path := None),
      ti_bySessionPaths := ti_bySessionPaths (forgetPath path t),
      ti_bySession := ti_bySession (forgetPath path t)\<rparr>" using A by blast
  show "keepsRest t (forgetPath path t)"
    by (subst eq) (simp add: keepsRest_def sameSubjects_def)
  show "ti_byPath (forgetPath path t) = (ti_byPath t)(path := None)"
    "ti_fileStamps (forgetPath path t) = (ti_fileStamps t)(path := None)"
    by (subst eq, simp)+
qed

lemma indexContent_at:
  assumes "indexInv t" and "ti_byPath t path = None"
  shows "indexInv (indexContent path name content t)" "keepsRest t (indexContent path name content t)"
    and "ti_byPath (indexContent path name content t) = (ti_byPath t)(path := noteCandidate t path name content)"
    and "ti_fileStamps (indexContent path name content t) = ti_fileStamps t"
  using addCandidate_at[OF assms] assms
  by (auto simp: indexContent_def noteCandidate_def Let_def fun_upd_idem)

text \<open>One entry of a listing: what it adds.\<close>

definition addsEntry :: "string \<times> vaultFile \<Rightarrow> taskIndex \<Rightarrow> taskIndex \<Rightarrow> bool" where
  "addsEntry entry t t' \<longleftrightarrow>
     (let path = inDir taskDirName (fst entry) in
      indexInv t' \<and> keepsRest t t' \<and> ti_byPath t' = (ti_byPath t)(path := entryCandidate t entry) \<and>
      ti_fileStamps t' =
        (if isNote entry \<and> vf_stamp (snd entry) \<noteq> None then (ti_fileStamps t)(path := vf_stamp (snd entry))
         else ti_fileStamps t))"

lemma addFile_adds:
  assumes "indexInv t" and "ti_byPath t (inDir taskDirName (fst entry)) = None"
  shows "addsEntry entry t (addFile True entry t)"
proof -
  obtain name vf where entry: "entry = (name, vf)" by (cases entry)
  let ?path = "inDir taskDirName name"
  define u where "u = (case vf_stamp vf of None \<Rightarrow> t | Some stamp \<Rightarrow> t\<lparr>ti_fileStamps := (ti_fileStamps t)(?path \<mapsto> stamp)\<rparr>)"
  have u: "indexInv u" "keepsRest t u" "ti_byPath u = ti_byPath t" "noteCandidate u = noteCandidate t"
    "ti_fileStamps u = (if vf_stamp vf \<noteq> None then (ti_fileStamps t)(?path := vf_stamp vf) else ti_fileStamps t)"
    using assms(1) stamps_update by (auto simp: u_def split: option.split)
  have "ti_byPath u ?path = None" using assms(2) u(3) by (simp add: entry)
  note I = indexContent_at[OF u(1) this]
  have "addFile True entry t = (if \<not> isNote entry then t
      else case vf_content vf of None \<Rightarrow> u | Some content \<Rightarrow> indexContent ?path name content u)"
    unfolding addFile_def entry u_def Let_def by simp
  then show ?thesis
    using u I assms keepsRest_trans[OF u(2) I(2)]
    by (auto simp: addsEntry_def entry entryCandidate_def Let_def fun_upd_idem split: option.split)
qed

text \<open>A loop over a listing whose body adds each entry.\<close>

lemma walk_adds:
  assumes "\<And>entry t. entry \<in> set es \<Longrightarrow> indexInv t \<Longrightarrow> keepsRest t0 t \<Longrightarrow>
      ti_byPath t (inDir taskDirName (fst entry)) = None \<Longrightarrow> addsEntry entry t (f entry t)"
    and "distinct (map fst es)" and "indexInv t" and "keepsRest t0 t"
    and "\<forall>entry \<in> set es. ti_byPath t (inDir taskDirName (fst entry)) = None"
  shows "indexInv (fold f es t) \<and> keepsRest t0 (fold f es t) \<and>
    ti_byPath (fold f es t) p = (if p \<in> inDir taskDirName ` fst ` set es then byPathOf t0 es p else ti_byPath t p) \<and>
    (\<forall>entry \<in> set es. ti_fileStamps (fold f es t) (inDir taskDirName (fst entry)) =
       (if isNote entry \<and> vf_stamp (snd entry) \<noteq> None then vf_stamp (snd entry)
        else ti_fileStamps t (inDir taskDirName (fst entry)))) \<and>
    (p \<notin> inDir taskDirName ` fst ` set es \<longrightarrow> ti_fileStamps (fold f es t) p = ti_fileStamps t p)"
  using assms
proof (induction es arbitrary: t p)
  case (Cons entry es)
  let ?path = "inDir taskDirName (fst entry)" and ?t = "f entry t"
  have adds: "addsEntry entry t ?t" using Cons.prems by simp
  then have rest: "indexInv ?t" "keepsRest t0 ?t"
    and bp: "ti_byPath ?t = (ti_byPath t)(?path := entryCandidate t entry)"
    and st: "ti_fileStamps ?t = (if isNote entry \<and> vf_stamp (snd entry) \<noteq> None
        then (ti_fileStamps t)(?path := vf_stamp (snd entry)) else ti_fileStamps t)"
    using keepsRest_trans[OF Cons.prems(4)] by (auto simp: addsEntry_def Let_def)
  have new: "fst entry \<notin> fst ` set es" using Cons.prems(2) by simp
  have differs: "fst e \<noteq> fst entry" if "e \<in> set es" for e using new that by (metis image_eqI)
  have free: "\<forall>e \<in> set es. ti_byPath ?t (inDir taskDirName (fst e)) = None"
  proof
    fix e
    assume "e \<in> set es"
    then have "fst e \<noteq> fst entry" using new by (metis image_eqI)
    then show "ti_byPath ?t (inDir taskDirName (fst e)) = None" using Cons.prems(5) \<open>e \<in> set es\<close> by (simp add: bp)
  qed
  have cand: "entryCandidate t entry = entryCandidate t0 entry"
    using Cons.prems(4) sameSubjects_entry[of t0 t]
    by (simp add: keepsRest_def entryCandidate_def noteCandidate_def Let_def split: option.split)
  have IH: "indexInv (fold f es ?t) \<and> keepsRest t0 (fold f es ?t) \<and>
    ti_byPath (fold f es ?t) q = (if q \<in> inDir taskDirName ` fst ` set es then byPathOf t0 es q else ti_byPath ?t q) \<and>
    (\<forall>entry \<in> set es. ti_fileStamps (fold f es ?t) (inDir taskDirName (fst entry)) =
       (if isNote entry \<and> vf_stamp (snd entry) \<noteq> None then vf_stamp (snd entry)
        else ti_fileStamps ?t (inDir taskDirName (fst entry)))) \<and>
    (q \<notin> inDir taskDirName ` fst ` set es \<longrightarrow> ti_fileStamps (fold f es ?t) q = ti_fileStamps ?t q)" for q
    using Cons.IH[OF _ _ rest free, of q] Cons.prems(1,2) by simp
  have out: "?path \<notin> inDir taskDirName ` fst ` set es" using new by (simp only: image_iff inDir_inj bex_simps)
  have bpo: "byPathOf t0 (entry # es) q = (if q = ?path then entryCandidate t0 entry else byPathOf t0 es q)" for q
    by (simp add: byPathOf_def)
  have "ti_byPath (fold f es ?t) p =
      (if p \<in> inDir taskDirName ` fst ` set (entry # es) then byPathOf t0 (entry # es) p else ti_byPath t p)"
    using IH[of p] out cand by (simp add: bpo bp)
  moreover have "\<forall>e \<in> set (entry # es). ti_fileStamps (fold f es ?t) (inDir taskDirName (fst e)) =
       (if isNote e \<and> vf_stamp (snd e) \<noteq> None then vf_stamp (snd e)
        else ti_fileStamps t (inDir taskDirName (fst e)))"
    using IH[of ?path] out differs by (auto simp: st)
  moreover have "p \<notin> inDir taskDirName ` fst ` set (entry # es) \<longrightarrow> ti_fileStamps (fold f es ?t) p = ti_fileStamps t p"
    using IH[of p] by (simp add: st)
  ultimately show ?case using IH[of p] by simp
qed (simp add: byPathOf_def)

section \<open>An index shows a vault\<close>

definition wellListed :: "vault \<Rightarrow> bool" where
  "wellListed v \<longleftrightarrow> va_set v \<and> vd_lists (va_tasks v) \<and> vd_opens (va_tasks v) \<and>
     distinct (map fst (vd_files (va_tasks v))) \<and>
     (\<forall>(name, vf) \<in> set (vd_files (va_tasks v)). vf_isDir vf \<longrightarrow> vf_content vf = None)"

definition showsVault :: "runtime \<Rightarrow> vault \<Rightarrow> taskIndex \<Rightarrow> bool" where
  "showsVault R v t \<longleftrightarrow>
     indexInv t \<and> sameSubjects (freshIndex R v) t \<and> ti_topics t = ti_topics (freshIndex R v) \<and>
     ti_byPath t = byPathOf (freshIndex R v) (vd_files (va_tasks v)) \<and>
     (\<forall>(name, vf) \<in> set (vd_files (va_tasks v)).
        ti_byPath t (inDir taskDirName name) \<noteq> None \<longrightarrow> ti_fileStamps t (inDir taskDirName name) = vf_stamp vf)"

lemma readGoalTopics_rest:
  "readGoalTopics R v t = t\<lparr>ti_goalTopics := ti_goalTopics (readGoalTopics R v t),
     ti_topics := ti_topics (readGoalTopics R v t)\<rparr>"
  by (simp add: readGoalTopics_def Let_def split: option.split)

lemma freshIndex_empty:
  "indexInv (freshIndex R v)" "ti_byPath (freshIndex R v) = Map.empty" "ti_fileStamps (freshIndex R v) = Map.empty"
  "ti_baseSeq (freshIndex R v) = 0"
proof -
  obtain a b where "freshIndex R v = (readGoalTitles v emptyIndex)\<lparr>ti_goalTopics := a, ti_topics := b\<rparr>"
    using readGoalTopics_rest[of R v "readGoalTitles v emptyIndex"] unfolding freshIndex_def by blast
  then have eq: "freshIndex R v = emptyIndex\<lparr>ti_goals := noteTitles (va_goals v), ti_goalTopics := a, ti_topics := b\<rparr>"
    by (simp add: readGoalTitles_def)
  have "indexInv (emptyIndex\<lparr>ti_goals := noteTitles (va_goals v), ti_goalTopics := a, ti_topics := b\<rparr>) = indexInv emptyIndex"
    by (simp add: indexInv_def)
  then show "indexInv (freshIndex R v)" using indexInv_empty by (simp only: eq)
  show "ti_byPath (freshIndex R v) = Map.empty" "ti_fileStamps (freshIndex R v) = Map.empty"
    "ti_baseSeq (freshIndex R v) = 0"
    by (simp_all add: eq emptyIndex_def)
qed

lemma byPathOf_None: "p \<notin> inDir taskDirName ` fst ` set es \<Longrightarrow> byPathOf t es p = None"
proof -
  assume "p \<notin> inDir taskDirName ` fst ` set es"
  then have "map_of (map (\<lambda>entry. (inDir taskDirName (fst entry), entry)) es) p = None"
    by (simp add: map_of_eq_None_iff image_image)
  then show ?thesis by (simp add: byPathOf_def)
qed

lemma byPathOf_at: "byPathOf t es (inDir taskDirName name) = Option.bind (map_of es name) (\<lambda>vf. entryCandidate t (name, vf))"
  by (simp add: byPathOf_def map_of_inDir split: option.split)

lemma entryCandidate_note: "entryCandidate t entry \<noteq> None \<Longrightarrow> isNote entry"
  by (auto simp: entryCandidate_def split: if_splits)

text \<open>A walk over the vault's listing from an empty index shows the vault.\<close>

lemma walk_shows:
  assumes "wellListed v" and "es = vd_files (va_tasks v)"
    and "sameSubjects (freshIndex R v) t0" and "ti_topics t0 = ti_topics (freshIndex R v)"
    and "indexInv t0" and "ti_byPath t0 = Map.empty" and "ti_fileStamps t0 = Map.empty"
    and adds: "\<And>entry t. entry \<in> set es \<Longrightarrow> indexInv t \<Longrightarrow> keepsRest t0 t \<Longrightarrow>
      ti_byPath t (inDir taskDirName (fst entry)) = None \<Longrightarrow> addsEntry entry t (f entry t)"
  shows "showsVault R v (fold f es t0)" "keepsRest t0 (fold f es t0)"
proof -
  have dist: "distinct (map fst es)" using assms(1,2) by (simp add: wellListed_def)
  have free: "\<forall>entry \<in> set es. ti_byPath t0 (inDir taskDirName (fst entry)) = None" by (simp add: assms(6))
  note W = walk_adds[where f = f and ?t0.0 = t0, OF adds dist assms(5) keepsRest_refl free]
  have walk: "indexInv (fold f es t0)" "keepsRest t0 (fold f es t0)"
    "ti_byPath (fold f es t0) p = (if p \<in> inDir taskDirName ` fst ` set es then byPathOf t0 es p else ti_byPath t0 p)"
    "\<forall>entry \<in> set es. ti_fileStamps (fold f es t0) (inDir taskDirName (fst entry)) =
       (if isNote entry \<and> vf_stamp (snd entry) \<noteq> None then vf_stamp (snd entry)
        else ti_fileStamps t0 (inDir taskDirName (fst entry)))" for p
    using W[of p] by blast+
  have bp: "ti_byPath (fold f es t0) = byPathOf t0 es"
    using walk(3) byPathOf_None by (auto simp: assms(6) fun_eq_iff)
  have "ti_fileStamps (fold f es t0) (inDir taskDirName name) = vf_stamp vf"
    if "(name, vf) \<in> set es" "ti_byPath (fold f es t0) (inDir taskDirName name) \<noteq> None" for name vf
  proof -
    have "map_of es name = Some vf" using that(1) dist by simp
    then have "isNote (name, vf)"
      using that(2) entryCandidate_note[of t0 "(name, vf)"] by (simp add: bp byPathOf_at)
    then show ?thesis using walk(4) that(1) assms(7) by fastforce
  qed
  moreover have "byPathOf t0 es = byPathOf (freshIndex R v) es" using assms(3) sameSubjects_byPathOf by metis
  ultimately show "showsVault R v (fold f es t0)"
    using walk(1,2) bp assms(2-4) by (auto simp: showsVault_def keepsRest_def sameSubjects_def)
  show "keepsRest t0 (fold f es t0)" by (rule walk(2))
qed

lemma build_shows:
  assumes "wellListed v" and "ctxErr R = None"
  shows "snd (build R v)" "showsVault R v (fst (build R v))" "ti_baseSeq (fst (build R v)) = 0"
proof -
  have eq: "build R v = (fold (addFile True) (vd_files (va_tasks v)) (freshIndex R v), True)"
    using assms by (simp add: build_def readTasks_def wellListed_def listDir_def)
  have "sameSubjects (freshIndex R v) (freshIndex R v)" by (simp add: sameSubjects_def)
  note W = walk_shows[OF assms(1) refl this refl freshIndex_empty(1-3) addFile_adds]
  show "snd (build R v)" by (simp add: eq)
  show "showsVault R v (fst (build R v))" using W(1) by (simp add: eq)
  show "ti_baseSeq (fst (build R v)) = 0" using W(2) by (simp add: eq keepsRest_def freshIndex_empty)
qed

text \<open>What an index shows depends on its maps alone.\<close>

lemma showsVault_cong:
  assumes "showsVault R v t" and "ti_byPath u = ti_byPath t" "ti_bySession u = ti_bySession t"
    "ti_bySessionPaths u = ti_bySessionPaths t" "ti_fileStamps u = ti_fileStamps t" "ti_goals u = ti_goals t"
    "ti_goalTopics u = ti_goalTopics t" "ti_topics u = ti_topics t"
  shows "showsVault R v u"
  using assms(1) unfolding showsVault_def indexInv_def sameSubjects_def assms(2-8) .

lemma install_shows:
  assumes "showsVault R v fresh" and "ti_baseSeq fresh = ti_appliedSeq t"
  shows "snd (install now fresh t)" "showsVault R v (fst (install now fresh t))"
  using assms showsVault_cong[OF assms(1), of "fst (install now fresh t)"] by (simp_all add: install_def)

lemma NewTaskIndex_shows: "wellListed v \<Longrightarrow> ctxErr R = None \<Longrightarrow> showsVault R v (NewTaskIndex R now v)"
  unfolding NewTaskIndex_def
  by (rule install_shows(2)) (simp_all add: build_shows emptyIndex_def)

text \<open>The same, note by note.\<close>

definition showsNote :: "taskIndex \<Rightarrow> (string \<times> vaultFile) list \<Rightarrow> taskIndex \<Rightarrow> string \<Rightarrow> bool" where
  "showsNote t0 es t name \<longleftrightarrow>
     ti_byPath t (inDir taskDirName name) = byPathOf t0 es (inDir taskDirName name) \<and>
     (\<forall>vf. map_of es name = Some vf \<longrightarrow> ti_byPath t (inDir taskDirName name) \<noteq> None \<longrightarrow>
        ti_fileStamps t (inDir taskDirName name) = vf_stamp vf)"

lemma showsVault_notes:
  assumes "wellListed v"
  shows "showsVault R v t \<longleftrightarrow>
     indexInv t \<and> sameSubjects (freshIndex R v) t \<and> ti_topics t = ti_topics (freshIndex R v) \<and>
     (\<forall>p. p \<notin> range (inDir taskDirName) \<longrightarrow> ti_byPath t p = None) \<and>
     (\<forall>name. showsNote (freshIndex R v) (vd_files (va_tasks v)) t name)"
proof -
  let ?es = "vd_files (va_tasks v)"
  have dist: "distinct (map fst ?es)" using assms by (simp add: wellListed_def)
  have outside: "byPathOf (freshIndex R v) ?es p = None" if "p \<notin> range (inDir taskDirName)" for p
    by (rule byPathOf_None) (use that in auto)
  have "ti_byPath t = byPathOf (freshIndex R v) ?es \<longleftrightarrow>
      (\<forall>p. p \<notin> range (inDir taskDirName) \<longrightarrow> ti_byPath t p = None) \<and>
      (\<forall>name. ti_byPath t (inDir taskDirName name) = byPathOf (freshIndex R v) ?es (inDir taskDirName name))"
    (is "?eq \<longleftrightarrow> ?out \<and> ?in")
  proof
    assume ?eq
    then show "?out \<and> ?in" using outside by simp
  next
    assume rhs: "?out \<and> ?in"
    show ?eq
    proof
      fix p
      show "ti_byPath t p = byPathOf (freshIndex R v) ?es p"
      proof (cases "p \<in> range (inDir taskDirName)")
        case True
        then show ?thesis using rhs by blast
      next
        case False
        then show ?thesis using rhs outside by simp
      qed
    qed
  qed
  moreover have "(\<forall>(name, vf) \<in> set ?es.
        ti_byPath t (inDir taskDirName name) \<noteq> None \<longrightarrow> ti_fileStamps t (inDir taskDirName name) = vf_stamp vf) \<longleftrightarrow>
      (\<forall>name vf. map_of ?es name = Some vf \<longrightarrow> ti_byPath t (inDir taskDirName name) \<noteq> None \<longrightarrow>
        ti_fileStamps t (inDir taskDirName name) = vf_stamp vf)"
    unfolding map_of_eq_Some_iff[OF dist] by blast
  ultimately show ?thesis unfolding showsVault_def showsNote_def by blast
qed

end
