(* ===== verification/TaskSync.thy ===== *)
theory TaskSync
  imports TaskLaws
begin

text \<open>
  The index while the vault changes: the update from changed paths and the reconcile both show the vault
  as it is afterwards. A run of the index is a sequence of builds, updates, reconciles and
  lookups, with the changes of the vault between them.
\<close>

section \<open>The update from changed paths\<close>

lemma taskFileName_note: "taskFileName path = Some name \<Longrightarrow> HasSuffix name ''.md''"
  by (auto simp: taskFileName_def Let_def split: if_splits)

lemma applyPending_at:
  assumes "indexInv t" and "keepsRest t0 t" and "HasSuffix name ''.md''" and "wellListed v"
  defines "u \<equiv> applyPending (inDir taskDirName name, readPending v name) t"
  shows "indexInv u \<and> keepsRest t0 u \<and> showsNote t0 (vd_files (va_tasks v)) u name \<and>
    (\<forall>p. p \<noteq> inDir taskDirName name \<longrightarrow> ti_byPath u p = ti_byPath t p \<and> ti_fileStamps u p = ti_fileStamps t p)"
proof -
  let ?path = "inDir taskDirName name" and ?es = "vd_files (va_tasks v)"
  define t' where "t' = forgetPath ?path t"
  note F = forgetPath_at[OF assms(1), of ?path, folded t'_def]
  show ?thesis
  proof (cases "readPending v name")
    case None
    have u: "u = t'" by (simp add: u_def applyPending_def None t'_def)
    have "entryCandidate t0 (name, vf) = None" if "map_of ?es name = Some vf" for vf
      using None that by (auto simp: readPending_def noteAt_def entryCandidate_def isNote_def split: option.splits)
    then have "byPathOf t0 ?es ?path = None" by (simp add: byPathOf_at split: bind_split)
    then show ?thesis
      using F keepsRest_trans[OF assms(2) F(2)] by (simp add: u showsNote_def)
  next
    case (Some change)
    then obtain vf content where vf: "map_of ?es name = Some vf" "vf_content vf = Some content" "\<not> vf_isDir vf"
      and change: "change = (name, content, vf_stamp vf)"
      by (auto simp: readPending_def noteAt_def split: option.splits if_splits)
    define w where "w = (case vf_stamp vf of None \<Rightarrow> t' | Some st \<Rightarrow> t'\<lparr>ti_fileStamps := (ti_fileStamps t')(?path \<mapsto> st)\<rparr>)"
    have u: "u = indexContent ?path name content w"
      unfolding u_def applyPending_def Some change w_def t'_def Let_def by simp
    have w: "indexInv w" "keepsRest t0 w" "ti_byPath w = (ti_byPath t)(?path := None)"
      "ti_fileStamps w = (ti_fileStamps t)(?path := vf_stamp vf)" "noteCandidate w = noteCandidate t'"
      using F stamps_update keepsRest_trans[OF keepsRest_trans[OF assms(2) F(2)]]
      by (auto simp: w_def keepsRest_trans[OF assms(2)] fun_upd_idem_iff split: option.split)
    note I = indexContent_at[OF w(1), of ?path name content, folded u]
    have "noteCandidate w ?path name content = entryCandidate t0 (name, vf)"
      using w(2) vf assms(3) sameSubjects_entry[of t0 w]
      by (simp add: noteCandidate_def entryCandidate_def isNote_def keepsRest_def Let_def)
    then show ?thesis
      using I w keepsRest_trans[OF w(2) I(2)] vf(1) by (simp add: showsNote_def byPathOf_at)
  qed
qed

lemma apply_fold:
  assumes "indexInv t" and "keepsRest t0 t" and "\<forall>name \<in> set names. HasSuffix name ''.md''" and "wellListed v"
  defines "u \<equiv> fold applyPending (map (\<lambda>name. (inDir taskDirName name, readPending v name)) names) t"
  shows "indexInv u \<and> keepsRest t0 u \<and>
    (\<forall>name \<in> set names. showsNote t0 (vd_files (va_tasks v)) u name) \<and>
    (\<forall>p. p \<notin> inDir taskDirName ` set names \<longrightarrow> ti_byPath u p = ti_byPath t p \<and> ti_fileStamps u p = ti_fileStamps t p)"
  using assms(1-3) unfolding u_def
proof (induction names arbitrary: t)
  case (Cons name names)
  let ?t = "applyPending (inDir taskDirName name, readPending v name) t"
  let ?u = "fold applyPending (map (\<lambda>name. (inDir taskDirName name, readPending v name)) names) ?t"
  have suf: "HasSuffix name ''.md''" using Cons.prems(3) by simp
  note A = applyPending_at[OF Cons.prems(1,2) suf assms(4)]
  have IH: "indexInv ?u \<and> keepsRest t0 ?u \<and>
    (\<forall>name \<in> set names. showsNote t0 (vd_files (va_tasks v)) ?u name) \<and>
    (\<forall>p. p \<notin> inDir taskDirName ` set names \<longrightarrow> ti_byPath ?u p = ti_byPath ?t p \<and> ti_fileStamps ?u p = ti_fileStamps ?t p)"
    using Cons.IH[of ?t] A Cons.prems(3) by simp
  have "showsNote t0 (vd_files (va_tasks v)) ?u name"
  proof (cases "name \<in> set names")
    case False
    then have "inDir taskDirName name \<notin> inDir taskDirName ` set names" by auto
    then show ?thesis using A IH by (simp add: showsNote_def)
  qed (use IH in blast)
  then show ?case using A IH by auto
qed simp

text \<open>The change of a vault that an update is told about: the goals and topics stay, and every task note that
  differs is among the reported paths.\<close>

definition reports :: "string list \<Rightarrow> vault \<Rightarrow> vault \<Rightarrow> bool" where
  "reports paths v v' \<longleftrightarrow>
     va_goals v' = va_goals v \<and> va_topics v' = va_topics v \<and>
     (\<forall>name. HasSuffix name ''.md'' \<longrightarrow> noteAt v' name \<noteq> noteAt v name \<longrightarrow>
        name \<in> set (List.map_filter taskFileName paths))"

lemma same_subjects: "va_goals v' = va_goals v \<Longrightarrow> va_topics v' = va_topics v \<Longrightarrow> freshIndex R v' = freshIndex R v"
  unfolding freshIndex_def readGoalTopics_def readGoalTitles_def by (simp only:)

lemma map_filter_note: "name \<in> set (List.map_filter taskFileName paths) \<Longrightarrow> HasSuffix name ''.md''"
  using taskFileName_note by (auto simp: List.map_filter_def)

lemma entryCandidate_not_note: "\<not> HasSuffix name ''.md'' \<Longrightarrow> entryCandidate t0 (name, vf) = None"
  by (simp add: entryCandidate_def isNote_def)

lemma byPathOf_noteAt:
  "byPathOf t0 (vd_files (va_tasks v)) (inDir taskDirName name) =
     (case noteAt v name of None \<Rightarrow> None | Some vf \<Rightarrow> entryCandidate t0 (name, vf))"
  by (simp add: byPathOf_at noteAt_def split: option.split)

lemma showsNote_unreported:
  assumes "noteAt v' name = noteAt v name \<or> \<not> HasSuffix name ''.md''"
    and "showsNote t0 (vd_files (va_tasks v)) t name"
    and "ti_byPath u (inDir taskDirName name) = ti_byPath t (inDir taskDirName name)"
    and "ti_fileStamps u (inDir taskDirName name) = ti_fileStamps t (inDir taskDirName name)"
  shows "showsNote t0 (vd_files (va_tasks v')) u name"
proof (cases "HasSuffix name ''.md''")
  case True
  then have "noteAt v' name = noteAt v name" using assms(1) by simp
  then have "map_of (vd_files (va_tasks v')) name = map_of (vd_files (va_tasks v)) name"
    "byPathOf t0 (vd_files (va_tasks v')) (inDir taskDirName name) = byPathOf t0 (vd_files (va_tasks v)) (inDir taskDirName name)"
    unfolding byPathOf_noteAt by (simp_all only: noteAt_def)
  then show ?thesis using assms(2) unfolding showsNote_def assms(3,4) by simp
next
  case False
  then show ?thesis
    using assms(2,3) entryCandidate_not_note by (simp add: showsNote_def byPathOf_noteAt split: option.splits)
qed

lemma ApplyPaths_shows:
  assumes "showsVault R v t" and "wellListed v" and "wellListed v'" and "reports paths v v'" and "ctxErr R = None"
  shows "showsVault R v' (ApplyPaths R now v' paths t)"
proof -
  let ?names = "List.map_filter taskFileName paths"
  let ?t0 = "freshIndex R v"
  define u where "u = fold applyPending (map (\<lambda>name. (inDir taskDirName name, readPending v' name)) ?names) t"
  have fresh: "freshIndex R v' = ?t0" using assms(4) same_subjects unfolding reports_def by blast
  note S = assms(1)[unfolded showsVault_notes[OF assms(2)]]
  have suf: "\<forall>name \<in> set ?names. HasSuffix name ''.md''" using map_filter_note by blast
  have U: "indexInv u \<and> keepsRest t u \<and> (\<forall>name \<in> set ?names. showsNote t (vd_files (va_tasks v')) u name) \<and>
    (\<forall>p. p \<notin> inDir taskDirName ` set ?names \<longrightarrow> ti_byPath u p = ti_byPath t p \<and> ti_fileStamps u p = ti_fileStamps t p)"
    unfolding u_def using apply_fold[OF _ keepsRest_refl suf assms(3)] S by blast
  have by0: "byPathOf t es = byPathOf ?t0 es" for es using S sameSubjects_byPathOf by metis
  have rest: "sameSubjects ?t0 u" "ti_topics u = ti_topics ?t0"
    using U S by (simp_all add: keepsRest_def sameSubjects_def)
  have outside: "ti_byPath u p = None" if "p \<notin> range (inDir taskDirName)" for p
  proof -
    have "p \<notin> inDir taskDirName ` set ?names" using that by blast
    then show ?thesis using U S that by simp
  qed
  have note_in: "showsNote ?t0 (vd_files (va_tasks v')) u name" for name
  proof (cases "name \<in> set ?names")
    case True
    then show ?thesis using U by (simp add: showsNote_def by0)
  next
    case False
    then have same: "noteAt v' name = noteAt v name \<or> \<not> HasSuffix name ''.md''"
      using assms(4) unfolding reports_def by blast
    have "inDir taskDirName name \<notin> inDir taskDirName ` set ?names" using False by (simp only: image_iff inDir_inj) blast
    then show ?thesis using U S by (intro showsNote_unreported[OF same]) simp_all
  qed
  have shown: "showsVault R v' u"
    using U rest outside note_in unfolding showsVault_notes[OF assms(3)] fresh by blast
  show ?thesis
  proof (cases "paths = []")
    case True
    then show ?thesis using shown by (simp add: ApplyPaths_def u_def List.map_filter_def)
  next
    case False
    then have "ApplyPaths R now v' paths t = u\<lparr>ti_appliedSeq := ti_appliedSeq u + 1, ti_builtAt := now\<rparr>"
      using assms(3,5) by (simp add: ApplyPaths_def wellListed_def u_def Let_def)
    then show ?thesis using showsVault_cong[OF shown] by simp
  qed
qed

section \<open>The reconcile\<close>

lemma reresolve_note:
  "reresolve t (noteEntry u path name content) = noteEntry t path name content"
  by (simp add: reresolve_def noteEntry_def Let_def split: prod.split)

text \<open>Stamps are honest between two states of the vault when a task note whose stamp the reconcile would take
  for unchanged has unchanged contents. A note that could not be inspected counts as stamped with zeros.\<close>

definition zeroStamp :: fileStamp where
  "zeroStamp = \<lparr>stamp_size = 0, stamp_modTimeNano = 0\<rparr>"

definition honestStamps :: "vault \<Rightarrow> vault \<Rightarrow> bool" where
  "honestStamps v v' \<longleftrightarrow>
     (\<forall>name vf vf'. HasSuffix name ''.md'' \<longrightarrow> noteAt v name = Some vf \<longrightarrow> noteAt v' name = Some vf' \<longrightarrow>
        vf_stamp vf' = Some (case vf_stamp vf of None \<Rightarrow> zeroStamp | Some stamp \<Rightarrow> stamp) \<longrightarrow>
        vf_content vf' = vf_content vf)"

lemma honestD:
  "honestStamps v v' \<Longrightarrow> HasSuffix name ''.md'' \<Longrightarrow> noteAt v name = Some vf \<Longrightarrow> noteAt v' name = Some vf' \<Longrightarrow>
   vf_stamp vf' = Some (case vf_stamp vf of None \<Rightarrow> zeroStamp | Some stamp \<Rightarrow> stamp) \<Longrightarrow> vf_content vf' = vf_content vf"
  unfolding honestStamps_def by blast

lemma addsEntry_restamped:
  assumes "addsEntry (name, vf) (t\<lparr>ti_fileStamps := (ti_fileStamps t)(inDir taskDirName name \<mapsto> stamp)\<rparr>) u"
    and "vf_stamp vf = Some stamp" and "isNote (name, vf)"
  shows "addsEntry (name, vf) t u"
proof -
  have "entryCandidate (t\<lparr>ti_fileStamps := s\<rparr>) = entryCandidate t" for s
    by (simp add: entryCandidate_def stamps_update fun_eq_iff split: option.split)
  moreover have "keepsRest t (t\<lparr>ti_fileStamps := s\<rparr>)" for s by (rule stamps_update)
  ultimately show ?thesis
    using assms keepsRest_trans by (fastforce simp: addsEntry_def Let_def)
qed

lemma reconcileEntry_adds:
  assumes "showsVault R v old" and "wellListed v" and "wellListed v'" and "honestStamps v v'"
    and "entry \<in> set (vd_files (va_tasks v'))"
    and "indexInv t" and "ti_byPath t (inDir taskDirName (fst entry)) = None"
  shows "addsEntry entry t (reconcileEntry old entry t)"
proof -
  obtain name vf where entry: "entry = (name, vf)" by (cases entry)
  let ?path = "inDir taskDirName name"
  show ?thesis
  proof (cases "isNote entry")
    case False
    then have "entryCandidate t entry = None" by (simp add: entryCandidate_def)
    then show ?thesis
      using False assms(6,7) by (simp add: reconcileEntry_def addsEntry_def Let_def fun_upd_idem)
  next
    case True
    show ?thesis
    proof (cases "vf_stamp vf")
      case None
      then show ?thesis
        using addFile_adds[OF assms(6,7)] True by (simp add: reconcileEntry_def entry Let_def)
    next
      case (Some stamp)
      define u where "u = t\<lparr>ti_fileStamps := (ti_fileStamps t)(?path \<mapsto> stamp)\<rparr>"
      have u: "indexInv u" "keepsRest t u" "ti_byPath u = ti_byPath t"
        using assms(6) by (simp_all add: u_def stamps_update)
      have free: "ti_byPath u (inDir taskDirName (fst entry)) = None" using assms(7) by (simp add: u(3))
      have read: "addsEntry entry t (addFile True entry u)"
        using addsEntry_restamped[of name vf t stamp] addFile_adds[OF u(1) free] Some True by (simp add: entry u_def)
      have taken: "addsEntry entry t (addCandidate ?path sid (reresolve u e) u)"
        if old: "ti_byPath old ?path = Some (sid, e)" and same: "stampFor old ?path = stamp" for sid e
      proof -
        have note_at: "showsNote (freshIndex R v) (vd_files (va_tasks v)) old name"
          using assms(1) showsVault_notes[OF assms(2)] by blast
        then obtain vf0 where vf0: "noteAt v name = Some vf0" "entryCandidate (freshIndex R v) (name, vf0) = Some (sid, e)"
          using old by (auto simp: showsNote_def byPathOf_noteAt split: option.splits)
        have "ti_fileStamps old ?path = vf_stamp vf0"
          using note_at old vf0(1) by (simp add: showsNote_def noteAt_def)
        then have "vf_stamp vf = Some (case vf_stamp vf0 of None \<Rightarrow> zeroStamp | Some stamp \<Rightarrow> stamp)"
          using same Some unfolding stampFor_def zeroStamp_def by simp
        moreover have "noteAt v' name = Some vf"
          using assms(3,5) by (simp add: wellListed_def noteAt_def entry)
        ultimately have content: "vf_content vf = vf_content vf0"
          using honestD[OF assms(4) _ vf0(1)] True by (simp add: entry isNote_def)
        obtain c where c: "vf_content vf0 = Some c" "frontmatterValue c taskSessionKey = sid" "sid \<noteq> []"
          "e = noteEntry (freshIndex R v) ?path name c"
          using vf0(2) by (auto simp: entryCandidate_def noteCandidate_def Let_def split: if_splits option.splits)
        have "entryCandidate u entry = Some (sid, reresolve u e)"
          using True c content by (simp add: entry entryCandidate_def noteCandidate_def reresolve_note)
        then have "addsEntry entry u (addCandidate ?path sid (reresolve u e) u)"
          using addCandidate_at[OF u(1), of ?path sid "reresolve u e"] free Some
          by (simp add: addsEntry_def entry u_def fun_upd_idem)
        then show ?thesis using addsEntry_restamped[of name vf t stamp] Some True by (simp add: entry u_def)
      qed
      show ?thesis
        using True Some read taken
        by (cases "ti_byPath old ?path")
           (auto simp: reconcileEntry_def entry Let_def u_def[symmetric] split: if_splits)
    qed
  qed
qed

lemma reconcile_shows:
  assumes "showsVault R v old" and "wellListed v" and "wellListed v'" and "honestStamps v v'" and "ctxErr R = None"
  shows "snd (index_reconcile R v' old)" "showsVault R v' (fst (index_reconcile R v' old))"
    "ti_baseSeq (fst (index_reconcile R v' old)) = ti_appliedSeq old"
proof -
  define es where "es = vd_files (va_tasks v')"
  define u where "u = (freshIndex R v')\<lparr>ti_baseSeq := ti_appliedSeq old\<rparr>"
  have "listDir (va_tasks v') = Some es" "vd_opens (va_tasks v')" using assms(3) by (simp_all add: wellListed_def listDir_def es_def)
  then have eq: "index_reconcile R v' old = (fold (reconcileEntry old) es u, True)"
    using assms(5) unfolding index_reconcile_def reconcileWalk_def Let_def u_def by simp
  have inv: "sameSubjects (freshIndex R v') u" "ti_topics u = ti_topics (freshIndex R v')"
    "indexInv u" "ti_byPath u = Map.empty" "ti_fileStamps u = Map.empty"
    using freshIndex_empty[of R v'] by (simp_all add: u_def indexInv_def sameSubjects_def)
  have "addsEntry entry t (reconcileEntry old entry t)"
    if "entry \<in> set es" "indexInv t" "keepsRest u t" "ti_byPath t (inDir taskDirName (fst entry)) = None" for entry t
    by (rule reconcileEntry_adds[OF assms(1-4) that(1,2,4)[unfolded es_def]])
  note W = walk_shows[OF assms(3) es_def inv this]
  show "snd (index_reconcile R v' old)" by (simp only: eq snd_conv)
  show "showsVault R v' (fst (index_reconcile R v' old))" unfolding eq fst_conv by (rule W(1))
  have "ti_baseSeq (fst (index_reconcile R v' old)) = ti_baseSeq u" unfolding eq fst_conv by (rule keepsRest_baseSeq[OF W(2)])
  then show "ti_baseSeq (fst (index_reconcile R v' old)) = ti_appliedSeq old" unfolding u_def by simp
qed

section \<open>A run of the index\<close>

text \<open>The calls of the index and the changes of the vault they see: an update is told of the changed notes; a
  lookup or a reconcile finds the vault changed in any way whose stamps are honest.\<close>

inductive taskRun :: "runtime \<Rightarrow> vault \<Rightarrow> taskIndex \<Rightarrow> bool" for R where
  start: "wellListed v \<Longrightarrow> taskRun R v (NewTaskIndex R now v)"
| updated: "taskRun R v t \<Longrightarrow> wellListed v' \<Longrightarrow> reports paths v v' \<Longrightarrow> taskRun R v' (ApplyPaths R now v' paths t)"
| reconciled: "taskRun R v t \<Longrightarrow> wellListed v' \<Longrightarrow> honestStamps v v' \<Longrightarrow> taskRun R v' (index_Reconcile R now v' t)"
| looked_up: "taskRun R v t \<Longrightarrow> taskRun R v (fst (index_Lookup R now v sid t))"
| listed: "taskRun R v t \<Longrightarrow> taskRun R v (fst (index_SubjectTitles R now v t))"

lemma honest_same: "honestStamps v v"
  by (simp add: honestStamps_def)

lemma reconcileAndInstall_shows:
  assumes "showsVault R v t" and "wellListed v" and "wellListed v'" and "honestStamps v v'" and "ctxErr R = None"
  shows "showsVault R v' (reconcileAndInstall R now v' t)" "\<not> ti_refreshing (reconcileAndInstall R now v' t)"
proof -
  note RS = reconcile_shows[OF assms]
  note I = install_shows[OF RS(2,3), of now]
  have eq: "reconcileAndInstall R now v' t = (fst (install now (fst (index_reconcile R v' t)) t))\<lparr>ti_refreshing := False\<rparr>"
    using RS(1) assms(5) unfolding reconcileAndInstall_def installReconciled_def finishRefresh_def by simp
  show "showsVault R v' (reconcileAndInstall R now v' t)" "\<not> ti_refreshing (reconcileAndInstall R now v' t)"
    unfolding eq by (rule showsVault_cong[OF I(2)]; simp) simp
qed

lemma claimRefresh_shows:
  assumes "claimRefresh now b t = Some u"
  shows "showsVault R v u = showsVault R v t"
proof -
  have u: "u = t\<lparr>ti_refreshing := True, ti_refreshes := ti_refreshes t + 1\<rparr>"
    using assms by (simp add: claimRefresh_def split: if_splits)
  show ?thesis
    using showsVault_cong[of R v t u] showsVault_cong[of R v u t] by (auto simp: u)
qed

lemma lapsed_shows:
  assumes "showsVault R v t" and "wellListed v" and "ctxErr R = None" and "\<not> ti_refreshing t"
  shows "showsVault R v (reconcileIfBackstopLapsed R now v t)" "\<not> ti_refreshing (reconcileIfBackstopLapsed R now v t)"
  using reconcileAndInstall_shows[OF _ assms(2,2) honest_same assms(3)] claimRefresh_shows[of now True t] assms(1,4)
  by (auto simp: reconcileIfBackstopLapsed_def split: option.split)

lemma applyPending_refreshing: "ti_refreshing (applyPending pending t) = ti_refreshing t"
proof -
  have re: "ti_refreshing (recomputeSession sid u) = ti_refreshing u" for sid u
    by (simp add: recomputeSession_def Let_def)
  have "ti_refreshing (forgetPath path u) = ti_refreshing u" for path u
    by (simp add: forgetPath_def re Let_def split: option.split)
  moreover have "ti_refreshing (indexContent path name content u) = ti_refreshing u" for path name content u
    by (simp add: indexContent_def addCandidate_def re Let_def)
  ultimately show ?thesis
    by (simp add: applyPending_def Let_def split: prod.split option.split)
qed

lemma ApplyPaths_refreshing: "ti_refreshing (ApplyPaths R now v paths t) = ti_refreshing t"
proof -
  have "ti_refreshing (fold applyPending changes u) = ti_refreshing u" for changes u
    by (induction changes arbitrary: u) (simp_all add: applyPending_refreshing)
  then show ?thesis by (simp add: ApplyPaths_def Let_def)
qed

lemma taskRun_shows:
  assumes "taskRun R v t" and "ctxErr R = None"
  shows "wellListed v \<and> showsVault R v t \<and> \<not> ti_refreshing t"
  using assms(1)
proof (induction rule: taskRun.induct)
  case (start v now)
  then show ?case using NewTaskIndex_shows assms(2) by (simp add: NewTaskIndex_def install_def emptyIndex_def)
next
  case (updated v t v' paths now)
  then show ?case using ApplyPaths_shows assms(2) ApplyPaths_refreshing by blast
next
  case (reconciled v t v' now)
  then have "va_set v'" by (simp add: wellListed_def)
  then show ?case
    using reconciled reconcileAndInstall_shows[OF _ _ reconciled(2,3) assms(2)] claimRefresh_shows[of now False t]
    by (auto simp: index_Reconcile_def claimRefresh_def)
next
  case (looked_up v t now sid)
  then show ?case using lapsed_shows assms(2) by (simp add: index_Lookup_def Let_def)
next
  case (listed v t now)
  then show ?case using lapsed_shows assms(2) by (simp add: index_SubjectTitles_def Let_def)
qed

end
