(* ===== verification/TaskProperties.thy ===== *)
theory TaskProperties
  imports TaskSync Demo
begin

text \<open>
  The properties of the task index, and a small vault for their witnesses: a goal, a topic that lists it
  and notes of two sessions.
\<close>

section \<open>A vault\<close>

definition demo_note :: "string \<Rightarrow> string \<Rightarrow> int \<Rightarrow> vaultFile" where
  "demo_note sid status n = \<lparr>vf_isDir = False,
     vf_content = Some (''---'' @ newline # ''claude_session_id: '' @ sid @ newline # ''status: '' @ status @
        newline # ''goals: [G]'' @ newline # ''---'' @ [newline]),
     vf_stamp = Some \<lparr>stamp_size = 50, stamp_modTimeNano = n\<rparr>\<rparr>"

definition demo_dir :: "(string \<times> vaultFile) list \<Rightarrow> vaultDir" where
  "demo_dir es = \<lparr>vd_files = es, vd_lists = True, vd_opens = True\<rparr>"

definition demo_vault :: "(string \<times> vaultFile) list \<Rightarrow> vault" where
  "demo_vault es = \<lparr>va_set = True, va_tasks = demo_dir es,
     va_goals = demo_dir [(''G.md'', demo_note [] [] 1)], va_topics = demo_dir []\<rparr>"

definition demo_v0 :: vault where
  "demo_v0 = demo_vault [(''A.md'', demo_note ''s1'' ''done'' 1), (''B.md'', demo_note ''s1'' ''next'' 2)]"

definition demo_v1 :: vault where
  "demo_v1 = demo_vault [(''A.md'', demo_note ''s1'' ''done'' 1), (''B.md'', demo_note ''s1'' ''next'' 2),
     (''C.md'', demo_note ''s2'' ''next'' 3)]"

lemma demo_wellListed: "wellListed demo_v0" "wellListed demo_v1"
  by (simp_all add: wellListed_def demo_v0_def demo_v1_def demo_vault_def demo_dir_def demo_note_def)

section \<open>The task of a session\<close>

definition declares :: "vault \<Rightarrow> string \<Rightarrow> string \<Rightarrow> string \<Rightarrow> bool" where
  "declares v sid name content \<longleftrightarrow>
     (\<exists>vf. noteAt v name = Some vf \<and> isNote (name, vf) \<and> vf_content vf = Some content) \<and>
     frontmatterValue content taskSessionKey = sid \<and> sid \<noteq> []"

definition noteTerminal :: "string \<Rightarrow> bool" where
  "noteTerminal content = isTerminalTaskStatus (frontmatterValue content taskStatusKey)"

lemma noteEntry_terminal: "te_terminal (noteEntry t path name content) = noteTerminal content"
  by (simp add: noteEntry_def noteTerminal_def Let_def split: prod.split)

lemma sorted_last: "sorted ps \<Longrightarrow> q \<in> set ps \<Longrightarrow> q \<le> last ps"
  by (induction ps) auto

lemma inDir_le [simp]: "inDir d a \<le> inDir d b \<longleftrightarrow> a \<le> (b :: string)"
  by (induction d) (simp_all add: inDir_def)

lemma last_live:
  assumes "sorted ps" and "ps \<noteq> []"
    and "e = (let live = filter (\<lambda>x. \<not> te_terminal x) (map f ps) in if live = [] then last (map f ps) else last live)"
  shows "\<exists>p \<in> set ps. e = f p \<and> (\<forall>q \<in> set ps. te_terminal (f q) \<and> \<not> te_terminal e \<or> te_terminal (f q) = te_terminal e \<and> q \<le> p)"
proof -
  let ?live = "filter (\<lambda>p. \<not> te_terminal (f p)) ps"
  have live: "filter (\<lambda>x. \<not> te_terminal x) (map f ps) = map f ?live" by (simp add: filter_map comp_def)
  show ?thesis
  proof (cases "?live = []")
    case True
    then have "\<forall>q \<in> set ps. te_terminal (f q)" by (simp add: filter_empty_conv)
    moreover have "e = f (last ps)" using assms(2,3) True unfolding live by (simp add: last_map)
    ultimately show ?thesis using assms(1,2) sorted_last by (intro bexI[of _ "last ps"]) auto
  next
    case False
    then have e: "e = f (last ?live)" using assms(3) unfolding live by (simp add: last_map)
    have "last ?live \<in> set ?live" using False by (rule last_in_set)
    then have "last ?live \<in> set ps" "\<not> te_terminal e" by (auto simp: e)
    moreover have "q \<le> last ?live" if "q \<in> set ps" "\<not> te_terminal (f q)" for q
      using sorted_last[of ?live q] assms(1) that by (simp add: sorted_wrt_filter)
    ultimately show ?thesis using e by (intro bexI[of _ "last ?live"]) auto
  qed
qed

lemma shown_paths:
  assumes "showsVault R v t"
  shows "ti_byPath t p = Some (sid, e) \<longleftrightarrow>
    (\<exists>name content. p = inDir taskDirName name \<and> declares v sid name content \<and> e = noteEntry (freshIndex R v) p name content)"
proof -
  let ?es = "vd_files (va_tasks v)"
  have bp: "ti_byPath t = byPathOf (freshIndex R v) ?es" using assms by (simp add: showsVault_def)
  have at: "byPathOf (freshIndex R v) ?es (inDir taskDirName name) = Some (sid, e) \<longleftrightarrow>
      (\<exists>content. declares v sid name content \<and> e = noteEntry (freshIndex R v) (inDir taskDirName name) name content)" for name
    by (auto simp: byPathOf_noteAt entryCandidate_def noteCandidate_def declares_def Let_def split: option.splits if_splits)
  show ?thesis
  proof (cases "p \<in> range (inDir taskDirName)")
    case True
    then obtain name where "p = inDir taskDirName name" by blast
    then show ?thesis using at by (simp add: bp)
  next
    case False
    then have "p \<notin> inDir taskDirName ` fst ` set ?es" by blast
    then show ?thesis using False byPathOf_None by (auto simp: bp)
  qed
qed

lemma shown_session:
  assumes "showsVault R v t"
  shows "case ti_bySession t sid of None \<Rightarrow> \<forall>name content. \<not> declares v sid name content
    | Some e \<Rightarrow> \<exists>name content. declares v sid name content \<and>
        e = noteEntry (freshIndex R v) (inDir taskDirName name) name content \<and>
        (\<forall>name' content'. declares v sid name' content' \<longrightarrow>
           noteTerminal content' \<and> \<not> noteTerminal content \<or> noteTerminal content' = noteTerminal content \<and> name' \<le> name)"
proof -
  have inv: "indexInv t" using assms by (simp add: showsVault_def)
  let ?ps = "sorted_list_of_set (pathsIn (ti_byPath t) sid)" and ?f = "\<lambda>p. snd (the (ti_byPath t p))"
  have fin: "finite (pathsIn (ti_byPath t) sid)" by (rule finite_pathsIn[OF indexInvD(1)[OF inv]])
  have sess: "ti_bySession t sid = winnerIn (ti_byPath t) sid" by (rule indexInvD(3)[OF inv])
  have cands: "candidatesIn (ti_byPath t) sid = map ?f ?ps" by (simp add: candidatesIn_def)
  show ?thesis
  proof (cases "?ps = []")
    case True
    then have "pathsIn (ti_byPath t) sid = {}" using fin by simp
    then have "\<not> declares v sid name content" for name content
      using shown_paths[OF assms] unfolding pathsIn_def by blast
    then show ?thesis using True cands by (simp add: sess winnerIn_def)
  next
    case False
    then obtain e where e: "winnerIn (ti_byPath t) sid = Some e"
      and last: "e = (let live = filter (\<lambda>x. \<not> te_terminal x) (map ?f ?ps) in if live = [] then last (map ?f ?ps) else last live)"
    proof -
      obtain x xs where xs: "map ?f ?ps = x # xs" using False by (cases "map ?f ?ps") auto
      then have "winnerIn (ti_byPath t) sid = Some (fold pickWinner xs x)" by (simp add: winnerIn_def cands)
      then show thesis using that fold_pickWinner[of xs x] unfolding xs by blast
    qed
    obtain p where p: "p \<in> set ?ps" "e = ?f p"
      "\<And>q. q \<in> set ?ps \<Longrightarrow> te_terminal (?f q) \<and> \<not> te_terminal e \<or> te_terminal (?f q) = te_terminal e \<and> q \<le> p"
      using last_live[OF sorted_sorted_list_of_set False last] by blast
    have at: "ti_byPath t p = Some (sid, e)" using p(1,2) fin by (auto simp: pathsIn_def)
    then obtain name content where nc: "p = inDir taskDirName name" "declares v sid name content"
      "e = noteEntry (freshIndex R v) p name content" using shown_paths[OF assms] by blast
    have "noteTerminal content' \<and> \<not> noteTerminal content \<or> noteTerminal content' = noteTerminal content \<and> name' \<le> name"
      if "declares v sid name' content'" for name' content'
    proof -
      have at': "ti_byPath t (inDir taskDirName name') =
          Some (sid, noteEntry (freshIndex R v) (inDir taskDirName name') name' content')"
        using shown_paths[OF assms] that by blast
      then have "inDir taskDirName name' \<in> set ?ps" using fin by (auto simp: pathsIn_def)
      from p(3)[OF this] show ?thesis by (simp add: at' nc(1,3) noteEntry_terminal)
    qed
    then show ?thesis using nc by (auto simp: sess e)
  qed
qed

section \<open>The properties\<close>

lemma lapsed_keeps:
  assumes "taskRun R v t" and "ctxErr R = None"
  shows "showsVault R v (reconcileIfBackstopLapsed R now v t)"
  using taskRun_shows[OF assms] lapsed_shows(1) assms(2) by blast

lemma shows_same:
  assumes "showsVault R v t" and "showsVault R v u"
  shows "ti_bySession t = ti_bySession u" "ti_goals t = ti_goals u" "ti_topics t = ti_topics u"
proof -
  have paths: "ti_byPath t = ti_byPath u" using assms by (simp add: showsVault_def)
  have "indexInv t" "indexInv u" using assms by (simp_all add: showsVault_def)
  then have "ti_bySession t sid = ti_bySession u sid" for sid by (simp add: indexInvD(3) paths)
  then show "ti_bySession t = ti_bySession u" by (rule ext)
  show "ti_goals t = ti_goals u" "ti_topics t = ti_topics u"
    using assms unfolding showsVault_def sameSubjects_def by simp_all
qed

text \<open>C38: the index kept up to date is the index built anew: whatever updates, reconciles and lookups came
  before, a lookup answers what a full build of the vault as it is now answers, and the subject titles are
  those of a full build; an update must be told every changed note, and a reconcile must find a changed note
  with a changed stamp.\<close>

theorem index_equals_rebuild:
  assumes "taskRun R v t" and "ctxErr R = None"
  shows "snd (index_Lookup R now v sid t) = map_option te_task (ti_bySession (fst (build R v)) sid) \<and>
    snd (index_SubjectTitles R now v t) =
      sorted_list_of_set (ti_goals (fst (build R v))) @ sorted_list_of_set (ti_topics (fst (build R v)))"
proof -
  have "wellListed v" using taskRun_shows[OF assms] by blast
  then have "showsVault R v (fst (build R v))" using build_shows(2) assms(2) by blast
  note same = shows_same[OF lapsed_keeps[OF assms] this]
  show ?thesis by (simp add: index_Lookup_def index_SubjectTitles_def Let_def same)
qed

lemma demo_run1: "taskRun std_runtime demo_v1 (ApplyPaths std_runtime 2 demo_v1 [''25 Tasks/C.md''] (NewTaskIndex std_runtime 1 demo_v0))"
proof (rule taskRun.updated[OF taskRun.start[OF demo_wellListed(1)] demo_wellListed(2)])
  have "List.map_filter taskFileName [''25 Tasks/C.md''] = [''C.md'']" by code_simp
  then show "reports [''25 Tasks/C.md''] demo_v0 demo_v1"
    by (simp add: reports_def demo_v0_def demo_v1_def demo_vault_def noteAt_def demo_dir_def)
qed

lemma index_equals_rebuild_witness:
  "snd (index_Lookup std_runtime 3 demo_v1 ''s2''
      (ApplyPaths std_runtime 2 demo_v1 [''25 Tasks/C.md''] (NewTaskIndex std_runtime 1 demo_v0))) =
    map_option te_task (ti_bySession (fst (build std_runtime demo_v1)) ''s2'')"
  using index_equals_rebuild[OF demo_run1] by simp

text \<open>C39: the task of a session: a lookup finds a task exactly when a note of the vault names the session.
  It is the task of the last such note in name order that is not in a terminal status, or of the last one
  when all are.\<close>

theorem session_task_is_last_live_note:
  assumes "taskRun R v t" and "ctxErr R = None"
  shows "case snd (index_Lookup R now v sid t) of
      None \<Rightarrow> \<forall>name content. \<not> declares v sid name content
    | Some task \<Rightarrow> \<exists>name content. declares v sid name content \<and>
        task = te_task (noteEntry (freshIndex R v) (inDir taskDirName name) name content) \<and>
        (\<forall>name' content'. declares v sid name' content' \<longrightarrow>
           noteTerminal content' \<and> \<not> noteTerminal content \<or> noteTerminal content' = noteTerminal content \<and> name' \<le> name)"
  using shown_session[OF lapsed_keeps[OF assms, of now], of sid]
  by (cases "ti_bySession (reconcileIfBackstopLapsed R now v t) sid") (auto simp: index_Lookup_def Let_def)

lemma demo_declares:
  "declares demo_v1 ''s2'' ''C.md'' (the (vf_content (demo_note ''s2'' ''next'' 3)))"
  "declares demo_v0 ''s1'' ''B.md'' (the (vf_content (demo_note ''s1'' ''next'' 2)))"
proof -
  have "frontmatterValue (the (vf_content (demo_note ''s2'' ''next'' 3))) taskSessionKey = ''s2''"
    "frontmatterValue (the (vf_content (demo_note ''s1'' ''next'' 2))) taskSessionKey = ''s1''"
    "isNote (''C.md'', demo_note ''s2'' ''next'' 3)" "isNote (''B.md'', demo_note ''s1'' ''next'' 2)" by code_simp+
  then show "declares demo_v1 ''s2'' ''C.md'' (the (vf_content (demo_note ''s2'' ''next'' 3)))"
    "declares demo_v0 ''s1'' ''B.md'' (the (vf_content (demo_note ''s1'' ''next'' 2)))"
    by (simp_all add: declares_def noteAt_def demo_v1_def demo_v0_def demo_vault_def demo_dir_def) (simp_all add: demo_note_def)
qed

lemma session_task_is_last_live_note_witness:
  "map_option task_Name (snd (index_Lookup std_runtime 3 demo_v0 ''s1'' (NewTaskIndex std_runtime 1 demo_v0))) = Some ''B''"
proof -
  have live: "\<not> noteTerminal (the (vf_content (demo_note ''s1'' ''next'' 2)))" by code_simp
  have names: "name \<in> {''A.md'', ''B.md''}" if "declares demo_v0 ''s1'' name content" for name content
    using that by (auto simp: declares_def noteAt_def demo_v0_def demo_vault_def demo_dir_def split: if_splits)
  have le: "\<not> ''B.md'' \<le> ''A.md''" by code_simp
  have B: "task_Name (te_task (noteEntry u p ''B.md'' content)) = ''B''" for u p content
  proof -
    have "noteTitle ''B.md'' = ''B''" by code_simp
    then show ?thesis by (simp add: noteEntry_def Let_def split: prod.split)
  qed
  have ok: "ctxErr std_runtime = None" by simp
  note W = session_task_is_last_live_note[OF taskRun.start[OF demo_wellListed(1), where now = 1] ok, where now = 3 and sid = "''s1''"]
  show ?thesis
  proof (cases "snd (index_Lookup std_runtime 3 demo_v0 ''s1'' (NewTaskIndex std_runtime 1 demo_v0))")
    case None
    then show ?thesis using W demo_declares(2) by simp
  next
    case (Some task)
    then obtain name content where w: "declares demo_v0 ''s1'' name content"
      "task = te_task (noteEntry (freshIndex std_runtime demo_v0) (inDir taskDirName name) name content)"
      "''B.md'' \<le> name"
      using W demo_declares(2) live by (simp only: option.case) blast
    then have "name = ''B.md''" using names[OF w(1)] le by auto
    then show ?thesis using w(2) B Some by simp
  qed
qed

text \<open>A reconcile drops a note it was told about: when a new note is applied after a reconcile has listed
  the directory and before it takes its snapshot, the sequence check passes, the install succeeds and starts a
  new window, and the session the note names, known before, is unknown.\<close>

theorem reconcile_drops_applied_note:
  assumes "taskRun R v t" and "ctxErr R = None" and "claimRefresh now False t = Some t1"
    and "wellListed v'" and "reports [path] v v'"
    and "taskFileName path = Some name" and "noteAt v name = None"
    and "declares v' sid name content" and "\<forall>name content. \<not> declares v sid name content"
  shows "let told = ApplyPaths R now1 v' [path] t1; after = reconcileAndInstall R now2 v told in
    ti_bySession told sid \<noteq> None \<and> ti_bySession after sid = None \<and> ti_builtAt after = now2"
proof -
  have run: "wellListed v" "showsVault R v t" using taskRun_shows[OF assms(1,2)] by simp_all
  have t1: "showsVault R v t1" using claimRefresh_shows[OF assms(3)] run(2) by simp
  define told where "told = ApplyPaths R now1 v' [path] t1"
  have told: "showsVault R v' told"
    unfolding told_def by (rule ApplyPaths_shows[OF t1 run(1) assms(4,5,2)])
  have "List.map_filter taskFileName [path] = [name]" using assms(6) by (simp add: List.map_filter_def)
  then have "noteAt v' n = noteAt v n \<or> n = name" if "HasSuffix n ''.md''" for n
    using assms(5) that unfolding reports_def by auto
  then have honest: "honestStamps v' v" using assms(7) unfolding honestStamps_def by fastforce
  have after: "showsVault R v (reconcileAndInstall R now2 v told)"
    by (rule reconcileAndInstall_shows(1)[OF told assms(4) run(1) honest assms(2)])
  note RS = reconcile_shows[OF told assms(4) run(1) honest assms(2)]
  have "ti_builtAt (reconcileAndInstall R now2 v told) = now2"
    using RS(1,3) assms(2)
    unfolding reconcileAndInstall_def installReconciled_def finishRefresh_def install_def by simp
  moreover have "ti_bySession told sid \<noteq> None"
    using shown_session[OF told, of sid] assms(8) by (auto split: option.splits)
  moreover have "ti_bySession (reconcileAndInstall R now2 v told) sid = None"
    using shown_session[OF after, of sid] assms(9) by (auto split: option.splits)
  ultimately show ?thesis unfolding Let_def told_def by blast
qed

lemma reconcile_drops_applied_note_witness:
  "\<exists>t1. claimRefresh 2 False (NewTaskIndex std_runtime 1 demo_v0) = Some t1 \<and>
    ti_bySession (reconcileAndInstall std_runtime 4 demo_v0
      (ApplyPaths std_runtime 3 demo_v1 [''25 Tasks/C.md''] t1)) ''s2'' = None"
proof -
  let ?t = "NewTaskIndex std_runtime 1 demo_v0"
  have run: "taskRun std_runtime demo_v0 ?t" by (rule taskRun.start[OF demo_wellListed(1)])
  have ok: "ctxErr std_runtime = None" by simp
  have "\<not> ti_refreshing ?t" using taskRun_shows[OF run ok] by blast
  then obtain t1 where t1: "claimRefresh 2 False ?t = Some t1" by (simp add: claimRefresh_def)
  have path: "taskFileName ''25 Tasks/C.md'' = Some ''C.md''" by code_simp
  then have rep: "reports [''25 Tasks/C.md''] demo_v0 demo_v1"
    by (simp add: List.map_filter_def reports_def demo_v0_def demo_v1_def demo_vault_def noteAt_def demo_dir_def)
  have new: "noteAt demo_v0 ''C.md'' = None" by (simp add: demo_v0_def demo_vault_def noteAt_def demo_dir_def)
  have "frontmatterValue (the (vf_content (demo_note ''s1'' ''done'' 1))) taskSessionKey = ''s1''"
    "frontmatterValue (the (vf_content (demo_note ''s1'' ''next'' 2))) taskSessionKey = ''s1''" by code_simp+
  then have "\<not> declares demo_v0 ''s2'' name content" for name content
    by (auto simp: declares_def noteAt_def demo_v0_def demo_vault_def demo_dir_def split: if_splits)
  then show ?thesis
    using reconcile_drops_applied_note[OF run ok t1 demo_wellListed(2) rep path new demo_declares(1), of 3 4] t1
    by (simp add: Let_def)
qed

end
