(* ===== verification/CardText.thy ===== *)
theory CardText
  imports TaskText "HOL-Library.While_Combinator"
begin

text \<open>
  The text of a card as HTML (\<open>pkg/handler/card-text.go\<close>): markdown links and bare URLs of the allowed
  schemes become anchors, everything else is escaped. The function is the escaping boundary of the board,
  so the laws say what a reader of the HTML finds: the authored anchors, and no other markup.
  The renderer's loop is kept as a loop.
\<close>

section \<open>Escaping\<close>

text \<open>\<open>html.EscapeString\<close>.\<close>

definition htmlEscapeChar :: "char \<Rightarrow> string" where
  "htmlEscapeChar c =
     (if c = CHR ''&'' then ''&amp;'' else if c = CHR 0x27 then ''&#39;'' else if c = CHR ''<'' then ''&lt;''
      else if c = CHR ''>'' then ''&gt;'' else if c = CHR 0x22 then ''&#34;'' else [c])"

definition EscapeString :: "string \<Rightarrow> string" where
  "EscapeString s = concat (map htmlEscapeChar s)"

text \<open>The width of the rune \<open>utf8.DecodeRuneInString\<close> decodes at the front: a byte that starts none counts
  one.\<close>

definition runeWidth :: "string \<Rightarrow> nat" where
  "runeWidth s = (if utf8Len s = 0 then 1 else utf8Len s)"

section \<open>Links\<close>

definition cardAnchorAttrs :: string where
  "cardAnchorAttrs = '' target='' @ [CHR 0x22] @ ''_blank'' @ [CHR 0x22] @ '' rel='' @ [CHR 0x22] @
     ''noopener noreferrer'' @ [CHR 0x22]"

definition cardLinkSchemes :: "string list" where
  "cardLinkSchemes = [''http'', ''https'', ''obsidian'']"

text \<open>\<open>strings.ToLower\<close> as far as a comparison with the schemes sees it: the ASCII capitals and the two
  other runes whose lower case is ASCII, the dotted capital I (bytes C4 B0) and the kelvin sign
  (bytes E2 84 AA). Every other rune stays outside ASCII.\<close>

fun lowerForScheme :: "string \<Rightarrow> string" where
  "lowerForScheme [] = []"
| "lowerForScheme (c # cs) =
     (case afterLiteral [CHR 0xC4, CHR 0xB0] (c # cs) of
        Some _ \<Rightarrow> CHR ''i'' # lowerForScheme (drop 1 cs)
      | None \<Rightarrow>
          (case afterLiteral [CHR 0xE2, CHR 0x84, CHR 0xAA] (c # cs) of
             Some _ \<Rightarrow> CHR ''k'' # lowerForScheme (drop 2 cs)
           | None \<Rightarrow> asciiLower c # lowerForScheme cs))"

text \<open>The run before the first colon, unless a slash, question mark or hash comes first.\<close>

definition cardScheme :: "string \<Rightarrow> string" where
  "cardScheme rawURL =
     (let run = takeWhile (\<lambda>c. c \<notin> {CHR '':'', CHR ''/'', CHR ''?'', CHR ''#''}) rawURL in
      if length run < length rawURL \<and> rawURL ! length run = CHR '':'' then lowerForScheme run else [])"

definition anchor :: "string \<Rightarrow> string \<Rightarrow> string" where
  "anchor url label =
     ''<a href='' @ [CHR 0x22] @ EscapeString url @ [CHR 0x22] @ cardAnchorAttrs @ ''>'' @
     EscapeString label @ ''</a>''"

text \<open>The pattern \<open>^\[([^\]]*)\]\(([^()\s]*)\)\<close>: the label, the url and the length of the match.\<close>

definition cardMarkdownLink :: "string \<Rightarrow> (string \<times> string \<times> nat) option" where
  "cardMarkdownLink s =
     (case afterLiteral ''['' s of
        None \<Rightarrow> None
      | Some r \<Rightarrow>
          (let label = takeWhile (\<lambda>c. c \<noteq> CHR '']'') r in
           case afterLiteral ''](''(drop (length label) r) of
             None \<Rightarrow> None
           | Some r \<Rightarrow>
               (let url = takeWhile (\<lambda>c. c \<noteq> CHR ''('' \<and> c \<noteq> CHR '')'' \<and> \<not> isRE2Space c) r in
                case afterLiteral '')'' (drop (length url) r) of
                  None \<Rightarrow> None
                | Some _ \<Rightarrow> Some (label, url, length label + length url + 4))))"

text \<open>The pattern of a bare URL, http or https and then a run without white space, angle brackets,
  quotes and parentheses: the length of the match.\<close>

definition bareURLChar :: "char \<Rightarrow> bool" where
  "bareURLChar c = (\<not> isRE2Space c \<and> c \<notin> {CHR ''<'', CHR ''>'', CHR 0x22, CHR 0x27, CHR ''('', CHR '')''})"

definition cardBareURL :: "string \<Rightarrow> nat option" where
  "cardBareURL s =
     (let p = (if hasPrefix s ''https://'' then Some (8::nat) else if hasPrefix s ''http://'' then Some 7 else None) in
      case p of
        None \<Rightarrow> None
      | Some n \<Rightarrow>
          (let run = takeWhile bareURLChar (drop n s) in if run = [] then None else Some (n + length run)))"

definition cardLinkAt :: "string \<Rightarrow> nat \<Rightarrow> (string \<times> nat) option" where
  "cardLinkAt txt i =
     (if txt ! i \<noteq> CHR ''['' then None
      else (case cardMarkdownLink (drop i txt) of
              None \<Rightarrow> None
            | Some (label, rawURL, n) \<Rightarrow>
                if cardScheme rawURL \<notin> set cardLinkSchemes then Some (EscapeString (take n (drop i txt)), n)
                else Some (anchor rawURL label, n)))"

definition cardBareURLAt :: "string \<Rightarrow> nat \<Rightarrow> (string \<times> nat) option" where
  "cardBareURLAt txt i =
     (if txt ! i \<noteq> CHR ''h'' then None
      else (case cardBareURL (drop i txt) of
              None \<Rightarrow> None
            | Some n \<Rightarrow>
                (let rawURL = take n (drop i txt) in
                 if 2 \<le> i \<and> take 2 (drop (i - 2) txt) = ''](''
                 then Some (EscapeString rawURL, n) else Some (anchor rawURL rawURL, n))))"

section \<open>The renderer\<close>

text \<open>The value a template hands over: nothing, a value of some string type, or another one.\<close>

datatype pageValue = NilValue | StringKind string | OtherKind

definition cardTextString :: "pageValue \<Rightarrow> string" where
  "cardTextString v = (case v of StringKind s \<Rightarrow> s | _ \<Rightarrow> [])"

definition cardStep :: "string \<Rightarrow> nat \<times> string \<Rightarrow> nat \<times> string" where
  "cardStep txt st =
     (case st of (i, out) \<Rightarrow>
       case cardLinkAt txt i of
         Some (markup, consumed) \<Rightarrow> (i + consumed, out @ markup)
       | None \<Rightarrow>
           (case cardBareURLAt txt i of
              Some (markup, consumed) \<Rightarrow> (i + consumed, out @ markup)
            | None \<Rightarrow>
                (let width = runeWidth (drop i txt)
                 in (i + width, out @ EscapeString (take width (drop i txt))))))"

definition renderCardText :: "pageValue \<Rightarrow> string option" where
  "renderCardText v =
     (let txt = cardTextString v
      in map_option snd (while_option (\<lambda>(i, out). i < length txt) (cardStep txt) (0, [])))"

end
