(* ===== verification/CardLaws.thy ===== *)
theory CardLaws
  imports CardText
begin

text \<open>
  The renderer of card text against its reading: the input as a list of nodes, the HTML as the nodes
  written out, and what a reader of the HTML finds.
\<close>

section \<open>Escaped text\<close>

lemma EscapeString_append [simp]: "EscapeString (a @ b) = EscapeString a @ EscapeString b"
  by (simp add: EscapeString_def)

lemma EscapeString_Nil [simp]: "EscapeString [] = []"
  by (simp add: EscapeString_def)

lemma EscapeString_Cons: "EscapeString (c # s) = htmlEscapeChar c @ EscapeString s"
  by (simp add: EscapeString_def)

text \<open>Escaped text holds no markup character.\<close>

lemma EscapeString_safe: "c \<in> set (EscapeString s) \<Longrightarrow> c \<notin> {CHR ''<'', CHR ''>'', CHR 0x22, CHR 0x27}"
  by (auto simp: EscapeString_def htmlEscapeChar_def split: if_splits)

text \<open>What a browser reads back: the five references, any other character as it is.\<close>

fun htmlUnescape :: "string \<Rightarrow> string" where
  "htmlUnescape [] = []"
| "htmlUnescape (c # cs) =
     (if hasPrefix (c # cs) ''&amp;'' then CHR ''&'' # htmlUnescape (drop 4 cs)
      else if hasPrefix (c # cs) ''&#39;'' then CHR 0x27 # htmlUnescape (drop 4 cs)
      else if hasPrefix (c # cs) ''&lt;'' then CHR ''<'' # htmlUnescape (drop 3 cs)
      else if hasPrefix (c # cs) ''&gt;'' then CHR ''>'' # htmlUnescape (drop 3 cs)
      else if hasPrefix (c # cs) ''&#34;'' then CHR 0x22 # htmlUnescape (drop 4 cs)
      else c # htmlUnescape cs)"

lemma unescape_char: "htmlUnescape (htmlEscapeChar c @ s) = c # htmlUnescape s"
  by (simp add: htmlEscapeChar_def hasPrefix_def)

lemma htmlUnescape_Escape: "htmlUnescape (EscapeString s) = s"
  by (induction s) (simp_all add: EscapeString_Cons unescape_char)

section \<open>Nodes\<close>

datatype cardNode = PlainText string | MarkdownLink string string | BareLink string

definition nodeSource :: "cardNode \<Rightarrow> string" where
  "nodeSource n = (case n of PlainText s \<Rightarrow> s
     | MarkdownLink label url \<Rightarrow> ''['' @ label @ '']('' @ url @ '')'' | BareLink url \<Rightarrow> url)"

definition nodeHTML :: "cardNode \<Rightarrow> string" where
  "nodeHTML n = (case n of PlainText s \<Rightarrow> EscapeString s
     | MarkdownLink label url \<Rightarrow> anchor url label | BareLink url \<Rightarrow> anchor url url)"

definition nodeLinks :: "cardNode \<Rightarrow> (string \<times> string) list" where
  "nodeLinks n = (case n of PlainText s \<Rightarrow> [] | MarkdownLink label url \<Rightarrow> [(url, label)] | BareLink url \<Rightarrow> [(url, url)])"

text \<open>A node that may stand after the given text: its scheme is allowed, and a bare link does not
  stand where a cut markdown link would.\<close>

definition nodeAllowed :: "string \<Rightarrow> cardNode \<Rightarrow> bool" where
  "nodeAllowed pre n = (case n of PlainText s \<Rightarrow> True
     | MarkdownLink label url \<Rightarrow> cardScheme url \<in> set cardLinkSchemes
     | BareLink url \<Rightarrow> cardScheme url \<in> set cardLinkSchemes \<and> \<not> HasSuffix pre '']('')"

fun nodesAllowed :: "string \<Rightarrow> cardNode list \<Rightarrow> bool" where
  "nodesAllowed pre [] = True"
| "nodesAllowed pre (n # ns) = (nodeAllowed pre n \<and> nodesAllowed (pre @ nodeSource n) ns)"

lemma nodesAllowed_snoc:
  "nodesAllowed pre (ns @ [n]) \<longleftrightarrow> nodesAllowed pre ns \<and> nodeAllowed (pre @ concat (map nodeSource ns)) n"
  by (induction ns arbitrary: pre) simp_all

section \<open>One step of the loop\<close>

lemma afterLiteral_Some: "afterLiteral p s = Some r \<longleftrightarrow> s = p @ r"
  by (auto simp: afterLiteral_def hasPrefix_def) (metis append_take_drop_id)

lemma drop_rest: "drop i s = a @ r \<Longrightarrow> drop (i + length a) s = r"
  by (metis add.commute append_eq_conv_conj drop_drop)

lemma takeWhile_drop_bound: "takeWhile P (drop k s) \<noteq> [] \<Longrightarrow> k + length (takeWhile P (drop k s)) \<le> length s"
  using length_takeWhile_le[of P "drop k s"] by (cases "k < length s") auto

lemma takeWhile_drop: "takeWhile P s @ drop (length (takeWhile P s)) s = s"
  by (metis append_take_drop_id takeWhile_eq_take)

lemma cardMarkdownLink_Some:
  assumes "cardMarkdownLink s = Some (label, url, n)"
  shows "\<exists>r. s = nodeSource (MarkdownLink label url) @ r \<and> n = length (nodeSource (MarkdownLink label url))"
proof -
  obtain r1 r2 r3 where s: "s = ''['' @ r1"
    and lab: "label = takeWhile (\<lambda>c. c \<noteq> CHR '']'') r1" "drop (length label) r1 = ''](''@ r2"
    and u: "url = takeWhile (\<lambda>c. c \<noteq> CHR ''('' \<and> c \<noteq> CHR '')'' \<and> \<not> isRE2Space c) r2" "drop (length url) r2 = '')'' @ r3"
    and n: "n = length label + length url + 4"
    using assms unfolding cardMarkdownLink_def Let_def by (auto split: option.splits simp: afterLiteral_Some)
  have "r1 = label @ ''](''@ r2" using takeWhile_drop[of _ r1] lab by metis
  moreover have "r2 = url @ '')'' @ r3" using takeWhile_drop[of _ r2] u by metis
  ultimately show ?thesis using s n by (simp add: nodeSource_def)
qed

lemma runeWidth_bounds: "s \<noteq> [] \<Longrightarrow> 0 < runeWidth s \<and> runeWidth s \<le> length s"
  using utf8Len_le[of s] by (cases s) (auto simp: runeWidth_def)

lemma cardBareURL_bounds: "cardBareURL s = Some n \<Longrightarrow> 7 < n \<and> n \<le> length s"
  using takeWhile_drop_bound[of bareURLChar 8 s] takeWhile_drop_bound[of bareURLChar 7 s]
  by (auto simp: cardBareURL_def Let_def split: if_splits option.splits)

lemma cardBareURL_scheme:
  assumes "cardBareURL s = Some n"
  shows "cardScheme (take n s) \<in> set cardLinkSchemes"
proof -
  have "hasPrefix s ''https://'' \<or> hasPrefix s ''http://''" "7 < n"
    using assms cardBareURL_bounds[OF assms] by (auto simp: cardBareURL_def Let_def split: if_splits)
  then consider r where "s = ''https://'' @ r" | r where "s = ''http://'' @ r"
    by (metis append_take_drop_id hasPrefix_def)
  then show ?thesis
  proof cases
    case 1
    then obtain r' where "take n s = ''https:'' @ r'" using \<open>7 < n\<close> by (auto simp: take_Cons' numeral_eq_Suc)
    moreover have "lowerForScheme ''https'' = ''https''" by code_simp
    ultimately show ?thesis by (simp add: cardScheme_def cardLinkSchemes_def)
  next
    case 2
    then obtain r' where "take n s = ''http:'' @ r'" using \<open>7 < n\<close> by (auto simp: take_Cons' numeral_eq_Suc)
    moreover have "lowerForScheme ''http'' = ''http''" by code_simp
    ultimately show ?thesis by (simp add: cardScheme_def cardLinkSchemes_def)
  qed
qed

lemma suffix_at:
  "HasSuffix (take i s) suf \<Longrightarrow> i \<le> length s \<Longrightarrow>
   length suf \<le> i \<and> take (length suf) (drop (i - length suf) s) = suf"
  by (cases "length suf \<le> i") (simp_all add: HasSuffix_def drop_take min_absorb2)

text \<open>Each step takes one node off the input and writes it out.\<close>

lemma cardStep_node:
  assumes "i < length txt"
  shows "\<exists>n. nodeAllowed (take i txt) n \<and> nodeSource n \<noteq> [] \<and>
    drop i txt = nodeSource n @ drop (i + length (nodeSource n)) txt \<and>
    cardStep txt (i, out) = (i + length (nodeSource n), out @ nodeHTML n)"
proof -
  let ?s = "drop i txt"
  have plain: "\<exists>n. nodeAllowed (take i txt) n \<and> nodeSource n \<noteq> [] \<and>
      ?s = nodeSource n @ drop (i + length (nodeSource n)) txt \<and>
      (i + w, out @ EscapeString (take w ?s)) = (i + length (nodeSource n), out @ nodeHTML n)"
    if "0 < w" "w \<le> length ?s" for w
    using that assms by (intro exI[of _ "PlainText (take w ?s)"])
      (simp add: nodeAllowed_def nodeSource_def nodeHTML_def flip: drop_drop add.commute[of w])
  show ?thesis
  proof (cases "cardLinkAt txt i")
    case (Some found)
    then obtain label url k where md: "cardMarkdownLink ?s = Some (label, url, k)"
      and found: "found = (if cardScheme url \<notin> set cardLinkSchemes then (EscapeString (take k ?s), k) else (anchor url label, k))"
      by (auto simp: cardLinkAt_def split: if_splits option.splits)
    obtain r where r: "?s = nodeSource (MarkdownLink label url) @ r" "k = length (nodeSource (MarkdownLink label url))"
      using cardMarkdownLink_Some[OF md] by blast
    have step: "cardStep txt (i, out) = (i + snd found, out @ fst found)"
      by (cases found) (simp add: cardStep_def Some)
    show ?thesis
    proof (cases "cardScheme url \<in> set cardLinkSchemes")
      case True
      then show ?thesis
        using r step found drop_rest[OF r(1)] by (intro exI[of _ "MarkdownLink label url"])
          (simp add: nodeAllowed_def nodeHTML_def nodeSource_def)
    next
      case False
      have "0 < k" "k \<le> length ?s" using r by (simp_all add: nodeSource_def)
      from plain[OF this] show ?thesis using step found False by simp
    qed
  next
    case no: None
    show ?thesis
    proof (cases "cardBareURLAt txt i")
      case (Some found)
      then obtain k where k: "cardBareURL ?s = Some k"
        and found: "found = (if 2 \<le> i \<and> take 2 (drop (i - 2) txt) = '']('' then (EscapeString (take k ?s), k)
          else (anchor (take k ?s) (take k ?s), k))"
        by (auto simp: cardBareURLAt_def Let_def split: if_splits option.splits)
      have bounds: "0 < k" "k \<le> length ?s" using cardBareURL_bounds[OF k] by simp_all
      have step: "cardStep txt (i, out) = (i + snd found, out @ fst found)"
        by (cases found) (simp add: cardStep_def no Some)
      show ?thesis
      proof (cases "2 \<le> i \<and> take 2 (drop (i - 2) txt) = ''](''")
        case True
        from plain[OF bounds] show ?thesis using step found True by simp
      next
        case False
        have "\<not> HasSuffix (take i txt) ''](''"
          using suffix_at[of i "txt" "''](''"] False assms by (auto simp: numeral_2_eq_2)
        moreover have "?s = take k ?s @ drop (i + k) txt" by (metis add.commute append_take_drop_id drop_drop)
        moreover have "nodeSource (BareLink (take k ?s)) = take k ?s" "length (take k ?s) = k" "take k ?s \<noteq> []"
          using bounds by (auto simp: nodeSource_def)
        ultimately show ?thesis
          using step found False cardBareURL_scheme[OF k] by (intro exI[of _ "BareLink (take k ?s)"])
            (simp only: nodeAllowed_def nodeHTML_def cardNode.case if_False fst_conv snd_conv; simp)
      qed
    next
      case None
      have "?s \<noteq> []" using assms by simp
      from plain[OF conjunct1[OF runeWidth_bounds[OF this]] conjunct2[OF runeWidth_bounds[OF this]]]
      show ?thesis by (simp add: cardStep_def no None Let_def)
    qed
  qed
qed

section \<open>The whole text\<close>

definition rendering :: "string \<Rightarrow> nat \<times> string \<Rightarrow> bool" where
  "rendering txt st \<longleftrightarrow> fst st \<le> length txt \<and>
     (\<exists>ns. take (fst st) txt = concat (map nodeSource ns) \<and> nodesAllowed [] ns \<and>
        snd st = concat (map nodeHTML ns))"

lemma rendering_step:
  assumes "rendering txt st" and "fst st < length txt"
  shows "rendering txt (cardStep txt st)" "fst st < fst (cardStep txt st)"
proof -
  obtain i out where st: "st = (i, out)" by (cases st)
  obtain ns where ns: "take i txt = concat (map nodeSource ns)" "nodesAllowed [] ns" "out = concat (map nodeHTML ns)"
    using assms(1) by (auto simp: rendering_def st)
  have i: "i < length txt" using assms(2) by (simp add: st)
  obtain n where n: "nodeAllowed (take i txt) n" "nodeSource n \<noteq> []"
    "drop i txt = nodeSource n @ drop (i + length (nodeSource n)) txt"
    "cardStep txt (i, out) = (i + length (nodeSource n), out @ nodeHTML n)"
    using cardStep_node[OF i] by blast
  have len: "i + length (nodeSource n) \<le> length txt"
    using arg_cong[OF n(3), of length] i by simp
  have "take (i + length (nodeSource n)) txt = take i txt @ nodeSource n"
    unfolding take_add by (subst n(3)) simp
  then show "rendering txt (cardStep txt st)"
    using len ns n(1) unfolding st n(4) rendering_def
    by (intro conjI exI[of _ "ns @ [n]"]) (simp_all add: nodesAllowed_snoc)
  show "fst st < fst (cardStep txt st)" using n(2) by (simp add: st n(4))
qed

lemma renderCardText_nodes:
  obtains out ns where "renderCardText v = Some out" and "concat (map nodeSource ns) = cardTextString v"
    and "nodesAllowed [] ns" and "out = concat (map nodeHTML ns)"
proof -
  let ?txt = "cardTextString v" and ?b = "\<lambda>(i, out). i < length (cardTextString v)"
  have start: "rendering ?txt (0, [])" by (simp add: rendering_def exI[of _ "[]"])
  have "\<exists>st. while_option ?b (cardStep ?txt) (0, []) = Some st"
  proof (rule measure_while_option_Some[where P = "rendering ?txt" and f = "\<lambda>st. length ?txt - fst st"])
    fix st
    assume "rendering ?txt st" "?b st"
    moreover from this have "fst st < length ?txt" by (cases st) simp
    ultimately show "rendering ?txt (cardStep ?txt st) \<and> length ?txt - fst (cardStep ?txt st) < length ?txt - fst st"
      using rendering_step by (meson diff_less_mono2)
  qed (rule start)
  then obtain i out where stop: "while_option ?b (cardStep ?txt) (0, []) = Some (i, out)" by auto
  have "rendering ?txt (i, out)"
  proof (rule while_option_rule[where P = "rendering ?txt", OF _ stop start])
    fix st
    assume "rendering ?txt st" "?b st"
    then show "rendering ?txt (cardStep ?txt st)" using rendering_step(1) by (cases st) simp
  qed
  moreover have "\<not> i < length ?txt" using while_option_stop[OF stop] by simp
  ultimately have i: "take i ?txt = ?txt" and "rendering ?txt (i, out)" by simp_all
  then obtain ns where "concat (map nodeSource ns) = ?txt" "nodesAllowed [] ns" "out = concat (map nodeHTML ns)"
    by (auto simp: rendering_def)
  moreover have "renderCardText v = Some out" using stop by (simp add: renderCardText_def)
  ultimately show thesis by (rule that[rotated])
qed

section \<open>What a reader of the HTML finds\<close>

text \<open>A reader that looks for tags: the text up to an angle bracket, which must begin an anchor of exactly
  the authored form; the address and the label are read back unescaped. It finds \<open>None\<close> when there
  is any other markup.\<close>

definition readAnchor :: "string \<Rightarrow> ((string \<times> string) \<times> string) option" where
  "readAnchor s =
     (case afterLiteral (''<a href='' @ [CHR 0x22]) s of
        None \<Rightarrow> None
      | Some r \<Rightarrow>
          (let href = takeWhile (\<lambda>c. c \<noteq> CHR 0x22) r in
           case afterLiteral (CHR 0x22 # cardAnchorAttrs @ ''>'') (drop (length href) r) of
             None \<Rightarrow> None
           | Some r \<Rightarrow>
               (let label = takeWhile (\<lambda>c. c \<noteq> CHR ''<'') r in
                case afterLiteral ''</a>'' (drop (length label) r) of
                  None \<Rightarrow> None
                | Some r \<Rightarrow> Some ((htmlUnescape href, htmlUnescape label), r))))"

lemma readAnchor_shorter: "readAnchor s = Some (l, r) \<Longrightarrow> length r < length s"
proof -
  assume "readAnchor s = Some (l, r)"
  then obtain r1 where r1: "afterLiteral (''<a href='' @ [CHR 0x22]) s = Some r1"
    and rest: "(let href = takeWhile (\<lambda>c. c \<noteq> CHR 0x22) r1 in
           case afterLiteral (CHR 0x22 # cardAnchorAttrs @ ''>'') (drop (length href) r1) of
             None \<Rightarrow> None
           | Some r \<Rightarrow>
               (let label = takeWhile (\<lambda>c. c \<noteq> CHR ''<'') r in
                case afterLiteral ''</a>'' (drop (length label) r) of
                  None \<Rightarrow> None
                | Some r \<Rightarrow> Some ((htmlUnescape href, htmlUnescape label), r))) = Some (l, r)"
    unfolding readAnchor_def by (cases "afterLiteral (''<a href='' @ [CHR 0x22]) s") auto
  then obtain r2 where r2: "afterLiteral (CHR 0x22 # cardAnchorAttrs @ ''>'')
      (drop (length (takeWhile (\<lambda>c. c \<noteq> CHR 0x22) r1)) r1) = Some r2"
    and r3: "afterLiteral ''</a>'' (drop (length (takeWhile (\<lambda>c. c \<noteq> CHR ''<'') r2)) r2) = Some r"
    unfolding Let_def by (auto split: option.splits)
  have len: "length r \<le> length s" if "afterLiteral p s = Some r" for p r s
    using that by (simp add: afterLiteral_Some)
  have "length r1 < length s" using r1 by (simp add: afterLiteral_Some)
  then show "length r < length s" using len[OF r2] len[OF r3] by simp
qed

function readAnchors :: "string \<Rightarrow> (string \<times> string) list option" where
  "readAnchors s =
     (let rest = dropWhile (\<lambda>c. c \<noteq> CHR ''<'') s in
      if rest = [] then Some []
      else (case readAnchor rest of None \<Rightarrow> None | Some (l, r) \<Rightarrow> map_option (Cons l) (readAnchors r)))"
  by pat_completeness auto
termination
proof (relation "measure length", goal_cases)
  case (2 s rest a l r)
  then have "length r < length rest" using readAnchor_shorter[of rest l r] by simp
  also have "length rest \<le> length s" using 2 by (simp add: length_dropWhile_le)
  finally show ?case by simp
qed simp

declare readAnchors.simps [simp del]

lemma takeWhile_until: "\<forall>c \<in> set a. P c \<Longrightarrow> \<not> P x \<Longrightarrow> takeWhile P (a @ x # b) = a"
  by (simp add: takeWhile_append2)

lemma readAnchor_anchor: "readAnchor (anchor url label @ s) = Some ((url, label), s)"
proof -
  have lit: "afterLiteral p (p @ r) = Some r" for p r by (simp add: afterLiteral_Some)
  have href: "takeWhile (\<lambda>c. c \<noteq> CHR 0x22) (EscapeString url @ CHR 0x22 # r) = EscapeString url" for r
    by (rule takeWhile_until) (use EscapeString_safe in auto)
  have lab: "takeWhile (\<lambda>c. c \<noteq> CHR ''<'') (EscapeString label @ CHR ''<'' # r) = EscapeString label" for r
    by (rule takeWhile_until) (use EscapeString_safe in auto)
  let ?r2 = "EscapeString label @ ''</a>'' @ s" and ?q = "CHR 0x22 # cardAnchorAttrs @ ''>''"
  have r1: "anchor url label @ s = (''<a href='' @ [CHR 0x22]) @ EscapeString url @ ?q @ ?r2"
    by (simp add: anchor_def)
  show ?thesis
    unfolding readAnchor_def r1 lit option.case Let_def
    using href[of "cardAnchorAttrs @ ''>'' @ ?r2"] lab[of "''/a>'' @ s"] lit[of ?q ?r2] lit[of "''</a>''" s]
    by (simp add: htmlUnescape_Escape)
qed

lemma readAnchors_text: "CHR ''<'' \<notin> set a \<Longrightarrow> readAnchors (a @ s) = readAnchors s"
proof -
  assume "CHR ''<'' \<notin> set a"
  then have "dropWhile (\<lambda>c. c \<noteq> CHR ''<'') (a @ s) = dropWhile (\<lambda>c. c \<noteq> CHR ''<'') s"
    by (intro dropWhile_append2) auto
  then show ?thesis by (subst (1 2) readAnchors.simps) (simp only:)
qed

lemma readAnchors_anchor: "readAnchors (anchor url label @ s) = map_option (Cons (url, label)) (readAnchors s)"
proof -
  have "dropWhile (\<lambda>c. c \<noteq> CHR ''<'') (anchor url label @ s) = anchor url label @ s" "anchor url label @ s \<noteq> []"
    by (simp_all add: anchor_def)
  then show ?thesis by (subst readAnchors.simps) (simp only: Let_def readAnchor_anchor option.case prod.case if_False)
qed

lemma readAnchors_nodes: "readAnchors (concat (map nodeHTML ns)) = Some (concat (map nodeLinks ns))"
proof (induction ns)
  case Nil
  show ?case by (subst readAnchors.simps) simp
next
  case (Cons n ns)
  have "CHR ''<'' \<notin> set (EscapeString s)" for s using EscapeString_safe by blast
  then show ?case
    using Cons by (cases n) (simp_all add: nodeHTML_def nodeLinks_def readAnchors_text readAnchors_anchor)
qed

end
