(* ===== verification/PageProperties.thy ===== *)
theory PageProperties
  imports CardLaws
begin

text \<open>The properties of the board page.\<close>

text \<open>The concrete texts: a link beside markup, a link of another scheme, and a link the producer cut.\<close>

lemma demo_card_link:
  "renderCardText (StringKind ''see [a](http://x) <b>'') = Some (''see '' @ anchor ''http://x'' ''a'' @ '' &lt;b&gt;'')"
  by code_simp

lemma demo_card_scheme: "renderCardText (StringKind ''[a](data:x)'') = Some ''[a](data:x)''"
  by code_simp

lemma demo_card_cut: "renderCardText (StringKind ''[a](http://x'') = Some ''[a](http://x''"
  by code_simp

text \<open>The scheme check folds the dotted capital I, as no browser does.\<close>

lemma demo_card_folded_scheme: "cardScheme (''obs'' @ [CHR 0xC4, CHR 0xB0] @ ''dian:x'') = ''obsidian''"
  by code_simp

text \<open>C17: rendering a card's text always returns: every turn of the loop takes at least one byte off the text,
  whatever bytes it holds and whatever value the template hands over.\<close>

theorem card_text_returns: "\<exists>out. renderCardText v = Some out"
  using renderCardText_nodes by metis

text \<open>C16: the card renderer is a safe escaping boundary: the text is a sequence of plain pieces, markdown links
  and bare URLs whose sources concatenate to it, so nothing is lost; the HTML is these pieces written
  out; a reader that looks for tags finds exactly the authored anchors, with their addresses and labels
  as they stood in the text, and no other markup; every address has a scheme of the list, and a bare
  URL is not one that the producer cut out of a markdown link.\<close>

theorem card_text_safe:
  "\<exists>out ns. renderCardText v = Some out \<and> out = concat (map nodeHTML ns) \<and>
     concat (map nodeSource ns) = cardTextString v \<and> nodesAllowed [] ns \<and>
     readAnchors out = Some (concat (map nodeLinks ns)) \<and>
     list_all (\<lambda>(url, label). cardScheme url \<in> set cardLinkSchemes) (concat (map nodeLinks ns))"
proof -
  obtain out ns where r: "renderCardText v = Some out" "concat (map nodeSource ns) = cardTextString v"
    "nodesAllowed [] ns" "out = concat (map nodeHTML ns)" by (rule renderCardText_nodes)
  have "list_all (\<lambda>(url, label). cardScheme url \<in> set cardLinkSchemes) (concat (map nodeLinks ns))"
    if "nodesAllowed pre ns" for pre
    using that by (induction ns arbitrary: pre) (auto simp: nodeAllowed_def nodeLinks_def split: cardNode.splits)
  then show ?thesis using r readAnchors_nodes by blast
qed

end
