(* ===== verification/EventLog.thy ===== *)
theory EventLog
  imports TaskText Runtime
begin

text \<open>
  The incremental reader of a producer's event log (\<open>provenance.go\<close>, \<open>event-log-reader.go\<close>): only the
  bytes appended since the last read are read, only complete lines are consumed, and the records read so
  far are kept. What a line decodes to is the JSON library's and a parameter.
\<close>

section \<open>Records\<close>

record eventRecord =
  ev_ItemID :: string
  ev_SessionID :: string
  ev_Host :: string
  ev_Cwd :: string
  ev_ToolName :: string
  ev_Pane :: string

type_synonym eventMap = "string \<rightharpoonup> eventRecord"

type_synonym lineDecoder = "string \<Rightarrow> eventRecord option"

record producerEventLog =
  log_offset :: nat
  log_events :: eventMap

definition emptyLog :: producerEventLog where
  "emptyLog = \<lparr>log_offset = 0, log_events = Map.empty\<rparr>"

section \<open>The log file\<close>

text \<open>What the state directory shows of one log: whether a directory is configured and opens, the
  file's content when it is there, and the failures of opening, seeking or reading it.\<close>

record logFile =
  lf_dir :: bool
  lf_content :: "string option"
  lf_error :: "error option"

definition eventLogName :: "string \<Rightarrow> string" where
  "eventLogName producerID = producerID @ ''.events.jsonl''"

definition reader_Size :: "logFile \<Rightarrow> nat option" where
  "reader_Size f = (if \<not> lf_dir f then None else map_option length (lf_content f))"

definition reader_ReadFrom :: "logFile \<Rightarrow> nat \<Rightarrow> error + string" where
  "reader_ReadFrom f offset =
     (if \<not> lf_dir f then Inr []
      else (case lf_content f of
              None \<Rightarrow> Inr []
            | Some content \<Rightarrow> (case lf_error f of Some e \<Rightarrow> Inl e | None \<Rightarrow> Inr (drop offset content))))"

section \<open>Merging lines\<close>

definition hasOrigin :: "eventRecord \<Rightarrow> bool" where
  "hasOrigin r = (ev_Host r \<noteq> [] \<or> ev_Cwd r \<noteq> [] \<or> ev_Pane r \<noteq> [])"

text \<open>One line: the first record of an item that tells an origin stays.\<close>

definition mergeLine :: "lineDecoder \<Rightarrow> string \<Rightarrow> eventMap \<Rightarrow> eventMap" where
  "mergeLine decode line merged =
     (let line = TrimSpace line in
      if line = [] then merged
      else (case decode line of
              None \<Rightarrow> merged
            | Some record \<Rightarrow>
                if ev_ItemID record = [] then merged
                else (case merged (ev_ItemID record) of
                        Some previous \<Rightarrow> if hasOrigin previous then merged else merged(ev_ItemID record \<mapsto> record)
                      | None \<Rightarrow> merged(ev_ItemID record \<mapsto> record))))"

text \<open>The length of the complete lines: up to and with the last newline.\<close>

definition completeLength :: "string \<Rightarrow> nat" where
  "completeLength dat = length (dropWhile (\<lambda>c. c \<noteq> newline) (rev dat))"

definition mergeEventBytes ::
  "runtime \<Rightarrow> lineDecoder \<Rightarrow> eventMap \<Rightarrow> string \<Rightarrow> eventMap \<times> nat \<times> bool" where
  "mergeEventBytes R decode accumulated dat =
     (if newline \<notin> set dat then (accumulated, 0, True)
      else if ctxErr R \<noteq> None then (accumulated, 0, False)
      else (fold (mergeLine decode) (splitAt1 newline (take (completeLength dat) dat)) accumulated,
            completeLength dat, True))"

section \<open>Reading\<close>

text \<open>One read of a producer's log: \<open>sz\<close> is what the reader said of its size, \<open>dat\<close> what it then read from
  the base, which may hold what was appended since.\<close>

definition readBase :: "nat \<Rightarrow> producerEventLog \<Rightarrow> nat" where
  "readBase sz log = (if sz < log_offset log then 0 else log_offset log)"

definition readEvents ::
  "runtime \<Rightarrow> lineDecoder \<Rightarrow> nat option \<Rightarrow> (nat \<Rightarrow> error + string) \<Rightarrow> producerEventLog \<Rightarrow>
   producerEventLog \<times> eventMap" where
  "readEvents R decode sz readFrom log =
     (case sz of
        None \<Rightarrow> (log, log_events log)
      | Some sz \<Rightarrow>
          if sz = log_offset log then (log, log_events log)
          else (let base = readBase sz log;
                    accumulated = (if sz < log_offset log then Map.empty else log_events log)
                in case readFrom base of
                     Inl e \<Rightarrow> (log, log_events log)
                   | Inr dat \<Rightarrow>
                       (case mergeEventBytes R decode accumulated dat of (merged, consumed, ok) \<Rightarrow>
                          if \<not> ok then (log, log_events log)
                          else (\<lparr>log_offset = base + consumed, log_events = merged\<rparr>, merged))))"

section \<open>The logs of all producers\<close>

text \<open>Every producer's log, and the files of the directory at each of the two readings.\<close>

type_synonym producerLogs = "string \<rightharpoonup> producerEventLog"

record logFiles =
  lfs_present :: bool
  lfs_stat :: "string \<Rightarrow> logFile"
  lfs_read :: "string \<Rightarrow> logFile"

definition logOf :: "string \<Rightarrow> producerLogs \<Rightarrow> producerEventLog" where
  "logOf producerID logs = (case logs producerID of None \<Rightarrow> emptyLog | Some log \<Rightarrow> log)"

definition readProducer ::
  "runtime \<Rightarrow> lineDecoder \<Rightarrow> logFiles \<Rightarrow> string \<Rightarrow> producerLogs \<Rightarrow> producerLogs \<times> eventMap" where
  "readProducer R decode files producerID logs =
     (if \<not> lfs_present files then (logs, Map.empty)
      else (let name = eventLogName producerID in
            case readEvents R decode (reader_Size (lfs_stat files name)) (reader_ReadFrom (lfs_read files name))
                   (logOf producerID logs) of
              (log, events) \<Rightarrow> (logs(producerID \<mapsto> log), events)))"

definition sessionProducerPrefix :: string where "sessionProducerPrefix = ''session:''"

text \<open>The bare name is tried first, the name without the marker when that shows nothing.\<close>

definition readEventsForProducer ::
  "runtime \<Rightarrow> lineDecoder \<Rightarrow> logFiles \<Rightarrow> string \<Rightarrow> producerLogs \<Rightarrow> producerLogs \<times> eventMap" where
  "readEventsForProducer R decode files producerID logs =
     (case readProducer R decode files producerID logs of (logs, events) \<Rightarrow>
        if events \<noteq> Map.empty then (logs, events)
        else (case cutPrefix producerID sessionProducerPrefix of
                None \<Rightarrow> (logs, events)
              | Some bare \<Rightarrow> readProducer R decode files bare logs))"

end
