(* ===== verification/PaneOwnership.thy ===== *)
theory PaneOwnership
  imports TaskText
begin

text \<open>
  Whether a pane is a session's (\<open>pane-ownership.go\<close>). The tables of letters and digits are the runtime's
  and a parameter: a predicate on encoded runes.
\<close>

record Pane =
  pane_PaneID :: int
  pane_Title :: string
  pane_TTYName :: string

text \<open>The runes of a string, each in its encoding; a byte that starts none is the replacement
  character.\<close>

definition replacementRune :: string where
  "replacementRune = [CHR 0xEF, CHR 0xBF, CHR 0xBD]"

function runesOf :: "string \<Rightarrow> string list" where
  "runesOf s =
     (if s = [] then []
      else if utf8Len s = 0 then replacementRune # runesOf (tl s)
      else take (utf8Len s) s # runesOf (drop (utf8Len s) s))"
  by pat_completeness auto
termination by (relation "measure length") auto

declare runesOf.simps [simp del]

function stripRunes :: "(string \<Rightarrow> bool) \<Rightarrow> string list \<Rightarrow> string list" where
  "stripRunes letterOrDigit [] = []"
| "stripRunes letterOrDigit (r # rs) =
     (if letterOrDigit r \<or> r \<in> {''/'', ''~'', ''.'', ''_'', ''-''} then r # rs
      else stripRunes letterOrDigit (dropWhile (\<lambda>r. r \<in> set spaceRunes) rs))"
  by pat_completeness auto
termination
  by (relation "measure (length \<circ> snd)") (auto simp: less_Suc_eq_le length_dropWhile_le)

definition StripStatusGlyph :: "(string \<Rightarrow> bool) \<Rightarrow> string \<Rightarrow> string" where
  "StripStatusGlyph letterOrDigit s = concat (stripRunes letterOrDigit (runesOf (TrimSpace s)))"

text \<open>The panes of a listing, in the order a map is ranged over.\<close>

type_synonym paneListing = "(int \<times> Pane) list"

definition OwnsPane :: "(string \<Rightarrow> bool) \<Rightarrow> paneListing \<Rightarrow> int \<Rightarrow> string \<Rightarrow> bool" where
  "OwnsPane letterOrDigit panes paneID sessionName =
     (case map_of panes paneID of
        None \<Rightarrow> False
      | Some pane \<Rightarrow>
          if sessionName = [] then True
          else (let title = StripStatusGlyph letterOrDigit (pane_Title pane)
                in if title = [] then True else title = StripStatusGlyph letterOrDigit sessionName))"

end
