(* ===== verification/Provenance.thy ===== *)
theory Provenance
  imports EventLog PaneOwnership TaskIndex LedgerStore Handlers
begin

text \<open>
  Where an item came from (\<open>provenance.go\<close>, \<open>session-registry-reader.go\<close>): the host's panes, session names
  and worker modes with their cache, and the resolution of a page of items from them, from the event
  logs, the task index and the worker coverage. The last two are interfaces: functions of
  a state of their own.
\<close>

record Provenance =
  pv_Host :: string
  pv_Cwd :: string
  pv_Tool :: string
  pv_Pane :: string
  pv_PaneRecorded :: bool
  pv_Routable :: bool
  pv_PaneListingUnreadable :: bool
  pv_RecordedPane :: string
  pv_TaskName :: string
  pv_TaskPath :: string
  pv_GoalName :: string
  pv_GoalPath :: string
  pv_TopicName :: string
  pv_TopicPath :: string
  pv_SessionName :: string
  pv_Headless :: bool
  pv_ProductionTouching :: bool
  pv_Uncovered :: bool

definition noProvenance :: Provenance where
  "noProvenance = \<lparr>pv_Host = [], pv_Cwd = [], pv_Tool = [], pv_Pane = [], pv_PaneRecorded = False,
     pv_Routable = False, pv_PaneListingUnreadable = False, pv_RecordedPane = [], pv_TaskName = [],
     pv_TaskPath = [], pv_GoalName = [], pv_GoalPath = [], pv_TopicName = [], pv_TopicPath = [],
     pv_SessionName = [], pv_Headless = False, pv_ProductionTouching = False, pv_Uncovered = False\<rparr>"

definition Resolved :: "Provenance \<Rightarrow> bool" where
  "Resolved p = (pv_Host p \<noteq> [] \<or> pv_Cwd p \<noteq> [] \<or> pv_Tool p \<noteq> [] \<or> pv_Pane p \<noteq> [] \<or> pv_TaskName p \<noteq> [] \<or>
     pv_SessionName p \<noteq> [])"

section \<open>Host-wide readings\<close>

record sessionName =
  sn_Name :: string
  sn_Source :: string

definition sessionNameSourceUser :: string where "sessionNameSourceUser = ''user''"
definition headlessSessionMode :: string where "headlessSessionMode = ''headless''"

text \<open>The session registry: its directory, when one is configured and can be listed, as the list of its
  entries in name order.\<close>

record registryRecord =
  reg_SessionID :: string
  reg_Name :: string
  reg_NameSource :: string

datatype registryContent = RegistrySubdir | RegistryUnreadable | RegistryUndecodable | RegistryRecord registryRecord

definition registryRow :: "string \<times> registryContent \<Rightarrow> (string \<rightharpoonup> sessionName) \<Rightarrow> (string \<rightharpoonup> sessionName)" where
  "registryRow entry names =
     (case entry of (name, content) \<Rightarrow>
       if content = RegistrySubdir \<or> \<not> HasSuffix name ''.json'' then names
       else (case content of
               RegistryRecord r \<Rightarrow>
                 if reg_SessionID r \<noteq> []
                 then names(reg_SessionID r \<mapsto> \<lparr>sn_Name = reg_Name r, sn_Source = reg_NameSource r\<rparr>) else names
             | _ \<Rightarrow> names))"

definition readSessionNames ::
  "runtime \<Rightarrow> (string \<times> registryContent) list option \<Rightarrow> (string \<rightharpoonup> sessionName)" where
  "readSessionNames R dir =
     (case dir of None \<Rightarrow> Map.empty
      | Some es \<Rightarrow> if ctxErr R \<noteq> None then Map.empty else fold registryRow es Map.empty)"

text \<open>The worker modes: the ledger's list, or \<open>None\<close> when there is no ledger.\<close>

definition modeRow :: "SessionLedgerEntry \<Rightarrow> (string \<rightharpoonup> string) \<Rightarrow> (string \<rightharpoonup> string)" where
  "modeRow entry modes = (if led_SessionID entry = [] then modes else modes(led_SessionID entry \<mapsto> led_Mode entry))"

definition sessionModes :: "runtime \<Rightarrow> (error + SessionLedgerEntry list) option \<Rightarrow> (string \<rightharpoonup> string)" where
  "sessionModes R listing =
     (case listing of
        Some (Inr es) \<Rightarrow> if ctxErr R \<noteq> None then Map.empty else fold modeRow es Map.empty
      | _ \<Rightarrow> Map.empty)"

record hostState =
  hs_panes :: paneListing
  hs_panesErr :: "error option"
  hs_names :: "string \<rightharpoonup> sessionName"
  hs_modes :: "string \<rightharpoonup> string"

text \<open>What one refresh reads: the pane listing is tried twice at most.\<close>

record hostReadings =
  hr_registry :: "(string \<times> registryContent) list option"
  hr_ledger :: "(error + SessionLedgerEntry list) option"
  hr_first :: "error + paneListing"
  hr_second :: "error + paneListing"

definition readHostState :: "runtime \<Rightarrow> hostReadings \<Rightarrow> hostState" where
  "readHostState R rd =
     (let names = readSessionNames R (hr_registry rd);
          modes = sessionModes R (hr_ledger rd);
          panes = (case hr_first rd of Inl _ \<Rightarrow> hr_second rd | Inr ps \<Rightarrow> Inr ps)
      in \<lparr>hs_panes = (case panes of Inl _ \<Rightarrow> [] | Inr ps \<Rightarrow> ps),
          hs_panesErr = (case panes of Inl e \<Rightarrow> Some e | Inr _ \<Rightarrow> None),
          hs_names = names, hs_modes = modes\<rparr>)"

section \<open>The cache of the host state\<close>

definition provenanceCacheWindow :: duration where "provenanceCacheWindow = 2 * 1000000000"

text \<open>A token names a refresh; each refresh has one of its own.\<close>

record hostCache =
  hc_cached :: "hostState option"
  hc_cachedAt :: instant
  hc_refreshing :: "nat option"

definition newHostCache :: hostCache where
  "newHostCache = \<lparr>hc_cached = None, hc_cachedAt = zeroTime, hc_refreshing = None\<rparr>"

text \<open>What a request is told: to serve a state, starting a refresh behind itself or not, or to refresh and
  wait.\<close>

datatype hostAnswer = Serve hostState | ServeAndRefresh hostState | RefreshAndWait

definition enterHostState :: "instant \<Rightarrow> nat \<Rightarrow> hostCache \<Rightarrow> hostCache \<times> hostAnswer" where
  "enterHostState now token c =
     (case hc_cached c of
        Some state \<Rightarrow>
          if timeSub now (hc_cachedAt c) \<ge> provenanceCacheWindow \<and> hc_refreshing c = None
          then (c\<lparr>hc_refreshing := Some token\<rparr>, ServeAndRefresh state)
          else (c, Serve state)
      | None \<Rightarrow> (c\<lparr>hc_refreshing := Some token\<rparr>, RefreshAndWait))"

definition publishHostState :: "instant \<Rightarrow> hostState \<Rightarrow> hostCache \<Rightarrow> hostCache" where
  "publishHostState now state c = c\<lparr>hc_cached := Some state, hc_cachedAt := now\<rparr>"

definition finishHostRefresh :: "nat \<Rightarrow> hostCache \<Rightarrow> hostCache" where
  "finishHostRefresh token c = (if hc_refreshing c = Some token then c\<lparr>hc_refreshing := None\<rparr> else c)"

section \<open>The session of an item\<close>

definition sessionLivenessPrefix :: string where "sessionLivenessPrefix = ''session:''"
definition ownerLivenessPrefix :: string where "ownerLivenessPrefix = ''owner:''"
definition heartbeatLivenessPrefix :: string where "heartbeatLivenessPrefix = ''heartbeat:''"

text \<open>\<open>filepath.Base\<close>.\<close>

definition pathBase :: "string \<Rightarrow> string" where
  "pathBase path =
     (if path = [] then ''.''
      else (let base = last (splitAt1 (CHR ''/'') (rev (dropWhile (\<lambda>c. c = CHR ''/'') (rev path))))
            in if base = [] then ''/'' else base))"

definition sessionIDFromItem :: "Item \<Rightarrow> string" where
  "sessionIDFromItem item =
     (let ref = LivenessRef item; fallback = trimPrefix (ProducerID item) sessionProducerPrefix in
      if ref = [] then fallback
      else (case cutPrefix ref sessionLivenessPrefix of Some k \<Rightarrow> TrimSpace k | None \<Rightarrow>
           (case cutPrefix ref ownerLivenessPrefix of Some k \<Rightarrow> TrimSpace k | None \<Rightarrow>
           (case cutPrefix ref heartbeatLivenessPrefix of Some path \<Rightarrow> pathBase (TrimSpace path) | None \<Rightarrow> fallback))))"

section \<open>The pane of an item\<close>

definition Itoa :: "int \<Rightarrow> string" where "Itoa n = appendInt 0 n"

definition nameIn :: "(string \<rightharpoonup> sessionName) \<Rightarrow> string \<Rightarrow> string" where
  "nameIn names sessionID = (case names sessionID of None \<Rightarrow> [] | Some n \<Rightarrow> sn_Name n)"

definition resolveByName ::
  "(string \<Rightarrow> bool) \<Rightarrow> Item \<Rightarrow> (string \<rightharpoonup> sessionName) \<Rightarrow> paneListing \<Rightarrow> bool \<Rightarrow> Provenance option" where
  "resolveByName letterOrDigit item names panes panesAvailable =
     (if \<not> panesAvailable then None
      else (let sessionID = sessionIDFromItem item in
            if sessionID = [] then None
            else (let name = nameIn names sessionID in
                  if name = [] then None
                  else (let wanted = StripStatusGlyph letterOrDigit name in
                        case find (\<lambda>(paneID, pane). StripStatusGlyph letterOrDigit (pane_Title pane) = wanted \<and>
                               OwnsPane letterOrDigit panes paneID name) panes of
                          None \<Rightarrow> None
                        | Some (paneID, _) \<Rightarrow>
                            Some (noProvenance\<lparr>pv_Pane := Itoa paneID, pv_PaneRecorded := True, pv_Routable := True\<rparr>)))))"

definition buildProvenance ::
  "(string \<Rightarrow> bool) \<Rightarrow> eventRecord \<Rightarrow> (string \<rightharpoonup> sessionName) \<Rightarrow> paneListing \<Rightarrow> bool \<Rightarrow> Provenance" where
  "buildProvenance letterOrDigit record names panes panesAvailable =
     (let provenance = noProvenance\<lparr>pv_Host := ev_Host record, pv_Cwd := ev_Cwd record, pv_Tool := ev_ToolName record\<rparr> in
      case Atoi (TrimSpace (ev_Pane record)) of
        None \<Rightarrow> provenance
      | Some paneID \<Rightarrow>
          if \<not> panesAvailable
          then provenance\<lparr>pv_PaneRecorded := True, pv_PaneListingUnreadable := True, pv_RecordedPane := Itoa paneID\<rparr>
          else (let routable = OwnsPane letterOrDigit panes paneID (nameIn names (ev_SessionID record));
                    provenance = provenance\<lparr>pv_PaneRecorded := True, pv_Routable := routable\<rparr>
                in if routable then provenance\<lparr>pv_Pane := Itoa paneID\<rparr> else provenance))"

section \<open>Resolving a page\<close>

text \<open>The interfaces of the resolver: the index of tasks (\<open>None\<close> when there is none) and the coverage, each a
  function of the state they share.\<close>

record 't provenanceSources =
  src_lookup :: "(string \<Rightarrow> 't \<Rightarrow> 't \<times> Task option) option"
  src_coverage :: "((string \<rightharpoonup> string) \<Rightarrow> string list \<Rightarrow> 't \<Rightarrow> 't \<times> (string \<Rightarrow> bool)) option"
  src_files :: "string \<Rightarrow> logFiles"
  src_decode :: lineDecoder
  src_letterOrDigit :: "string \<Rightarrow> bool"

definition SessionProducerKind :: ProducerKind where "SessionProducerKind = ''session''"

definition askedSessions :: "Item list \<Rightarrow> (ItemID \<times> string) list" where
  "askedSessions items =
     map (\<lambda>item. (ItemID item, sessionIDFromItem item))
       (filter (\<lambda>item. ProducerKind item = SessionProducerKind \<and> sessionIDFromItem item \<noteq> []) items)"

definition uncoveredItems ::
  "'t provenanceSources \<Rightarrow> Item list \<Rightarrow> (string \<rightharpoonup> sessionName) \<Rightarrow> 't \<Rightarrow> 't \<times> (ItemID \<Rightarrow> bool)" where
  "uncoveredItems S items names t =
     (case src_coverage S of
        None \<Rightarrow> (t, \<lambda>_. False)
      | Some cover \<Rightarrow>
          (let asked = askedSessions items in
           case cover (map_option sn_Name \<circ> names) (map snd asked) t of
             (t, verdicts) \<Rightarrow>
               (t, \<lambda>itemID. case map_of (rev asked) itemID of None \<Rightarrow> False | Some sessionID \<Rightarrow> verdicts sessionID)))"

definition lookupTask :: "'t provenanceSources \<Rightarrow> Item \<Rightarrow> 't \<Rightarrow> 't \<times> Task option" where
  "lookupTask S item t =
     (case src_lookup S of
        None \<Rightarrow> (t, None)
      | Some lookup \<Rightarrow> if sessionIDFromItem item = [] then (t, None) else lookup (sessionIDFromItem item) t)"

definition sessionNameFor :: "Item \<Rightarrow> (string \<rightharpoonup> sessionName) \<Rightarrow> string option" where
  "sessionNameFor item names =
     (let sessionID = sessionIDFromItem item in
      if sessionID = [] then None
      else (case names sessionID of
              None \<Rightarrow> None
            | Some entry \<Rightarrow>
                if sn_Source entry \<noteq> sessionNameSourceUser \<or> sn_Name entry = [] then None else Some (sn_Name entry)))"

text \<open>The events of an item's producer, read once for all its items of the page.\<close>

definition eventsFor ::
  "runtime \<Rightarrow> 't provenanceSources \<Rightarrow> string \<Rightarrow> producerLogs \<times> (string \<rightharpoonup> eventMap) \<Rightarrow>
   (producerLogs \<times> (string \<rightharpoonup> eventMap)) \<times> eventMap" where
  "eventsFor R S producerID st =
     (case st of (logs, byProducer) \<Rightarrow>
       case byProducer producerID of
         Some events \<Rightarrow> (st, events)
       | None \<Rightarrow>
           (case readEventsForProducer R (src_decode S) (src_files S producerID) producerID logs of
              (logs, events) \<Rightarrow> ((logs, byProducer(producerID \<mapsto> events)), events)))"

definition paneProvenance :: "'t provenanceSources \<Rightarrow> hostState \<Rightarrow> Item \<Rightarrow> eventMap \<Rightarrow> Provenance option" where
  "paneProvenance S host item events =
     (case events (DedupKey item) of
        None \<Rightarrow> resolveByName (src_letterOrDigit S) item (hs_names host) (hs_panes host) (hs_panesErr host = None)
      | Some record \<Rightarrow>
          Some (buildProvenance (src_letterOrDigit S) record (hs_names host) (hs_panes host) (hs_panesErr host = None)))"

definition withTask :: "Task \<Rightarrow> Provenance \<Rightarrow> Provenance" where
  "withTask task p = p\<lparr>pv_TaskName := task_Name task, pv_TaskPath := task_Path task,
     pv_GoalName := task_GoalName task, pv_GoalPath := task_GoalPath task,
     pv_TopicName := task_TopicName task, pv_TopicPath := task_TopicPath task,
     pv_ProductionTouching := task_ProductionTouching task\<rparr>"

text \<open>The read-modify-write of the blocks after the pane: a fact that is there changes the entry, or makes
  one; a fact that is not leaves it.\<close>

definition modifyEntry :: "bool \<Rightarrow> (Provenance \<Rightarrow> Provenance) \<Rightarrow> Provenance option \<Rightarrow> Provenance option" where
  "modifyEntry there f entry =
     (if there then Some (f (case entry of None \<Rightarrow> noProvenance | Some p \<Rightarrow> p)) else entry)"

definition itemEntry ::
  "Task option \<Rightarrow> string option \<Rightarrow> bool \<Rightarrow> bool \<Rightarrow> Provenance option \<Rightarrow> Provenance option" where
  "itemEntry task name headless uncovered entry =
     (let entry = modifyEntry (task \<noteq> None) (withTask (the task)) entry;
          entry = modifyEntry (name \<noteq> None) (\<lambda>p. p\<lparr>pv_SessionName := the name\<rparr>) entry;
          entry = modifyEntry headless (\<lambda>p. p\<lparr>pv_Headless := True\<rparr>) entry
      in modifyEntry uncovered (\<lambda>p. p\<lparr>pv_Uncovered := True\<rparr>) entry)"

record 't resolveState =
  rs_logs :: producerLogs
  rs_byProducer :: "string \<rightharpoonup> eventMap"
  rs_tasks :: 't
  rs_resolved :: "ItemID \<rightharpoonup> Provenance"

definition resolveItem ::
  "runtime \<Rightarrow> 't provenanceSources \<Rightarrow> hostState \<Rightarrow> (ItemID \<Rightarrow> bool) \<Rightarrow> Item \<Rightarrow> 't resolveState \<Rightarrow> 't resolveState" where
  "resolveItem R S host uncovered item st =
     (case eventsFor R S (ProducerID item) (rs_logs st, rs_byProducer st) of
        ((logs, byProducer), events) \<Rightarrow>
          (case lookupTask S item (rs_tasks st) of
             (tasks, task) \<Rightarrow>
               (let entry = (case paneProvenance S host item events of
                               Some p \<Rightarrow> Some p | None \<Rightarrow> rs_resolved st (ItemID item))
                in \<lparr>rs_logs = logs, rs_byProducer = byProducer, rs_tasks = tasks,
                    rs_resolved = (rs_resolved st)(ItemID item :=
                      itemEntry task (sessionNameFor item (hs_names host))
                        (hs_modes host (sessionIDFromItem item) = Some headlessSessionMode)
                        (uncovered (ItemID item)) entry)\<rparr>)))"

text \<open>The whole page, on a host state that was served or read.\<close>

definition Resolve ::
  "runtime \<Rightarrow> 't provenanceSources \<Rightarrow> hostState \<Rightarrow> Item list \<Rightarrow> producerLogs \<times> 't \<Rightarrow>
   (producerLogs \<times> 't) \<times> (ItemID \<rightharpoonup> Provenance)" where
  "Resolve R S host items st =
     (if items = [] then (st, Map.empty)
      else (case uncoveredItems S items (hs_names host) (snd st) of
              (tasks, uncovered) \<Rightarrow>
                if ctxErr R \<noteq> None then ((fst st, tasks), Map.empty)
                else (let final = fold (resolveItem R S host uncovered) items
                        \<lparr>rs_logs = fst st, rs_byProducer = Map.empty, rs_tasks = tasks, rs_resolved = Map.empty\<rparr>
                      in ((rs_logs final, rs_tasks final), rs_resolved final))))"

end
