(* ===== verification/ProvenanceLaws.thy ===== *)
theory ProvenanceLaws
  imports Provenance
begin

text \<open>
  What a resolved page says, fact by fact, and the refreshes of the host state.
\<close>

section \<open>The session an item names\<close>

text \<open>The three forms of a liveness reference: a session, an owner's session, a heartbeat file named for the
  session.\<close>

definition namesSession :: "Item \<Rightarrow> string \<Rightarrow> bool" where
  "namesSession item sid \<longleftrightarrow>
     (\<exists>v. (LivenessRef item = ''session:'' @ v \<or> LivenessRef item = ''owner:'' @ v) \<and> sid = TrimSpace v) \<or>
     (\<exists>path. LivenessRef item = ''heartbeat:'' @ path \<and> sid = pathBase (TrimSpace path))"

lemma namesSession_id: "namesSession item sid \<Longrightarrow> sessionIDFromItem item = sid"
  by (auto simp: namesSession_def sessionIDFromItem_def cutPrefix_def hasPrefix_def sessionLivenessPrefix_def
      ownerLivenessPrefix_def heartbeatLivenessPrefix_def Let_def)

section \<open>Pane claims\<close>

lemma Itoa_nonempty [simp]: "Itoa n \<noteq> []"
proof -
  have "padDigits k x \<noteq> []" if "0 < k" for k x using that by (cases k) simp_all
  moreover have "0 < max 0 (decLen k)" for k by (subst decLen.simps) simp
  ultimately show ?thesis by (simp add: Itoa_def appendInt_def Let_def del: max_0L)
qed

text \<open>A pane shown, a recorded pane that could not be confirmed, and no pane.\<close>

definition showsPane :: "int \<Rightarrow> Provenance \<Rightarrow> bool" where
  "showsPane paneID p \<longleftrightarrow> pv_Pane p = Itoa paneID \<and> pv_PaneRecorded p \<and> pv_Routable p \<and>
     \<not> pv_PaneListingUnreadable p \<and> pv_RecordedPane p = []"

definition hidesPane :: "bool \<Rightarrow> bool \<Rightarrow> string \<Rightarrow> Provenance \<Rightarrow> bool" where
  "hidesPane recorded unreadable recordedPane p \<longleftrightarrow> pv_Pane p = [] \<and> \<not> pv_Routable p \<and>
     pv_PaneRecorded p = recorded \<and> pv_PaneListingUnreadable p = unreadable \<and> pv_RecordedPane p = recordedPane"

text \<open>A live pane a session may claim: one whose title is its name or says nothing, any when the session has
  no name.\<close>

definition claimable :: "'t provenanceSources \<Rightarrow> hostState \<Rightarrow> string \<Rightarrow> int \<Rightarrow> bool" where
  "claimable S host sid paneID \<longleftrightarrow>
     (\<exists>pane. map_of (hs_panes host) paneID = Some pane \<and>
        (nameIn (hs_names host) sid = [] \<or>
         StripStatusGlyph (src_letterOrDigit S) (pane_Title pane) \<in>
           {[], StripStatusGlyph (src_letterOrDigit S) (nameIn (hs_names host) sid)}))"

text \<open>A live pane that has the name of a session.\<close>

definition titledFor :: "'t provenanceSources \<Rightarrow> hostState \<Rightarrow> string \<Rightarrow> int \<Rightarrow> bool" where
  "titledFor S host sid paneID \<longleftrightarrow> sid \<noteq> [] \<and> nameIn (hs_names host) sid \<noteq> [] \<and>
     (\<exists>pane. map_of (hs_panes host) paneID = Some pane \<and>
        StripStatusGlyph (src_letterOrDigit S) (pane_Title pane) =
          StripStatusGlyph (src_letterOrDigit S) (nameIn (hs_names host) sid))"

lemma OwnsPane_claimable:
  "OwnsPane (src_letterOrDigit S) (hs_panes host) paneID (nameIn (hs_names host) sid) = claimable S host sid paneID"
  by (auto simp: OwnsPane_def claimable_def Let_def split: option.split)

text \<open>The facts of an event record, and those of an item without one.\<close>

definition recordFacts :: "'t provenanceSources \<Rightarrow> hostState \<Rightarrow> eventRecord \<Rightarrow> Provenance \<Rightarrow> bool" where
  "recordFacts S host r p \<longleftrightarrow>
     pv_Host p = ev_Host r \<and> pv_Cwd p = ev_Cwd r \<and> pv_Tool p = ev_ToolName r \<and>
     (case Atoi (TrimSpace (ev_Pane r)) of
        None \<Rightarrow> hidesPane False False [] p
      | Some paneID \<Rightarrow>
          if hs_panesErr host \<noteq> None then hidesPane True True (Itoa paneID) p
          else if claimable S host (ev_SessionID r) paneID then showsPane paneID p
          else hidesPane True False [] p)"

definition nameFacts :: "'t provenanceSources \<Rightarrow> hostState \<Rightarrow> string \<Rightarrow> Provenance \<Rightarrow> bool" where
  "nameFacts S host sid p \<longleftrightarrow> pv_Host p = [] \<and> pv_Cwd p = [] \<and> pv_Tool p = [] \<and>
     (if hs_panesErr host = None \<and> (\<exists>paneID. titledFor S host sid paneID)
      then \<exists>paneID. titledFor S host sid paneID \<and> showsPane paneID p
      else hidesPane False False [] p)"

text \<open>The facts of the task of a session, if it has one.\<close>

definition taskFacts :: "Task option \<Rightarrow> Provenance \<Rightarrow> bool" where
  "taskFacts task p \<longleftrightarrow>
     (case task of
        None \<Rightarrow> pv_TaskName p = [] \<and> pv_TaskPath p = [] \<and> pv_GoalName p = [] \<and> pv_GoalPath p = [] \<and>
          pv_TopicName p = [] \<and> pv_TopicPath p = [] \<and> \<not> pv_ProductionTouching p
      | Some t \<Rightarrow> pv_TaskName p = task_Name t \<and> pv_TaskPath p = task_Path t \<and>
          pv_GoalName p = task_GoalName t \<and> pv_GoalPath p = task_GoalPath t \<and>
          pv_TopicName p = task_TopicName t \<and> pv_TopicPath p = task_TopicPath t \<and>
          pv_ProductionTouching p = task_ProductionTouching t)"

text \<open>Every field of an entry: those of the record, or of the name when there is none; those of the task; the
  name the user gave the session; the mode; the verdict of the coverage.\<close>

definition provenFor ::
  "'t provenanceSources \<Rightarrow> hostState \<Rightarrow> eventMap \<Rightarrow> Task option \<Rightarrow> (string \<Rightarrow> bool) \<Rightarrow> Item \<Rightarrow> string \<Rightarrow>
   Provenance \<Rightarrow> bool" where
  "provenFor S host events task verdicts item sid p \<longleftrightarrow>
     (case events (DedupKey item) of Some r \<Rightarrow> recordFacts S host r p | None \<Rightarrow> nameFacts S host sid p) \<and>
     taskFacts task p \<and>
     pv_SessionName p = (case hs_names host sid of
         Some n \<Rightarrow> if sid \<noteq> [] \<and> sn_Source n = ''user'' then sn_Name n else [] | None \<Rightarrow> []) \<and>
     (pv_Headless p \<longleftrightarrow> hs_modes host sid = Some ''headless'') \<and>
     (pv_Uncovered p \<longleftrightarrow> ProducerKind item = ''session'' \<and> sid \<noteq> [] \<and> verdicts sid)"

section \<open>One entry\<close>

definition entryAt :: "(ItemID \<rightharpoonup> Provenance) \<Rightarrow> Item \<Rightarrow> Provenance" where
  "entryAt m item = (case m (ItemID item) of None \<Rightarrow> noProvenance | Some p \<Rightarrow> p)"

text \<open>What the pane branches leave alone, and what the later blocks leave alone.\<close>

definition plain :: "Provenance \<Rightarrow> bool" where
  "plain p \<longleftrightarrow> \<not> pv_Headless p \<and> \<not> pv_Uncovered p \<and> pv_SessionName p = [] \<and> taskFacts None p"

definition paneFields ::
  "Provenance \<Rightarrow> string \<times> string \<times> string \<times> string \<times> bool \<times> bool \<times> bool \<times> string" where
  "paneFields p = (pv_Host p, pv_Cwd p, pv_Tool p, pv_Pane p, pv_PaneRecorded p, pv_Routable p,
     pv_PaneListingUnreadable p, pv_RecordedPane p)"

lemma paneFields_facts:
  assumes "paneFields p = paneFields q"
  shows "recordFacts S host r p = recordFacts S host r q" and "nameFacts S host sid p = nameFacts S host sid q"
proof -
  have "hidesPane a b c p = hidesPane a b c q" "showsPane k p = showsPane k q" for a b c k
    using assms by (simp_all add: hidesPane_def showsPane_def paneFields_def)
  moreover have "pv_Host p = pv_Host q" "pv_Cwd p = pv_Cwd q" "pv_Tool p = pv_Tool q"
    using assms by (simp_all add: paneFields_def)
  ultimately show "recordFacts S host r p = recordFacts S host r q" "nameFacts S host sid p = nameFacts S host sid q"
    unfolding recordFacts_def nameFacts_def by (simp_all only:)
qed

lemma paneProvenance_plain: "paneProvenance S host item events = Some p \<Longrightarrow> plain p"
  by (auto simp: paneProvenance_def resolveByName_def buildProvenance_def plain_def taskFacts_def noProvenance_def Let_def
      split: option.splits if_splits)

lemma itemEntry_fields:
  assumes "p = (case itemEntry task name headless unc entry of None \<Rightarrow> noProvenance | Some p \<Rightarrow> p)"
    and "q = (case entry of None \<Rightarrow> noProvenance | Some p \<Rightarrow> p)" and "plain q"
  shows "paneFields p = paneFields q \<and> taskFacts task p \<and> pv_SessionName p = (case name of None \<Rightarrow> [] | Some n \<Rightarrow> n) \<and>
    pv_Headless p = headless \<and> pv_Uncovered p = unc"
proof -
  define put where "put = (\<lambda>b (f :: Provenance \<Rightarrow> Provenance) p. if b then f p else p)"
  have step: "(case modifyEntry b f e of None \<Rightarrow> noProvenance | Some p \<Rightarrow> p) =
      put b f (case e of None \<Rightarrow> noProvenance | Some p \<Rightarrow> p)" for b f e
    by (simp add: modifyEntry_def put_def)
  have "p = put unc (\<lambda>p. p\<lparr>pv_Uncovered := True\<rparr>) (put headless (\<lambda>p. p\<lparr>pv_Headless := True\<rparr>)
     (put (name \<noteq> None) (\<lambda>p. p\<lparr>pv_SessionName := the name\<rparr>) (put (task \<noteq> None) (withTask (the task)) q)))"
    by (simp add: assms(1,2) itemEntry_def Let_def step)
  then show ?thesis using assms(3)
    by (cases task; cases name; cases headless; cases unc;
        simp add: put_def plain_def taskFacts_def withTask_def paneFields_def)
qed

lemma build_facts:
  "recordFacts S host r (buildProvenance (src_letterOrDigit S) r (hs_names host) (hs_panes host) (hs_panesErr host = None))"
  by (simp add: recordFacts_def buildProvenance_def OwnsPane_claimable hidesPane_def showsPane_def noProvenance_def Let_def
      split: option.split)

lemma resolveByName_facts:
  assumes "distinct (map fst (hs_panes host))" and "sessionIDFromItem item = sid"
  shows "nameFacts S host sid (case resolveByName (src_letterOrDigit S) item (hs_names host) (hs_panes host)
    (hs_panesErr host = None) of None \<Rightarrow> noProvenance | Some p \<Rightarrow> p)"
proof -
  let ?l = "src_letterOrDigit S"
  let ?P = "\<lambda>(paneID, pane). StripStatusGlyph ?l (pane_Title pane) = StripStatusGlyph ?l (nameIn (hs_names host) sid) \<and>
      claimable S host sid paneID"
  have none: "nameFacts S host sid noProvenance" if "\<And>paneID. hs_panesErr host = None \<Longrightarrow> \<not> titledFor S host sid paneID"
    using that by (auto simp: nameFacts_def hidesPane_def noProvenance_def)
  show ?thesis
  proof (cases "hs_panesErr host = None \<and> sid \<noteq> [] \<and> nameIn (hs_names host) sid \<noteq> []")
    case False
    then have "nameFacts S host sid noProvenance" using none by (auto simp: titledFor_def)
    then show ?thesis using False assms(2) by (auto simp: resolveByName_def Let_def)
  next
    case True
    then have res: "resolveByName ?l item (hs_names host) (hs_panes host) (hs_panesErr host = None) =
      (case find ?P (hs_panes host) of None \<Rightarrow> None | Some (paneID, _) \<Rightarrow>
         Some (noProvenance\<lparr>pv_Pane := Itoa paneID, pv_PaneRecorded := True, pv_Routable := True\<rparr>))"
      by (simp add: resolveByName_def OwnsPane_claimable assms(2) Let_def)
    show ?thesis
    proof (cases "find ?P (hs_panes host)")
      case None
      have "\<not> titledFor S host sid paneID" for paneID
        using None by (auto simp: find_None_iff titledFor_def claimable_def dest!: map_of_SomeD)
          (metis (no_types, lifting) None assms(1) find_None_iff map_of_is_SomeI)
      then show ?thesis using none by (simp add: res None)
    next
      case (Some found)
      obtain paneID pane where found: "found = (paneID, pane)" by (cases found)
      then have "?P (paneID, pane)" "(paneID, pane) \<in> set (hs_panes host)"
        using Some by (auto simp: find_Some_iff in_set_conv_nth)
      then have "titledFor S host sid paneID" using True assms(1) by (auto simp: titledFor_def)
      then show ?thesis unfolding res Some found using True
        by (auto simp: nameFacts_def showsPane_def noProvenance_def)
    qed
  qed
qed

lemma paneProvenance_facts:
  assumes "distinct (map fst (hs_panes host))" and "sessionIDFromItem item = sid"
    and "q = (case paneProvenance S host item events of None \<Rightarrow> noProvenance | Some p \<Rightarrow> p)"
  shows "case events (DedupKey item) of Some r \<Rightarrow> recordFacts S host r q | None \<Rightarrow> nameFacts S host sid q"
proof (cases "events (DedupKey item)")
  case None
  then show ?thesis using resolveByName_facts[OF assms(1,2), of S] by (simp add: assms(3) paneProvenance_def)
next
  case (Some r)
  then show ?thesis using build_facts[of S host r] by (simp add: assms(3) paneProvenance_def)
qed

text \<open>The coverage of a page: the sessions of its items, and the verdict on each.\<close>

definition pageCoverage ::
  "'t provenanceSources \<Rightarrow> hostState \<Rightarrow> Item list \<Rightarrow> 't \<Rightarrow> 't \<Rightarrow> (string \<Rightarrow> bool) \<Rightarrow> bool" where
  "pageCoverage S host items t t' verdicts \<longleftrightarrow>
     (case src_coverage S of
        None \<Rightarrow> t' = t \<and> verdicts = (\<lambda>_. False)
      | Some cover \<Rightarrow> \<exists>asked. cover (map_option sn_Name \<circ> hs_names host) asked t = (t', verdicts) \<and>
          set asked = {sid. sid \<noteq> [] \<and> (\<exists>item \<in> set items. ProducerKind item = ''session'' \<and> namesSession item sid)})"

lemma map_of_asked:
  assumes "distinct (map ItemID items)" and "item \<in> set items"
  shows "map_of (rev (askedSessions items)) (ItemID item) =
    (if ProducerKind item = ''session'' \<and> sessionIDFromItem item \<noteq> [] then Some (sessionIDFromItem item) else None)"
proof -
  let ?P = "\<lambda>item. ProducerKind item = ''session'' \<and> sessionIDFromItem item \<noteq> []"
  have keys: "map fst (askedSessions items) = map ItemID (filter ?P items)"
    by (simp add: askedSessions_def SessionProducerKind_def o_def)
  have dist: "distinct (map fst (rev (askedSessions items)))"
    using assms(1) by (simp add: keys distinct_map_filter rev_map[symmetric])
  have mem: "(k, sid) \<in> set (rev (askedSessions items)) \<longleftrightarrow>
      (\<exists>j \<in> set items. ?P j \<and> k = ItemID j \<and> sid = sessionIDFromItem j)" for k sid
    by (auto simp: askedSessions_def SessionProducerKind_def)
  have same: "j = item" if "j \<in> set items" "ItemID j = ItemID item" for j
    using assms that by (auto simp: distinct_map dest: inj_onD)
  show ?thesis
  proof (cases "?P item")
    case True
    then show ?thesis using mem assms(2) dist by (auto intro!: map_of_is_SomeI)
  next
    case False
    then have "ItemID item \<notin> fst ` set (rev (askedSessions items))" using mem same by fastforce
    then have "map_of (rev (askedSessions items)) (ItemID item) = None" by (simp add: map_of_eq_None_iff)
    then show ?thesis using False by auto
  qed
qed

lemma uncoveredItems_coverage:
  assumes "distinct (map ItemID items)" and "\<forall>item \<in> set items. \<exists>sid. namesSession item sid"
    and "uncoveredItems S items (hs_names host) t = (t', uncovered)"
  shows "\<exists>verdicts. pageCoverage S host items t t' verdicts \<and>
    (\<forall>item \<in> set items. \<forall>sid. namesSession item sid \<longrightarrow>
       uncovered (ItemID item) = (ProducerKind item = ''session'' \<and> sid \<noteq> [] \<and> verdicts sid))"
proof (cases "src_coverage S")
  case None
  then show ?thesis using assms(3) by (auto simp: uncoveredItems_def pageCoverage_def)
next
  case (Some cover)
  obtain verdicts where cov: "cover (map_option sn_Name \<circ> hs_names host) (map snd (askedSessions items)) t = (t', verdicts)"
    using assms(3) Some by (auto simp: uncoveredItems_def Let_def split: prod.splits)
  then have unc: "uncovered = (\<lambda>itemID. case map_of (rev (askedSessions items)) itemID of None \<Rightarrow> False | Some sid \<Rightarrow> verdicts sid)"
    using assms(3) Some by (simp add: uncoveredItems_def Let_def)
  have asked: "set (map snd (askedSessions items)) =
      {sid. sid \<noteq> [] \<and> (\<exists>item \<in> set items. ProducerKind item = ''session'' \<and> namesSession item sid)}"
    using assms(2) namesSession_id by (fastforce simp: askedSessions_def SessionProducerKind_def)
  have "pageCoverage S host items t t' verdicts" unfolding pageCoverage_def using Some cov asked by (auto simp del: set_map)
  moreover have "uncovered (ItemID item) = (ProducerKind item = ''session'' \<and> sid \<noteq> [] \<and> verdicts sid)"
    if "item \<in> set items" "namesSession item sid" for item sid
    using map_of_asked[OF assms(1) that(1)] namesSession_id[OF that(2)] by (simp add: unc)
  ultimately show ?thesis by blast
qed

section \<open>The page\<close>

text \<open>The states a page goes through: the event logs of its items' producers are read, the tasks of its items'
  sessions looked up.\<close>

inductive pageReads ::
  "runtime \<Rightarrow> 't provenanceSources \<Rightarrow> Item list \<Rightarrow> producerLogs \<times> 't \<Rightarrow> producerLogs \<times> 't \<Rightarrow> bool"
  for R :: runtime and S :: "'t provenanceSources" and items :: "Item list" and st0 :: "producerLogs \<times> 't" where
  start: "pageReads R S items st0 st0"
| readLog: "pageReads R S items st0 (logs, t) \<Longrightarrow> item \<in> set items \<Longrightarrow>
    pageReads R S items st0
      (fst (readEventsForProducer R (src_decode S) (src_files S (ProducerID item)) (ProducerID item) logs), t)"
| lookedUp: "pageReads R S items st0 (logs, t) \<Longrightarrow> src_lookup S = Some lookup \<Longrightarrow> item \<in> set items \<Longrightarrow>
    namesSession item sid \<Longrightarrow> sid \<noteq> [] \<Longrightarrow> pageReads R S items st0 (logs, fst (lookup sid t))"

definition eventsOn ::
  "runtime \<Rightarrow> 't provenanceSources \<Rightarrow> Item list \<Rightarrow> producerLogs \<times> 't \<Rightarrow> string \<Rightarrow> eventMap \<Rightarrow> bool" where
  "eventsOn R S items st0 k events \<longleftrightarrow>
     (\<exists>logs t. pageReads R S items st0 (logs, t) \<and>
        events = snd (readEventsForProducer R (src_decode S) (src_files S k) k logs))"

definition taskOn ::
  "runtime \<Rightarrow> 't provenanceSources \<Rightarrow> Item list \<Rightarrow> producerLogs \<times> 't \<Rightarrow> string \<Rightarrow> Task option \<Rightarrow> bool" where
  "taskOn R S items st0 sid task \<longleftrightarrow>
     (case src_lookup S of
        None \<Rightarrow> task = None
      | Some lookup \<Rightarrow>
          if sid = [] then task = None
          else (\<exists>logs t. pageReads R S items st0 (logs, t) \<and> task = snd (lookup sid t)))"

text \<open>An entry that says of its item what the sources say.\<close>

definition provenOn ::
  "runtime \<Rightarrow> 't provenanceSources \<Rightarrow> hostState \<Rightarrow> Item list \<Rightarrow> producerLogs \<times> 't \<Rightarrow> (string \<Rightarrow> bool) \<Rightarrow> Item \<Rightarrow>
   Provenance \<Rightarrow> bool" where
  "provenOn R S host items st0 verdicts item p \<longleftrightarrow>
     (\<exists>sid events task. namesSession item sid \<and> eventsOn R S items st0 (ProducerID item) events \<and>
        taskOn R S items st0 sid task \<and> provenFor S host events task verdicts item sid p)"

definition loopInv ::
  "runtime \<Rightarrow> 't provenanceSources \<Rightarrow> Item list \<Rightarrow> producerLogs \<times> 't \<Rightarrow> 't resolveState \<Rightarrow> bool" where
  "loopInv R S items st0 st \<longleftrightarrow> pageReads R S items st0 (rs_logs st, rs_tasks st) \<and>
     (\<forall>k events. rs_byProducer st k = Some events \<longrightarrow> eventsOn R S items st0 k events)"

lemma eventsFor_inv:
  assumes "pageReads R S items st0 (logs, t)" and "\<forall>k events. by k = Some events \<longrightarrow> eventsOn R S items st0 k events"
    and "item \<in> set items" and "eventsFor R S (ProducerID item) (logs, by) = ((logs', by'), events)"
  shows "pageReads R S items st0 (logs', t) \<and> eventsOn R S items st0 (ProducerID item) events \<and>
    (\<forall>k events. by' k = Some events \<longrightarrow> eventsOn R S items st0 k events)"
proof (cases "by (ProducerID item)")
  case None
  let ?read = "readEventsForProducer R (src_decode S) (src_files S (ProducerID item)) (ProducerID item) logs"
  have new: "logs' = fst ?read" "events = snd ?read" "by' = by(ProducerID item \<mapsto> snd ?read)"
    using assms(4) None by (auto simp: eventsFor_def split: prod.splits)
  then have "eventsOn R S items st0 (ProducerID item) events" using assms(1) unfolding eventsOn_def by blast
  then show ?thesis using pageReads.readLog[OF assms(1,3)] assms(2) new by auto
next
  case (Some read)
  then have "logs' = logs" "events = read" "by' = by" using assms(4) by (simp_all add: eventsFor_def)
  then show ?thesis using assms(1,2) Some by simp
qed

lemma lookupTask_inv:
  assumes "pageReads R S items st0 (logs, t)" and "item \<in> set items" and "namesSession item sid"
    and "lookupTask S item t = (t', task)"
  shows "pageReads R S items st0 (logs, t') \<and> taskOn R S items st0 sid task"
proof (cases "src_lookup S = None \<or> sid = []")
  case True
  then show ?thesis using assms(1,4) namesSession_id[OF assms(3)]
    by (auto simp: lookupTask_def taskOn_def split: option.splits)
next
  case False
  then obtain lookup where lk: "src_lookup S = Some lookup" "sid \<noteq> []" by auto
  then have new: "t' = fst (lookup sid t)" "task = snd (lookup sid t)"
    using assms(4) namesSession_id[OF assms(3)] by (simp_all add: lookupTask_def)
  then have "taskOn R S items st0 sid task" using lk assms(1) by (auto simp: taskOn_def)
  then show ?thesis using pageReads.lookedUp[OF assms(1) lk(1) assms(2,3) lk(2)] new by simp
qed

lemma resolveItem_proven:
  assumes inv: "loopInv R S items st0 st" and item: "item \<in> set items" and fresh: "rs_resolved st (ItemID item) = None"
    and sid: "namesSession item sid" and listing: "distinct (map fst (hs_panes host))"
    and unc: "uncovered (ItemID item) = (ProducerKind item = ''session'' \<and> sid \<noteq> [] \<and> verdicts sid)"
  shows "loopInv R S items st0 (resolveItem R S host uncovered item st) \<and>
    provenOn R S host items st0 verdicts item (entryAt (rs_resolved (resolveItem R S host uncovered item st)) item) \<and>
    (\<forall>k. k \<noteq> ItemID item \<longrightarrow> rs_resolved (resolveItem R S host uncovered item st) k = rs_resolved st k)"
proof -
  obtain logs by' events where ev: "eventsFor R S (ProducerID item) (rs_logs st, rs_byProducer st) = ((logs, by'), events)"
    by (metis prod.exhaust)
  obtain tasks task where task: "lookupTask S item (rs_tasks st) = (tasks, task)" by (metis prod.exhaust)
  have read: "pageReads R S items st0 (logs, rs_tasks st)" "eventsOn R S items st0 (ProducerID item) events"
    "\<forall>k events. by' k = Some events \<longrightarrow> eventsOn R S items st0 k events"
    using eventsFor_inv[OF _ _ item ev, of st0 "rs_tasks st"] inv by (auto simp: loopInv_def)
  note looked = lookupTask_inv[OF read(1) item sid task]
  define entry where "entry = paneProvenance S host item events"
  define q where "q = (case entry of None \<Rightarrow> noProvenance | Some p \<Rightarrow> p)"
  have plain: "plain q"
  proof (cases entry)
    case None
    then show ?thesis by (simp add: q_def plain_def taskFacts_def noProvenance_def)
  next
    case (Some p)
    then show ?thesis using paneProvenance_plain[of S host item events p] by (simp add: q_def entry_def)
  qed
  have named: "sessionIDFromItem item = sid" by (rule namesSession_id[OF sid])
  let ?st = "resolveItem R S host uncovered item st"
  have st: "rs_logs ?st = logs" "rs_byProducer ?st = by'" "rs_tasks ?st = tasks"
    "rs_resolved ?st = (rs_resolved st)(ItemID item := itemEntry task (sessionNameFor item (hs_names host))
        (hs_modes host sid = Some headlessSessionMode) (uncovered (ItemID item)) entry)"
    using fresh by (simp_all add: resolveItem_def ev task entry_def named Let_def split: option.split)
  have fields: "paneFields (entryAt (rs_resolved ?st) item) = paneFields q"
    "taskFacts task (entryAt (rs_resolved ?st) item)"
    "pv_SessionName (entryAt (rs_resolved ?st) item) = (case sessionNameFor item (hs_names host) of None \<Rightarrow> [] | Some n \<Rightarrow> n)"
    "pv_Headless (entryAt (rs_resolved ?st) item) = (hs_modes host sid = Some headlessSessionMode)"
    "pv_Uncovered (entryAt (rs_resolved ?st) item) = uncovered (ItemID item)"
    using itemEntry_fields[where p = "entryAt (rs_resolved ?st) item" and task = task
        and name = "sessionNameFor item (hs_names host)" and headless = "hs_modes host sid = Some headlessSessionMode"
        and unc = "uncovered (ItemID item)", OF _ q_def plain]
    by (simp_all add: entryAt_def st(4))
  have "provenFor S host events task verdicts item sid (entryAt (rs_resolved ?st) item)"
    unfolding provenFor_def paneFields_facts[OF fields(1)]
    using paneProvenance_facts[OF listing named q_def[unfolded entry_def]] fields(2-) unc
    by (auto simp: sessionNameFor_def named sessionNameSourceUser_def headlessSessionMode_def Let_def split: option.splits)
  then show ?thesis using sid read looked unfolding provenOn_def loopInv_def st by auto
qed

lemma resolve_fold:
  assumes "distinct (map ItemID todo)" and "set todo \<subseteq> set items" and "loopInv R S items st0 st"
    and "\<forall>item \<in> set todo. rs_resolved st (ItemID item) = None" and "distinct (map fst (hs_panes host))"
    and "\<forall>item \<in> set todo. \<exists>sid. namesSession item sid \<and>
      uncovered (ItemID item) = (ProducerKind item = ''session'' \<and> sid \<noteq> [] \<and> verdicts sid)"
  shows "(\<forall>item \<in> set todo. provenOn R S host items st0 verdicts item
      (entryAt (rs_resolved (fold (resolveItem R S host uncovered) todo st)) item)) \<and>
    (\<forall>k. k \<notin> ItemID ` set todo \<longrightarrow> rs_resolved (fold (resolveItem R S host uncovered) todo st) k = rs_resolved st k)"
  using assms
proof (induction todo arbitrary: st)
  case (Cons item todo)
  obtain sid where sid: "namesSession item sid"
    "uncovered (ItemID item) = (ProducerKind item = ''session'' \<and> sid \<noteq> [] \<and> verdicts sid)"
    using Cons.prems(6) by auto
  let ?st = "resolveItem R S host uncovered item st"
  have step: "loopInv R S items st0 ?st" "provenOn R S host items st0 verdicts item (entryAt (rs_resolved ?st) item)"
    "\<forall>k. k \<noteq> ItemID item \<longrightarrow> rs_resolved ?st k = rs_resolved st k"
    using resolveItem_proven[where uncovered = uncovered and verdicts = verdicts,
        OF Cons.prems(3) _ _ sid(1) Cons.prems(5) sid(2)] Cons.prems(2,4) by simp_all
  have other: "ItemID item \<notin> ItemID ` set todo" using Cons.prems(1) by simp
  have "\<forall>j \<in> set todo. rs_resolved ?st (ItemID j) = None"
    using Cons.prems(4) step(3) other by (metis image_eqI list.set_intros(2))
  then have rest: "\<forall>j \<in> set todo. provenOn R S host items st0 verdicts j
      (entryAt (rs_resolved (fold (resolveItem R S host uncovered) todo ?st)) j)"
    "\<forall>k. k \<notin> ItemID ` set todo \<longrightarrow> rs_resolved (fold (resolveItem R S host uncovered) todo ?st) k = rs_resolved ?st k"
    using Cons.IH[OF _ _ step(1) _ Cons.prems(5)] Cons.prems(1,2,6) by simp_all
  then show ?case using step(2,3) other by (auto simp: entryAt_def)
qed simp

lemma Resolve_proven:
  assumes "distinct (map ItemID items)" and "\<forall>item \<in> set items. \<exists>sid. namesSession item sid"
    and "distinct (map fst (hs_panes host))" and "Resolve R S host items (logs, t) = (st', found)"
    and "ctxErr R = None"
  shows "\<exists>t' verdicts. pageCoverage S host items t t' verdicts \<and>
    (\<forall>item \<in> set items. provenOn R S host items (logs, t') verdicts item (entryAt found item)) \<and>
    dom found \<subseteq> ItemID ` set items"
proof -
  obtain t' uncovered where unc: "uncoveredItems S items (hs_names host) t = (t', uncovered)" by (metis prod.exhaust)
  obtain verdicts where cov: "pageCoverage S host items t t' verdicts"
    "\<forall>item \<in> set items. \<forall>sid. namesSession item sid \<longrightarrow>
       uncovered (ItemID item) = (ProducerKind item = ''session'' \<and> sid \<noteq> [] \<and> verdicts sid)"
    using uncoveredItems_coverage[OF assms(1,2) unc] by blast
  show ?thesis
  proof (cases "items = []")
    case True
    then show ?thesis using assms(4) cov(1) by (auto simp: Resolve_def)
  next
    case False
    let ?st = "\<lparr>rs_logs = logs, rs_byProducer = Map.empty, rs_tasks = t', rs_resolved = Map.empty\<rparr>"
    have res: "found = rs_resolved (fold (resolveItem R S host uncovered) items ?st)"
      using assms(4,5) False by (simp add: Resolve_def unc Let_def)
    have "loopInv R S items (logs, t') ?st" by (simp add: loopInv_def pageReads.start)
    moreover have "\<forall>item \<in> set items. \<exists>sid. namesSession item sid \<and>
        uncovered (ItemID item) = (ProducerKind item = ''session'' \<and> sid \<noteq> [] \<and> verdicts sid)"
      using assms(2) cov(2) by blast
    ultimately have "(\<forall>item \<in> set items. provenOn R S host items (logs, t') verdicts item (entryAt found item)) \<and>
        (\<forall>k. k \<notin> ItemID ` set items \<longrightarrow> found k = None)"
      using resolve_fold[OF assms(1) subset_refl _ _ assms(3), of R S "(logs, t')" ?st uncovered verdicts]
      unfolding res by simp
    then have "\<forall>item \<in> set items. provenOn R S host items (logs, t') verdicts item (entryAt found item)"
      and "dom found \<subseteq> ItemID ` set items"
      by (simp, fastforce)
    with cov(1) show ?thesis by metis
  qed
qed

section \<open>Refreshes of the host state\<close>

text \<open>The cache, the refreshes in flight (a background one is marked) and the tokens given out.\<close>

inductive hostRun :: "hostCache \<Rightarrow> (nat \<times> bool) set \<Rightarrow> nat \<Rightarrow> bool" where
  started: "hostRun newHostCache {} 0"
| served: "hostRun c F n \<Longrightarrow> enterHostState now n c = (c', Serve state) \<Longrightarrow> hostRun c' F n"
| refreshing: "hostRun c F n \<Longrightarrow> enterHostState now n c = (c', ServeAndRefresh state) \<Longrightarrow> hostRun c' (insert (n, True) F) (Suc n)"
| waiting: "hostRun c F n \<Longrightarrow> enterHostState now n c = (c', RefreshAndWait) \<Longrightarrow> hostRun c' (insert (n, False) F) (Suc n)"
| published: "hostRun c F n \<Longrightarrow> k \<in> F \<Longrightarrow> hostRun (publishHostState now state c) F n"
| finished: "hostRun c F n \<Longrightarrow> (k, b) \<in> F \<Longrightarrow> hostRun (finishHostRefresh k c) (F - {(k, b)}) n"

lemma hostRun_inv:
  "hostRun c F n \<Longrightarrow> (\<forall>(k, b) \<in> F. k < n) \<and> (\<forall>k. (k, True) \<in> F \<longrightarrow> (k, False) \<notin> F) \<and>
     (\<forall>k. (k, True) \<in> F \<longrightarrow> hc_refreshing c = Some k \<and> hc_cached c \<noteq> None)"
proof (induction rule: hostRun.induct)
  case (finished c F n k b)
  show ?case
  proof (cases b)
    case False
    then show ?thesis using finished by (auto simp: finishHostRefresh_def)
  next
    case True
    then have "hc_refreshing c = Some k" using finished by simp
    then have "x = k" if "(x, True) \<in> F" for x using finished.IH that by auto
    then show ?thesis using finished.IH True by (auto simp: finishHostRefresh_def)
  qed
qed (fastforce simp: newHostCache_def enterHostState_def publishHostState_def split: option.splits if_splits)+

end
