(* ===== verification/EventLogLaws.thy ===== *)
theory EventLogLaws
  imports EventLog
begin

text \<open>
  The incremental reader against the full one: what a log's records are after any sequence of reads of a
  file that only grows is what one scan of the whole file gives.
\<close>

section \<open>Complete lines\<close>

lemma completeLength_le: "completeLength dat \<le> length dat"
  using length_dropWhile_le[of _ "rev dat"] by (simp add: completeLength_def)

lemma completeLength_pos: "newline \<in> set dat \<longleftrightarrow> 0 < completeLength dat"
proof -
  have "dropWhile (\<lambda>c. c \<noteq> newline) (rev dat) = [] \<longleftrightarrow> newline \<notin> set dat"
    by (simp only: dropWhile_eq_Nil_conv set_rev) blast
  then show ?thesis unfolding completeLength_def length_greater_0_conv by blast
qed

text \<open>The complete part ends in a newline and nothing after it holds one.\<close>

lemma complete_split:
  assumes "newline \<in> set dat"
  shows "\<exists>a b. dat = a @ newline # b \<and> newline \<notin> set b \<and> completeLength dat = length a + 1"
proof -
  obtain b a where "rev dat = b @ newline # a" "newline \<notin> set b"
    using split_list_first[of newline "rev dat"] assms by auto
  moreover from this have "dropWhile (\<lambda>c. c \<noteq> newline) (rev dat) = newline # a"
    by (metis (mono_tags, lifting) dropWhile_append3 dropWhile.simps(2) dropWhile_append2)
  ultimately show ?thesis
    by (intro exI[of _ "rev a"] exI[of _ "rev b"]) (simp add: completeLength_def rev_eq_append_conv flip: rev_swap)
qed

lemma completeLength_append:
  "newline \<notin> set b \<Longrightarrow> completeLength (a @ newline # b) = length a + 1"
proof -
  assume "newline \<notin> set b"
  then have "dropWhile (\<lambda>c. c \<noteq> newline) (rev b @ newline # rev a) = newline # rev a"
    by (subst dropWhile_append2) auto
  then show ?thesis by (simp add: completeLength_def)
qed

section \<open>The scan\<close>

text \<open>The records of a text: its complete lines merged in order.\<close>

definition scanInto :: "lineDecoder \<Rightarrow> eventMap \<Rightarrow> string \<Rightarrow> eventMap" where
  "scanInto decode m text = fold (mergeLine decode) (splitAt1 newline (take (completeLength text) text)) m"

definition scanAll :: "lineDecoder \<Rightarrow> string \<Rightarrow> eventMap" where
  "scanAll decode text = scanInto decode Map.empty text"

lemma mergeLine_blank [simp]: "mergeLine decode [] m = m"
  by (simp add: mergeLine_def)

lemma scanInto_torn: "newline \<notin> set dat \<Longrightarrow> scanInto decode m dat = m"
  using completeLength_pos[of dat] by (simp add: scanInto_def)

text \<open>Scanning a text that ends in a newline and then what follows is scanning both.\<close>

lemma scanInto_append:
  "scanInto decode m ((a @ [newline]) @ b) = scanInto decode (scanInto decode m (a @ [newline])) b"
proof -
  have whole: "scanInto decode m (a @ [newline]) = fold (mergeLine decode) (splitAt1 newline a) m"
    using completeLength_append[of "[]" a] by (simp add: scanInto_def splitAt1_append)
  show ?thesis
  proof (cases "newline \<in> set b")
    case True
    then obtain c d where b: "b = c @ newline # d" "newline \<notin> set d" "completeLength b = length c + 1"
      using complete_split by blast
    have len: "completeLength ((a @ [newline]) @ b) = length (a @ newline # c) + 1"
      using completeLength_append[OF b(2), of "a @ newline # c"] by (simp add: b(1))
    have "scanInto decode m ((a @ [newline]) @ b) =
        fold (mergeLine decode) (splitAt1 newline (a @ newline # c @ [newline])) m"
      unfolding scanInto_def len by (simp add: b(1))
    also have "\<dots> = fold (mergeLine decode) (splitAt1 newline (c @ [newline])) (scanInto decode m (a @ [newline]))"
      by (simp add: splitAt1_append whole)
    also have "\<dots> = scanInto decode (scanInto decode m (a @ [newline])) b"
      using b by (simp add: scanInto_def)
    finally show ?thesis .
  next
    case False
    then have "completeLength ((a @ [newline]) @ b) = length a + 1"
      using completeLength_append[of b a] by simp
    then show ?thesis using False whole by (simp add: scanInto_def[of decode m] scanInto_torn splitAt1_append)
  qed
qed

section \<open>A log over a growing file\<close>

text \<open>A log that agrees with a content: its offset is a line start within the content and its records are
  those of the lines before it.\<close>

definition agrees :: "lineDecoder \<Rightarrow> string \<Rightarrow> producerEventLog \<Rightarrow> bool" where
  "agrees decode content log \<longleftrightarrow>
     log_offset log \<le> length content \<and>
     (log_offset log = 0 \<or> content ! (log_offset log - 1) = newline) \<and>
     log_events log = scanAll decode (take (log_offset log) content)"

lemma agrees_empty: "agrees decode content emptyLog"
  by (simp add: agrees_def emptyLog_def scanAll_def scanInto_def completeLength_def)

lemma agrees_append: "agrees decode content log \<Longrightarrow> agrees decode (content @ added) log"
  by (auto simp: agrees_def nth_append)

lemma take_line: "0 < n \<Longrightarrow> n \<le> length s \<Longrightarrow> take n s = take (n - 1) s @ [s ! (n - 1)]"
  by (metis Suc_pred' Suc_le_lessD take_Suc_conv_app_nth)

lemma agrees_scan:
  assumes "agrees decode content log"
  shows "scanAll decode content = scanInto decode (log_events log) (drop (log_offset log) content)"
proof (cases "log_offset log = 0")
  case True
  then show ?thesis
    using assms by (simp add: agrees_def scanAll_def scanInto_def[of _ _ "[]"] completeLength_def[of "[]"])
next
  case False
  let ?a = "take (log_offset log - 1) content"
  have "take (log_offset log) content = ?a @ [newline]"
    using assms False take_line[of "log_offset log" content] by (simp add: agrees_def)
  moreover from this have "content = (?a @ [newline]) @ drop (log_offset log) content"
    by (metis append_take_drop_id)
  ultimately show ?thesis
    using assms scanInto_append[of decode Map.empty ?a "drop (log_offset log) content"]
    by (simp add: agrees_def scanAll_def)
qed

text \<open>A read of a grown file: the reader's size was taken at a content in between.\<close>

lemma readEvents_agrees:
  assumes "agrees decode content log" and "sz = Some n" and "log_offset log \<le> n" and "n \<le> length content"
    and "ctxErr R = None" and "readFrom (log_offset log) = Inr (drop (log_offset log) content)"
    and "read = readEvents R decode sz readFrom log"
  shows "agrees decode content (fst read) \<and> snd read = log_events (fst read) \<and>
    (n \<noteq> log_offset log \<longrightarrow> snd read = scanAll decode content)"
proof (cases "n = log_offset log")
  case True
  then show ?thesis using assms by (simp add: readEvents_def)
next
  case False
  let ?rest = "drop (log_offset log) content" and ?off = "log_offset log"
  have all: "scanAll decode content = scanInto decode (log_events log) ?rest" by (rule agrees_scan[OF assms(1)])
  show ?thesis
  proof (cases "newline \<in> set ?rest")
    case torn: False
    then show ?thesis
      using assms(1-3,6,7) False all by (simp add: readEvents_def readBase_def mergeEventBytes_def scanInto_torn agrees_def Let_def)
  next
    case True
    let ?k = "completeLength ?rest"
    obtain a b where r: "?rest = a @ newline # b" "newline \<notin> set b" "?k = length a + 1"
      using complete_split[OF True] by blast
    have read: "read = (\<lparr>log_offset = ?off + ?k, log_events = scanInto decode (log_events log) ?rest\<rparr>,
        scanInto decode (log_events log) ?rest)"
      using assms(2,3,5-7) False True by (simp add: readEvents_def readBase_def mergeEventBytes_def scanInto_def Let_def)
    have off: "?off \<le> length content" using assms(1) by (simp add: agrees_def)
    have content: "content = take ?off content @ a @ newline # b" using r(1) by (metis append_take_drop_id)
    have "take (?off + ?k) content = take ?off content @ a @ [newline]"
      unfolding take_add using r by simp
    then have c: "take (?off + ?k) content = take ?off content @ a @ [newline]" .
    have "agrees decode (take ?off content @ a @ [newline]) log"
      using assms(1) off by (auto simp: agrees_def nth_append min_absorb2)
    from agrees_scan[OF this]
    have "scanAll decode (take (?off + ?k) content) = scanInto decode (log_events log) (a @ [newline])"
      using off by (simp add: c min_absorb2)
    then have "scanInto decode (log_events log) ?rest = scanAll decode (take (?off + ?k) content)"
      using scanInto_append[of decode "log_events log" a b] r(1,2) by (simp add: scanInto_torn)
    moreover have "content ! (?off + ?k - 1) = newline"
      using off r(3) by (subst content) (simp add: nth_append)
    moreover have "?off + ?k \<le> length content" using off arg_cong[OF r(1), of length] r(3) by simp
    ultimately show ?thesis using read all False by (simp add: agrees_def)
  qed
qed

lemma readEvents_unread:
  "sz = None \<Longrightarrow> readEvents R decode sz readFrom log = (log, log_events log)"
  "readFrom (log_offset log) = Inl e \<Longrightarrow> log_offset log \<le> n \<Longrightarrow>
     readEvents R decode (Some n) readFrom log = (log, log_events log)"
  "readFrom (log_offset log) = Inr [] \<Longrightarrow> log_offset log \<le> n \<Longrightarrow>
     readEvents R decode (Some n) readFrom log = (log, log_events log)"
  "ctxErr R \<noteq> None \<Longrightarrow> readFrom (log_offset log) = Inr dat \<Longrightarrow> log_offset log \<le> n \<Longrightarrow>
     readEvents R decode (Some n) readFrom log = (log, log_events log)"
  by (auto simp: readEvents_def readBase_def mergeEventBytes_def Let_def)

section \<open>Runs\<close>

text \<open>The file grows and is read. A read may find no directory or no file, fail, be cancelled, or see at its
  second look what was appended since its first.\<close>

inductive logRun :: "lineDecoder \<Rightarrow> string \<Rightarrow> producerEventLog \<Rightarrow> bool" for decode where
  fresh: "logRun decode content emptyLog"
| grown: "logRun decode content log \<Longrightarrow> logRun decode (content @ added) log"
| scanned: "logRun decode content log \<Longrightarrow> lf_content f1 \<in> {None, Some content} \<Longrightarrow>
    lf_content f2 \<in> {None, Some (content @ added)} \<Longrightarrow>
    logRun decode (content @ added) (fst (readEvents R decode (reader_Size f1) (reader_ReadFrom f2) log))"

lemma scanned_agrees:
  assumes "agrees decode content log" and "lf_content f1 \<in> {None, Some content}"
    and "lf_content f2 \<in> {None, Some (content @ added)}"
  shows "agrees decode (content @ added) (fst (readEvents R decode (reader_Size f1) (reader_ReadFrom f2) log))"
proof -
  have kept: "agrees decode (content @ added) log" by (rule agrees_append[OF assms(1)])
  have off: "log_offset log \<le> length content" using assms(1) by (simp add: agrees_def)
  show ?thesis
  proof (cases "reader_Size f1")
    case None
    then show ?thesis using kept readEvents_unread(1) by simp
  next
    case (Some n)
    then have n: "n = length content" using assms(2) by (auto simp: reader_Size_def split: if_splits)
    show ?thesis
    proof (cases "reader_ReadFrom f2 (log_offset log)")
      case (Inl e)
      then show ?thesis using kept readEvents_unread(2) off n Some by simp
    next
      case (Inr dat)
      then have dat: "dat = [] \<or> dat = drop (log_offset log) (content @ added)"
        using assms(3) by (auto simp: reader_ReadFrom_def split: if_splits option.splits)
      consider "dat = []" | "ctxErr R \<noteq> None" | "dat = drop (log_offset log) (content @ added)" "ctxErr R = None"
        using dat by blast
      then show ?thesis
      proof cases
        case 1
        then show ?thesis using kept readEvents_unread(3) off n Some Inr by simp
      next
        case 2
        then show ?thesis using kept readEvents_unread(4) off n Some Inr by simp
      next
        case 3
        then show ?thesis using readEvents_agrees[OF kept Some _ _ 3(2) _ refl] off n Inr by simp
      qed
    qed
  qed
qed

lemma logRun_agrees: "logRun decode content log \<Longrightarrow> agrees decode content log"
  by (induction rule: logRun.induct) (auto intro: agrees_empty agrees_append scanned_agrees)

lemma agrees_at_end:
  assumes "agrees decode content log" and "log_offset log = length content"
  shows "log_events log = scanAll decode content"
  using assms by (simp add: agrees_def)

end
