(* ===== verification/ProvenanceProperties.thy ===== *)
theory ProvenanceProperties
  imports ProvenanceLaws EventLogLaws
begin

text \<open>
  The properties of the provenance resolver, with their witnesses.
\<close>

section \<open>Event logs\<close>

text \<open>C19: the incremental reader is equivalent to reading the whole log: whatever came before of appends, reads
  of a growing file, torn last lines, missing files, failed and cancelled reads, a read that succeeds
  answers exactly what a scan of the log's complete lines from its start answers.\<close>

theorem event_log_read_is_full_scan:
  assumes "logRun decoder dat log" and "lf_dir f" and "lf_content f = Some dat" and "lf_error f = None"
    and "ctxErr R = None"
  shows "snd (readEvents R decoder (reader_Size f) (reader_ReadFrom f) log) = scanAll decoder dat"
proof -
  have agr: "agrees decoder dat log" by (rule logRun_agrees[OF assms(1)])
  have len: "log_offset log \<le> length dat" using agr by (simp add: agrees_def)
  have sz: "reader_Size f = Some (length dat)" using assms(2,3) by (simp add: reader_Size_def)
  have read: "reader_ReadFrom f (log_offset log) = Inr (drop (log_offset log) dat)"
    using assms(2-4) by (simp add: reader_ReadFrom_def)
  show ?thesis
  proof (cases "length dat = log_offset log")
    case True
    then show ?thesis using agrees_at_end[OF agr] sz by (simp add: readEvents_def)
  next
    case False
    then show ?thesis using readEvents_agrees[OF agr sz len le_refl[of "length dat"] assms(5), where readFrom = "reader_ReadFrom f"] read by auto
  qed
qed

definition demo_record :: eventRecord where
  "demo_record = \<lparr>ev_ItemID = ''i'', ev_SessionID = ''s'', ev_Host = ''h'', ev_Cwd = ''/w'', ev_ToolName = ''t'', ev_Pane = ''7''\<rparr>"

definition demo_decode :: lineDecoder where
  "demo_decode line = (if line = ''x'' then Some demo_record else None)"

definition demo_logfile :: logFile where
  "demo_logfile = \<lparr>lf_dir = True, lf_content = Some (''y'' @ [newline] @ ''x'' @ [newline] @ ''x''), lf_error = None\<rparr>"

text \<open>A first read of the file when it ended in a torn line, then the rest is appended.\<close>

definition demo_log :: producerEventLog where
  "demo_log = fst (readEvents std_runtime demo_decode (Some 3) (\<lambda>n. Inr (drop n (''y'' @ [newline] @ ''x''))) emptyLog)"

lemma demo_log_run: "logRun demo_decode (''y'' @ [newline] @ ''x'' @ [newline] @ ''x'') demo_log"
proof -
  define f where "f = \<lparr>lf_dir = True, lf_content = Some (''y'' @ [newline] @ ''x''), lf_error = None\<rparr>"
  have "demo_log = fst (readEvents std_runtime demo_decode (reader_Size f) (reader_ReadFrom f) emptyLog)"
    by (simp add: demo_log_def f_def reader_Size_def reader_ReadFrom_def readEvents_def readBase_def)
  then have "logRun demo_decode ((''y'' @ [newline] @ ''x'') @ []) demo_log"
    using logRun.scanned[OF logRun.fresh, of f "''y'' @ [newline] @ ''x''" f "[]" demo_decode std_runtime] by (simp add: f_def)
  from logRun.grown[OF this, of "[newline] @ ''x''"] show ?thesis by simp
qed

lemma event_log_read_is_full_scan_witness:
  "snd (readEvents std_runtime demo_decode (reader_Size demo_logfile) (reader_ReadFrom demo_logfile) demo_log) ''i'' =
     Some demo_record"
proof -
  have "scanAll demo_decode (''y'' @ [newline] @ ''x'' @ [newline] @ ''x'') ''i'' = Some demo_record" by code_simp
  then show ?thesis
    using event_log_read_is_full_scan[OF demo_log_run, of demo_logfile std_runtime]
    by (simp add: demo_logfile_def std_runtime_def)
qed

section \<open>A resolved page\<close>

text \<open>C18: every field of a resolved page is what its item's own sources say, and no other: for items whose liveness
  reference names a session in one of its three forms, host, directory and tool are those of the item's event
  record; the pane is shown exactly when the listing was read and the record's pane is one its session may
  claim, or, without a record, when a live pane has the session's name; a recorded pane that the listing could
  not confirm is kept beside with its number; the seven task, goal and topic fields are those of the session's
  task; the session name is the one its user gave, the headless mark the ledger's mode, the coverage mark the
  verdict on the session. A missing source leaves its fields empty. A request that ended resolves nothing.\<close>

theorem resolved_facts_proven:
  assumes "distinct (map ItemID items)" and "\<forall>item \<in> set items. \<exists>sid. namesSession item sid"
    and "distinct (map fst (hs_panes host))" and "Resolve R S host items (logs, t) = (st', found)"
  shows "if ctxErr R = None
    then \<exists>t' verdicts. pageCoverage S host items t t' verdicts \<and>
      (\<forall>item \<in> set items. provenOn R S host items (logs, t') verdicts item (entryAt found item)) \<and>
      dom found \<subseteq> ItemID ` set items
    else found = Map.empty"
  using Resolve_proven[OF assms] assms(4) by (auto simp: Resolve_def split: if_splits prod.splits)

definition demo_host :: hostState where
  "demo_host = \<lparr>hs_panes = [(7, \<lparr>pane_PaneID = 7, pane_Title = ''work'', pane_TTYName = []\<rparr>)], hs_panesErr = None,
     hs_names = [''s'' \<mapsto> \<lparr>sn_Name = ''work'', sn_Source = ''user''\<rparr>], hs_modes = [''s'' \<mapsto> ''headless'']\<rparr>"

definition demo_task :: Task where
  "demo_task = \<lparr>task_Name = ''T'', task_Path = ''T.md'', task_GoalName = ''G'', task_GoalPath = ''G.md'', task_Goals = [''G''],
     task_TopicName = ''O'', task_TopicPath = ''O.md'', task_ProductionTouching = True\<rparr>"

definition demo_sources :: "unit provenanceSources" where
  "demo_sources = \<lparr>src_lookup = Some (\<lambda>sid t. (t, if sid = ''s'' then Some demo_task else None)),
     src_coverage = Some (\<lambda>names asked t. (t, \<lambda>sid. sid \<in> set asked)),
     src_files = (\<lambda>_. \<lparr>lfs_present = False, lfs_stat = (\<lambda>_. demo_logfile), lfs_read = (\<lambda>_. demo_logfile)\<rparr>),
     src_decode = demo_decode, src_letterOrDigit = (\<lambda>_. True)\<rparr>"

definition demo_worker :: Item where
  "demo_worker = emptyItem\<lparr>ItemID := ''i'', ProducerID := ''p'', ProducerKind := ''session'', LivenessRef := ''session:s''\<rparr>"

definition demo_resolved :: Provenance where
  "demo_resolved = noProvenance\<lparr>pv_Pane := ''7'', pv_PaneRecorded := True, pv_Routable := True,
     pv_TaskName := ''T'', pv_TaskPath := ''T.md'', pv_GoalName := ''G'', pv_GoalPath := ''G.md'',
     pv_TopicName := ''O'', pv_TopicPath := ''O.md'', pv_SessionName := ''work'', pv_Headless := True,
     pv_ProductionTouching := True, pv_Uncovered := True\<rparr>"

lemma demo_session: "sessionIDFromItem demo_worker = ''s''" by code_simp

lemma demo_pane: "resolveByName (\<lambda>_. True) demo_worker (hs_names demo_host) (hs_panes demo_host) True =
    Some (noProvenance\<lparr>pv_Pane := ''7'', pv_PaneRecorded := True, pv_Routable := True\<rparr>)"
  by code_simp

lemma demo_resolve:
  "snd (Resolve std_runtime demo_sources demo_host [demo_worker] (Map.empty, ())) ''i'' = Some demo_resolved"
proof -
  have read: "readEventsForProducer std_runtime demo_decode (src_files demo_sources ''p'') ''p'' Map.empty = (Map.empty, Map.empty)"
    by (simp add: readEventsForProducer_def readProducer_def demo_sources_def cutPrefix_def sessionProducerPrefix_def)
  have name: "sessionNameFor demo_worker (hs_names demo_host) = Some ''work''"
    by (simp add: sessionNameFor_def demo_session demo_host_def sessionNameSourceUser_def)
  have host: "hs_panesErr demo_host = None" "hs_modes demo_host ''s'' = Some headlessSessionMode"
    by (simp_all add: demo_host_def headlessSessionMode_def)
  have task: "lookupTask demo_sources demo_worker () = ((), Some demo_task)"
    by (simp add: lookupTask_def demo_sources_def demo_session)
  have worker: "ProducerKind demo_worker = ''session''" "ItemID demo_worker = ''i''" by (simp_all add: demo_worker_def)
  have covered: "uncoveredItems demo_sources [demo_worker] (hs_names demo_host) () = ((), \<lambda>k. k = ''i'')"
    by (auto simp: uncoveredItems_def demo_sources_def askedSessions_def demo_session SessionProducerKind_def worker Let_def)
  have sources: "src_decode demo_sources = demo_decode"
    "src_letterOrDigit demo_sources = (\<lambda>_. True)" "ProducerID demo_worker = ''p''" "ItemID demo_worker = ''i''"
    by (simp_all add: demo_sources_def demo_worker_def)
  show ?thesis
    by (simp add: Resolve_def covered resolveItem_def eventsFor_def task paneProvenance_def sources read withTask_def
        name host demo_pane demo_session itemEntry_def modifyEntry_def demo_resolved_def demo_task_def
        std_runtime_def[THEN arg_cong[where f = ctxErr]] Let_def)
qed

lemma demo_names_session: "namesSession demo_worker ''s''"
proof -
  have "TrimSpace ''s'' = ''s''" by code_simp
  then show ?thesis by (simp add: namesSession_def demo_worker_def)
qed

lemma resolved_facts_proven_witness:
  "\<exists>verdicts. pageCoverage demo_sources demo_host [demo_worker] () () verdicts \<and>
     provenOn std_runtime demo_sources demo_host [demo_worker] (Map.empty, ()) verdicts demo_worker demo_resolved"
proof -
  obtain st' found where res: "Resolve std_runtime demo_sources demo_host [demo_worker] (Map.empty, ()) = (st', found)"
    by (metis prod.exhaust)
  then have "entryAt found demo_worker = demo_resolved" using demo_resolve by (simp add: entryAt_def demo_worker_def)
  moreover have "ctxErr std_runtime = None" by (simp add: std_runtime_def)
  moreover have "distinct (map fst (hs_panes demo_host))" by (simp add: demo_host_def)
  ultimately show ?thesis
    using resolved_facts_proven[OF _ _ _ res] demo_names_session by auto
qed

section \<open>Refreshes of the host state\<close>

text \<open>C20: once a snapshot of the host is there, at most one refresh started behind a request is under way,
  however requests, cold starts and refreshes interleave; while one is, every request is served the
  snapshot at hand and starts no other.\<close>

theorem background_refresh_single:
  assumes "hostRun c F n" and "(k, True) \<in> F"
  shows "(\<forall>j. (j, True) \<in> F \<longrightarrow> j = k) \<and>
    (\<exists>state. \<forall>now. enterHostState now n c = (c, Serve state))"
proof -
  have inv: "\<And>j. (j, True) \<in> F \<Longrightarrow> hc_refreshing c = Some j \<and> hc_cached c \<noteq> None"
    using hostRun_inv[OF assms(1)] by blast
  obtain state where "hc_cached c = Some state" using inv[OF assms(2)] by auto
  then have "enterHostState now n c = (c, Serve state)" for now
    using inv[OF assms(2)] by (simp add: enterHostState_def)
  moreover have "j = k" if "(j, True) \<in> F" for j using inv[OF that] inv[OF assms(2)] by simp
  ultimately show ?thesis by blast
qed

lemma background_refresh_single_witness:
  "\<exists>c. hostRun c {(1, True)} 2 \<and> enterHostState 9000000000 2 c = (c, Serve demo_host)"
proof -
  define c1 where "c1 = newHostCache\<lparr>hc_refreshing := Some (0::nat)\<rparr>"
  define c2 where "c2 = finishHostRefresh 0 (publishHostState 1 demo_host c1)"
  define c3 where "c3 = c2\<lparr>hc_refreshing := Some (1::nat)\<rparr>"
  have "hostRun c1 {(0, False)} 1"
    using hostRun.waiting[OF hostRun.started, of 0 c1] by (simp add: enterHostState_def newHostCache_def c1_def)
  then have "hostRun (publishHostState 1 demo_host c1) {(0, False)} 1" using hostRun.published by blast
  then have "hostRun c2 {} 1" using hostRun.finished[of _ _ _ 0 False] unfolding c2_def by fastforce
  moreover have "hc_cached c2 = Some demo_host" "hc_cachedAt c2 = 1" "hc_refreshing c2 = None"
    by (simp_all add: c2_def c1_def finishHostRefresh_def publishHostState_def)
  ultimately have run: "hostRun c3 {(1, True)} 2" and at: "hc_cached c3 = Some demo_host"
    using hostRun.refreshing[of c2 "{}" 1 5000000000 c3 demo_host]
    by (simp_all add: enterHostState_def c3_def timeSub_def provenanceCacheWindow_def numeral_2_eq_2 minDuration_def maxDuration_def)
  obtain state where served: "enterHostState 9000000000 2 c3 = (c3, Serve state)"
    using background_refresh_single[OF run, of 1] by auto
  then have "state = demo_host" using at by (auto simp: enterHostState_def split: if_splits)
  then show ?thesis using run served by blast
qed

end
