(* ===== verification/BoardStream.thy ===== *)
theory BoardStream
  imports Notify
begin

text \<open>
  The board's live channel (\<open>attention-stream.go\<close>): the renderer all streams share, the difference a stream
  sends, and one connection as the steps of \<open>ServeHTTP\<close>.
\<close>

section \<open>The difference between two boards\<close>

type_synonym renderedRows = "string \<rightharpoonup> string"

record boardSnapshot =
  bs_seq :: "64 word"
  bs_rendered :: renderedRows

datatype attentionStreamEvent = Upsert string string | Remove string

text \<open>The events of a push, for the orders in which the two maps are ranged over.\<close>

definition pushEvents :: "string list \<Rightarrow> string list \<Rightarrow> boardSnapshot \<Rightarrow> boardSnapshot \<Rightarrow> attentionStreamEvent list" where
  "pushEvents nextOrder previousOrder previous new =
     (if bs_seq new = bs_seq previous then []
      else concat (map (\<lambda>itemID. case bs_rendered new itemID of
                     None \<Rightarrow> []
                   | Some html \<Rightarrow>
                       if bs_rendered previous itemID = Some html then [] else [Upsert itemID html]) nextOrder) @
           concat (map (\<lambda>itemID. if bs_rendered new itemID \<noteq> None then [] else [Remove itemID]) previousOrder))"

text \<open>A write can fail; the events before it went out, and the stream ends.\<close>

definition sendEvents :: "nat option \<Rightarrow> attentionStreamEvent list \<Rightarrow> attentionStreamEvent list \<times> bool" where
  "sendEvents failsAt events =
     (case failsAt of
        Some n \<Rightarrow> if n < length events then (take n events, False) else (events, True)
      | None \<Rightarrow> (events, True))"

definition push ::
  "nat option \<Rightarrow> string list \<Rightarrow> string list \<Rightarrow> boardSnapshot \<Rightarrow> boardSnapshot \<Rightarrow> attentionStreamEvent list \<times> bool" where
  "push failsAt nextOrder previousOrder previous new =
     sendEvents failsAt (pushEvents nextOrder previousOrder previous new)"

text \<open>What the page does with an event: the row is replaced or added, or dropped.\<close>

fun applyEvent :: "attentionStreamEvent \<Rightarrow> renderedRows \<Rightarrow> renderedRows" where
  "applyEvent (Upsert itemID html) shown = shown(itemID \<mapsto> html)"
| "applyEvent (Remove itemID) shown = shown(itemID := None)"

section \<open>The shared renderer\<close>

text \<open>A refresh in flight is named by a token.\<close>

record boardRenderer =
  br_seq :: "64 word"
  br_current :: "boardSnapshot option"
  br_renderedGeneration :: "64 word"
  br_refreshing :: "nat option"

definition newBoardRenderer :: boardRenderer where
  "newBoardRenderer = \<lparr>br_seq = 0, br_current = None, br_renderedGeneration = 0, br_refreshing = None\<rparr>"

text \<open>One turn of the loop of \<open>snapshot\<close>, up to the unlock.\<close>

datatype snapshotTurn = Held boardSnapshot | WaitFor nat | RunRender

definition snapshotTurnOf :: "64 word \<Rightarrow> nat \<Rightarrow> boardRenderer \<Rightarrow> boardRenderer \<times> snapshotTurn" where
  "snapshotTurnOf asked token b =
     (case (br_current b, br_refreshing b) of
        (Some current, refreshing) \<Rightarrow>
          if br_renderedGeneration b \<ge> asked then (b, Held current)
          else (case refreshing of
                  Some refresh \<Rightarrow> (b, WaitFor refresh)
                | None \<Rightarrow> (b\<lparr>br_refreshing := Some token\<rparr>, RunRender))
      | (None, Some refresh) \<Rightarrow> (b, WaitFor refresh)
      | (None, None) \<Rightarrow> (b\<lparr>br_refreshing := Some token\<rparr>, RunRender))"

text \<open>The end of \<open>run\<close>: what was rendered is published under the generation it was for.\<close>

definition publishBoard ::
  "64 word \<Rightarrow> error + renderedRows \<Rightarrow> boardRenderer \<Rightarrow> boardRenderer \<times> (error + boardSnapshot)" where
  "publishBoard asked rendered b =
     (case rendered of
        Inl e \<Rightarrow> (b\<lparr>br_refreshing := None\<rparr>, Inl e)
      | Inr rows \<Rightarrow>
          (let snapshot = \<lparr>bs_seq = br_seq b + 1, bs_rendered = rows\<rparr> in
           (b\<lparr>br_seq := br_seq b + 1, br_current := Some snapshot, br_renderedGeneration := asked,
              br_refreshing := None\<rparr>, Inr snapshot)))"

section \<open>Connections\<close>

text \<open>Where a connection stands: subscribed or woken and about to read the generation, asking for a board of
  that generation, waiting for a refresh, rendering one, holding the board it got, or waiting for a
  change.\<close>

datatype streamPC =
    Woken
  | Asking "64 word"
  | Waiting "64 word" nat
  | Rendering "64 word" nat
  | Holding boardSnapshot
  | Listening

text \<open>A stream: where it stands, the board it sent last (none before the baseline), and beside it the page of its
  client: as it is, as it was when the stream opened, and the board of the baseline.\<close>

record boardStream =
  bm_pc :: streamPC
  bm_last :: "boardSnapshot option"
  bm_page :: renderedRows
  bm_loaded :: renderedRows
  bm_base :: renderedRows

definition openStream :: "renderedRows \<Rightarrow> boardStream" where
  "openStream shown = \<lparr>bm_pc = Woken, bm_last = None, bm_page = shown, bm_loaded = shown, bm_base = Map.empty\<rparr>"

text \<open>What a stream does with the board it holds: the first is the baseline and nothing is sent, a later one is
  pushed. \<open>None\<close> is the end of the stream.\<close>

definition deliver :: "nat option \<Rightarrow> string list \<Rightarrow> string list \<Rightarrow> boardSnapshot \<Rightarrow> boardStream \<Rightarrow> boardStream option" where
  "deliver failsAt nextOrder previousOrder snapshot s =
     (case bm_last s of
        None \<Rightarrow> Some (s\<lparr>bm_pc := Listening, bm_last := Some snapshot, bm_base := bs_rendered snapshot\<rparr>)
      | Some previous \<Rightarrow>
          (case push failsAt nextOrder previousOrder previous snapshot of
             (events, sent) \<Rightarrow>
               if sent
               then Some (s\<lparr>bm_pc := Listening, bm_last := Some snapshot, bm_page := fold applyEvent events (bm_page s)\<rparr>)
               else None))"

section \<open>All connections, the renderer and the writers\<close>

text \<open>A refresh in flight: its token, the generation it is for, and the store as it was at each of its reads.\<close>

record 's boardFlight =
  fl_token :: nat
  fl_asked :: "64 word"
  fl_looks :: "'s list"

record 's boardWorld =
  bw_store :: 's
  bw_unannounced :: nat
  bw_notifier :: notifier
  bw_board :: boardRenderer
  bw_flight :: "'s boardFlight option"
  bw_done :: "nat \<rightharpoonup> 64 word \<times> (error + boardSnapshot)"
  bw_tokens :: nat
  bw_streams :: "nat \<rightharpoonup> boardStream"

definition startBoard :: "'s \<Rightarrow> 's boardWorld" where
  "startBoard s = \<lparr>bw_store = s, bw_unannounced = 0, bw_notifier = NewAttentionChangeNotifier,
     bw_board = newBoardRenderer, bw_flight = None, bw_done = Map.empty, bw_tokens = 0, bw_streams = Map.empty\<rparr>"

definition setStream :: "nat \<Rightarrow> boardStream option \<Rightarrow> 's boardWorld \<Rightarrow> 's boardWorld" where
  "setStream sid s w = w\<lparr>bw_streams := (bw_streams w)(sid := s)\<rparr>"

text \<open>A turn of \<open>snapshot\<close> by a stream; one that has to render starts the flight.\<close>

definition askBoard :: "nat \<Rightarrow> 64 word \<Rightarrow> boardStream \<Rightarrow> 's boardWorld \<Rightarrow> 's boardWorld" where
  "askBoard sid asked s w =
     (case snapshotTurnOf asked (bw_tokens w) (bw_board w) of
        (b, Held snapshot) \<Rightarrow> setStream sid (Some (s\<lparr>bm_pc := Holding snapshot\<rparr>)) w
      | (b, WaitFor refresh) \<Rightarrow> setStream sid (Some (s\<lparr>bm_pc := Waiting asked refresh\<rparr>)) w
      | (b, RunRender) \<Rightarrow>
          setStream sid (Some (s\<lparr>bm_pc := Rendering asked (bw_tokens w)\<rparr>))
            (w\<lparr>bw_board := b, bw_flight := Some \<lparr>fl_token = bw_tokens w, fl_asked = asked, fl_looks = []\<rparr>,
               bw_tokens := bw_tokens w + 1\<rparr>))"

definition publishFlight :: "error + renderedRows \<Rightarrow> 's boardFlight \<Rightarrow> 's boardWorld \<Rightarrow> 's boardWorld" where
  "publishFlight rendered f w =
     (case publishBoard (fl_asked f) rendered (bw_board w) of (b, result) \<Rightarrow>
        w\<lparr>bw_board := b, bw_flight := None, bw_done := (bw_done w)(fl_token f \<mapsto> (fl_asked f, result))\<rparr>)"

text \<open>The steps. A write changes the store and is announced afterwards; \<open>render e looks\<close> is what the surroundings
  \<open>e\<close> (clock, panes, tasks) and the store as read make of the board, or its error. Generations stay
  below the wrap-around.\<close>

inductive board_step :: "('e \<Rightarrow> 's list \<Rightarrow> error + renderedRows) \<Rightarrow> 's boardWorld \<Rightarrow> 's boardWorld \<Rightarrow> bool"
  for render where
  wrote: "board_step render w (w\<lparr>bw_store := s, bw_unannounced := bw_unannounced w + 1\<rparr>)"
| announced: "0 < bw_unannounced w \<Longrightarrow> unat (Generation (bw_notifier w)) + 2 < 2 ^ 64 \<Longrightarrow>
    board_step render w (w\<lparr>bw_unannounced := bw_unannounced w - 1, bw_notifier := Notify (bw_notifier w)\<rparr>)"
| opened: "Subscribe (bw_notifier w) = (n, sid) \<Longrightarrow>
    board_step render w (setStream sid (Some (openStream shown)) (w\<lparr>bw_notifier := n\<rparr>))"
| closed: "board_step render w (setStream sid None (w\<lparr>bw_notifier := Unsubscribe sid (bw_notifier w)\<rparr>))"
| generation_read: "bw_streams w sid = Some s \<Longrightarrow> bm_pc s = Woken \<Longrightarrow>
    board_step render w (setStream sid (Some (s\<lparr>bm_pc := Asking (Generation (bw_notifier w))\<rparr>)) w)"
| asked: "bw_streams w sid = Some s \<Longrightarrow> bm_pc s = Asking g \<Longrightarrow> board_step render w (askBoard sid g s w)"
| looked: "bw_flight w = Some f \<Longrightarrow>
    board_step render w (w\<lparr>bw_flight := Some (f\<lparr>fl_looks := fl_looks f @ [bw_store w]\<rparr>)\<rparr>)"
| published: "bw_flight w = Some f \<Longrightarrow> fl_looks f \<noteq> [] \<Longrightarrow>
    board_step render w (publishFlight (render e (fl_looks f)) f w)"
| render_done: "bw_streams w sid = Some s \<Longrightarrow> bm_pc s = Rendering g token \<Longrightarrow> bw_done w token = Some (g', Inr snapshot) \<Longrightarrow>
    board_step render w (setStream sid (Some (s\<lparr>bm_pc := Holding snapshot\<rparr>)) w)"
| wait_done: "bw_streams w sid = Some s \<Longrightarrow> bm_pc s = Waiting g token \<Longrightarrow> bw_done w token = Some (g', Inr snapshot) \<Longrightarrow>
    board_step render w (setStream sid (Some (s\<lparr>bm_pc := Asking g\<rparr>)) w)"
| delivered: "bw_streams w sid = Some s \<Longrightarrow> bm_pc s = Holding snapshot \<Longrightarrow>
    bm_last s = Some previous \<Longrightarrow> set nextOrder = dom (bs_rendered snapshot) \<Longrightarrow>
    set previousOrder = dom (bs_rendered previous) \<Longrightarrow>
    board_step render w (setStream sid (deliver failsAt nextOrder previousOrder snapshot s) w)"
| baselined: "bw_streams w sid = Some s \<Longrightarrow> bm_pc s = Holding snapshot \<Longrightarrow> bm_last s = None \<Longrightarrow>
    board_step render w (setStream sid (deliver None [] [] snapshot s) w)"
| woken: "bw_streams w sid = Some s \<Longrightarrow> bm_pc s = Listening \<Longrightarrow> subscribers (bw_notifier w) sid = Some True \<Longrightarrow>
    board_step render w (setStream sid (Some (s\<lparr>bm_pc := Woken\<rparr>)) (w\<lparr>bw_notifier := receive sid (bw_notifier w)\<rparr>))"

definition board_run :: "('e \<Rightarrow> 's list \<Rightarrow> error + renderedRows) \<Rightarrow> 's boardWorld \<Rightarrow> bool" where
  "board_run render w \<longleftrightarrow> (\<exists>s. (board_step render)\<^sup>*\<^sup>* (startBoard s) w)"

end
