(* ===== verification/BoardLaws.thy ===== *)
theory BoardLaws
  imports BoardStream
begin

text \<open>
  What the streams show: the events of a push, and the invariant of the shared renderer and its streams.
\<close>

section \<open>Pushes\<close>

lemma applyEvents_other:
  "\<forall>ev \<in> set evs. (case ev of Upsert j _ \<Rightarrow> j \<noteq> k | Remove j \<Rightarrow> j \<noteq> k) \<Longrightarrow> fold applyEvent evs shown k = shown k"
  by (induction evs arbitrary: shown) (auto split: attentionStreamEvent.splits)

lemma applyEvents_set:
  assumes "\<forall>ev \<in> set evs. applyEvent ev Map.empty k = v \<or> (case ev of Upsert j _ \<Rightarrow> j \<noteq> k | Remove j \<Rightarrow> j \<noteq> k)"
    and "\<exists>ev \<in> set evs. (case ev of Upsert j _ \<Rightarrow> j = k | Remove j \<Rightarrow> j = k)"
  shows "fold applyEvent evs shown k = v"
  using assms
proof (induction evs arbitrary: shown rule: rev_induct)
  case (snoc ev evs)
  show ?case
  proof (cases "case ev of Upsert j _ \<Rightarrow> j = k | Remove j \<Rightarrow> j = k")
    case True
    then show ?thesis using snoc.prems(1) by (auto split: attentionStreamEvent.splits)
  next
    case False
    then have "fold applyEvent (evs @ [ev]) shown k = fold applyEvent evs shown k"
      by (auto split: attentionStreamEvent.splits)
    moreover have "fold applyEvent evs shown k = v"
      by (rule snoc.IH) (use snoc.prems False in auto)
    ultimately show ?thesis by simp
  qed
qed simp

lemma pushEvents_upsert:
  assumes "set nextOrder = dom (bs_rendered new)" and "bs_seq new \<noteq> bs_seq previous"
  shows "Upsert k html \<in> set (pushEvents nextOrder previousOrder previous new) \<longleftrightarrow>
    bs_rendered new k = Some html \<and> bs_rendered previous k \<noteq> Some html"
  using assms by (auto simp: pushEvents_def split: option.splits if_splits intro!: bexI[of _ k])

lemma pushEvents_remove:
  assumes "set previousOrder = dom (bs_rendered previous)" and "bs_seq new \<noteq> bs_seq previous"
  shows "Remove k \<in> set (pushEvents nextOrder previousOrder previous new) \<longleftrightarrow>
    bs_rendered new k = None \<and> bs_rendered previous k \<noteq> None"
  using assms by (auto simp: pushEvents_def split: option.splits if_splits)

text \<open>A page that gets a push takes over the rows that changed and keeps all others as they are.\<close>

lemma push_page:
  assumes "set nextOrder = dom (bs_rendered new)" and "set previousOrder = dom (bs_rendered previous)"
    and "bs_seq new = bs_seq previous \<Longrightarrow> bs_rendered new = bs_rendered previous"
  shows "fold applyEvent (pushEvents nextOrder previousOrder previous new) shown k =
    (if bs_rendered new k = bs_rendered previous k then shown k else bs_rendered new k)"
proof (cases "bs_seq new = bs_seq previous")
  case True
  then show ?thesis using assms(3) by (simp add: pushEvents_def)
next
  case False
  let ?evs = "pushEvents nextOrder previousOrder previous new"
  note up = pushEvents_upsert[OF assms(1) False] and rm = pushEvents_remove[OF assms(2) False]
  show ?thesis
  proof (cases "bs_rendered new k = bs_rendered previous k")
    case True
    have "\<forall>ev \<in> set ?evs. (case ev of Upsert j _ \<Rightarrow> j \<noteq> k | Remove j \<Rightarrow> j \<noteq> k)"
      using True by (auto simp: up rm split: attentionStreamEvent.splits)
    then show ?thesis using True applyEvents_other by metis
  next
    case changed: False
    have "fold applyEvent ?evs shown k = bs_rendered new k"
    proof (rule applyEvents_set)
      show "\<forall>ev \<in> set ?evs. applyEvent ev Map.empty k = bs_rendered new k \<or>
          (case ev of Upsert j _ \<Rightarrow> j \<noteq> k | Remove j \<Rightarrow> j \<noteq> k)"
        by (auto simp: up rm split: attentionStreamEvent.splits)
      show "\<exists>ev \<in> set ?evs. (case ev of Upsert j _ \<Rightarrow> j = k | Remove j \<Rightarrow> j = k)"
      proof (cases "bs_rendered new k")
        case None
        then show ?thesis using changed rm[of k] by (intro bexI[of _ "Remove k"]) auto
      next
        case (Some html)
        then show ?thesis using changed up[of k html] by (intro bexI[of _ "Upsert k html"]) auto
      qed
    qed
    then show ?thesis using changed by simp
  qed
qed

section \<open>The invariant of a run\<close>

text \<open>\<open>recent\<close> holds the stores since the last announcement; \<open>pub\<close> what was published under each sequence
  number.\<close>

type_synonym publishedRows = "64 word \<rightharpoonup> renderedRows"

definition fresh :: "('e \<Rightarrow> 's list \<Rightarrow> error + renderedRows) \<Rightarrow> 's set \<Rightarrow> boardSnapshot \<Rightarrow> bool" where
  "fresh render recent b \<longleftrightarrow>
     (\<exists>e looks. looks \<noteq> [] \<and> set looks \<subseteq> recent \<and> render e looks = Inr (bs_rendered b))"

definition snapOK :: "publishedRows \<Rightarrow> boardSnapshot \<Rightarrow> bool" where
  "snapOK pub b \<longleftrightarrow> pub (bs_seq b) = Some (bs_rendered b)"

definition boardInv where
  "boardInv render recent pub g B \<longleftrightarrow>
     (\<forall>b. br_current B = Some b \<longrightarrow> snapOK pub b \<and> br_renderedGeneration B \<le> g \<and>
        (br_renderedGeneration B = g \<longrightarrow> fresh render recent b)) \<and>
     (\<forall>q. pub q \<noteq> None \<longrightarrow> q \<le> br_seq B) \<and>
     (br_current B = None \<longrightarrow> br_seq B = 0) \<and>
     (br_current B \<noteq> None \<longrightarrow> unat (br_seq B) \<le> unat (br_renderedGeneration B) + 1)"

definition flightInv where
  "flightInv recent g tokens finished B flight \<longleftrightarrow>
     br_refreshing B = map_option fl_token flight \<and>
     (\<forall>f. flight = Some f \<longrightarrow> fl_asked f \<le> g \<and> (br_current B \<noteq> None \<longrightarrow> br_renderedGeneration B < fl_asked f) \<and>
        (fl_asked f = g \<longrightarrow> set (fl_looks f) \<subseteq> recent) \<and> fl_token f < tokens \<and> finished (fl_token f) = None)"

definition doneInv where
  "doneInv render recent pub g tokens finished \<longleftrightarrow>
     (\<forall>t a r. finished t = Some (a, r) \<longrightarrow> t < tokens \<and> a \<le> g \<and>
        (\<forall>b. r = Inr b \<longrightarrow> snapOK pub b \<and> (a = g \<longrightarrow> fresh render recent b)))"

text \<open>What a page shows beside the board it was sent: a row of the board, or the row it was loaded with when
  that row has not changed since the baseline.\<close>

definition pageOK :: "boardStream \<Rightarrow> boardSnapshot \<Rightarrow> bool" where
  "pageOK s b \<longleftrightarrow> (\<forall>k. bm_page s k = bs_rendered b k \<or>
     (bm_page s k = bm_loaded s k \<and> bs_rendered b k = bm_base s k))"

definition pcInv where
  "pcInv render recent pub g pend finished flight pc sent \<longleftrightarrow>
     (case pc of
        Woken \<Rightarrow> True
      | Asking a \<Rightarrow> a \<le> g \<and> (pend \<or> a = g)
      | Waiting a t \<Rightarrow> a \<le> g \<and> (pend \<or> a = g)
      | Rendering a t \<Rightarrow> a \<le> g \<and> (pend \<or> a = g) \<and>
          ((\<exists>f. flight = Some f \<and> fl_token f = t \<and> fl_asked f = a) \<or> (\<exists>r. finished t = Some (a, r)))
      | Holding b \<Rightarrow> snapOK pub b \<and> (pend \<or> fresh render recent b)
      | Listening \<Rightarrow> (\<exists>b. sent = Some b \<and> (pend \<or> fresh render recent b)))"

definition streamInv where
  "streamInv render recent pub g subs finished flight sid s \<longleftrightarrow>
     pcInv render recent pub g (subs sid \<noteq> Some False) finished flight (bm_pc s) (bm_last s) \<and>
     (\<forall>b. bm_last s = Some b \<longrightarrow> snapOK pub b \<and> pageOK s b) \<and>
     (bm_last s = None \<longrightarrow> bm_page s = bm_loaded s)"

definition worldInv :: "('e \<Rightarrow> 's list \<Rightarrow> error + renderedRows) \<Rightarrow> 's set \<Rightarrow> publishedRows \<Rightarrow> 's boardWorld \<Rightarrow> bool" where
  "worldInv render recent pub w \<longleftrightarrow>
     (let g = generation (bw_notifier w) in
      bw_store w \<in> recent \<and> (bw_unannounced w = 0 \<longrightarrow> recent = {bw_store w}) \<and> unat g + 1 < 2 ^ 64 \<and>
      boardInv render recent pub g (bw_board w) \<and>
      flightInv recent g (bw_tokens w) (bw_done w) (bw_board w) (bw_flight w) \<and>
      doneInv render recent pub g (bw_tokens w) (bw_done w) \<and>
      (\<forall>sid s. bw_streams w sid = Some s \<longrightarrow>
         streamInv render recent pub g (subscribers (bw_notifier w)) (bw_done w) (bw_flight w) sid s))"

lemma worldInv_start: "worldInv render {s} Map.empty (startBoard s)"
  by (simp add: worldInv_def startBoard_def boardInv_def flightInv_def doneInv_def newBoardRenderer_def
      NewAttentionChangeNotifier_def)

text \<open>A longer history of stores keeps every part.\<close>

lemma fresh_mono: "fresh render recent b \<Longrightarrow> recent \<subseteq> recent' \<Longrightarrow> fresh render recent' b"
  unfolding fresh_def by blast

lemma grow_recent:
  assumes "recent \<subseteq> recent'"
  shows "boardInv render recent pub g B \<Longrightarrow> boardInv render recent' pub g B"
    and "flightInv recent g n d B f \<Longrightarrow> flightInv recent' g n d B f"
    and "doneInv render recent pub g n d \<Longrightarrow> doneInv render recent' pub g n d"
    and "streamInv render recent pub g subs d f sid s \<Longrightarrow> streamInv render recent' pub g subs d f sid s"
proof -
  note m = fresh_mono[OF _ assms]
  show "boardInv render recent pub g B \<Longrightarrow> boardInv render recent' pub g B"
    using m unfolding boardInv_def by metis
  show "flightInv recent g n d B f \<Longrightarrow> flightInv recent' g n d B f"
    using assms unfolding flightInv_def by blast
  show "doneInv render recent pub g n d \<Longrightarrow> doneInv render recent' pub g n d"
    using m unfolding doneInv_def by metis
  show "streamInv render recent pub g subs d f sid s \<Longrightarrow> streamInv render recent' pub g subs d f sid s"
    using m unfolding streamInv_def pcInv_def by (auto split: streamPC.splits)
qed

lemma worldInvI:
  assumes "bw_store w \<in> recent" and "bw_unannounced w = 0 \<Longrightarrow> recent = {bw_store w}"
    and "unat (generation (bw_notifier w)) + 1 < 2 ^ 64"
    and "boardInv render recent pub (generation (bw_notifier w)) (bw_board w)"
    and "flightInv recent (generation (bw_notifier w)) (bw_tokens w) (bw_done w) (bw_board w) (bw_flight w)"
    and "doneInv render recent pub (generation (bw_notifier w)) (bw_tokens w) (bw_done w)"
    and "\<And>sid s. bw_streams w sid = Some s \<Longrightarrow>
      streamInv render recent pub (generation (bw_notifier w)) (subscribers (bw_notifier w)) (bw_done w) (bw_flight w) sid s"
  shows "worldInv render recent pub w"
  using assms unfolding worldInv_def Let_def by blast

lemma worldInvD:
  assumes "worldInv render recent pub w"
  shows "bw_store w \<in> recent" and "bw_unannounced w = 0 \<Longrightarrow> recent = {bw_store w}"
    and "unat (generation (bw_notifier w)) + 1 < 2 ^ 64"
    and "boardInv render recent pub (generation (bw_notifier w)) (bw_board w)"
    and "flightInv recent (generation (bw_notifier w)) (bw_tokens w) (bw_done w) (bw_board w) (bw_flight w)"
    and "doneInv render recent pub (generation (bw_notifier w)) (bw_tokens w) (bw_done w)"
    and "bw_streams w sid = Some s \<Longrightarrow>
      streamInv render recent pub (generation (bw_notifier w)) (subscribers (bw_notifier w)) (bw_done w) (bw_flight w) sid s"
  using assms unfolding worldInv_def Let_def by blast+

lemma wrote_inv:
  assumes "worldInv render recent pub w"
  shows "worldInv render (insert s recent) pub (w\<lparr>bw_store := s, bw_unannounced := bw_unannounced w + 1\<rparr>)"
proof -
  have sub: "recent \<subseteq> insert s recent" by blast
  show ?thesis
    by (rule worldInvI; simp add: worldInvD(3)[OF assms, simplified] grow_recent[OF sub] worldInvD(4-7)[OF assms])
qed

text \<open>An announcement makes every board held older than the generation, and every stream's signal wait.\<close>

lemma older:
  assumes "unat g + 1 < 2 ^ 64"
  shows "x \<le> g \<Longrightarrow> x \<le> g + (1 :: 64 word)" and "x \<le> g \<Longrightarrow> x \<noteq> g + (1 :: 64 word)"
proof -
  have inc: "unat (g + 1) = unat g + 1" using assms by (simp add: unat_word_ariths)
  then show "x \<le> g \<Longrightarrow> x \<le> g + 1" by (simp add: word_le_nat_alt)
  show "x \<le> g \<Longrightarrow> x \<noteq> g + 1" using inc by (auto simp: word_le_nat_alt)
qed

lemma announce_parts:
  assumes "unat g + 1 < 2 ^ 64"
  shows "boardInv render recent pub g B \<Longrightarrow> boardInv render recent' pub (g + 1) B"
    and "flightInv recent g n d B f \<Longrightarrow> flightInv recent' (g + 1) n d B f"
    and "doneInv render recent pub g n d \<Longrightarrow> doneInv render recent' pub (g + 1) n d"
    and "streamInv render recent pub g subs d f sid s \<Longrightarrow> subs' sid \<noteq> Some False \<Longrightarrow>
      streamInv render recent' pub (g + 1) subs' d f sid s"
proof -
  note up = older[OF assms]
  show "boardInv render recent pub g B \<Longrightarrow> boardInv render recent' pub (g + 1) B"
    using up unfolding boardInv_def by metis
  show "flightInv recent g n d B f \<Longrightarrow> flightInv recent' (g + 1) n d B f"
    using up unfolding flightInv_def by metis
  show "doneInv render recent pub g n d \<Longrightarrow> doneInv render recent' pub (g + 1) n d"
    using up unfolding doneInv_def by metis
  show "streamInv render recent pub g subs d f sid s \<Longrightarrow> subs' sid \<noteq> Some False \<Longrightarrow>
      streamInv render recent' pub (g + 1) subs' d f sid s"
    using up unfolding streamInv_def pcInv_def by (simp split: streamPC.splits) metis?
qed

lemma announced_inv:
  assumes "worldInv render recent pub w" and "unat (Generation (bw_notifier w)) + 2 < 2 ^ 64"
  shows "worldInv render {bw_store w} pub (w\<lparr>bw_unannounced := n, bw_notifier := Notify (bw_notifier w)\<rparr>)"
proof -
  have lim: "unat (generation (bw_notifier w)) + 1 < 2 ^ 64" using assms(2) by (simp add: Generation_def)
  note parts = announce_parts[OF lim]
  have pend: "map_option sendSignal x \<noteq> Some False" for x by (cases x) auto
  let ?w = "w\<lparr>bw_unannounced := n, bw_notifier := Notify (bw_notifier w)\<rparr>"
  note inv = worldInvD[OF assms(1)]
  have gen: "generation (bw_notifier ?w) = generation (bw_notifier w) + 1" by (simp add: Notify_def)
  show ?thesis
  proof (rule worldInvI, unfold gen)
    show "unat (generation (bw_notifier w) + 1) + 1 < 2 ^ 64"
      using assms(2) by (simp add: Generation_def unat_word_ariths)
    show "streamInv render {bw_store w} pub (generation (bw_notifier w) + 1) (subscribers (bw_notifier ?w))
        (bw_done ?w) (bw_flight ?w) sid s" if "bw_streams ?w sid = Some s" for sid s
      using parts(4)[OF inv(7), of sid s "subscribers (bw_notifier ?w)"] that pend by (simp add: Notify_def)
  qed (use inv(1,4-6) in \<open>simp_all add: parts(1-3)\<close>)
qed

text \<open>Steps of a stream alone.\<close>

lemma stream_inv:
  assumes "worldInv render recent pub w"
    and "\<And>t. s = Some t \<Longrightarrow> streamInv render recent pub (generation (bw_notifier w)) (subscribers (bw_notifier w))
      (bw_done w) (bw_flight w) sid t"
  shows "worldInv render recent pub (setStream sid s w)"
  using worldInvD[OF assms(1)] assms(2) by (intro worldInvI) (auto simp: setStream_def split: if_splits)

text \<open>A change of one subscriber's channel leaves the other streams' parts alone.\<close>

lemma subscriber_inv:
  assumes "worldInv render recent pub w" and "generation n = generation (bw_notifier w)"
    and "\<And>j. j \<noteq> sid \<Longrightarrow> subscribers n j = subscribers (bw_notifier w) j"
    and "\<And>t. s = Some t \<Longrightarrow> streamInv render recent pub (generation n) (subscribers n) (bw_done w) (bw_flight w) sid t"
  shows "worldInv render recent pub (setStream sid s (w\<lparr>bw_notifier := n\<rparr>))"
proof (rule worldInvI)
  let ?w = "setStream sid s (w\<lparr>bw_notifier := n\<rparr>)"
  note inv = worldInvD[OF assms(1)]
  show "streamInv render recent pub (generation (bw_notifier ?w)) (subscribers (bw_notifier ?w)) (bw_done ?w) (bw_flight ?w) j t"
    if "bw_streams ?w j = Some t" for j t
    using that inv(7)[of j t] assms(2-4) by (cases "j = sid") (auto simp: setStream_def streamInv_def)
qed (use worldInvD(1-6)[OF assms(1)] assms(2) in \<open>auto simp: setStream_def\<close>)

text \<open>A turn of \<open>snapshot\<close>.\<close>

lemma asked_inv:
  assumes inv: "worldInv render recent pub w" and s: "bw_streams w sid = Some s" and pc: "bm_pc s = Asking g"
  shows "worldInv render recent pub (askBoard sid g s w)"
proof -
  let ?B = "bw_board w" and ?g = "generation (bw_notifier w)"
  note parts = worldInvD[OF inv]
  have st: "streamInv render recent pub ?g (subscribers (bw_notifier w)) (bw_done w) (bw_flight w) sid s"
    by (rule parts(7)[OF s])
  have asked: "g \<le> ?g" "subscribers (bw_notifier w) sid \<noteq> Some False \<or> g = ?g"
    using st by (auto simp: streamInv_def pcInv_def pc)
  show ?thesis
  proof (cases "snapshotTurnOf g (bw_tokens w) ?B")
    case (Pair b turn)
    show ?thesis
    proof (cases turn)
      case (Held snapshot)
      then have held: "br_current ?B = Some snapshot" "g \<le> br_renderedGeneration ?B"
        using Pair by (auto simp: snapshotTurnOf_def split: option.splits if_splits)
      then have "snapOK pub snapshot" "br_renderedGeneration ?B \<le> ?g" "br_renderedGeneration ?B = ?g \<longrightarrow> fresh render recent snapshot"
        using parts(4) by (auto simp: boardInv_def)
      then have "subscribers (bw_notifier w) sid \<noteq> Some False \<or> fresh render recent snapshot"
        using asked held(2) by auto
      then show ?thesis
        using st \<open>snapOK pub snapshot\<close>
        by (auto simp: askBoard_def Pair Held streamInv_def pcInv_def pageOK_def intro!: stream_inv[OF inv])
    next
      case (WaitFor t)
      then show ?thesis
        using st asked
        by (auto simp: askBoard_def Pair streamInv_def pcInv_def pageOK_def intro!: stream_inv[OF inv])
    next
      case RunRender
      then have free: "br_refreshing ?B = None" "b = ?B\<lparr>br_refreshing := Some (bw_tokens w)\<rparr>"
        and old: "br_current ?B \<noteq> None \<longrightarrow> br_renderedGeneration ?B < g"
        using Pair by (auto simp: snapshotTurnOf_def split: option.splits if_splits)
      have none: "bw_flight w = None" using parts(5) free(1) by (auto simp: flightInv_def)
      have unused: "bw_done w (bw_tokens w) = None"
        using parts(6) by (cases "bw_done w (bw_tokens w)") (auto simp: doneInv_def)
      let ?f = "\<lparr>fl_token = bw_tokens w, fl_asked = g, fl_looks = []\<rparr>"
      let ?w = "w\<lparr>bw_board := b, bw_flight := Some ?f, bw_tokens := bw_tokens w + 1\<rparr>"
      have "worldInv render recent pub ?w"
      proof (rule worldInvI)
        show "flightInv recent (generation (bw_notifier ?w)) (bw_tokens ?w) (bw_done ?w) (bw_board ?w) (bw_flight ?w)"
          using asked(1) old unused by (simp add: flightInv_def free(2))
        show "doneInv render recent pub (generation (bw_notifier ?w)) (bw_tokens ?w) (bw_done ?w)"
          using parts(6) by (fastforce simp: doneInv_def)
        show "streamInv render recent pub (generation (bw_notifier ?w)) (subscribers (bw_notifier ?w)) (bw_done ?w) (bw_flight ?w) j t"
          if "bw_streams ?w j = Some t" for j t
          using parts(7)[of j t] that none by (auto simp: streamInv_def pcInv_def split: streamPC.splits)
      qed (use parts(1-4) in \<open>simp_all add: boardInv_def free(2)\<close>)
      then show ?thesis
        using st asked
        by (auto simp: askBoard_def Pair RunRender streamInv_def pcInv_def pageOK_def intro!: stream_inv)
    qed
  qed
qed

text \<open>The reads of a refresh and its publication.\<close>

lemma looked_inv:
  assumes inv: "worldInv render recent pub w" and f: "bw_flight w = Some f"
  shows "worldInv render recent pub (w\<lparr>bw_flight := Some (f\<lparr>fl_looks := fl_looks f @ [bw_store w]\<rparr>)\<rparr>)"
proof (rule worldInvI)
  let ?w = "w\<lparr>bw_flight := Some (f\<lparr>fl_looks := fl_looks f @ [bw_store w]\<rparr>)\<rparr>"
  note parts = worldInvD[OF inv]
  show "flightInv recent (generation (bw_notifier ?w)) (bw_tokens ?w) (bw_done ?w) (bw_board ?w) (bw_flight ?w)"
    using parts(1,5) f by (simp add: flightInv_def)
  show "streamInv render recent pub (generation (bw_notifier ?w)) (subscribers (bw_notifier ?w)) (bw_done ?w) (bw_flight ?w) j t"
    if "bw_streams ?w j = Some t" for j t
    using parts(7)[of j t] that f by (auto simp: streamInv_def pcInv_def split: streamPC.splits)
qed (use worldInvD(1-6)[OF inv] in simp_all)

lemma published_inv:
  assumes inv: "worldInv render recent pub w" and f: "bw_flight w = Some f" and looks: "fl_looks f \<noteq> []"
  shows "\<exists>pub'. worldInv render recent pub' (publishFlight (render e (fl_looks f)) f w)"
proof (cases "render e (fl_looks f)")
  case (Inl err)
  note parts = worldInvD[OF inv]
  let ?w = "publishFlight (Inl err) f w"
  have "worldInv render recent pub ?w"
  proof (rule worldInvI)
    show "doneInv render recent pub (generation (bw_notifier ?w)) (bw_tokens ?w) (bw_done ?w)"
      using parts(5,6) f by (auto simp: publishFlight_def publishBoard_def doneInv_def flightInv_def)
    show "flightInv recent (generation (bw_notifier ?w)) (bw_tokens ?w) (bw_done ?w) (bw_board ?w) (bw_flight ?w)"
      by (simp add: publishFlight_def publishBoard_def flightInv_def)
    show "streamInv render recent pub (generation (bw_notifier ?w)) (subscribers (bw_notifier ?w)) (bw_done ?w) (bw_flight ?w) j t"
      if "bw_streams ?w j = Some t" for j t
      using parts(5) parts(7)[of j t] that f
      by (auto simp: flightInv_def publishFlight_def publishBoard_def streamInv_def pcInv_def split: streamPC.splits)
  qed (use parts(1-4) in \<open>auto simp: publishFlight_def publishBoard_def boardInv_def\<close>)
  then show ?thesis using Inl by auto
next
  case (Inr rows)
  note parts = worldInvD[OF inv]
  let ?B = "bw_board w" and ?g = "generation (bw_notifier w)"
  let ?q = "br_seq ?B + 1"
  define b where "b = \<lparr>bs_seq = ?q, bs_rendered = rows\<rparr>"
  define pub' where "pub' = pub(?q \<mapsto> rows)"
  have fl: "fl_asked f \<le> ?g" "br_current ?B \<noteq> None \<longrightarrow> br_renderedGeneration ?B < fl_asked f"
    "fl_asked f = ?g \<longrightarrow> set (fl_looks f) \<subseteq> recent" "fl_token f < bw_tokens w"
    using parts(5) f by (auto simp: flightInv_def)
  have small: "unat (br_seq ?B) \<le> unat (fl_asked f)"
    using parts(4) fl(2) by (cases "br_current ?B") (auto simp: boardInv_def word_less_nat_alt)
  moreover have "unat (fl_asked f) + 1 < 2 ^ 64" using fl(1) parts(3) by (simp add: word_le_nat_alt)
  ultimately have lim: "unat (br_seq ?B) + 1 < 2 ^ 64" by simp
  have inc: "unat ?q = unat (br_seq ?B) + 1" using lim by (simp add: unat_word_ariths)
  have below: "pub x \<noteq> None \<Longrightarrow> x \<le> br_seq ?B" for x using parts(4) by (simp add: boardInv_def)
  have new: "pub ?q = None" using below[of ?q] older(2)[OF lim, of ?q] by (cases "pub ?q") auto
  have keep: "snapOK pub x \<Longrightarrow> snapOK pub' x" for x using new by (auto simp: snapOK_def pub'_def)
  have bOK: "snapOK pub' b" by (simp add: snapOK_def b_def pub'_def)
  have bFresh: "fl_asked f = ?g \<longrightarrow> fresh render recent b"
    using looks Inr fl(3) unfolding fresh_def b_def by auto
  have w': "publishFlight (Inr rows) f w = w\<lparr>bw_board := ?B\<lparr>br_seq := ?q, br_current := Some b,
      br_renderedGeneration := fl_asked f, br_refreshing := None\<rparr>, bw_flight := None,
      bw_done := (bw_done w)(fl_token f \<mapsto> (fl_asked f, Inr b))\<rparr>" (is "_ = ?w")
    by (simp add: publishFlight_def publishBoard_def Let_def b_def)
  have "worldInv render recent pub' ?w"
  proof (rule worldInvI)
    show "boardInv render recent pub' (generation (bw_notifier ?w)) (bw_board ?w)"
      using bOK bFresh fl(1) small inc below older(1)[OF lim] by (auto simp: boardInv_def pub'_def)
    show "doneInv render recent pub' (generation (bw_notifier ?w)) (bw_tokens ?w) (bw_done ?w)"
      using parts(6) bOK bFresh fl(1,4) keep by (auto simp: doneInv_def)
    show "streamInv render recent pub' (generation (bw_notifier ?w)) (subscribers (bw_notifier ?w)) (bw_done ?w) (bw_flight ?w) j t"
      if "bw_streams ?w j = Some t" for j t
      using parts(5) parts(7)[of j t] that f keep by (auto simp: flightInv_def streamInv_def pcInv_def split: streamPC.splits)
  qed (use parts(1-3) in \<open>simp_all add: flightInv_def\<close>)
  then show ?thesis using Inr w' by auto
qed

text \<open>A stream sends the board it holds.\<close>

lemma delivered_inv:
  assumes inv: "worldInv render recent pub w" and s: "bw_streams w sid = Some s" and pc: "bm_pc s = Holding new"
    and previous: "bm_last s = Some previous" and orders: "set nextOrder = dom (bs_rendered new)"
    "set previousOrder = dom (bs_rendered previous)"
  shows "worldInv render recent pub (setStream sid (deliver failsAt nextOrder previousOrder new s) w)"
proof (rule stream_inv[OF inv])
  fix t
  assume t: "deliver failsAt nextOrder previousOrder new s = Some t"
  have st: "streamInv render recent pub (generation (bw_notifier w)) (subscribers (bw_notifier w)) (bw_done w) (bw_flight w) sid s"
    by (rule worldInvD(7)[OF inv s])
  have ok: "snapOK pub new" "snapOK pub previous" "pageOK s previous"
    and now: "subscribers (bw_notifier w) sid \<noteq> Some False \<or> fresh render recent new"
    using st previous by (auto simp: streamInv_def pcInv_def pc)
  have same: "bs_seq new = bs_seq previous \<Longrightarrow> bs_rendered new = bs_rendered previous"
    using ok(1,2) by (simp add: snapOK_def)
  have "t = s\<lparr>bm_pc := Listening, bm_last := Some new,
      bm_page := fold applyEvent (pushEvents nextOrder previousOrder previous new) (bm_page s)\<rparr>"
    using t previous by (auto simp: deliver_def push_def sendEvents_def split: option.splits if_splits)
  moreover have "pageOK t new" if "t = s\<lparr>bm_pc := Listening, bm_last := Some new,
      bm_page := fold applyEvent (pushEvents nextOrder previousOrder previous new) (bm_page s)\<rparr>"
    using ok(3) push_page[OF orders same] by (auto simp: pageOK_def that)
  ultimately show "streamInv render recent pub (generation (bw_notifier w)) (subscribers (bw_notifier w)) (bw_done w) (bw_flight w) sid t"
    using ok(1) now by (auto simp: streamInv_def pcInv_def)
qed

lemma baselined_inv:
  assumes inv: "worldInv render recent pub w" and s: "bw_streams w sid = Some s" and pc: "bm_pc s = Holding new"
    and none: "bm_last s = None"
  shows "worldInv render recent pub (setStream sid (deliver failsAt nextOrder previousOrder new s) w)"
  using worldInvD(7)[OF inv s]
  by (intro stream_inv[OF inv]) (auto simp: deliver_def none streamInv_def pcInv_def pc pageOK_def)

lemma board_step_inv:
  assumes "board_step render w w'" and "worldInv render recent pub w"
  shows "\<exists>recent pub. worldInv render recent pub w'"
  using assms
proof (induction rule: board_step.induct)
  case (wrote w s)
  from wrote_inv[OF wrote.prems] show ?case by (intro exI)
next
  case (announced w)
  from announced_inv[OF announced.prems announced.hyps(2)] show ?case by (intro exI)
next
  case (opened w n sid shown)
  have "generation n = generation (bw_notifier w)" "\<And>j. j \<noteq> sid \<Longrightarrow> subscribers n j = subscribers (bw_notifier w) j"
    using opened.hyps by (auto simp: Subscribe_def)
  then have "worldInv render recent pub (setStream sid (Some (openStream shown)) (w\<lparr>bw_notifier := n\<rparr>))"
    by (rule subscriber_inv[OF opened.prems]) (auto simp: openStream_def streamInv_def pcInv_def)
  then show ?case by blast
next
  case (closed w sid)
  have "worldInv render recent pub (setStream sid None (w\<lparr>bw_notifier := Unsubscribe sid (bw_notifier w)\<rparr>))"
    by (rule subscriber_inv[OF closed.prems]) (auto simp: Unsubscribe_def split: option.splits)
  then show ?case by blast
next
  case (generation_read w sid s)
  have "worldInv render recent pub (setStream sid (Some (s\<lparr>bm_pc := Asking (Generation (bw_notifier w))\<rparr>)) w)"
    using worldInvD(7)[OF generation_read.prems generation_read.hyps(1)]
    by (intro stream_inv[OF generation_read.prems]) (auto simp: streamInv_def pcInv_def Generation_def pageOK_def)
  then show ?case by blast
next
  case (asked w sid s g)
  from asked_inv[OF asked.prems asked.hyps] show ?case by (intro exI)
next
  case (looked w f)
  from looked_inv[OF looked.prems looked.hyps] show ?case by (intro exI)
next
  case (published w f e)
  from published_inv[OF published.prems published.hyps, of e]
  obtain pub' where "worldInv render recent pub' (publishFlight (render e (fl_looks f)) f w)" by (elim exE)
  then show ?case by (intro exI)
next
  case (render_done w sid s g token g' new)
  have st: "streamInv render recent pub (generation (bw_notifier w)) (subscribers (bw_notifier w)) (bw_done w) (bw_flight w) sid s"
    by (rule worldInvD(7)[OF render_done.prems render_done.hyps(1)])
  have unfinished: "fl_token f \<noteq> token" if "bw_flight w = Some f" for f
    using worldInvD(5)[OF render_done.prems] that render_done.hyps(3) by (auto simp: flightInv_def)
  have "g' = g" and turn: "subscribers (bw_notifier w) sid \<noteq> Some False \<or> g = generation (bw_notifier w)"
    using st unfinished render_done.hyps(2,3) by (auto simp: streamInv_def pcInv_def)
  moreover have "snapOK pub new" "g' = generation (bw_notifier w) \<longrightarrow> fresh render recent new"
    using worldInvD(6)[OF render_done.prems] render_done.hyps(3) unfolding doneInv_def by blast+
  ultimately have now: "snapOK pub new" "subscribers (bw_notifier w) sid \<noteq> Some False \<or> fresh render recent new" by auto
  have "worldInv render recent pub (setStream sid (Some (s\<lparr>bm_pc := Holding new\<rparr>)) w)"
    using st now by (intro stream_inv[OF render_done.prems]) (auto simp: streamInv_def pcInv_def pageOK_def)
  then show ?case by blast
next
  case (wait_done w sid s g token g' new)
  have "worldInv render recent pub (setStream sid (Some (s\<lparr>bm_pc := Asking g\<rparr>)) w)"
    using worldInvD(7)[OF wait_done.prems wait_done.hyps(1)] wait_done.hyps(2)
    by (intro stream_inv[OF wait_done.prems]) (auto simp: streamInv_def pcInv_def pageOK_def)
  then show ?case by blast
next
  case (delivered w sid s new previous nextOrder previousOrder failsAt)
  from delivered_inv[OF delivered.prems delivered.hyps] show ?case by (intro exI)
next
  case (baselined w sid s new)
  from baselined_inv[OF baselined.prems baselined.hyps] show ?case by (intro exI)
next
  case (woken w sid s)
  have "worldInv render recent pub (setStream sid (Some (s\<lparr>bm_pc := Woken\<rparr>)) (w\<lparr>bw_notifier := receive sid (bw_notifier w)\<rparr>))"
    using worldInvD(7)[OF woken.prems woken.hyps(1)]
    by (intro subscriber_inv[OF woken.prems]) (auto simp: receive_def streamInv_def pcInv_def pageOK_def)
  then show ?case by blast
qed

lemma board_run_inv: "board_run render w \<Longrightarrow> \<exists>recent pub. worldInv render recent pub w"
proof -
  assume "board_run render w"
  then obtain s where "(board_step render)\<^sup>*\<^sup>* (startBoard s) w" unfolding board_run_def by blast
  then show ?thesis
  proof (induction rule: rtranclp_induct)
    case base
    from worldInv_start show ?case by (intro exI)
  next
    case (step w w')
    then obtain recent pub where "worldInv render recent pub w" by (elim exE)
    with board_step_inv[OF step.hyps(2)] show ?case .
  qed
qed

end
