(* ===== verification/StreamProperties.thy ===== *)
theory StreamProperties
  imports BoardLaws
begin

text \<open>
  The properties of the board's live channel, with their witnesses.
\<close>

section \<open>Streams\<close>

text \<open>C11: an open board follows the store: whatever writes, announcements, connections, shared renders,
  failures and pushes were interleaved, once every write is announced a stream that waits with no signal in its
  channel has sent a board rendered from the store as it is now, and its page shows that board in every
  row in which the page it was loaded with showed the baseline.\<close>

theorem quiet_stream_is_current:
  assumes "board_run render w" and "bw_unannounced w = 0" and "bw_streams w sid = Some s"
    and "bm_pc s = Listening" and "subscribers (bw_notifier w) sid = Some False"
  shows "\<exists>b e looks. bm_last s = Some b \<and> looks \<noteq> [] \<and> set looks = {bw_store w} \<and>
    render e looks = Inr (bs_rendered b) \<and> (\<forall>k. bm_loaded s k = bm_base s k \<longrightarrow> bm_page s k = bs_rendered b k)"
proof -
  obtain recent pub where inv: "worldInv render recent pub w" using board_run_inv[OF assms(1)] by (elim exE)
  have recent: "recent = {bw_store w}" by (rule worldInvD(2)[OF inv assms(2)])
  obtain b where b: "bm_last s = Some b" "fresh render recent b" "pageOK s b"
    using worldInvD(7)[OF inv assms(3)] assms(4,5) by (auto simp: streamInv_def pcInv_def)
  obtain e looks where looks: "looks \<noteq> []" "set looks \<subseteq> {bw_store w}" "render e looks = Inr (bs_rendered b)"
    using b(2) recent by (auto simp: fresh_def)
  then have "set looks = {bw_store w}" by (cases looks) auto
  moreover have "\<forall>k. bm_loaded s k = bm_base s k \<longrightarrow> bm_page s k = bs_rendered b k"
    using b(3) by (auto simp: pageOK_def)
  ultimately show ?thesis using b(1) looks by blast
qed

text \<open>A board of one row that shows the store.\<close>

definition demo_board :: "unit \<Rightarrow> string list \<Rightarrow> error + renderedRows" where
  "demo_board e looks = Inr [''i'' \<mapsto> last looks]"

definition demo_sent :: boardSnapshot where
  "demo_sent = \<lparr>bs_seq = 1, bs_rendered = [''i'' \<mapsto> ''s'']\<rparr>"

definition demo_stream :: boardStream where
  "demo_stream = \<lparr>bm_pc = Listening, bm_last = Some demo_sent, bm_page = [''i'' \<mapsto> ''s''],
     bm_loaded = [''i'' \<mapsto> ''s''], bm_base = [''i'' \<mapsto> ''s'']\<rparr>"

definition demo_world :: "string boardWorld" where
  "demo_world = \<lparr>bw_store = ''s'', bw_unannounced = 0, bw_notifier = fst (Subscribe NewAttentionChangeNotifier),
     bw_board = \<lparr>br_seq = 1, br_current = Some demo_sent, br_renderedGeneration = 0, br_refreshing = None\<rparr>,
     bw_flight = None, bw_done = [0 \<mapsto> (0, Inr demo_sent)], bw_tokens = 1, bw_streams = [0 \<mapsto> demo_stream]\<rparr>"

lemma demo_board_run: "board_run demo_board demo_world"
proof -
  let ?S = "board_step demo_board" and ?loaded = "[''i'' \<mapsto> ''s'']"
  let ?n = "fst (Subscribe NewAttentionChangeNotifier)"
  let ?s = "\<lambda>pc. (openStream ?loaded)\<lparr>bm_pc := pc\<rparr>"
  define w1 where "w1 = setStream 0 (Some (openStream ?loaded)) ((startBoard ''s'')\<lparr>bw_notifier := ?n\<rparr>)"
  define w2 where "w2 = setStream 0 (Some (?s (Asking 0))) w1"
  define w3 where "w3 = askBoard 0 0 (?s (Asking 0)) w2"
  define f where "f = \<lparr>fl_token = 0, fl_asked = 0, fl_looks = [] :: string list\<rparr>"
  define w4 where "w4 = w3\<lparr>bw_flight := Some (f\<lparr>fl_looks := [''s'']\<rparr>)\<rparr>"
  define w5 where "w5 = publishFlight (demo_board () [''s'']) (f\<lparr>fl_looks := [''s'']\<rparr>) w4"
  define w6 where "w6 = setStream 0 (Some (?s (Holding demo_sent))) w5"
  have w3: "w3 = w2\<lparr>bw_board := newBoardRenderer\<lparr>br_refreshing := Some 0\<rparr>, bw_flight := Some f, bw_tokens := 1,
      bw_streams := [0 \<mapsto> ?s (Rendering 0 0)]\<rparr>"
    by (simp add: w3_def w2_def w1_def askBoard_def snapshotTurnOf_def startBoard_def newBoardRenderer_def setStream_def f_def)
  have w5: "w5 = w3\<lparr>bw_board := bw_board demo_world, bw_flight := None, bw_done := [0 \<mapsto> (0, Inr demo_sent)]\<rparr>"
    by (simp add: w5_def w4_def w3 publishFlight_def publishBoard_def demo_board_def f_def demo_world_def demo_sent_def
        newBoardRenderer_def w2_def w1_def setStream_def startBoard_def Let_def)
  have n: "Subscribe NewAttentionChangeNotifier = (?n, 0)" "Generation ?n = 0"
    by (simp_all add: Subscribe_def NewAttentionChangeNotifier_def Generation_def)
  have "?S (startBoard ''s'') w1"
    using board_step.opened[of "startBoard ''s''" ?n 0 demo_board ?loaded] n(1) by (simp add: w1_def startBoard_def)
  moreover have "?S w1 w2"
    using board_step.generation_read[of w1 0 "openStream ?loaded" demo_board] n(2)
    by (simp add: w2_def w1_def setStream_def openStream_def)
  moreover have "?S w2 w3"
    using board_step.asked[of w2 0 "?s (Asking 0)" 0 demo_board] by (simp add: w3_def w2_def setStream_def)
  moreover have "?S w3 w4"
    using board_step.looked[of w3 f demo_board] by (simp add: w4_def w3 w2_def w1_def setStream_def startBoard_def f_def)
  moreover have "?S w4 w5"
    using board_step.published[of w4 "f\<lparr>fl_looks := [''s'']\<rparr>" demo_board "()"] by (simp add: w5_def w4_def)
  moreover have "?S w5 w6"
    using board_step.render_done[of w5 0 "?s (Rendering 0 0)" 0 0 0 demo_sent demo_board]
    by (simp add: w6_def w5 w3)
  moreover have "?S w6 demo_world"
  proof -
    have "setStream 0 (deliver None [] [] demo_sent (?s (Holding demo_sent))) w6 = demo_world"
      by (simp add: w6_def w5 w3 w2_def w1_def setStream_def deliver_def openStream_def demo_world_def demo_stream_def
          startBoard_def demo_sent_def)
    then show ?thesis
      using board_step.baselined[of w6 0 "?s (Holding demo_sent)" demo_sent demo_board]
      by (simp add: w6_def setStream_def openStream_def)
  qed
  ultimately have "?S\<^sup>*\<^sup>* (startBoard ''s'') demo_world" by (meson converse_rtranclp_into_rtranclp rtranclp.rtrancl_refl)
  then show ?thesis unfolding board_run_def by blast
qed

lemma quiet_stream_is_current_witness: "bm_page demo_stream ''i'' = Some ''s'' \<and> bm_last demo_stream = Some demo_sent \<and>
    (\<exists>e looks. set looks = {''s''} \<and> demo_board e looks = Inr (bs_rendered demo_sent))"
  using quiet_stream_is_current[OF demo_board_run, of 0 demo_stream]
  by (auto simp: demo_world_def demo_stream_def Subscribe_def NewAttentionChangeNotifier_def)

text \<open>C21: a push sends the difference and nothing else: it sends the new markup of exactly the rows that are new or
  changed since the board sent before and the removal of exactly those that left, so that a page that shows the
  board sent before in a set of rows shows the new one in all of them; rows that did not change are not sent, so
  that input under way in them survives; and a board already sent sends nothing.\<close>

theorem push_sends_difference:
  assumes "set nextOrder = dom (bs_rendered new)" and "set previousOrder = dom (bs_rendered previous)"
    and "\<forall>k \<in> K. shown k = bs_rendered previous k"
  shows "if bs_seq new = bs_seq previous
    then push None nextOrder previousOrder previous new = ([], True)
    else \<exists>events. push None nextOrder previousOrder previous new = (events, True) \<and>
      (\<forall>k \<in> K. fold applyEvent events shown k = bs_rendered new k) \<and>
      set events =
        {Upsert k html | k html. bs_rendered new k = Some html \<and> bs_rendered previous k \<noteq> Some html} \<union>
        {Remove k | k. bs_rendered new k = None \<and> bs_rendered previous k \<noteq> None}"
proof (cases "bs_seq new = bs_seq previous")
  case False
  let ?events = "pushEvents nextOrder previousOrder previous new"
  have "push None nextOrder previousOrder previous new = (?events, True)"
    using False by (simp add: push_def sendEvents_def)
  moreover have "\<forall>k \<in> K. fold applyEvent ?events shown k = bs_rendered new k"
    using push_page[OF assms(1,2)] assms(3) False by simp
  moreover have "e \<in> set ?events \<longleftrightarrow> e \<in>
        {Upsert k html | k html. bs_rendered new k = Some html \<and> bs_rendered previous k \<noteq> Some html} \<union>
        {Remove k | k. bs_rendered new k = None \<and> bs_rendered previous k \<noteq> None}" for e
    using pushEvents_remove[OF assms(2) False] pushEvents_upsert[OF assms(1) False] by (cases e) auto
  ultimately show ?thesis using False by auto
qed (simp add: push_def pushEvents_def sendEvents_def)

definition demo_older :: boardSnapshot where
  "demo_older = \<lparr>bs_seq = 1, bs_rendered = [''a'' \<mapsto> ''x'', ''c'' \<mapsto> ''z'']\<rparr>"

definition demo_newer :: boardSnapshot where
  "demo_newer = \<lparr>bs_seq = 2, bs_rendered = [''a'' \<mapsto> ''x'', ''b'' \<mapsto> ''y'']\<rparr>"

lemma push_sends_difference_witness:
  "\<exists>events. push None [''a'', ''b''] [''a'', ''c''] demo_older demo_newer = (events, True) \<and>
     set events = {Upsert ''b'' ''y'', Remove ''c''} \<and>
     fold applyEvent events (bs_rendered demo_older) = bs_rendered demo_newer"
proof -
  have orders: "set [''a'', ''b''] = dom (bs_rendered demo_newer)" "set [''a'', ''c''] = dom (bs_rendered demo_older)"
    by (simp_all add: insert_commute demo_older_def demo_newer_def)
  have seq: "bs_seq demo_newer \<noteq> bs_seq demo_older" by (simp add: demo_older_def demo_newer_def)
  have same: "\<forall>k \<in> UNIV. bs_rendered demo_older k = bs_rendered demo_older k" by simp
  obtain events where sent: "push None [''a'', ''b''] [''a'', ''c''] demo_older demo_newer = (events, True)"
    and shown: "\<forall>k \<in> UNIV. fold applyEvent events (bs_rendered demo_older) k = bs_rendered demo_newer k"
    and events: "set events =
        {Upsert k html | k html. bs_rendered demo_newer k = Some html \<and> bs_rendered demo_older k \<noteq> Some html} \<union>
        {Remove k | k. bs_rendered demo_newer k = None \<and> bs_rendered demo_older k \<noteq> None}"
    using push_sends_difference[OF orders same, unfolded if_not_P[OF seq]] by (elim exE conjE) (rule that)
  have "push None [''a'', ''b''] [''a'', ''c''] demo_older demo_newer = ([Upsert ''b'' ''y'', Remove ''c''], True)"
    by code_simp
  then have "set events = {Upsert ''b'' ''y'', Remove ''c''}" using sent by auto
  moreover have "fold applyEvent events (bs_rendered demo_older) = bs_rendered demo_newer" using shown by (simp add: fun_eq_iff)
  ultimately show ?thesis using sent by (intro exI[of _ events] conjI)
qed

text \<open>C22: however many streams are connected and whatever they ask for, the board is rendered at most once for
  each announced change and once at the start: the successful renders never outnumber the generations.\<close>

theorem one_render_per_change:
  assumes "board_run render w"
  shows "unat (br_seq (bw_board w)) \<le> unat (Generation (bw_notifier w)) + 1"
proof -
  obtain recent pub where inv: "worldInv render recent pub w" using board_run_inv[OF assms(1)] by (elim exE)
  show ?thesis
    using worldInvD(4)[OF inv]
    by (cases "br_current (bw_board w)") (auto simp: boardInv_def Generation_def word_le_nat_alt)
qed

lemma one_render_per_change_witness: "unat (br_seq (bw_board demo_world)) \<le> 1"
  using one_render_per_change[OF demo_board_run]
  by (simp add: demo_world_def Generation_def Subscribe_def NewAttentionChangeNotifier_def)

end
