(* ===== verification/Words.thy ===== *)
theory Words
  imports CardText Paths
begin

text \<open>
  Runes and words of a byte string, as Go's \<open>[]rune\<close> conversion, \<open>strings.Fields\<close>, \<open>strings.TrimLeftFunc\<close> and
  \<open>strings.Join\<close> see them. A rune is the bytes it was decoded from.
\<close>

section \<open>Runes\<close>

lemma runeWidth_pos: "0 < runeWidth s"
  by (simp add: runeWidth_def)

function runes :: "string \<Rightarrow> string list" where
  "runes [] = []"
| "runes (c # cs) = take (runeWidth (c # cs)) (c # cs) # runes (drop (runeWidth (c # cs)) (c # cs))"
  by pat_completeness auto
termination
proof (relation "measure length", goal_cases)
  case (2 c cs)
  then show ?case using runeWidth_pos[of "c # cs"] by simp
qed simp

text \<open>Encoding a rune again: bytes that are no rune become the replacement character.\<close>

definition replacementRune :: string where "replacementRune = [CHR 0xEF, CHR 0xBF, CHR 0xBD]"

definition encodeRune :: "string \<Rightarrow> string" where
  "encodeRune r = (if utf8Len r = 0 then replacementRune else r)"

definition runeLen :: "string \<Rightarrow> nat" where "runeLen s = length (runes s)"

definition isSpaceRune :: "string \<Rightarrow> bool" where "isSpaceRune r \<longleftrightarrow> r \<in> set spaceRunes"

section \<open>Words\<close>

text \<open>The maximal runs of runes that are no white space.\<close>

fun fieldsFrom :: "string \<Rightarrow> string list \<Rightarrow> string list" where
  "fieldsFrom word [] = (if word = [] then [] else [word])"
| "fieldsFrom word (r # rs) =
     (if \<not> isSpaceRune r then fieldsFrom (word @ r) rs
      else if word = [] then fieldsFrom [] rs
      else word # fieldsFrom [] rs)"

definition Fields :: "string \<Rightarrow> string list" where "Fields s = fieldsFrom [] (runes s)"

definition TrimLeftFunc :: "(string \<Rightarrow> bool) \<Rightarrow> string \<Rightarrow> string" where
  "TrimLeftFunc f s = concat (dropWhile f (runes s))"

fun joinStrings :: "string \<Rightarrow> string list \<Rightarrow> string" where
  "joinStrings sep [] = []"
| "joinStrings sep [s] = s"
| "joinStrings sep (s # ss) = s @ sep @ joinStrings sep ss"

end
