(* ===== verification/BoardPage.thy ===== *)
theory BoardPage
  imports Provenance BoardStream Words
begin

text \<open>
  The board page (\<open>attention-page.go\<close>, \<open>-helpers.go\<close>, \<open>-data.go\<close>, \<open>-producer-kind.go\<close>) and the rows of its
  stream: the view of one item, the filter of the page and its counts, the links, and the handler up to
  the template. The template's execution, the text of a date and the letter tables are parameters.
\<close>

section \<open>Links\<close>

text \<open>\<open>url.QueryEscape\<close>.\<close>

definition hexUpperDigit :: "nat \<Rightarrow> char" where
  "hexUpperDigit n = ''0123456789ABCDEF'' ! n"

definition queryUnreserved :: "char \<Rightarrow> bool" where
  "queryUnreserved c \<longleftrightarrow>
     (CHR ''a'' \<le> c \<and> c \<le> CHR ''z'') \<or> (CHR ''A'' \<le> c \<and> c \<le> CHR ''Z'') \<or> (CHR ''0'' \<le> c \<and> c \<le> CHR ''9'') \<or>
     c \<in> {CHR ''-'', CHR ''_'', CHR ''.'', CHR ''~''}"

definition percent :: "char \<Rightarrow> string" where
  "percent c = [CHR ''%'', hexUpperDigit (of_char c div 16), hexUpperDigit (of_char c mod 16)]"

definition queryEscapeChar :: "char \<Rightarrow> string" where
  "queryEscapeChar c =
     (if queryUnreserved c then [c] else if c = CHR '' '' then ''+'' else percent c)"

definition QueryEscape :: "string \<Rightarrow> string" where
  "QueryEscape s = concat (map queryEscapeChar s)"

definition obsidianQueryValue :: "string \<Rightarrow> string" where
  "obsidianQueryValue val = concat (map (\<lambda>c. if c = CHR ''+'' then ''%20'' else [c]) (QueryEscape val))"

definition vaultNameFromDir :: "string \<Rightarrow> string" where
  "vaultNameFromDir vaultDir = (if vaultDir = [] then [] else pathBase vaultDir)"

definition vaultFileURL :: "string \<Rightarrow> string \<Rightarrow> string" where
  "vaultFileURL vaultName path =
     (if vaultName = [] \<or> path = [] then []
      else ''obsidian://open?vault='' @ obsidianQueryValue vaultName @ ''&file='' @
           obsidianQueryValue (TrimSuffix path ''.md''))"

section \<open>The jump of a row\<close>

definition jumpPane :: "Provenance \<Rightarrow> string" where
  "jumpPane p =
     (if pv_Pane p \<noteq> [] then pv_Pane p
      else if pv_PaneListingUnreadable p then pv_RecordedPane p else [])"

definition jumpCommand :: "Item \<Rightarrow> Provenance \<Rightarrow> string" where
  "jumpCommand item p =
     (if AnswerMechanism item = MessageAnswerMechanism then []
      else if jumpPane p = [] then [] else ''/supervisor:jump '' @ jumpPane p)"

definition jumpURL :: "Item \<Rightarrow> Provenance \<Rightarrow> string" where
  "jumpURL item p = (if jumpPane p = [] then [] else ''/jump/'' @ ItemID item)"

definition noJumpReason :: "Item \<Rightarrow> Provenance \<Rightarrow> string" where
  "noJumpReason item p =
     (if jumpCommand item p \<noteq> [] \<or> jumpURL item p \<noteq> [] then []
      else if pv_PaneRecorded p then ''The pane recorded for this item does not resolve to this session.''
      else ''No pane was recorded for this item, so there is no session to jump to.'')"

section \<open>Questions and records\<close>

record attentionPageQuestion =
  pq_Tab :: string
  pq_Payload :: string
  pq_Hint :: string
  pq_Multi :: bool
  pq_Active :: bool
  pq_Name :: string
  pq_Options :: "AnswerOption list"

definition cardinalityHint :: "AnswerCardinality \<Rightarrow> nat \<Rightarrow> string" where
  "cardinalityHint cardinality optionCount =
     (if optionCount = 0 then []
      else if cardinality = MultipleAnswerCardinality then ''pick any number'' else ''pick one'')"

definition optionName :: "ItemID \<Rightarrow> string \<Rightarrow> string" where
  "optionName itemID tab = ''option-'' @ itemID @ ''-'' @ tab"

definition pageQuestions :: "Item \<Rightarrow> attentionPageQuestion list" where
  "pageQuestions item =
     (if Questions item = [] then
        [\<lparr>pq_Tab = [], pq_Payload = Payload item,
          pq_Hint = cardinalityHint (AnswerCardinality item) (length (Options item)),
          pq_Multi = (AnswerCardinality item = MultipleAnswerCardinality), pq_Active = True,
          pq_Name = optionName (ItemID item) [], pq_Options = Options item\<rparr>]
      else
        map (\<lambda>(index, question).
          \<lparr>pq_Tab = q_Tab question, pq_Payload = q_Payload question,
           pq_Hint = cardinalityHint (q_Cardinality question) (length (q_Options question)),
           pq_Multi = (q_Cardinality question = MultipleAnswerCardinality), pq_Active = (index = 0),
           pq_Name = optionName (ItemID item) (q_Tab question), pq_Options = q_Options question\<rparr>)
          (enumerate 0 (Questions item)))"

text \<open>The middle dot between two answers is two bytes.\<close>

definition answerText :: "Answer \<Rightarrow> string" where
  "answerText a =
     (if ans_Kind a = SkipAnswerKind then ''skipped''
      else if ans_Kind a = HiddenAnswerKind then ''hidden (handled elsewhere)''
      else if ans_Kind a = OptionAnswerKind \<or> ans_Kind a = TextAnswerKind
      then (if ans_Values a \<noteq> [] then joinStrings '', '' (ans_Values a) else ans_Value a)
      else ''no answer recorded'')"

definition recordAnswer :: "Item \<Rightarrow> string" where
  "recordAnswer item =
     (if AnswerMechanism item = PermissionAnswerMechanism
      then (if Decision item = [] then ''no decision recorded'' else ''decision: '' @ Decision item)
      else if Answers item \<noteq> []
      then joinStrings ('' '' @ [CHR 0xC2, CHR 0xB7] @ '' '')
             (map (\<lambda>a. qa_Question a @ '': '' @ answerText (qa_Answer a)) (Answers item))
      else (case Answer item of Some a \<Rightarrow> answerText a | None \<Rightarrow> ''no answer recorded''))"

section \<open>A row\<close>

definition affordance :: "AnswerMechanism \<Rightarrow> bool \<times> bool" where
  "affordance mechanism =
     (if mechanism = MessageAnswerMechanism then (True, False)
      else if mechanism = AckAnswerMechanism then (False, True) else (False, False))"

definition infoMetaLine :: "(instant \<Rightarrow> string) \<Rightarrow> Item \<Rightarrow> string" where
  "infoMetaLine dateText item =
     (if State item = [] \<and> CreatedAt item = zeroTime then []
      else if CreatedAt item = zeroTime then State item
      else if State item = [] then dateText (CreatedAt item)
      else State item @ '' - '' @ dateText (CreatedAt item))"

definition navigationSessionName :: "(string \<Rightarrow> bool) \<Rightarrow> Provenance \<Rightarrow> string" where
  "navigationSessionName letterOrDigit p =
     (if StripStatusGlyph letterOrDigit (pv_SessionName p) = StripStatusGlyph letterOrDigit (pv_TaskName p)
      then [] else pv_SessionName p)"

record attentionPageRow =
  row_Item :: Item
  row_Provenance :: Provenance
  row_Message :: bool
  row_Ack :: bool
  row_Decide :: bool
  row_Questions :: "attentionPageQuestion list"
  row_Tabs :: bool
  row_Risk :: string
  row_Dimmed :: bool
  row_Record :: string
  row_Flagged :: bool
  row_DeliveryStatus :: string
  row_Jump :: string
  row_JumpURL :: string
  row_NoJump :: string
  row_Speak :: bool
  row_Info :: bool
  row_Meta :: string
  row_TaskURL :: string
  row_GoalURL :: string
  row_TopicURL :: string

text \<open>What both surfaces are configured with.\<close>

record boardConfig =
  bc_dateText :: "instant \<Rightarrow> string"
  bc_letterOrDigit :: "string \<Rightarrow> bool"
  bc_speak :: bool
  bc_vaultDir :: string

definition newAttentionPageRow :: "boardConfig \<Rightarrow> Item \<Rightarrow> Provenance \<Rightarrow> string \<Rightarrow> attentionPageRow" where
  "newAttentionPageRow C item p delivery =
     (let vaultName = vaultNameFromDir (bc_vaultDir C);
          (message, ack) = affordance (AnswerMechanism item);
          answered = (State item = AnsweredState)
      in \<lparr>row_Item = item,
          row_Provenance = p\<lparr>pv_SessionName := navigationSessionName (bc_letterOrDigit C) p\<rparr>,
          row_Message = message, row_Ack = ack,
          row_Decide = (AnswerMechanism item = PermissionAnswerMechanism),
          row_Questions = (if message then pageQuestions item else []),
          row_Tabs = (message \<and> Questions item \<noteq> []),
          row_Risk = RiskOf item (pv_ProductionTouching p),
          row_Dimmed = answered, row_Record = (if answered then recordAnswer item else []),
          row_Flagged = (FlagReason item \<noteq> []), row_DeliveryStatus = delivery,
          row_Jump = jumpCommand item p, row_JumpURL = jumpURL item p, row_NoJump = noJumpReason item p,
          row_Speak = bc_speak C,
          row_Info = (ProducerID item \<noteq> [] \<or> ProducerKind item \<noteq> [] \<or> pv_Host p \<noteq> [] \<or> pv_Cwd p \<noteq> [] \<or>
            pv_Tool p \<noteq> [] \<or> pv_Pane p \<noteq> [] \<or> pv_PaneRecorded p \<or> State item \<noteq> [] \<or>
            CreatedAt item \<noteq> zeroTime),
          row_Meta = infoMetaLine (bc_dateText C) item,
          row_TaskURL = vaultFileURL vaultName (pv_TaskPath p),
          row_GoalURL = vaultFileURL vaultName (pv_GoalPath p),
          row_TopicURL = vaultFileURL vaultName (pv_TopicPath p)\<rparr>)"

definition Undeliverable :: "attentionPageRow \<Rightarrow> bool" where
  "Undeliverable r = (row_DeliveryStatus r = FailedStatus)"

section \<open>The rows of a board\<close>

definition deliveryStatusOf :: "'s attentionOps \<Rightarrow> ItemID \<Rightarrow> 's \<Rightarrow> 's \<times> string" where
  "deliveryStatusOf Ops itemID s =
     (case op_Delivery Ops itemID s of
        (s, Inl _) \<Rightarrow> (s, [])
      | (s, Inr report) \<Rightarrow> (s, rep_Status report))"

fun boardRows ::
  "boardConfig \<Rightarrow> 's attentionOps \<Rightarrow> (ItemID \<rightharpoonup> Provenance) \<Rightarrow> Item list \<Rightarrow> 's \<Rightarrow> 's \<times> attentionPageRow list" where
  "boardRows C Ops provenances [] s = (s, [])"
| "boardRows C Ops provenances (item # items) s =
     (case deliveryStatusOf Ops (ItemID item) s of (s, status) \<Rightarrow>
       (case boardRows C Ops provenances items s of (s, rows) \<Rightarrow>
         (s, newAttentionPageRow C item
               (case provenances (ItemID item) of None \<Rightarrow> noProvenance | Some p \<Rightarrow> p) status # rows)))"

text \<open>The rows of the stream: the template turns each into its markup, or fails.\<close>

fun renderRows ::
  "boardConfig \<Rightarrow> 's attentionOps \<Rightarrow> (attentionPageRow \<Rightarrow> error + string) \<Rightarrow> (ItemID \<rightharpoonup> Provenance) \<Rightarrow> Item list \<Rightarrow>
   's \<times> renderedRows \<Rightarrow> 's \<times> (error + renderedRows)" where
  "renderRows C Ops template provenances [] (s, rendered) = (s, Inr rendered)"
| "renderRows C Ops template provenances (item # items) (s, rendered) =
     (case deliveryStatusOf Ops (ItemID item) s of (s, status) \<Rightarrow>
       (case template (newAttentionPageRow C item
               (case provenances (ItemID item) of None \<Rightarrow> noProvenance | Some p \<Rightarrow> p) status) of
          Inl e \<Rightarrow> (s, Inl e)
        | Inr html \<Rightarrow> renderRows C Ops template provenances items (s, rendered(ItemID item \<mapsto> html))))"

text \<open>\<open>provenanceOf\<close> is the provenance resolver, a function of its own state.\<close>

type_synonym 'r resolver = "Item list \<Rightarrow> 'r \<Rightarrow> 'r \<times> (ItemID \<rightharpoonup> Provenance)"

definition renderBoard ::
  "boardConfig \<Rightarrow> 's attentionOps \<Rightarrow> 'r resolver \<Rightarrow> (attentionPageRow \<Rightarrow> error + string) \<Rightarrow> 's \<times> 'r \<Rightarrow>
   ('s \<times> 'r) \<times> (error + renderedRows)" where
  "renderBoard C Ops provenanceOf template st =
     (case st of (s, r) \<Rightarrow>
       (case op_ReadBoard Ops s of
          (s, Inl e) \<Rightarrow> ((s, r), Inl e)
        | (s, Inr items) \<Rightarrow>
            (case provenanceOf items r of (r, provenances) \<Rightarrow>
              (case renderRows C Ops template provenances items (s, Map.empty) of
                 (s, result) \<Rightarrow> ((s, r), result)))))"

section \<open>The filter by producer kind\<close>

definition boardProducerKindParam :: string where "boardProducerKindParam = ''producer_kind''"
definition boardProducerKindAll :: string where "boardProducerKindAll = ''all''"
definition ManagerProducerKind :: ProducerKind where "ManagerProducerKind = ''manager''"

text \<open>A parsed query: the values of each parameter. \<open>Get\<close> is the first one, \<open>Set\<close> replaces them.\<close>

type_synonym urlValues = "string \<rightharpoonup> string list"

definition queryGet :: "urlValues \<Rightarrow> string \<Rightarrow> string" where
  "queryGet q k = (case q k of Some (v # vs) \<Rightarrow> v | _ \<Rightarrow> [])"

definition encodeValues :: "urlValues \<Rightarrow> string" where
  "encodeValues q =
     joinStrings ''&'' (concat (map (\<lambda>(k, vs). map (\<lambda>v. QueryEscape k @ ''='' @ QueryEscape v) vs) (sorted_entries q)))"

definition kindSwitched :: "urlValues \<Rightarrow> bool \<Rightarrow> urlValues" where
  "kindSwitched q allKinds =
     q(boardProducerKindParam \<mapsto> [if allKinds then ManagerProducerKind else boardProducerKindAll])"

definition boardProducerKindHref :: "string \<Rightarrow> urlValues \<Rightarrow> bool \<Rightarrow> string" where
  "boardProducerKindHref path q allKinds =
     (if path = [] then ''/'' else path) @ ''?'' @ encodeValues (kindSwitched q allKinds)"

definition boardProducerKindOf :: "runtime \<Rightarrow> urlValues \<Rightarrow> error + ProducerKind \<times> bool" where
  "boardProducerKindOf R q =
     (let raw = queryGet q boardProducerKindParam in
      if raw = [] then Inr (ManagerProducerKind, False)
      else if raw = boardProducerKindAll then Inr ([], True)
      else (case ProducerKind_Validate R raw of Some e \<Rightarrow> Inl e | None \<Rightarrow> Inr (raw, False)))"

fun filterRows :: "ProducerKind \<Rightarrow> attentionPageRow list \<Rightarrow> attentionPageRow list \<times> nat \<times> nat" where
  "filterRows kind [] = ([], 0, 0)"
| "filterRows kind (r # rows) =
     (case filterRows kind rows of (shown, hiddenOpen, hiddenAll) \<Rightarrow>
       if ProducerKind (row_Item r) = kind \<or> pv_Uncovered (row_Provenance r) then (r # shown, hiddenOpen, hiddenAll)
       else (shown, if row_Dimmed r then hiddenOpen else Suc hiddenOpen, Suc hiddenAll))"

definition filterByProducerKind ::
  "attentionPageRow list \<Rightarrow> ProducerKind \<Rightarrow> bool \<Rightarrow> attentionPageRow list \<times> nat \<times> nat" where
  "filterByProducerKind rows kind allKinds = (if allKinds then (rows, 0, 0) else filterRows kind rows)"

section \<open>The page\<close>

record attentionPageData =
  pd_Items :: "attentionPageRow list"
  pd_Speak :: bool
  pd_HideAnswered :: bool
  pd_FlagFilter :: bool
  pd_AllKinds :: bool
  pd_KindHref :: string
  pd_HiddenCount :: nat
  pd_HiddenOpen :: nat
  pd_HiddenAll :: nat
  pd_BuildIdentity :: string

definition setKindCount :: "bool \<Rightarrow> attentionPageData \<Rightarrow> attentionPageData" where
  "setKindCount hideAnswered d =
     d\<lparr>pd_HiddenCount := (if hideAnswered then pd_HiddenOpen d else pd_HiddenAll d)\<rparr>"

record pageRequest =
  pr_path :: string
  pr_query :: urlValues

text \<open>The handler: \<open>execute\<close> is the template, \<open>identity\<close> the rendered identity of the build.\<close>

definition handleAttentionPage ::
  "httpLib \<Rightarrow> runtime \<Rightarrow> boardConfig \<Rightarrow> 's attentionOps \<Rightarrow> 'r resolver \<Rightarrow> (attentionPageData \<Rightarrow> error + string) \<Rightarrow>
   string \<Rightarrow> pageRequest \<Rightarrow> 's \<times> 'r \<Rightarrow> ('s \<times> 'r) \<times> string reply" where
  "handleAttentionPage H R C Ops provenanceOf execute identity req st =
     (case boardProducerKindOf R (pr_query req) of
        Inl _ \<Rightarrow> (st, badRequest H)
      | Inr (producerKind, allKinds) \<Rightarrow>
          (case st of (s, r) \<Rightarrow>
            (case op_ReadBoard Ops s of
               (s, Inl _) \<Rightarrow> ((s, r), Failed 500 (lib_ErrorCodeInternal H) None)
             | (s, Inr items) \<Rightarrow>
                 (case provenanceOf items r of (r, provenances) \<Rightarrow>
                   (case boardRows C Ops provenances items s of (s, rows) \<Rightarrow>
                     (let hideAnswered = (queryGet (pr_query req) ''hide'' \<noteq> ''none'');
                          flagFilter = (queryGet (pr_query req) ''flags'' \<noteq> ''none'')
                      in case filterByProducerKind rows producerKind allKinds of (shown, hiddenOpen, hiddenAll) \<Rightarrow>
                        (case execute (setKindCount hideAnswered
                                \<lparr>pd_Items = shown, pd_Speak = bc_speak C, pd_HideAnswered = hideAnswered,
                                 pd_FlagFilter = flagFilter, pd_AllKinds = allKinds,
                                 pd_KindHref = boardProducerKindHref (pr_path req) (pr_query req) allKinds,
                                 pd_HiddenCount = 0, pd_HiddenOpen = hiddenOpen, pd_HiddenAll = hiddenAll,
                                 pd_BuildIdentity = identity\<rparr>) of
                           Inl _ \<Rightarrow> ((s, r), Failed (fst (lib_uncoded H)) (snd (lib_uncoded H)) None)
                         | Inr body \<Rightarrow> ((s, r), Sent 200 body))))))))"

end
