(* ===== verification/Jump.thy ===== *)
theory Jump
  imports BoardPage CardText "HOL-Library.AList"
begin

text \<open>
  The endpoints that act outside the store: the jump to a session's pane (\<open>attention-jump.go\<close>, \<open>legacy-jump.go\<close>,
  \<open>jump-token.go\<close>, \<open>pane-lister.go\<close>, \<open>pane-activator.go\<close>) and the read-aloud controls
  (\<open>attention-speak.go\<close>, \<open>attention-cancel.go\<close>). What the terminal, the token file and the speech server
  answer is a parameter; what the endpoints do to them is a result.
\<close>

section \<open>The terminal\<close>

text \<open>The binary on the path, what its listing prints once decoded, whether the write to a tty comes back in
  time and without an error, and the outcome of \<open>activate-pane\<close>.\<close>

record weztermHost =
  wz_LookPath :: "string \<Rightarrow> string option"
  wz_list :: "string \<Rightarrow> error + Pane list"
  wz_tty :: "string \<Rightarrow> bool"
  wz_run :: "string \<Rightarrow> error option"

datatype paneAction = WriteTTY string | ActivatePane string | OpenApp

definition weztermBinaryCandidates :: "string list" where
  "weztermBinaryCandidates = [''wezterm'', ''/Applications/WezTerm.app/Contents/MacOS/wezterm'']"

definition resolveWezterm :: "weztermHost \<Rightarrow> error + string" where
  "resolveWezterm W =
     (case find (\<lambda>k. wz_LookPath W k \<noteq> None) weztermBinaryCandidates of
        None \<Rightarrow> Inl (OtherError ''wezterm not found'')
      | Some k \<Rightarrow> Inr (the (wz_LookPath W k)))"

definition panesByID :: "Pane list \<Rightarrow> paneListing" where
  "panesByID panes = fold (\<lambda>pane. AList.update (pane_PaneID pane) pane) panes []"

definition List_panes :: "weztermHost \<Rightarrow> error + paneListing" where
  "List_panes W = ebind (resolveWezterm W) (\<lambda>binary. ebind (wz_list W binary) (\<lambda>panes. Inr (panesByID panes)))"

definition raise_pane :: "weztermHost \<Rightarrow> Pane \<Rightarrow> paneAction list \<times> bool" where
  "raise_pane W target =
     (if pane_TTYName target = [] then ([], False)
      else ([WriteTTY (pane_TTYName target)], wz_tty W (pane_TTYName target)))"

definition activatePane :: "weztermHost \<Rightarrow> string \<Rightarrow> paneAction list \<times> error option" where
  "activatePane W pane =
     (case resolveWezterm W of
        Inl e \<Rightarrow> ([], Some e)
      | Inr _ \<Rightarrow> ([ActivatePane pane], wz_run W pane))"

definition Activate :: "weztermHost \<Rightarrow> string \<Rightarrow> paneAction list \<times> error option" where
  "Activate W pane =
     (case Atoi pane of
        None \<Rightarrow> ([], Some (OtherError ''not a pane id''))
      | Some paneID \<Rightarrow>
          (case List_panes W of
             Inl e \<Rightarrow> ([], Some e)
           | Inr panes \<Rightarrow>
               (case map_of panes paneID of
                  None \<Rightarrow> ([], Some (OtherError ''not a live pane''))
                | Some target \<Rightarrow>
                    (case raise_pane W target of
                       (acts, raised) \<Rightarrow>
                         if raised then (acts @ [OpenApp], None)
                         else (case activatePane W pane of
                                 (rest, Some e) \<Rightarrow> (acts @ rest, Some e)
                               | (rest, None) \<Rightarrow> (acts @ rest @ [OpenApp], None))))))"

section \<open>The jump of an item\<close>

definition requireSameOrigin :: "string \<Rightarrow> bool" where
  "requireSameOrigin secFetchSite = (secFetchSite = ''same-origin'' \<or> secFetchSite = ''none'')"

text \<open>The reply has no body; \<open>forbidden\<close> is the library's code of a refused origin.\<close>

definition handleAttentionJump ::
  "httpLib \<Rightarrow> string \<Rightarrow> 's attentionOps \<Rightarrow> 'r resolver \<Rightarrow> weztermHost \<Rightarrow> string \<Rightarrow> ItemID \<Rightarrow> 's \<times> 'r \<Rightarrow>
   ('s \<times> 'r) \<times> paneAction list \<times> unit reply" where
  "handleAttentionJump H forbidden Ops provenanceOf W secFetchSite itemID st =
     (if \<not> requireSameOrigin secFetchSite then (st, [], Failed 403 forbidden None)
      else if itemID = [] then (st, [], badRequest H)
      else (case st of (s, r) \<Rightarrow>
        (case op_Get Ops itemID s of
           (s, Inl e) \<Rightarrow> ((s, r), [], wrapItemError H e)
         | (s, Inr item) \<Rightarrow>
             (case provenanceOf [item] r of (r, provenances) \<Rightarrow>
               (let pane = jumpPane (case provenances (ItemID item) of None \<Rightarrow> noProvenance | Some p \<Rightarrow> p) in
                if pane = [] then ((s, r), [], Failed 404 (lib_ErrorCodeNotFound H) None)
                else (case Activate W pane of
                        (acts, Some e) \<Rightarrow> ((s, r), acts, Failed 502 (lib_ErrorCodeInternal H) None)
                      | (acts, None) \<Rightarrow> ((s, r), acts, Sent 204 ())))))))"

section \<open>The legacy jump\<close>

definition readJumpToken :: "string \<Rightarrow> (string \<Rightarrow> error + string) \<Rightarrow> error + string" where
  "readJumpToken path readFile =
     (if path = [] then Inl (OtherError ''jump token path is empty'')
      else ebind (readFile path) (\<lambda>raw.
        let token = TrimSpace raw in
        if token = [] then Inl (OtherError ''jump token file is empty'') else Inr token))"

text \<open>\<open>net.SplitHostPort\<close>, the host of it; \<open>None\<close> is its error.\<close>

definition SplitHost :: "string \<Rightarrow> string option" where
  "SplitHost hostport =
     (let parts = splitAt1 (CHR '':'') hostport in
      if length parts < 2 then None
      else (let i = length hostport - 1 - length (last parts) in
            if hd hostport = CHR ''['' then
              (case indexOf '']'' hostport of
                 None \<Rightarrow> None
               | Some e \<Rightarrow>
                   if e + 1 = i \<and> CHR ''['' \<notin> set (drop 1 hostport) \<and> CHR '']'' \<notin> set (drop (e + 1) hostport)
                   then Some (drop 1 (take e hostport)) else None)
            else (let host = take i hostport in
                  if CHR '':'' \<in> set host \<or> CHR ''['' \<in> set hostport \<or> CHR '']'' \<in> set hostport then None
                  else Some host)))"

text \<open>\<open>net.ParseIP\<close> with \<open>IsLoopback\<close> is a predicate.\<close>

definition requireLoopbackHost :: "(string \<Rightarrow> bool) \<Rightarrow> string \<Rightarrow> bool" where
  "requireLoopbackHost isLoopbackIP hostHeader =
     (let host = (case SplitHost hostHeader of Some h \<Rightarrow> h | None \<Rightarrow> TrimSuffix (trimPrefix hostHeader ''['') '']'') in
      host = ''localhost'' \<or> isLoopbackIP host)"

definition requireJumpToken :: "(error + string) \<Rightarrow> string \<Rightarrow> bool" where
  "requireJumpToken token presented =
     (case token of
        Inl _ \<Rightarrow> False
      | Inr expected \<Rightarrow> presented \<noteq> [] \<and> presented = expected)"

datatype headingTone = ToneOK | ToneWarn | ToneErr

definition toneText :: "headingTone \<Rightarrow> string" where
  "toneText tone = (case tone of ToneOK \<Rightarrow> ''ok'' | ToneWarn \<Rightarrow> ''warn'' | ToneErr \<Rightarrow> ''err'')"

text \<open>A quoted attribute of a tag.\<close>

definition quoted :: "string \<Rightarrow> string" where
  "quoted s = [CHR 0x22] @ s @ [CHR 0x22]"

record legacyReply =
  lr_code :: int
  lr_body :: string

definition writeLegacyJumpPage :: "string \<Rightarrow> int \<Rightarrow> headingTone \<Rightarrow> string \<Rightarrow> string \<Rightarrow> string \<Rightarrow> legacyReply" where
  "writeLegacyJumpPage css code tone heading detail pane =
     (let card = (if pane = [] then []
        else ''<div class='' @ quoted ''card'' @ ''><p class='' @ quoted ''label'' @ ''>Pane</p><p class='' @
             quoted ''value mono'' @ ''>'' @ EscapeString pane @ ''</p></div>'')
      in \<lparr>lr_code = code, lr_body =
           ''<!doctype html><html lang='' @ quoted ''en'' @ ''><head><meta charset='' @ quoted ''utf-8'' @ ''>'' @
           ''<meta name='' @ quoted ''viewport'' @ '' content='' @ quoted ''width=device-width, initial-scale=1'' @ ''>'' @
           ''<title>'' @ EscapeString heading @ ''</title><style>'' @ css @ ''</style></head><body><h1 class='' @
           quoted (EscapeString (toneText tone)) @ ''>'' @ EscapeString heading @ ''</h1><p class='' @ quoted ''subtitle'' @ ''>'' @
           EscapeString detail @ ''</p>'' @ card @ ''</body></html>''\<rparr>)"

definition writeLegacyJumpError :: "string \<Rightarrow> int \<Rightarrow> headingTone \<Rightarrow> string \<Rightarrow> string \<Rightarrow> legacyReply" where
  "writeLegacyJumpError css code tone heading detail = writeLegacyJumpPage css code tone heading detail []"

record legacyRequest =
  lj_path :: string
  lj_host :: string
  lj_query :: urlValues

text \<open>The detail of a failed jump has an em dash, three bytes.\<close>

definition handleLegacyJump ::
  "string \<Rightarrow> (string \<Rightarrow> bool) \<Rightarrow> (error + string) \<Rightarrow> weztermHost \<Rightarrow> legacyRequest \<Rightarrow> paneAction list \<times> legacyReply" where
  "handleLegacyJump css isLoopbackIP token W req =
     (let pane = queryGet (lj_query req) ''pane'' in
      if lj_path req \<noteq> ''/jump''
      then ([], writeLegacyJumpError css 404 ToneWarn ''Not found'' ''Only /jump and /health exist.'')
      else if \<not> requireLoopbackHost isLoopbackIP (lj_host req)
      then ([], writeLegacyJumpError css 403 ToneErr ''Forbidden'' ''Host header is not loopback.'')
      else if \<not> requireJumpToken token (queryGet (lj_query req) ''t'')
      then ([], writeLegacyJumpError css 403 ToneErr ''Forbidden'' ''Missing or invalid token.'')
      else if Atoi pane = None
      then ([], writeLegacyJumpError css 400 ToneWarn ''Bad request'' ''pane must be an integer.'')
      else (case Activate W pane of
              (acts, Some e) \<Rightarrow>
                (acts, writeLegacyJumpError css 502 ToneErr ''Jump failed''
                   (''The pane could not be activated '' @ [CHR 0xE2, CHR 0x80, CHR 0x94] @
                    '' it may have been renumbered by a WezTerm restart.''))
            | (acts, None) \<Rightarrow>
                (acts, writeLegacyJumpPage css 200 ToneOK ''Jumped'' ''Terminal focus moved to the pane below.'' pane)))"

section \<open>Read aloud\<close>

definition speakSender :: string where "speakSender = ''attention-board''"

record speakRequest =
  sp_Text :: string
  sp_Sender :: string

text \<open>What a call of the speech server comes to: it failed, or its status and the decoded body.\<close>

datatype 'a serverReply = CallFailed error | Answered int "'a option"

definition callSay :: "(string \<Rightarrow> speakRequest \<Rightarrow> string serverReply) \<Rightarrow> string \<Rightarrow> string \<Rightarrow> error + string" where
  "callSay server sayURL txt =
     (case server sayURL \<lparr>sp_Text = txt, sp_Sender = speakSender\<rparr> of
        CallFailed e \<Rightarrow> Inl e
      | Answered status body \<Rightarrow>
          if status < 200 \<or> status > 299 then Inl (OtherError ''tts server'')
          else (case body of None \<Rightarrow> Inl (OtherError ''decode tts response failed'') | Some messageID \<Rightarrow> Inr messageID))"

definition wrapSpeakLookupError :: "httpLib \<Rightarrow> error \<Rightarrow> 'b reply" where
  "wrapSpeakLookupError H e =
     (if e = ErrItemNotFound then Failed 404 (lib_ErrorCodeNotFound H) None
      else Failed 500 (lib_ErrorCodeInternal H) None)"

definition sayURLOf :: "string \<Rightarrow> string" where "sayURLOf ttsURL = TrimSuffix ttsURL ''/'' @ ''/say''"
definition cancelURLOf :: "string \<Rightarrow> string" where "cancelURLOf ttsURL = TrimSuffix ttsURL ''/'' @ ''/cancel''"

definition handleAttentionSpeak ::
  "httpLib \<Rightarrow> 's attentionOps \<Rightarrow> (string \<Rightarrow> speakRequest \<Rightarrow> string serverReply) \<Rightarrow> string \<Rightarrow> ItemID \<Rightarrow> 's \<Rightarrow>
   's \<times> string reply" where
  "handleAttentionSpeak H Ops server ttsURL itemID s =
     (if itemID = [] then (s, badRequest H)
      else (case op_Get Ops itemID s of
              (s, Inl e) \<Rightarrow> (s, wrapSpeakLookupError H e)
            | (s, Inr item) \<Rightarrow>
                (case callSay server (sayURLOf ttsURL) (Payload item) of
                   Inl e \<Rightarrow> (s, Failed 502 (lib_ErrorCodeInternal H) None)
                 | Inr messageID \<Rightarrow> (s, Sent 200 messageID))))"

record cancelResponse =
  cn_Cancelled :: "string list"
  cn_Queued :: int

text \<open>The status is 0 when the call did not come back.\<close>

definition callCancel ::
  "(string \<Rightarrow> string \<Rightarrow> cancelResponse serverReply) \<Rightarrow> string \<Rightarrow> string \<Rightarrow> (int \<times> error) + cancelResponse" where
  "callCancel server cancelURL messageID =
     (case server cancelURL messageID of
        CallFailed e \<Rightarrow> Inl (0, e)
      | Answered status body \<Rightarrow>
          if status < 200 \<or> status > 299 then Inl (status, OtherError ''tts server'')
          else (case body of None \<Rightarrow> Inl (0, OtherError ''decode tts response failed'') | Some r \<Rightarrow> Inr r))"

text \<open>\<open>None\<close> for a body that is not JSON.\<close>

definition handleAttentionCancel ::
  "httpLib \<Rightarrow> (string \<Rightarrow> string \<Rightarrow> cancelResponse serverReply) \<Rightarrow> string \<Rightarrow> ItemID \<Rightarrow> string option \<Rightarrow> cancelResponse reply" where
  "handleAttentionCancel H server ttsURL itemID body =
     (if itemID = [] then badRequest H
      else (case body of
              None \<Rightarrow> badRequest H
            | Some messageID \<Rightarrow>
                if messageID = [] then badRequest H
                else (case callCancel server (cancelURLOf ttsURL) messageID of
                        Inr r \<Rightarrow> Sent 200 r
                      | Inl (status, e) \<Rightarrow>
                          if status = 404 then Failed 404 (lib_ErrorCodeNotFound H) None
                          else Failed 502 (lib_ErrorCodeInternal H) None)))"

end
