(* ===== verification/BoardPageProperties.thy ===== *)
theory BoardPageProperties
  imports BoardPage ProvenanceLaws
begin

text \<open>
  The properties of the board page and of its links, with their witnesses.
\<close>

section \<open>Links into the vault\<close>

text \<open>What a reader of the link makes of a value: percent escapes are decoded, every other byte stands for
  itself.\<close>

definition hexValue :: "char \<Rightarrow> nat" where
  "hexValue c = (let n = of_char c in if n < 58 then n - 48 else n - 55)"

fun percentDecode :: "string \<Rightarrow> string" where
  "percentDecode [] = []"
| "percentDecode (c # s) =
     (if c = CHR ''%'' \<and> 2 \<le> length s
      then char_of (16 * hexValue (s ! 0) + hexValue (s ! 1)) # percentDecode (drop 2 s)
      else c # percentDecode s)"

lemma hexValue_digit: "n < 16 \<Longrightarrow> hexValue (hexUpperDigit n) = n"
proof -
  have "\<forall>n \<in> set [0..<16]. hexValue (hexUpperDigit n) = n" by code_simp
  then show "n < 16 \<Longrightarrow> hexValue (hexUpperDigit n) = n" by simp
qed

lemma hexUpperDigit_safe: "n < 16 \<Longrightarrow> queryUnreserved (hexUpperDigit n)"
proof -
  have "\<forall>n \<in> set [0..<16]. queryUnreserved (hexUpperDigit n)" by code_simp
  then show "n < 16 \<Longrightarrow> queryUnreserved (hexUpperDigit n)" by simp
qed

lemma unreserved_not [simp]: "\<not> queryUnreserved (CHR ''%'')" "\<not> queryUnreserved (CHR ''+'')" "\<not> queryUnreserved (CHR ''&'')"
  by code_simp+

lemma byte_digits: "(of_char c :: nat) div 16 < 16" "(of_char c :: nat) mod 16 < 16"
  by (simp_all add: div_less_iff_less_mult)

lemma percentDecode_percent: "percentDecode (percent c @ s) = c # percentDecode s"
  using hexValue_digit[OF byte_digits(1), of c] hexValue_digit[OF byte_digits(2), of c]
  by (simp add: percent_def)

definition obsidianChar :: "char \<Rightarrow> string" where
  "obsidianChar c = concat (map (\<lambda>c. if c = CHR ''+'' then ''%20'' else [c]) (queryEscapeChar c))"

lemma obsidian_concat: "obsidianQueryValue s = concat (map obsidianChar s)"
  by (induction s) (simp_all add: obsidianQueryValue_def QueryEscape_def obsidianChar_def)

lemma hexUpperDigit_plus: "n < 16 \<Longrightarrow> hexUpperDigit n \<noteq> CHR ''+''"
  using hexUpperDigit_safe unreserved_not(2) by metis

lemma obsidianChar_cases: "obsidianChar c = (if queryUnreserved c then [c] else percent c)"
proof -
  have "percent (CHR '' '') = ''%20''" by code_simp
  then show ?thesis
    using hexUpperDigit_plus[OF byte_digits(1), of c] hexUpperDigit_plus[OF byte_digits(2), of c] unreserved_not(2)
    by (auto simp: obsidianChar_def queryEscapeChar_def percent_def)
qed

lemma percentDecode_obsidian: "percentDecode (obsidianQueryValue s) = s"
proof (induction s)
  case (Cons c s)
  have "c = CHR ''%'' \<Longrightarrow> \<not> queryUnreserved c" by simp
  then show ?case
    using Cons percentDecode_percent[of c "obsidianQueryValue s"]
    by (auto simp: obsidian_concat obsidianChar_cases)
qed (simp add: obsidian_concat)

lemma obsidian_safe: "c \<in> set (obsidianQueryValue s) \<Longrightarrow> queryUnreserved c \<or> c = CHR ''%''"
  using hexUpperDigit_safe[OF byte_digits(1)] hexUpperDigit_safe[OF byte_digits(2)]
  by (auto simp: obsidian_concat obsidianChar_cases percent_def split: if_splits)

text \<open>C23: a link into the vault opens the file it names: its two values hold nothing but unreserved bytes and
  percent escapes, so no byte of a name ends a value or starts another parameter, and decoding them gives
  back the vault's name and the file's path without its extension.\<close>

theorem vault_link_roundtrip:
  assumes "vaultName \<noteq> []" and "path \<noteq> []"
  shows "\<exists>a b. vaultFileURL vaultName path = ''obsidian://open?vault='' @ a @ ''&file='' @ b \<and>
    list_all (\<lambda>c. queryUnreserved c \<or> c = CHR ''%'') (a @ b) \<and>
    percentDecode a = vaultName \<and> percentDecode b = TrimSuffix path ''.md''"
proof (intro exI conjI)
  show "vaultFileURL vaultName path = ''obsidian://open?vault='' @ obsidianQueryValue vaultName @ ''&file='' @
      obsidianQueryValue (TrimSuffix path ''.md'')"
    using assms by (simp add: vaultFileURL_def)
  show "list_all (\<lambda>c. queryUnreserved c \<or> c = CHR ''%'') (obsidianQueryValue vaultName @ obsidianQueryValue (TrimSuffix path ''.md''))"
    using obsidian_safe by (auto simp: list_all_iff)
qed (rule percentDecode_obsidian)+

lemma vault_link_roundtrip_witness:
  "\<exists>a b. vaultFileURL ''v'' ''R&D notes.md'' = ''obsidian://open?vault='' @ a @ ''&file='' @ b \<and>
    percentDecode a = ''v'' \<and> percentDecode b = ''R&D notes''"
proof -
  have "TrimSuffix ''R&D notes.md'' ''.md'' = ''R&D notes''" by code_simp
  then show ?thesis using vault_link_roundtrip[of "''v''" "''R&D notes.md''"] by auto
qed

section \<open>The rows\<close>

text \<open>The row both surfaces make of an item.\<close>

definition boardRow :: "boardConfig \<Rightarrow> 's attentionOps \<Rightarrow> (ItemID \<rightharpoonup> Provenance) \<Rightarrow> 's \<Rightarrow> Item \<Rightarrow> attentionPageRow" where
  "boardRow C Ops provenances s item =
     newAttentionPageRow C item (case provenances (ItemID item) of None \<Rightarrow> noProvenance | Some p \<Rightarrow> p)
       (snd (deliveryStatusOf Ops (ItemID item) s))"

lemma row_Item_boardRow [simp]: "row_Item (boardRow C Ops provenances s item) = item"
  by (simp add: boardRow_def newAttentionPageRow_def Let_def split: prod.split)

lemma delivery_status_pure: "store_contract Ops \<Longrightarrow> fst (deliveryStatusOf Ops k s) = s"
  using store_contract.delivery_pure[of Ops k s] by (auto simp: deliveryStatusOf_def split: prod.splits sum.splits)

lemma boardRows_map:
  assumes "store_contract Ops"
  shows "boardRows C Ops provenances items s = (s, map (boardRow C Ops provenances s) items)"
proof (induction items)
  case (Cons item items)
  have "deliveryStatusOf Ops (ItemID item) s = (s, snd (deliveryStatusOf Ops (ItemID item) s))"
    using delivery_status_pure[OF assms] by (metis prod.collapse)
  then obtain status where "deliveryStatusOf Ops (ItemID item) s = (s, status)" by blast
  then show ?case by (simp add: Cons boardRow_def)
qed simp

lemma renderRows_map:
  assumes "store_contract Ops" and "distinct (map ItemID items)"
    and "renderRows C Ops rowTemplate provenances items (s, rendered) = (s', Inr result)"
  shows "s' = s \<and> (\<forall>item \<in> set items. rowTemplate (boardRow C Ops provenances s item) = Inr (the (result (ItemID item)))) \<and>
    (\<forall>k. k \<notin> ItemID ` set items \<longrightarrow> result k = rendered k) \<and> ItemID ` set items \<subseteq> dom result"
  using assms(2,3)
proof (induction items arbitrary: rendered)
  case (Cons item items)
  have pure: "deliveryStatusOf Ops (ItemID item) s = (s, snd (deliveryStatusOf Ops (ItemID item) s))"
    using delivery_status_pure[OF assms(1)] by (metis prod.collapse)
  obtain html where html: "rowTemplate (boardRow C Ops provenances s item) = Inr html"
    and rest: "renderRows C Ops rowTemplate provenances items (s, rendered(ItemID item \<mapsto> html)) = (s', Inr result)"
    using Cons.prems(2) unfolding renderRows.simps by (subst (asm) pure) (auto simp: boardRow_def split: sum.splits)
  from Cons.IH[OF _ rest] Cons.prems(1)
  have IH: "s' = s" "\<forall>item \<in> set items. rowTemplate (boardRow C Ops provenances s item) = Inr (the (result (ItemID item)))"
    "\<forall>k. k \<notin> ItemID ` set items \<longrightarrow> result k = (rendered(ItemID item \<mapsto> html)) k" "ItemID ` set items \<subseteq> dom result"
    by simp_all
  have "result (ItemID item) = Some html" using IH(3) Cons.prems(1) by simp
  then show ?case using IH html by auto
qed simp

section \<open>The filter\<close>

lemma filterRows_spec:
  "filterRows kind rows = (shown, hiddenOpen, hiddenAll) \<Longrightarrow>
     shown = filter (\<lambda>r. ProducerKind (row_Item r) = kind \<or> pv_Uncovered (row_Provenance r)) rows \<and>
     length rows = length shown + hiddenAll \<and>
     hiddenOpen = length (filter (\<lambda>r. \<not> (ProducerKind (row_Item r) = kind \<or> pv_Uncovered (row_Provenance r)) \<and>
       \<not> row_Dimmed r) rows)"
  by (induction rows arbitrary: shown hiddenOpen hiddenAll) (auto split: prod.splits if_splits)

lemma filterByProducerKind_spec:
  assumes "filterByProducerKind rows kind allKinds = (shown, hiddenOpen, hiddenAll)"
  shows "shown = filter (\<lambda>r. allKinds \<or> ProducerKind (row_Item r) = kind \<or> pv_Uncovered (row_Provenance r)) rows"
    and "length rows = length shown + hiddenAll"
    and "hiddenOpen = length (filter (\<lambda>r. \<not> row_Dimmed r) rows) - length (filter (\<lambda>r. \<not> row_Dimmed r) shown)"
proof -
  let ?P = "\<lambda>r. ProducerKind (row_Item r) = kind \<or> pv_Uncovered (row_Provenance r)"
  have sum: "length (filter (\<lambda>r. \<not> row_Dimmed r) xs) = length (filter (\<lambda>r. \<not> row_Dimmed r) (filter ?P xs)) +
      length (filter (\<lambda>r. \<not> ?P r \<and> \<not> row_Dimmed r) xs)" for xs
    by (induction xs) auto
  show "shown = filter (\<lambda>r. allKinds \<or> ?P r) rows" "length rows = length shown + hiddenAll"
    using assms filterRows_spec[of kind rows shown hiddenOpen hiddenAll]
    by (auto simp: filterByProducerKind_def split: if_splits)
  show "hiddenOpen = length (filter (\<lambda>r. \<not> row_Dimmed r) rows) - length (filter (\<lambda>r. \<not> row_Dimmed r) shown)"
    using assms filterRows_spec[of kind rows shown hiddenOpen hiddenAll] sum[of rows]
    by (auto simp: filterByProducerKind_def split: if_splits)
qed

text \<open>What the handler gives the template: the rows drawn and the counts of the hidden ones.\<close>

lemma handleAttentionPage_data:
  assumes "store_contract Ops" and "boardProducerKindOf R (pr_query req) = Inr (kind, allKinds)"
    and "op_ReadBoard Ops s = (s1, Inr items)" and "provenanceOf items r = (r1, provenances)"
  shows "\<exists>d. handleAttentionPage H R C Ops provenanceOf executePage identity req (s, r) =
      ((s1, r1), case executePage d of Inl _ \<Rightarrow> Failed (fst (lib_uncoded H)) (snd (lib_uncoded H)) None
        | Inr body \<Rightarrow> Sent 200 body) \<and>
    pd_Items d = filter (\<lambda>row. allKinds \<or> ProducerKind (row_Item row) = kind \<or> pv_Uncovered (row_Provenance row))
      (map (boardRow C Ops provenances s1) items) \<and>
    length items = length (pd_Items d) + pd_HiddenAll d \<and>
    pd_HiddenOpen d = length (filter (\<lambda>item. State item \<noteq> AnsweredState) items) -
      length (filter (\<lambda>row. \<not> row_Dimmed row) (pd_Items d)) \<and>
    pd_HiddenCount d = (if queryGet (pr_query req) ''hide'' = ''none'' then pd_HiddenAll d else pd_HiddenOpen d)"
proof -
  let ?rows = "map (boardRow C Ops provenances s1) items"
  obtain shown hiddenOpen hiddenAll where f: "filterByProducerKind ?rows kind allKinds = (shown, hiddenOpen, hiddenAll)"
    by (metis prod.exhaust)
  note spec = filterByProducerKind_spec[OF f]
  have dimmed: "row_Dimmed (boardRow C Ops provenances s1 item) = (State item = AnsweredState)" for item
    by (simp add: boardRow_def newAttentionPageRow_def Let_def split: prod.split)
  let ?hide = "queryGet (pr_query req) ''hide'' \<noteq> ''none''"
  define d where "d = setKindCount ?hide
    \<lparr>pd_Items = shown, pd_Speak = bc_speak C, pd_HideAnswered = ?hide,
     pd_FlagFilter = (queryGet (pr_query req) ''flags'' \<noteq> ''none''), pd_AllKinds = allKinds,
     pd_KindHref = boardProducerKindHref (pr_path req) (pr_query req) allKinds,
     pd_HiddenCount = 0, pd_HiddenOpen = hiddenOpen, pd_HiddenAll = hiddenAll, pd_BuildIdentity = identity\<rparr>"
  have "handleAttentionPage H R C Ops provenanceOf executePage identity req (s, r) =
      ((s1, r1), case executePage d of Inl _ \<Rightarrow> Failed (fst (lib_uncoded H)) (snd (lib_uncoded H)) None
        | Inr body \<Rightarrow> Sent 200 body)"
    using assms(2-4) f boardRows_map[OF assms(1)]
    by (simp add: handleAttentionPage_def d_def Let_def split: sum.split)
  moreover have "pd_Items d = shown" "pd_HiddenAll d = hiddenAll" "pd_HiddenOpen d = hiddenOpen"
    "pd_HiddenCount d = (if ?hide then hiddenOpen else hiddenAll)"
    by (simp_all add: d_def setKindCount_def)
  ultimately show ?thesis
    using spec by (intro exI[of _ d]) (auto simp: filter_map comp_def dimmed)
qed

lemma boardRow_Uncovered:
  "pv_Uncovered (row_Provenance (boardRow C Ops provenances s item)) = pv_Uncovered (entryAt provenances item)"
  by (simp add: boardRow_def newAttentionPageRow_def entryAt_def Let_def split: prod.split option.split)

text \<open>C12: a row that arrives over the stream is the row a fresh load of the page shows: from one state of the
  store and one resolution, every row the page draws is one the stream sends, made by the template from the very
  row the page gets; what the stream sends beside them is exactly the items the page's filter by producer
  kind hides.\<close>

theorem stream_row_is_page_row:
  assumes "store_contract Ops" and "boardProducerKindOf R (pr_query req) = Inr (kind, allKinds)"
    and "op_ReadBoard Ops s = (s1, Inr items)" and "distinct (map ItemID items)"
    and "provenanceOf items r = (r1, provenances)"
    and "renderBoard C Ops provenanceOf rowTemplate (s, r) = (st, Inr rendered)"
  shows "\<exists>d. handleAttentionPage H R C Ops provenanceOf executePage identity req (s, r) =
      ((s1, r1), case executePage d of Inl _ \<Rightarrow> Failed (fst (lib_uncoded H)) (snd (lib_uncoded H)) None
        | Inr body \<Rightarrow> Sent 200 body) \<and>
    list_all (\<lambda>row. \<exists>html. rendered (ItemID (row_Item row)) = Some html \<and> rowTemplate row = Inr html) (pd_Items d) \<and>
    dom rendered - (\<lambda>row. ItemID (row_Item row)) ` set (pd_Items d) =
      {ItemID item | item. item \<in> set items \<and> \<not> allKinds \<and> ProducerKind item \<noteq> kind \<and>
        \<not> pv_Uncovered (entryAt provenances item)}"
proof -
  obtain d where page: "handleAttentionPage H R C Ops provenanceOf executePage identity req (s, r) =
      ((s1, r1), case executePage d of Inl _ \<Rightarrow> Failed (fst (lib_uncoded H)) (snd (lib_uncoded H)) None
        | Inr body \<Rightarrow> Sent 200 body)"
    and shown: "pd_Items d = filter (\<lambda>row. allKinds \<or> ProducerKind (row_Item row) = kind \<or> pv_Uncovered (row_Provenance row))
      (map (boardRow C Ops provenances s1) items)"
    using handleAttentionPage_data[where provenanceOf = provenanceOf and items = items and provenances = provenances and r = r,
        OF assms(1-3,5)] by blast
  obtain s2 where run: "renderRows C Ops rowTemplate provenances items (s1, Map.empty) = (s2, Inr rendered)"
    using assms(3,5,6) by (auto simp: renderBoard_def split: prod.splits)
  note R = renderRows_map[OF assms(1,4) run]
  have dom: "dom rendered = ItemID ` set items" using R by (auto simp: domIff)
  define hid where "hid = (\<lambda>item. \<not> allKinds \<and> ProducerKind item \<noteq> kind \<and> \<not> pv_Uncovered (entryAt provenances item))"
  have "set (pd_Items d) = boardRow C Ops provenances s1 ` {item \<in> set items. \<not> hid item}"
    by (force simp: shown boardRow_Uncovered hid_def)
  then have drawn: "(\<lambda>row. ItemID (row_Item row)) ` set (pd_Items d) = ItemID ` {item \<in> set items. \<not> hid item}"
    by (simp add: image_image)
  have inj: "inj_on ItemID (set items)" using assms(4) by (simp add: distinct_map)
  have "ItemID ` set items - ItemID ` {item \<in> set items. \<not> hid item} = ItemID ` {item \<in> set items. hid item}"
    using inj by (auto dest: inj_onD)
  then have hidden: "dom rendered - (\<lambda>row. ItemID (row_Item row)) ` set (pd_Items d) =
      {ItemID item | item. item \<in> set items \<and> \<not> allKinds \<and> ProducerKind item \<noteq> kind \<and>
        \<not> pv_Uncovered (entryAt provenances item)}"
    unfolding dom drawn setcompr_eq_image hid_def by simp
  have rows: "list_all (\<lambda>row. \<exists>html. rendered (ItemID (row_Item row)) = Some html \<and> rowTemplate row = Inr html) (pd_Items d)"
    using R by (fastforce simp: shown list_all_iff)
  show ?thesis by (rule exI[of _ d], intro conjI page rows hidden)
qed

text \<open>C13: the page accounts for every item the store shows: the rows drawn are, in the store's order, those whose
  producer kind the request asks for and those whose worker no live manager covers; each of the others is
  counted, the open ones apart, and the count the page names is the one its answered switch stands for.\<close>

theorem board_page_accounts_for_all:
  assumes "store_contract Ops" and "boardProducerKindOf R (pr_query req) = Inr (kind, allKinds)"
    and "op_ReadBoard Ops s = (s1, Inr items)" and "provenanceOf items r = (r1, provenances)"
  shows "\<exists>d. handleAttentionPage H R C Ops provenanceOf executePage identity req (s, r) =
      ((s1, r1), case executePage d of Inl _ \<Rightarrow> Failed (fst (lib_uncoded H)) (snd (lib_uncoded H)) None
        | Inr body \<Rightarrow> Sent 200 body) \<and>
    pd_Items d = filter (\<lambda>row. allKinds \<or> ProducerKind (row_Item row) = kind \<or> pv_Uncovered (row_Provenance row))
      (map (boardRow C Ops provenances s1) items) \<and>
    length items = length (pd_Items d) + pd_HiddenAll d \<and>
    pd_HiddenOpen d = length (filter (\<lambda>item. State item \<noteq> AnsweredState) items) -
      length (filter (\<lambda>row. \<not> row_Dimmed row) (pd_Items d)) \<and>
    pd_HiddenCount d = (if queryGet (pr_query req) ''hide'' = ''none'' then pd_HiddenAll d else pd_HiddenOpen d)"
  by (rule handleAttentionPage_data[where provenanceOf = provenanceOf and items = items and provenances = provenances and r = r,
      OF assms])

text \<open>A store of two items, one of a session and one of a manager, and a page that names its count.\<close>

definition demo_items :: "Item list" where
  "demo_items = [emptyItem\<lparr>ItemID := ''a'', ProducerKind := ''session'', State := OpenState\<rparr>,
     emptyItem\<lparr>ItemID := ''b'', ProducerKind := ''manager'', State := OpenState\<rparr>]"

definition demo_shelf :: "Item list attentionOps" where
  "demo_shelf = \<lparr>op_Push = (\<lambda>_ s. (s, Inl ErrItemNotFound)), op_Get = (\<lambda>k s.
       (s, case find (\<lambda>i. ItemID i = k) s of None \<Rightarrow> Inl ErrItemNotFound | Some i \<Rightarrow> Inr i)),
     op_Read = (\<lambda>s. (s, Inr s)), op_ReadBoard = (\<lambda>s. (s, Inr s)), op_History = (\<lambda>_ _ _ s. (s, Inr s)),
     op_Answer = (\<lambda>_ _ _ _ _ _ _ _ s. (s, Inl ErrItemNotFound)), op_Escalate = (\<lambda>_ _ s. (s, Inl ErrItemNotFound)),
     op_Flag = (\<lambda>_ _ s. (s, Inl ErrItemNotFound)), op_Unflag = (\<lambda>_ s. (s, Inl ErrItemNotFound)),
     op_Rate = (\<lambda>_ _ s. (s, Inl ErrItemNotFound)), op_Close = (\<lambda>_ _ _ s. (s, Inl ErrItemNotFound)),
     op_RecordAttempt = (\<lambda>_ _ _ s. (s, Inl ErrItemNotFound)), op_Delivery = (\<lambda>_ s. (s, Inl ErrItemNotFound)),
     op_SweepAnswered = (\<lambda>_ s. (s, Inl ErrItemNotFound))\<rparr>"

lemma demo_shelf_contract: "store_contract demo_shelf"
  by unfold_locales (simp_all add: demo_shelf_def rolls_back_def)

definition demo_config :: boardConfig where
  "demo_config = \<lparr>bc_dateText = (\<lambda>_. []), bc_letterOrDigit = (\<lambda>_. True), bc_speak = False, bc_vaultDir = ''/v''\<rparr>"

definition demo_resolver :: "nat resolver" where
  "demo_resolver items n = (n + 1, Map.empty)"

definition demo_http :: httpLib where
  "demo_http = \<lparr>lib_ErrorCodeValidation = ''VALIDATION_ERROR'', lib_ErrorCodeNotFound = ''NOT_FOUND'',
     lib_ErrorCodeInternal = ''INTERNAL_ERROR'', lib_uncoded = (500, ''INTERNAL_ERROR'')\<rparr>"

lemma stream_row_is_page_row_witness:
  "\<exists>(d :: attentionPageData) rendered.
     renderBoard demo_config demo_shelf demo_resolver (\<lambda>row. Inr (row_NoJump row)) (demo_items, 0) =
       ((demo_items, 1), Inr rendered) \<and>
     list_all (\<lambda>row. rendered (ItemID (row_Item row)) = Some (row_NoJump row)) (pd_Items d) \<and>
     dom rendered - (\<lambda>row. ItemID (row_Item row)) ` set (pd_Items d) = {''a''}"
proof -
  let ?req = "\<lparr>pr_path = ''/'', pr_query = Map.empty\<rparr> :: pageRequest"
  have kind: "boardProducerKindOf std_runtime (pr_query ?req) = Inr (''manager'', False)"
    by (simp add: boardProducerKindOf_def queryGet_def ManagerProducerKind_def Let_def)
  have items: "distinct (map ItemID demo_items)" by (simp add: demo_items_def)
  have read: "op_ReadBoard demo_shelf demo_items = (demo_items, Inr demo_items)" by (simp add: demo_shelf_def)
  have resolved: "demo_resolver demo_items 0 = (1, Map.empty)" by (simp add: demo_resolver_def)
  obtain rendered where run: "renderBoard demo_config demo_shelf demo_resolver (\<lambda>row. Inr (row_NoJump row)) (demo_items, 0) =
      ((demo_items, 1), Inr rendered)"
    by (simp add: renderBoard_def read demo_resolver_def) (simp add: demo_items_def deliveryStatusOf_def demo_shelf_def)
  obtain d :: attentionPageData where
    "list_all (\<lambda>row. \<exists>html. rendered (ItemID (row_Item row)) = Some html \<and> (Inr (row_NoJump row) :: error + string) = Inr html)
      (pd_Items d)"
    "dom rendered - (\<lambda>row. ItemID (row_Item row)) ` set (pd_Items d) =
      {ItemID item | item. item \<in> set demo_items \<and> \<not> False \<and> ProducerKind item \<noteq> ''manager'' \<and>
        \<not> pv_Uncovered (entryAt Map.empty item)}"
    using stream_row_is_page_row[OF demo_shelf_contract kind read items resolved run, of demo_http "\<lambda>_. Inr []" "[]"]
    by blast
  moreover have "{ItemID item | item. item \<in> set demo_items \<and> \<not> False \<and> ProducerKind item \<noteq> ''manager'' \<and>
        \<not> pv_Uncovered (entryAt Map.empty item)} = ItemID ` set (filter (\<lambda>item. ProducerKind item \<noteq> ''manager'') demo_items)"
    by (auto simp: entryAt_def noProvenance_def)
  moreover have "ItemID ` set (filter (\<lambda>item. ProducerKind item \<noteq> ''manager'') demo_items) = {''a''}"
    by (simp add: demo_items_def)
  ultimately show ?thesis using run by (intro exI[of _ d] exI[of _ rendered]) (simp add: list_all_iff)
qed

lemma board_page_accounts_for_all_witness:
  "\<exists>d :: attentionPageData. handleAttentionPage demo_http std_runtime demo_config demo_shelf demo_resolver
      (\<lambda>d. Inr (appendInt 0 (int (pd_HiddenCount d)))) [] \<lparr>pr_path = ''/'', pr_query = Map.empty\<rparr> (demo_items, 0) =
    ((demo_items, 1), Sent 200 (appendInt 0 (int (pd_HiddenCount d)))) \<and>
    length (pd_Items d) = 1 \<and> pd_HiddenAll d = 1 \<and> pd_HiddenCount d = 1"
proof -
  let ?req = "\<lparr>pr_path = ''/'', pr_query = Map.empty\<rparr> :: pageRequest"
  let ?row = "boardRow demo_config demo_shelf Map.empty demo_items"
  have kind: "boardProducerKindOf std_runtime (pr_query ?req) = Inr (''manager'', False)"
    by (simp add: boardProducerKindOf_def queryGet_def ManagerProducerKind_def Let_def)
  have read: "op_ReadBoard demo_shelf demo_items = (demo_items, Inr demo_items)" by (simp add: demo_shelf_def)
  have resolved: "demo_resolver demo_items 0 = (1, Map.empty)" by (simp add: demo_resolver_def)
  obtain d :: attentionPageData where run: "handleAttentionPage demo_http std_runtime demo_config demo_shelf demo_resolver
      (\<lambda>d. Inr (appendInt 0 (int (pd_HiddenCount d)))) [] ?req (demo_items, 0) =
      ((demo_items, 1), Sent 200 (appendInt 0 (int (pd_HiddenCount d))))"
    and shown: "pd_Items d = filter (\<lambda>row. False \<or> ProducerKind (row_Item row) = ''manager'' \<or> pv_Uncovered (row_Provenance row))
      (map ?row demo_items)"
    and rest: "length demo_items = length (pd_Items d) + pd_HiddenAll d"
    "pd_HiddenOpen d = length (filter (\<lambda>item. State item \<noteq> AnsweredState) demo_items) -
      length (filter (\<lambda>row. \<not> row_Dimmed row) (pd_Items d))"
    "pd_HiddenCount d = (if queryGet (pr_query ?req) ''hide'' = ''none'' then pd_HiddenAll d else pd_HiddenOpen d)"
    using board_page_accounts_for_all[where provenanceOf = demo_resolver and r = 0, OF demo_shelf_contract kind read resolved,
        of demo_http demo_config "\<lambda>d. Inr (appendInt 0 (int (pd_HiddenCount d)))" "[]"] unfolding sum.case by (elim exE conjE) (rule that, assumption+)
  have plain: "\<not> pv_Uncovered (row_Provenance (?row item))" for item
    by (simp add: boardRow_def newAttentionPageRow_def Let_def noProvenance_def split: prod.split)
  have one: "pd_Items d = [?row (demo_items ! 1)]"
    using shown plain by (simp add: demo_items_def)
  have "\<not> row_Dimmed (?row (demo_items ! 1))"
    by (simp add: boardRow_def newAttentionPageRow_def Let_def demo_items_def OpenState_def AnsweredState_def split: prod.split)
  moreover have "length (filter (\<lambda>item. State item \<noteq> AnsweredState) demo_items) = 2" "length demo_items = 2"
    by (simp_all add: demo_items_def OpenState_def AnsweredState_def)
  ultimately show ?thesis using run one rest by (intro exI[of _ d]) (simp add: queryGet_def)
qed

end
