(* ===== verification/JumpProperties.thy ===== *)
theory JumpProperties
  imports Jump ProvenanceProperties BoardPageProperties
begin

text \<open>
  The properties of the endpoints that act outside the store, with their witnesses.
\<close>

section \<open>Actions on a pane\<close>

text \<open>An activation acts on a live pane of a listing it just read, and on nothing else.\<close>

definition actsOn :: "weztermHost \<Rightarrow> string \<Rightarrow> paneAction list \<Rightarrow> bool" where
  "actsOn W pane acts \<longleftrightarrow>
     (\<exists>paneID panes target. Atoi pane = Some paneID \<and> List_panes W = Inr panes \<and> map_of panes paneID = Some target \<and>
        set acts \<subseteq> {WriteTTY (pane_TTYName target), ActivatePane pane, OpenApp})"

lemma Activate_acts:
  assumes "Activate W pane = (acts, e)"
  shows "acts = [] \<or> actsOn W pane acts"
proof (cases "acts = []")
  case False
  obtain paneID where id: "Atoi pane = Some paneID" using assms False by (cases "Atoi pane") (auto simp: Activate_def)
  obtain panes where panes: "List_panes W = Inr panes" using assms False id by (cases "List_panes W") (auto simp: Activate_def)
  obtain target where target: "map_of panes paneID = Some target"
    using assms False id panes by (cases "map_of panes paneID") (auto simp: Activate_def)
  have "set acts \<subseteq> {WriteTTY (pane_TTYName target), ActivatePane pane, OpenApp}"
    using assms by (auto simp: Activate_def id panes target raise_pane_def activatePane_def
        split: sum.splits option.splits if_splits)
  then show ?thesis using id panes target unfolding actsOn_def by blast
qed simp

text \<open>C14: the jump of an item acts only for a page of the board itself and only on the one pane the item's own
  sources name: it is refused for another origin, for an item that is not stored and for one without a
  pane, and else its entry holds exactly the facts of the item's event record, or of its session's name without
  one, and the pane acted on is the one those facts show, or when the listing of the resolution could not be
  read the one the record names; and only if a listing read now still has it.\<close>

theorem jump_only_to_named_pane:
  assumes "handleAttentionJump H forbidden Ops (Resolve R S host) W secFetchSite itemID (s, (logs, t)) = (st', acts, answer)"
    and "acts \<noteq> []" and "op_Get Ops itemID s = (s1, Inr item)" and "namesSession item sid"
    and "distinct (map fst (hs_panes host))"
  shows "requireSameOrigin secFetchSite \<and>
    (\<exists>t' events p. eventsOn R S [item] (logs, t') (ProducerID item) events \<and>
      (case events (DedupKey item) of
         Some r \<Rightarrow> recordFacts S host r p \<and>
           (\<exists>paneID. Atoi (TrimSpace (ev_Pane r)) = Some paneID \<and> jumpPane p = Itoa paneID \<and>
              (hs_panesErr host = None \<longrightarrow> claimable S host (ev_SessionID r) paneID))
       | None \<Rightarrow> nameFacts S host sid p \<and>
           (\<exists>paneID. jumpPane p = Itoa paneID \<and> hs_panesErr host = None \<and> titledFor S host sid paneID)) \<and>
      actsOn W (jumpPane p) acts)"
proof -
  have origin: "requireSameOrigin secFetchSite" and id: "itemID \<noteq> []"
    using assms(1,2) by (auto simp: handleAttentionJump_def split: if_splits)
  obtain st1 found where res: "Resolve R S host [item] (logs, t) = (st1, found)" by (metis prod.exhaust)
  obtain e where act: "Activate W (jumpPane (entryAt found item)) = (acts, e)" and pane: "jumpPane (entryAt found item) \<noteq> []"
    using assms(1-3) origin id res
    by (auto simp: handleAttentionJump_def entryAt_def Let_def split: prod.splits option.splits if_splits)
  have live: "ctxErr R = None"
    using pane res by (cases "ctxErr R") (auto simp: Resolve_def entryAt_def jumpPane_def noProvenance_def split: prod.splits)
  obtain t' verdicts where "provenOn R S host [item] (logs, t') verdicts item (entryAt found item)"
    using Resolve_proven[OF _ _ assms(5) res live] assms(4) by auto
  then obtain sid' events task where ev: "eventsOn R S [item] (logs, t') (ProducerID item) events"
    and facts: "provenFor S host events task verdicts item sid' (entryAt found item)" and sid': "namesSession item sid'"
    unfolding provenOn_def by blast
  have same: "sid' = sid" using namesSession_id[OF sid'] namesSession_id[OF assms(4)] by simp
  let ?p = "entryAt found item"
  have "case events (DedupKey item) of
         Some r \<Rightarrow> recordFacts S host r ?p \<and>
           (\<exists>paneID. Atoi (TrimSpace (ev_Pane r)) = Some paneID \<and> jumpPane ?p = Itoa paneID \<and>
              (hs_panesErr host = None \<longrightarrow> claimable S host (ev_SessionID r) paneID))
       | None \<Rightarrow> nameFacts S host sid ?p \<and>
           (\<exists>paneID. jumpPane ?p = Itoa paneID \<and> hs_panesErr host = None \<and> titledFor S host sid paneID)"
    using facts pane unfolding provenFor_def same
    by (cases "events (DedupKey item)")
      (auto simp: recordFacts_def nameFacts_def jumpPane_def showsPane_def hidesPane_def split: option.splits if_splits)
  then show ?thesis using origin ev Activate_acts[OF act] assms(2) by blast
qed

definition demo_wezterm :: weztermHost where
  "demo_wezterm = \<lparr>wz_LookPath = (\<lambda>k. Some k), wz_list = (\<lambda>_. Inr [\<lparr>pane_PaneID = 7, pane_Title = ''work'', pane_TTYName = []\<rparr>]),
     wz_tty = (\<lambda>_. False), wz_run = (\<lambda>_. None)\<rparr>"

lemma demo_activate: "Activate demo_wezterm ''7'' = ([ActivatePane ''7'', OpenApp], None)"
  by code_simp

lemma jump_only_to_named_pane_witness:
  "\<exists>p paneID. nameFacts demo_sources demo_host ''s'' p \<and> jumpPane p = Itoa paneID \<and> titledFor demo_sources demo_host ''s'' paneID \<and>
     actsOn demo_wezterm (jumpPane p) [ActivatePane ''7'', OpenApp]"
proof -
  obtain st1 provenances where res: "Resolve std_runtime demo_sources demo_host [demo_worker] (Map.empty, ()) = (st1, provenances)"
    by (metis prod.exhaust)
  then have p: "provenances ''i'' = Some demo_resolved" using demo_resolve by simp
  have id: "ItemID demo_worker = ''i''" by (simp add: demo_worker_def)
  have pane: "jumpPane demo_resolved = ''7''" by (simp add: jumpPane_def demo_resolved_def noProvenance_def)
  have get: "op_Get demo_shelf ''i'' [demo_worker] = ([demo_worker], Inr demo_worker)"
    by (simp add: demo_shelf_def id)
  have run: "handleAttentionJump demo_http ''FORBIDDEN'' demo_shelf (Resolve std_runtime demo_sources demo_host) demo_wezterm
      ''none'' ''i'' ([demo_worker], (Map.empty, ())) = (([demo_worker], st1), [ActivatePane ''7'', OpenApp], Sent 204 ())"
    by (simp add: handleAttentionJump_def requireSameOrigin_def get res p id pane demo_activate Let_def)
  have panes: "distinct (map fst (hs_panes demo_host))" by (simp add: demo_host_def)
  have none: "events k = None" if "eventsOn std_runtime demo_sources [demo_worker] (logs, t) (ProducerID demo_worker) events"
    for logs t events k
    using that by (auto simp: eventsOn_def readEventsForProducer_def readProducer_def demo_sources_def demo_worker_def cutPrefix_def
        hasPrefix_def sessionProducerPrefix_def)
  show ?thesis
    using jump_only_to_named_pane[OF run _ get demo_names_session panes] none by fastforce
qed

text \<open>C24: the legacy jump acts only on a request for its own path, from a loopback host, that presents the token of
  the token file, which is not empty; and only on a live pane. Every other request is told so and
  nothing is touched.\<close>

theorem legacy_jump_gated:
  assumes "handleLegacyJump css isLoopbackIP (readJumpToken path readFile) W req = (acts, answer)" and "acts \<noteq> []"
  shows "lj_path req = ''/jump'' \<and> requireLoopbackHost isLoopbackIP (lj_host req) \<and>
    (\<exists>raw. readFile path = Inr raw \<and> queryGet (lj_query req) ''t'' = TrimSpace raw \<and> TrimSpace raw \<noteq> []) \<and>
    actsOn W (queryGet (lj_query req) ''pane'') acts \<and> (lr_code answer = 200 \<or> lr_code answer = 502)"
proof -
  have gates: "lj_path req = ''/jump''" "requireLoopbackHost isLoopbackIP (lj_host req)"
    "requireJumpToken (readJumpToken path readFile) (queryGet (lj_query req) ''t'')"
    using assms by (auto simp: handleLegacyJump_def Let_def split: if_splits)
  obtain e where act: "Activate W (queryGet (lj_query req) ''pane'') = (acts, e)"
    and code: "lr_code answer = 200 \<or> lr_code answer = 502"
    using assms gates
    by (auto simp: handleLegacyJump_def Let_def writeLegacyJumpError_def writeLegacyJumpPage_def
        split: if_splits prod.splits option.splits)
  have "\<exists>raw. readFile path = Inr raw \<and> queryGet (lj_query req) ''t'' = TrimSpace raw \<and> TrimSpace raw \<noteq> []"
    using gates(3)
    by (auto simp: requireJumpToken_def readJumpToken_def ebind_def Let_def split: sum.splits if_splits)
  then show ?thesis using gates(1,2) Activate_acts[OF act] assms(2) code by blast
qed

lemma legacy_jump_gated_witness:
  "\<exists>raw. TrimSpace raw = ''tok'' \<and> actsOn demo_wezterm ''7'' [ActivatePane ''7'', OpenApp] \<and>
     requireLoopbackHost (\<lambda>_. False) ''localhost:1337''"
proof -
  let ?req = "\<lparr>lj_path = ''/jump'', lj_host = ''localhost:1337'', lj_query = [''t'' \<mapsto> [''tok''], ''pane'' \<mapsto> [''7'']]\<rparr> :: legacyRequest"
  let ?file = "\<lambda>_. Inr '' tok '' :: error + string"
  have host: "requireLoopbackHost (\<lambda>_. False) ''localhost:1337''" by code_simp
  have token: "readJumpToken ''f'' ?file = Inr ''tok''" by code_simp
  have pane: "Atoi ''7'' \<noteq> None" by code_simp
  obtain answer where "handleLegacyJump [] (\<lambda>_. False) (readJumpToken ''f'' ?file) demo_wezterm ?req =
      ([ActivatePane ''7'', OpenApp], answer)"
    by (simp add: handleLegacyJump_def host token requireJumpToken_def queryGet_def pane demo_activate Let_def del: not_None_eq)
  from legacy_jump_gated[OF this] show ?thesis by (auto simp: queryGet_def)
qed

end
