(* ===== verification/Misroute.thy ===== *)
theory Misroute
  imports TimeKey Handlers Paths "HOL-Library.Product_Lexorder"
begin

text \<open>
  The weekly counts of misrouted asks (\<open>misroute-count.go\<close>, \<open>attention-misroutes.go\<close>). A civil day is its
  number from 0001-01-01, a Monday. The time zone is a parameter: the instant a day starts at and the day
  an instant falls on.
\<close>

section \<open>Weeks\<close>

record MisrouteWeek =
  Year :: int
  Week :: int

definition misrouteWeekLength :: nat where "misrouteWeekLength = 7"

text \<open>The day number of January 1st, as \<open>time.Date\<close> counts it.\<close>

definition firstDay :: "int \<Rightarrow> int" where
  "firstDay y = 365 * (y - 1) + (y - 1) div 4 - (y - 1) div 100 + (y - 1) div 400"

text \<open>\<open>Monday\<close> as a civil day.\<close>

definition mondayOf :: "MisrouteWeek \<Rightarrow> int" where
  "mondayOf w =
     (let jan4 = firstDay (Year w) + 3; daysSinceMonday = jan4 mod 7
      in jan4 - daysSinceMonday + (Week w - 1) * 7)"

text \<open>\<open>Time.ISOWeek\<close>: the year and week of the Thursday of the same week.\<close>

definition ISOWeek :: "int \<Rightarrow> int \<times> int" where
  "ISOWeek day = (case yearOfDay (day - day mod 7 + 3) of (y, yday) \<Rightarrow> (y, yday div 7 + 1))"

definition ParseMisrouteWeek :: "string \<Rightarrow> error + MisrouteWeek" where
  "ParseMisrouteWeek raw =
     (if length raw \<noteq> misrouteWeekLength \<or> (raw ! 4 \<noteq> CHR ''W'' \<and> raw ! 4 \<noteq> CHR ''w'') then Inl ErrMisrouteWeekInvalid
      else (case Atoi (take 4 raw) of
              None \<Rightarrow> Inl ErrMisrouteWeekInvalid
            | Some year \<Rightarrow>
                (case Atoi (drop 5 raw) of
                   None \<Rightarrow> Inl ErrMisrouteWeekInvalid
                 | Some week \<Rightarrow>
                     if week < 1 \<or> week > 53 then Inl ErrMisrouteWeekInvalid
                     else (let candidate = \<lparr>Year = year, Week = week\<rparr> in
                           if ISOWeek (mondayOf candidate) \<noteq> (year, week) then Inl ErrMisrouteWeekInvalid
                           else Inr candidate))))"

text \<open>\<open>%04d\<close> pads a negative number to the width with its sign.\<close>

definition paddedInt :: "nat \<Rightarrow> int \<Rightarrow> string" where
  "paddedInt k n = appendInt (if n < 0 then k - 1 else k) n"

definition MisrouteWeek_String :: "MisrouteWeek \<Rightarrow> string" where
  "MisrouteWeek_String w = paddedInt 4 (Year w) @ ''W'' @ paddedInt 2 (Week w)"

section \<open>Windows\<close>

record timeZone =
  tz_midnight :: "int \<Rightarrow> instant"
  tz_dayOf :: "instant \<Rightarrow> int"

definition weekWindow :: "timeZone \<Rightarrow> MisrouteWeek \<Rightarrow> instant \<times> instant" where
  "weekWindow tz w = (tz_midnight tz (mondayOf w), tz_midnight tz (mondayOf w + 7))"

definition flaggedWithin :: "instant \<Rightarrow> instant \<Rightarrow> Item \<Rightarrow> bool" where
  "flaggedWithin start till item =
     (case FlaggedAt item of None \<Rightarrow> False | Some flaggedAt \<Rightarrow> \<not> (flaggedAt < start \<or> \<not> flaggedAt < till))"

section \<open>Counts\<close>

record MisrouteCountRow =
  mr_ProducerID :: string
  mr_ProducerKind :: ProducerKind
  mr_Reason :: string
  mr_Count :: nat

record MisrouteCount =
  mc_Week :: string
  mc_Start :: int
  mc_End :: int
  mc_Rows :: "MisrouteCountRow list"

text \<open>A bucket is a producer and a reason; the kind is that of the bucket's first item.\<close>

type_synonym misrouteBucketKey = "string \<times> string"

definition bucketOf :: "Item \<Rightarrow> misrouteBucketKey" where
  "bucketOf item = (ProducerID item, TrimSpace (FlagReason item))"

definition countItem :: "instant \<Rightarrow> instant \<Rightarrow> Item \<Rightarrow> (misrouteBucketKey \<times> ProducerKind \<times> nat) list \<Rightarrow>
    (misrouteBucketKey \<times> ProducerKind \<times> nat) list" where
  "countItem start till item buckets =
     (if \<not> flaggedWithin start till item then buckets
      else (case map_of buckets (bucketOf item) of
              None \<Rightarrow> buckets @ [(bucketOf item, ProducerKind item, 1)]
            | Some _ \<Rightarrow> map (\<lambda>(k, kind, n). if k = bucketOf item then (k, kind, n + 1) else (k, kind, n)) buckets))"

definition rowOf :: "misrouteBucketKey \<times> ProducerKind \<times> nat \<Rightarrow> MisrouteCountRow" where
  "rowOf b = (case b of ((producerID, reason), kind, n) \<Rightarrow>
     \<lparr>mr_ProducerID = producerID, mr_ProducerKind = kind, mr_Reason = reason, mr_Count = n\<rparr>)"

text \<open>The order of the rows: the larger count first, then the producer, then the reason.\<close>

definition rowKey :: "MisrouteCountRow \<Rightarrow> int \<times> string \<times> string" where
  "rowKey r = (- int (mr_Count r), mr_ProducerID r, mr_Reason r)"

definition CountMisroutes :: "timeZone \<Rightarrow> Item list \<Rightarrow> MisrouteWeek \<Rightarrow> MisrouteCount" where
  "CountMisroutes tz items w =
     (case weekWindow tz w of (start, till) \<Rightarrow>
        \<lparr>mc_Week = MisrouteWeek_String w, mc_Start = tz_dayOf tz start, mc_End = tz_dayOf tz (till - 1),
         mc_Rows = sort_key rowKey (map rowOf (fold (countItem start till) items []))\<rparr>)"

section \<open>The endpoint\<close>

definition handleAttentionMisroutes ::
  "httpLib \<Rightarrow> timeZone \<Rightarrow> 's attentionOps \<Rightarrow> string \<Rightarrow> 's \<Rightarrow> 's \<times> MisrouteCount reply" where
  "handleAttentionMisroutes H tz Ops raw s =
     (if raw = [] then (s, badRequest H)
      else (case ParseMisrouteWeek raw of
              Inl _ \<Rightarrow> (s, badRequest H)
            | Inr week \<Rightarrow>
                (case op_History Ops 0 0 [] s of
                   (s, Inl _) \<Rightarrow> (s, Failed 500 (lib_ErrorCodeInternal H) None)
                 | (s, Inr items) \<Rightarrow> (s, Sent 200 (CountMisroutes tz items week)))))"

end
