(* ===== verification/MisrouteProperties.thy ===== *)
theory MisrouteProperties
  imports Misroute "HOL-Library.Multiset"
begin

text \<open>
  The weeks tile time, their text reads back, and the counts are exact.
\<close>

section \<open>Decimal text\<close>

lemma digitChar_val: "0 \<le> d \<Longrightarrow> d < 10 \<Longrightarrow> (of_char (digitChar d) :: int) = 48 + d"
proof -
  assume "0 \<le> d" "d < 10"
  then have "(of_char (digitChar d) :: nat) = 48 + nat d" by (rule digitChar_cases)
  then have "int (of_char (digitChar d)) = 48 + d" using \<open>0 \<le> d\<close> by simp
  then show ?thesis unfolding of_nat_of_char .
qed

lemma digitChar_digit: "0 \<le> d \<Longrightarrow> d < 10 \<Longrightarrow> CHR ''0'' \<le> digitChar d \<and> digitChar d \<le> CHR ''9''"
  by (simp add: less_eq_char_def digitChar_cases)

lemma padDigits_value:
  "0 \<le> x \<Longrightarrow> x < 10 ^ k \<Longrightarrow> foldl (\<lambda>n c. 10 * n + (of_char c - 48)) (0::int) (padDigits k x) = x"
proof (induction k arbitrary: x)
  case (Suc k)
  have "x div 10 < 10 ^ k" using Suc.prems by auto
  then have "foldl (\<lambda>n c. 10 * n + (of_char c - 48)) (0::int) (padDigits k (x div 10)) = x div 10"
    using Suc by simp
  then show ?case using digitChar_val[of "x mod 10"] by simp
qed simp

lemma decimal_padDigits:
  assumes "0 < k" and "0 \<le> x" and "x < 10 ^ k"
  shows "decimalDigits (padDigits k x) = Some x"
proof -
  have "list_all (\<lambda>c. CHR ''0'' \<le> c \<and> c \<le> CHR ''9'') (padDigits k x)" for k x
    by (induction k arbitrary: x) (use digitChar_digit in auto)
  moreover have "padDigits k x \<noteq> []" using assms(1) by (metis length_padDigits less_irrefl list.size(3))
  ultimately show ?thesis using padDigits_value[OF assms(2,3)] by (simp add: decimalDigits_def)
qed

lemma padDigits_sign: "0 < k \<Longrightarrow> hd (padDigits k x) \<noteq> CHR ''-'' \<and> hd (padDigits k x) \<noteq> CHR ''+'' \<and> padDigits k x \<noteq> []"
proof -
  assume "0 < k"
  then have ne: "padDigits k x \<noteq> []" by (metis length_padDigits less_irrefl list.size(3))
  then have "hd (padDigits k x) \<in> set (padDigits k x)" by simp
  moreover have "CHR ''-'' \<notin> set (padDigits k x)" "CHR ''+'' \<notin> set (padDigits k x)" by (rule padDigits_no_char, simp)+
  ultimately show ?thesis using ne by metis
qed

lemma Atoi_padDigits:
  assumes "0 < k" and "0 \<le> x" and "x < 10 ^ k" and "k \<le> 18"
  shows "Atoi (padDigits k x) = Some x"
proof -
  have "(10::int) ^ k \<le> 10 ^ 18" using assms(4) by (rule power_increasing) simp
  then have "x < 2 ^ 63" using assms(3) by simp
  moreover obtain c cs where "padDigits k x = c # cs" "c \<noteq> CHR ''-''" "c \<noteq> CHR ''+''"
    using padDigits_sign[OF assms(1), of x] by (cases "padDigits k x") auto
  ultimately show ?thesis using decimal_padDigits[OF assms(1-3)] assms(2) by (simp add: Atoi_def)
qed

lemma Atoi_minus_padDigits:
  assumes "0 < k" and "0 \<le> x" and "x < 10 ^ k" and "k \<le> 18"
  shows "Atoi (CHR ''-'' # padDigits k x) = Some (- x)"
proof -
  have "(10::int) ^ k \<le> 10 ^ 18" using assms(4) by (rule power_increasing) simp
  then have "x < 2 ^ 63" using assms(3) by simp
  then show ?thesis using decimal_padDigits[OF assms(1-3)] assms(2) by (simp add: Atoi_def)
qed

lemma decLen_bound: "0 < k \<Longrightarrow> n < 10 ^ k \<Longrightarrow> decLen n \<le> k"
proof (induction k arbitrary: n)
  case (Suc k)
  show ?case
  proof (cases "n < 10")
    case True
    then show ?thesis by (subst decLen.simps) simp
  next
    case False
    then have "0 < k" using Suc.prems by (cases k) auto
    moreover have "n div 10 < 10 ^ k" using Suc.prems by auto
    ultimately have "decLen (n div 10) \<le> k" by (rule Suc.IH)
    then show ?thesis using False by (subst decLen.simps) simp
  qed
qed simp

lemma appendInt_padDigits: "0 < k \<Longrightarrow> \<bar>x\<bar> < 10 ^ k \<Longrightarrow> appendInt k x = (if x < 0 then CHR ''-'' # padDigits k \<bar>x\<bar> else padDigits k \<bar>x\<bar>)"
proof -
  assume k: "0 < k" "\<bar>x\<bar> < 10 ^ k"
  then have "nat \<bar>x\<bar> < 10 ^ k" by (simp add: nat_less_iff)
  then have "decLen (nat \<bar>x\<bar>) \<le> k" using k(1) by (intro decLen_bound)
  then have "max k (decLen (nat \<bar>x\<bar>)) = k" by simp
  then show ?thesis by (simp add: appendInt_def Let_def)
qed

lemma paddedInt_text:
  assumes "- 999 \<le> x" and "x \<le> 9999"
  shows "length (paddedInt 4 x) = 4" and "Atoi (paddedInt 4 x) = Some x"
  using assms Atoi_padDigits[of 4 x] Atoi_minus_padDigits[of 3 "- x"] appendInt_padDigits[of 3 x] appendInt_padDigits[of 4 x]
  by (auto simp: paddedInt_def)

lemma paddedInt_week:
  assumes "1 \<le> x" and "x \<le> 53"
  shows "length (paddedInt 2 x) = 2" and "Atoi (paddedInt 2 x) = Some x"
  using assms Atoi_padDigits[of 2 x] appendInt_padDigits[of 2 x] by (auto simp: paddedInt_def)

section \<open>Weeks\<close>

text \<open>A week that exists.\<close>

definition validWeek :: "MisrouteWeek \<Rightarrow> bool" where
  "validWeek w \<longleftrightarrow> 1 \<le> Week w \<and> Week w \<le> 53 \<and> ISOWeek (mondayOf w) = (Year w, Week w)"

text \<open>C26: the text of a week reads back: a week that exists, of a year that fits four characters, is written in
  seven characters that parse to it, and whatever parses is a week that exists.\<close>

theorem week_text_roundtrip:
  assumes "validWeek w" and "- 999 \<le> Year w" and "Year w \<le> 9999"
  shows "ParseMisrouteWeek (MisrouteWeek_String w) = Inr w \<and> length (MisrouteWeek_String w) = 7 \<and>
    (\<forall>raw. case ParseMisrouteWeek raw of Inl e \<Rightarrow> e = ErrMisrouteWeekInvalid | Inr v \<Rightarrow> validWeek v)"
proof -
  note y = paddedInt_text[OF assms(2,3)]
  have wk: "1 \<le> Week w" "Week w \<le> 53" using assms(1) by (simp_all add: validWeek_def)
  note w = paddedInt_week[OF wk]
  let ?s = "MisrouteWeek_String w"
  have parts: "take 4 ?s = paddedInt 4 (Year w)" "drop 5 ?s = paddedInt 2 (Week w)" "?s ! 4 = CHR ''W''" "length ?s = 7"
    using y(1) w(1) by (simp_all add: MisrouteWeek_String_def nth_append)
  have same: "\<lparr>Year = Year w, Week = Week w\<rparr> = w" by simp
  then have "ParseMisrouteWeek ?s = Inr w"
    using assms(1) y(2) w(2) unfolding ParseMisrouteWeek_def parts
    by (simp add: misrouteWeekLength_def validWeek_def Let_def same)
  moreover have "case ParseMisrouteWeek raw of Inl e \<Rightarrow> e = ErrMisrouteWeekInvalid | Inr v \<Rightarrow> validWeek v" for raw
    by (auto simp: ParseMisrouteWeek_def validWeek_def Let_def split: option.splits)
  ultimately show ?thesis using parts(4) by blast
qed

lemma week_text_roundtrip_witness:
  "ParseMisrouteWeek ''2026W44'' = Inr \<lparr>Year = 2026, Week = 44\<rparr>"
proof -
  let ?w = "\<lparr>Year = 2026, Week = 44\<rparr>"
  have "validWeek ?w" by code_simp
  moreover have "MisrouteWeek_String ?w = ''2026W44''" by code_simp
  ultimately show ?thesis using week_text_roundtrip[of ?w] by simp
qed

lemma div_part: "0 \<le> (r::int) \<Longrightarrow> r < q \<Longrightarrow> (q * n + r) div q = n"
  by (simp add: div_add1_eq)

lemma yearOfDay_first:
  assumes "yearOfDay d = (y, yd)"
  shows "d = firstDay y + yd"
proof -
  define n c e f where "n = d div 146097" and "c = part100 d" and "e = rest100 d div 1461" and "f = part1 d"
  have b: "0 \<le> c" "c \<le> 3" "0 \<le> e" "e \<le> 24" "0 \<le> f" "f \<le> 3"
    using part100_bounds[of d] part4_bounds[of d] part1_bounds[of d] by (simp_all add: c_def e_def f_def)
  have y: "y - 1 = 400 * n + 100 * c + 4 * e + f" and yd: "yd = rest1 d"
    using assms by (auto simp: yearOfDay_parts n_def c_def e_def f_def)
  have d: "d = 146097 * n + 36524 * c + 1461 * e + 365 * f + yd"
  proof -
    have "d = 146097 * n + d mod 146097" by (simp add: n_def)
    moreover have "rest100 d = 1461 * e + rest100 d mod 1461" by (simp add: e_def)
    ultimately show ?thesis using yd by (simp add: rest1_def rest100_def c_def f_def)
  qed
  have "(y - 1) div 4 = 100 * n + 25 * c + e"
    using div_part[of f 4 "100 * n + 25 * c + e"] b y by (simp add: algebra_simps)
  moreover have "(y - 1) div 100 = 4 * n + c"
    using div_part[of "4 * e + f" 100 "4 * n + c"] b y by (simp add: algebra_simps)
  moreover have "(y - 1) div 400 = n"
    using div_part[of "100 * c + 4 * e + f" 400 n] b y by (simp add: algebra_simps)
  ultimately show ?thesis using y d by (simp add: firstDay_def)
qed

lemma mondayOf_eq: "mondayOf w = 7 * ((firstDay (Year w) + 3) div 7 + Week w - 1)"
  by (simp add: mondayOf_def Let_def minus_mod_eq_mult_div algebra_simps)

lemma monday_of_day: "a mod 7 = 0 \<Longrightarrow> a \<le> day \<Longrightarrow> day < a + 7 \<Longrightarrow> a = day - day mod (7::int)"
  by presburger

text \<open>The week of a day begins on the Monday of that day.\<close>

lemma ISOWeek_monday:
  assumes "ISOWeek day = (y, k)"
  shows "mondayOf \<lparr>Year = y, Week = k\<rparr> = day - day mod 7" and "1 \<le> k" and "k \<le> 53"
proof -
  obtain yd where yd: "yearOfDay (day - day mod 7 + 3) = (y, yd)" and k: "k = yd div 7 + 1"
    using assms by (auto simp: ISOWeek_def split: prod.splits)
  have th: "day - day mod 7 + 3 = firstDay y + yd" by (rule yearOfDay_first[OF yd])
  have b: "0 \<le> yd" "yd \<le> 365" using yearOfDay_yday[OF yd] by simp_all
  show "1 \<le> k" "k \<le> 53" using b k by simp_all
  define q where "q = day div 7"
  have d: "day - day mod 7 = 7 * q" by (simp add: q_def minus_mod_eq_mult_div)
  have A: "firstDay y + 3 = 7 * (q - yd div 7) + (6 - yd mod 7)"
    using th unfolding d by (simp add: algebra_simps)
  have "0 \<le> 6 - yd mod 7" "6 - yd mod 7 < 7" using pos_mod_bound[of 7 yd] pos_mod_sign[of 7 yd] by linarith+
  then have "(firstDay y + 3) div 7 = q - yd div 7" unfolding A by (rule div_part)
  then show "mondayOf \<lparr>Year = y, Week = k\<rparr> = day - day mod 7"
    using d k by (simp add: mondayOf_eq)
qed

lemma mondayOf_mod: "mondayOf w mod 7 = 0"
  by (simp add: mondayOf_eq)

lemma ISOWeek_same: "ISOWeek (day - day mod 7) = ISOWeek day"
  by (simp add: ISOWeek_def mod_diff_left_eq[symmetric] flip: mod_diff_eq)

lemma one_week:
  "\<exists>!w. validWeek w \<and> mondayOf w \<le> day \<and> day < mondayOf w + 7"
proof -
  obtain y k where yk: "ISOWeek day = (y, k)" by (metis prod.exhaust)
  let ?w = "\<lparr>Year = y, Week = k\<rparr>"
  note m = ISOWeek_monday[OF yk]
  show ?thesis
  proof (rule ex1I[of _ ?w])
    have "0 \<le> day mod 7" "day mod 7 < 7" by simp_all
    then show "validWeek ?w \<and> mondayOf ?w \<le> day \<and> day < mondayOf ?w + 7"
      using m ISOWeek_same[of day] yk by (simp add: validWeek_def)
  next
    fix w
    assume w: "validWeek w \<and> mondayOf w \<le> day \<and> day < mondayOf w + 7"
    then have "mondayOf w = day - day mod 7" using mondayOf_mod[of w] by (intro monday_of_day) simp_all
    then have "ISOWeek day = (Year w, Week w)" using w ISOWeek_same[of day] by (simp add: validWeek_def)
    then show "w = ?w" using yk by simp
  qed
qed

section \<open>Counts\<close>

definition within :: "instant \<times> instant \<Rightarrow> Item list \<Rightarrow> Item list" where
  "within win items = filter (flaggedWithin (fst win) (snd win)) items"

definition bucketCount :: "Item list \<Rightarrow> misrouteBucketKey \<Rightarrow> nat" where
  "bucketCount items k = length (filter (\<lambda>item. bucketOf item = k) items)"

text \<open>What the buckets hold after some items.\<close>

definition bucketsOK :: "Item list \<Rightarrow> (misrouteBucketKey \<times> ProducerKind \<times> nat) list \<Rightarrow> bool" where
  "bucketsOK flagged buckets \<longleftrightarrow>
     distinct (map fst buckets) \<and> fst ` set buckets = bucketOf ` set flagged \<and>
     (\<forall>k kind n. (k, kind, n) \<in> set buckets \<longrightarrow> n = bucketCount flagged k \<and>
        kind = ProducerKind (hd (filter (\<lambda>item. bucketOf item = k) flagged))) \<and>
     sum_list (map (\<lambda>(k, kind, n). n) buckets) = length flagged"

lemma sum_bump:
  "distinct (map fst bs) \<Longrightarrow> j \<in> fst ` set bs \<Longrightarrow>
     sum_list (map (\<lambda>(k, kind, n). n) (map (\<lambda>(k, kind, n). if k = j then (k, kind, n + 1) else (k, kind, n)) bs)) =
     sum_list (map (\<lambda>(k, kind, n). n) bs) + (1::nat)"
proof (induction bs)
  case (Cons b bs)
  obtain k kind n where b: "b = (k, kind, n)" by (cases b)
  show ?case
  proof (cases "k = j")
    case True
    then have "map (\<lambda>(k, kind, n). if k = j then (k, kind, n + 1) else (k, kind, n)) bs = bs"
      using Cons.prems(1) b by (intro map_idI) (force simp: image_iff)
    then show ?thesis using True b by simp
  next
    case False
    then show ?thesis using Cons b by auto
  qed
qed simp

lemma countItem_OK:
  assumes "bucketsOK flagged buckets" and "flaggedWithin start till item"
  shows "bucketsOK (flagged @ [item]) (countItem start till item buckets)"
proof (cases "map_of buckets (bucketOf item)")
  case None
  then have new: "bucketOf item \<notin> fst ` set buckets" by (simp add: map_of_eq_None_iff)
  then have "bucketOf item \<notin> bucketOf ` set flagged" using assms(1) by (simp add: bucketsOK_def)
  then have none: "filter (\<lambda>j. bucketOf j = bucketOf item) flagged = []" 
    unfolding filter_empty_conv by (metis imageI)
  have old: "k \<noteq> bucketOf item" if "(k, kind, n) \<in> set buckets" for k kind n using that new by force
  have "(k, kind, n) \<in> set buckets \<longrightarrow> n = bucketCount flagged k \<and>
      kind = ProducerKind (hd (filter (\<lambda>item. bucketOf item = k) flagged))" for k kind n
    using assms(1) unfolding bucketsOK_def by blast
  then show ?thesis
    using assms new None none old unfolding bucketsOK_def countItem_def bucketCount_def by auto
next
  case (Some v)
  let ?bump = "\<lambda>(k, kind :: ProducerKind, n :: nat). if k = bucketOf item then (k, kind, n + 1) else (k, kind, n)"
  have there: "bucketOf item \<in> fst ` set buckets" using Some by (force dest: map_of_SomeD)
  have keys: "map fst (map ?bump buckets) = map fst buckets" by auto
  have keyset: "fst ` set (map ?bump buckets) = fst ` set buckets" by (metis keys list.set_map)
  have old: "n = bucketCount flagged k \<and> kind = ProducerKind (hd (filter (\<lambda>item. bucketOf item = k) flagged))"
    if "(k, kind, n) \<in> set buckets" for k kind n
    using that assms(1) unfolding bucketsOK_def by blast
  have ne: "filter (\<lambda>j. bucketOf j = k) flagged \<noteq> []" if "(k, kind, n) \<in> set buckets" for k kind n
  proof -
    have "k \<in> bucketOf ` set flagged" using that assms(1) unfolding bucketsOK_def by (metis fst_conv imageI)
    then show ?thesis unfolding filter_empty_conv by blast
  qed
  have rows: "n = bucketCount (flagged @ [item]) k \<and>
      kind = ProducerKind (hd (filter (\<lambda>item. bucketOf item = k) (flagged @ [item])))"
    if in_bumped: "(k, kind, n) \<in> set (map ?bump buckets)" for k kind n
  proof -
    obtain m where m: "(k, kind, m) \<in> set buckets" "n = (if k = bucketOf item then m + 1 else m)"
      using in_bumped by (auto split: if_splits)
    show ?thesis using old[OF m(1)] ne[OF m(1)] m(2) by (simp add: bucketCount_def)
  qed
  have img: "bucketOf ` set (flagged @ [item]) = fst ` set buckets" using assms(1) there by (auto simp: bucketsOK_def)
  have sum: "sum_list (map (\<lambda>(k, kind, n). n) (map ?bump buckets)) = length (flagged @ [item])"
    using sum_bump[OF _ there] assms(1) by (simp add: bucketsOK_def)
  have "bucketsOK (flagged @ [item]) (map ?bump buckets)"
    unfolding bucketsOK_def
  proof (intro conjI allI impI)
    show "distinct (map fst (map ?bump buckets))" unfolding keys using assms(1) by (simp add: bucketsOK_def)
    show "fst ` set (map ?bump buckets) = bucketOf ` set (flagged @ [item])" unfolding keyset img ..
    show "n = bucketCount (flagged @ [item]) k" if "(k, kind, n) \<in> set (map ?bump buckets)" for k kind n
      using rows[OF that] by blast
    show "kind = ProducerKind (hd (filter (\<lambda>item. bucketOf item = k) (flagged @ [item])))"
      if "(k, kind, n) \<in> set (map ?bump buckets)" for k kind n
      using rows[OF that] by blast
    show "sum_list (map (\<lambda>(k, kind, n). n) (map ?bump buckets)) = length (flagged @ [item])" by (rule sum)
  qed
  then show ?thesis using Some assms(2) by (simp add: countItem_def)
qed

lemma fold_countItem_OK:
  "bucketsOK flagged buckets \<Longrightarrow> bucketsOK (flagged @ within (start, till) items) (fold (countItem start till) items buckets)"
proof (induction items arbitrary: flagged buckets)
  case (Cons item items)
  show ?case
  proof (cases "flaggedWithin start till item")
    case True
    from Cons.IH[OF countItem_OK[OF Cons.prems True]] True show ?thesis by (simp add: within_def)
  next
    case False
    with Cons show ?thesis by (simp add: within_def countItem_def)
  qed
qed (simp add: within_def)

lemma buckets_exact: "bucketsOK (within (start, till) items) (fold (countItem start till) items [])"
  using fold_countItem_OK[of "[]" "[]" start till items] by (simp add: bucketsOK_def)

lemma rows_exact:
  "let rows = mc_Rows (CountMisroutes tz items w); flagged = within (weekWindow tz w) items in
      distinct (map (\<lambda>r. (mr_ProducerID r, mr_Reason r)) rows) \<and>
      (\<lambda>r. (mr_ProducerID r, mr_Reason r)) ` set rows = bucketOf ` set flagged \<and>
      list_all (\<lambda>r. mr_Count r = bucketCount flagged (mr_ProducerID r, mr_Reason r) \<and>
        mr_ProducerKind r = ProducerKind (hd (filter (\<lambda>i. bucketOf i = (mr_ProducerID r, mr_Reason r)) flagged))) rows \<and>
      sum_list (map mr_Count rows) = length flagged \<and> sorted (map rowKey rows)"
proof -
  let ?win = "weekWindow tz w"
  let ?bs = "fold (countItem (fst ?win) (snd ?win)) items []"
  have rows: "mc_Rows (CountMisroutes tz items w) = sort_key rowKey (map rowOf ?bs)"
    by (simp add: CountMisroutes_def split: prod.split)
  have ok: "bucketsOK (within ?win items) ?bs" using buckets_exact[of "fst ?win" "snd ?win" items] by simp
  have key: "(\<lambda>r. (mr_ProducerID r, mr_Reason r)) (rowOf b) = fst b" for b
    by (cases b) (auto simp: rowOf_def split: prod.split)
  have keys: "map (\<lambda>r. (mr_ProducerID r, mr_Reason r)) (map rowOf ?bs) = map fst ?bs" using key by (simp add: comp_def)
  let ?rows = "sort_key rowKey (map rowOf ?bs)"
  have perm: "mset ?rows = mset (map rowOf ?bs)" by simp
  have "distinct (map (\<lambda>r. (mr_ProducerID r, mr_Reason r)) ?rows)"
  proof -
    have "mset (map (\<lambda>r. (mr_ProducerID r, mr_Reason r)) ?rows) = mset (map fst ?bs)"
      using keys by (simp only: mset_map perm flip: keys)
    then show ?thesis using ok mset_eq_imp_distinct_iff unfolding bucketsOK_def by blast
  qed
  moreover have "(\<lambda>r. (mr_ProducerID r, mr_Reason r)) ` set ?rows = bucketOf ` set (within ?win items)"
  proof -
    have "(\<lambda>r. (mr_ProducerID r, mr_Reason r)) ` set ?rows = set (map fst ?bs)"
      unfolding keys[symmetric] by (simp only: set_sort set_map)
    then show ?thesis using ok by (simp add: bucketsOK_def)
  qed
  moreover have "list_all (\<lambda>r. mr_Count r = bucketCount (within ?win items) (mr_ProducerID r, mr_Reason r) \<and>
      mr_ProducerKind r = ProducerKind (hd (filter (\<lambda>i. bucketOf i = (mr_ProducerID r, mr_Reason r)) (within ?win items)))) ?rows"
    using ok by (auto simp: list_all_iff bucketsOK_def rowOf_def split: prod.splits)
  moreover have "sum_list (map mr_Count ?rows) = length (within ?win items)"
  proof -
    have "mr_Count (rowOf b) = (case b of (k, kind, n) \<Rightarrow> n)" for b by (cases b) (auto simp: rowOf_def split: prod.split)
    then have "sum_list (map mr_Count (map rowOf ?bs)) = length (within ?win items)" using ok by (simp add: bucketsOK_def comp_def)
    moreover have "sum_list (map mr_Count ?rows) = sum_list (map mr_Count (map rowOf ?bs))"
      using perm by (metis mset_map sum_mset_sum_list)
    ultimately show ?thesis by simp
  qed
  ultimately show ?thesis unfolding rows Let_def by simp
qed

lemma flagged_one_week:
  assumes "\<And>t. tz_midnight tz (tz_dayOf tz t) \<le> t \<and> t < tz_midnight tz (tz_dayOf tz t + 1)"
    and "strict_mono (tz_midnight tz)" and t: "FlaggedAt item = Some t"
  shows "\<exists>!w. validWeek w \<and> flaggedWithin (fst (weekWindow tz w)) (snd (weekWindow tz w)) item"
proof -
  have "mondayOf v \<le> tz_dayOf tz t \<and> tz_dayOf tz t < mondayOf v + 7 \<longleftrightarrow>
      flaggedWithin (fst (weekWindow tz v)) (snd (weekWindow tz v)) item" for v
  proof -
    have mono: "tz_midnight tz a \<le> tz_midnight tz b \<longleftrightarrow> a \<le> b" for a b using assms(2) by (rule strict_mono_less_eq)
    have day: "tz_midnight tz a \<le> t \<longleftrightarrow> a \<le> tz_dayOf tz t" for a
    proof
      assume "tz_midnight tz a \<le> t"
      then have "tz_midnight tz a < tz_midnight tz (tz_dayOf tz t + 1)" using assms(1)[of t] by simp
      then show "a \<le> tz_dayOf tz t" using assms(2) by (simp add: strict_mono_less)
    next
      assume "a \<le> tz_dayOf tz t"
      then show "tz_midnight tz a \<le> t" using mono assms(1)[of t] by (meson order_trans)
    qed
    show ?thesis using day[of "mondayOf v"] day[of "mondayOf v + 7"] t by (auto simp: flaggedWithin_def weekWindow_def)
  qed
  then show ?thesis using one_week[of "tz_dayOf tz t"] by metis
qed

text \<open>C25: misroutes are counted exactly and once: the rows of a week are its buckets of flagged items, each with the
  number of its items and the kind of the first, all together as many as the week's flagged items, in
  falling order of their counts and then by producer and reason; and whatever the zone, an item
  flagged at any time falls into exactly one week that exists.\<close>

theorem misroutes_counted_once:
  assumes "\<And>t. tz_midnight tz (tz_dayOf tz t) \<le> t \<and> t < tz_midnight tz (tz_dayOf tz t + 1)"
    and "strict_mono (tz_midnight tz)"
  shows "(let rows = mc_Rows (CountMisroutes tz items w); flagged = within (weekWindow tz w) items in
      distinct (map (\<lambda>r. (mr_ProducerID r, mr_Reason r)) rows) \<and>
      (\<lambda>r. (mr_ProducerID r, mr_Reason r)) ` set rows = bucketOf ` set flagged \<and>
      list_all (\<lambda>r. mr_Count r = bucketCount flagged (mr_ProducerID r, mr_Reason r) \<and>
        mr_ProducerKind r = ProducerKind (hd (filter (\<lambda>i. bucketOf i = (mr_ProducerID r, mr_Reason r)) flagged))) rows \<and>
      sum_list (map mr_Count rows) = length flagged \<and> sorted (map rowKey rows)) \<and> (FlaggedAt item = Some t \<longrightarrow>
      (\<exists>!w. validWeek w \<and> flaggedWithin (fst (weekWindow tz w)) (snd (weekWindow tz w)) item))"
  using rows_exact[of tz items w] flagged_one_week[OF assms] by blast

text \<open>At the Coordinated Universal Time a day lasts 86400 seconds.\<close>

definition utc :: timeZone where
  "utc = \<lparr>tz_midnight = (\<lambda>day. (day - epochDay) * nsPerDay), tz_dayOf = (\<lambda>t. t div nsPerDay + epochDay)\<rparr>"

lemma misroutes_counted_once_witness:
  "\<exists>!w. validWeek w \<and> flaggedWithin (fst (weekWindow utc w)) (snd (weekWindow utc w)) (emptyItem\<lparr>FlaggedAt := Some 1793000000000000000\<rparr>)"
proof -
  let ?item = "emptyItem\<lparr>FlaggedAt := Some 1793000000000000000\<rparr>"
  have "tz_midnight utc (tz_dayOf utc t) \<le> t \<and> t < tz_midnight utc (tz_dayOf utc t + 1)" for t
  proof -
    have t: "t div nsPerDay * nsPerDay + t mod nsPerDay = t" by (rule div_mult_mod_eq)
    have "0 \<le> t mod nsPerDay" "t mod nsPerDay < nsPerDay" using nsPerDay_pos by simp_all
    then have "t div nsPerDay * nsPerDay \<le> t" "t < t div nsPerDay * nsPerDay + nsPerDay" using t by linarith+
    then show ?thesis unfolding utc_def by (simp add: ring_distribs)
  qed
  moreover have "strict_mono (tz_midnight utc)" using nsPerDay_pos by (simp add: utc_def strict_mono_def)
  ultimately show ?thesis using misroutes_counted_once[of utc undefined undefined ?item 1793000000000000000] by simp
qed

end
