(* ===== verification/WorkerCoverage.thy ===== *)
theory WorkerCoverage
  imports Words TaskIndex "HOL-Library.AList"
begin

text \<open>
  Which sessions of a page no live manager covers (\<open>worker-coverage.go\<close>). The task index and the liveness
  checker are functions of the state they keep; the tables of the Unicode standard (the normal form NFKC,
  lower case, letters and digits) are parameters. A map that is ranged over comes as its entries in
  the order of the iteration.
\<close>

section \<open>Session names\<close>

record textTables =
  tt_NFKC :: "string \<Rightarrow> string"
  tt_ToLower :: "string \<Rightarrow> string"
  tt_IsLetter :: "string \<Rightarrow> bool"
  tt_IsDigit :: "string \<Rightarrow> bool"

definition workerCoverageTruncationMinPrefix :: nat where "workerCoverageTruncationMinPrefix = 20"

text \<open>The name with the match of \<open>(?i)\s+manager$\<close> cut off.\<close>

definition stripManager :: "string \<Rightarrow> string" where
  "stripManager name =
     (let n = length name - 7; front = take n name in
      if 7 \<le> length name \<and> ciMatch ''manager'' (drop n name) \<and> front \<noteq> [] \<and> isRE2Space (List.last front)
      then rev (dropWhile isRE2Space (rev front)) else name)"

definition isLeadingDecoration :: "textTables \<Rightarrow> string \<Rightarrow> bool" where
  "isLeadingDecoration U r = (\<not> tt_IsLetter U r \<and> \<not> tt_IsDigit U r \<and> r \<noteq> ''_'' \<and> r \<noteq> ''('')"

definition normalizeSessionName :: "textTables \<Rightarrow> string \<Rightarrow> string" where
  "normalizeSessionName U text =
     (let t = tt_NFKC U text; t = TrimSpace t; t = TrimLeftFunc (isLeadingDecoration U) t; t = joinStrings '' '' (Fields t)
      in tt_ToLower U t)"

section \<open>Subjects\<close>

record subjectIndex =
  exact :: "string \<rightharpoonup> string"
  normalized :: "(string \<times> string) list"

definition newSubjectIndex :: "textTables \<Rightarrow> string list \<Rightarrow> subjectIndex" where
  "newSubjectIndex U titles =
     fold (\<lambda>title index.
             index\<lparr>exact := (exact index)(tt_ToLower U (TrimSpace title) \<mapsto> title),
                   normalized := AList.update (normalizeSessionName U title) title (normalized index)\<rparr>)
       titles \<lparr>exact = Map.empty, normalized = []\<rparr>"

fun prefixFrom :: "string \<Rightarrow> string \<Rightarrow> (string \<times> string) list \<Rightarrow> string" where
  "prefixFrom key found [] = found"
| "prefixFrom key found ((normal, title) # rest) =
     (if \<not> hasPrefix normal key then prefixFrom key found rest
      else if found \<noteq> [] then []
      else prefixFrom key title rest)"

definition prefixTitle :: "subjectIndex \<Rightarrow> string \<Rightarrow> string" where
  "prefixTitle index key =
     (if runeLen key < workerCoverageTruncationMinPrefix then [] else prefixFrom key [] (normalized index))"

fun exactTitle :: "textTables \<Rightarrow> subjectIndex \<Rightarrow> string list \<Rightarrow> string option" where
  "exactTitle U index [] = None"
| "exactTitle U index (candidate # rest) =
     (case exact index (tt_ToLower U (TrimSpace candidate)) of
        Some title \<Rightarrow> Some title | None \<Rightarrow> exactTitle U index rest)"

definition subject :: "textTables \<Rightarrow> subjectIndex \<Rightarrow> string \<Rightarrow> string" where
  "subject U index name =
     (let stripped = stripManager name in
      case exactTitle U index [name, stripped] of
        Some title \<Rightarrow> title
      | None \<Rightarrow>
          (let hits = remdups (filter (\<lambda>title. title \<noteq> [])
                (map (\<lambda>key. prefixTitle index key) [normalizeSessionName U name, normalizeSessionName U stripped]))
           in case hits of [title] \<Rightarrow> title | _ \<Rightarrow> []))"

section \<open>Coverage\<close>

record 's coverageTasks =
  ct_Lookup :: "string \<Rightarrow> 's \<Rightarrow> 's \<times> Task option"
  ct_SubjectTitles :: "'s \<Rightarrow> 's \<times> string list"

record 's workerCoverage =
  wc_tasks :: "'s coverageTasks option"
  wc_IsLive :: "(string \<Rightarrow> 's \<Rightarrow> 's \<times> bool) option"

text \<open>The live managers: \<open>ended i\<close> is what the context says when the loop reaches entry \<open>i\<close>.\<close>

fun managersFrom :: "textTables \<Rightarrow> subjectIndex \<Rightarrow> (string \<Rightarrow> 's \<Rightarrow> 's \<times> bool) \<Rightarrow> (nat \<Rightarrow> bool) \<Rightarrow> nat \<Rightarrow>
    (string \<rightharpoonup> string) \<Rightarrow> (string \<times> string) list \<Rightarrow> 's \<Rightarrow> 's \<times> (string \<rightharpoonup> string)" where
  "managersFrom U index isLive ended i subjects [] s = (s, subjects)"
| "managersFrom U index isLive ended i subjects ((sessionID, name) # registry) s =
     (if ended i then (s, subjects)
      else (let title = subject U index name in
            if title = [] then managersFrom U index isLive ended (i + 1) subjects registry s
            else (case isLive sessionID s of
                    (s, False) \<Rightarrow> managersFrom U index isLive ended (i + 1) subjects registry s
                  | (s, True) \<Rightarrow> managersFrom U index isLive ended (i + 1)
                      (subjects(sessionID \<mapsto> tt_ToLower U title)) registry s)))"

definition liveManagerSubjects :: "textTables \<Rightarrow> subjectIndex \<Rightarrow> (string \<Rightarrow> 's \<Rightarrow> 's \<times> bool) \<Rightarrow> (nat \<Rightarrow> bool) \<Rightarrow>
    (string \<times> string) list \<Rightarrow> 's \<Rightarrow> 's \<times> (string \<rightharpoonup> string)" where
  "liveManagerSubjects U index isLive ended registry s = managersFrom U index isLive ended 0 Map.empty registry s"

text \<open>The managers are ranged over by the sessions of the registry, the only ones they can hold.\<close>

definition workerUncovered :: "textTables \<Rightarrow> string \<Rightarrow> Task option \<Rightarrow> (string \<times> string) list \<Rightarrow> subjectIndex \<Rightarrow>
    (string \<rightharpoonup> string) \<Rightarrow> bool" where
  "workerUncovered U sessionID task registry index managers =
     (if sessionID = [] \<or> registry = [] then False
      else if (case map_of registry sessionID of Some name \<Rightarrow> subject U index name \<noteq> [] | None \<Rightarrow> False) then True
      else (case task of
              None \<Rightarrow> True
            | Some t \<Rightarrow>
                if task_Goals t = [] then True
                else \<not> list_ex (\<lambda>(candidate, _).
                       (case managers candidate of
                          None \<Rightarrow> False
                        | Some subj \<Rightarrow> candidate \<noteq> sessionID \<and> list_ex (\<lambda>goal. tt_ToLower U goal = subj) (task_Goals t)))
                     registry))"

fun verdictsFrom :: "textTables \<Rightarrow> 's coverageTasks \<Rightarrow> (string \<times> string) list \<Rightarrow> subjectIndex \<Rightarrow> (string \<rightharpoonup> string) \<Rightarrow>
    string set \<Rightarrow> string list \<Rightarrow> 's \<Rightarrow> 's \<times> string set" where
  "verdictsFrom U T registry index managers uncovered [] s = (s, uncovered)"
| "verdictsFrom U T registry index managers uncovered (sessionID # rest) s =
     (case ct_Lookup T sessionID s of
        (s, task) \<Rightarrow>
          verdictsFrom U T registry index managers
            (if workerUncovered U sessionID task registry index managers then insert sessionID uncovered else uncovered)
            rest s)"

definition Uncovered :: "textTables \<Rightarrow> 's workerCoverage option \<Rightarrow> (nat \<Rightarrow> bool) \<Rightarrow> (string \<times> string) list \<Rightarrow>
    string list \<Rightarrow> 's \<Rightarrow> 's \<times> string set" where
  "Uncovered U c ended registry sessionIDs s =
     (case c of
        None \<Rightarrow> (s, {})
      | Some cov \<Rightarrow>
          (case (wc_tasks cov, wc_IsLive cov) of
             (Some T, Some isLive) \<Rightarrow>
               (if sessionIDs = [] then (s, {})
                else (case ct_SubjectTitles T s of
                        (s, titles) \<Rightarrow>
                          (let index = newSubjectIndex U titles in
                           case liveManagerSubjects U index isLive ended registry s of
                             (s, managers) \<Rightarrow> verdictsFrom U T registry index managers {} sessionIDs s)))
           | _ \<Rightarrow> (s, {})))"

end
