(* ===== verification/CoverageProperties.thy ===== *)
theory CoverageProperties
  imports WorkerCoverage
begin

text \<open>
  The verdicts of the worker coverage are exact, and a session name is never matched to a title by a guess.
\<close>

section \<open>The subject index\<close>

definition indexOK :: "textTables \<Rightarrow> string list \<Rightarrow> subjectIndex \<Rightarrow> bool" where
  "indexOK U titles index \<longleftrightarrow>
     (\<forall>k t. exact index k = Some t \<longrightarrow> t \<in> set titles \<and> k = tt_ToLower U (TrimSpace t)) \<and>
     distinct (map fst (normalized index)) \<and>
     (\<forall>n t. (n, t) \<in> set (normalized index) \<longrightarrow> t \<in> set titles \<and> n = normalizeSessionName U t) \<and>
     fst ` set (normalized index) = normalizeSessionName U ` set titles"

lemma update_keys: "fst ` set (AList.update k v al) = insert k (fst ` set al)"
  using update_conv'[of k v al] by (metis dom_fun_upd dom_map_of_conv_image_fst option.distinct(1))

lemma update_members:
  assumes "distinct (map fst al)" and "(n, t) \<in> set (AList.update k v al)"
  shows "(n, t) = (k, v) \<or> (n, t) \<in> set al"
proof -
  have "map_of (AList.update k v al) n = Some t" using assms by (simp add: distinct_update)
  then show ?thesis by (auto simp: update_conv' split: if_splits dest: map_of_SomeD)
qed

lemma newSubjectIndex_OK: "indexOK U titles (newSubjectIndex U titles)"
proof -
  define add where "add = (\<lambda>title (index :: subjectIndex). index\<lparr>exact := (exact index)(tt_ToLower U (TrimSpace title) \<mapsto> title),
      normalized := AList.update (normalizeSessionName U title) title (normalized index)\<rparr>)"
  have step: "indexOK U (before @ [title]) (add title index)" if "indexOK U before index" for before title index
  proof -
    have d: "distinct (map fst (normalized index))" using that by (simp add: indexOK_def)
    have "t \<in> set (before @ [title]) \<and> n = normalizeSessionName U t"
      if "(n, t) \<in> set (AList.update (normalizeSessionName U title) title (normalized index))" for n t
      using \<open>indexOK U before index\<close> update_members[OF d that] by (auto simp: indexOK_def)
    then show ?thesis using that by (auto simp: indexOK_def add_def distinct_update update_keys)
  qed
  have "indexOK U (before @ titles) (fold add titles index)" if "indexOK U before index" for before index
    using that
  proof (induction titles arbitrary: before index)
    case (Cons title titles)
    from Cons.IH[OF step[OF Cons.prems, of title]] show ?case by simp
  qed simp
  from this[of "[]" "\<lparr>exact = Map.empty, normalized = []\<rparr>"] show ?thesis
    by (simp add: newSubjectIndex_def indexOK_def flip: add_def)
qed

lemma prefixFrom_unique:
  assumes "prefixFrom key found entries = t" and "t \<noteq> []" and "\<forall>(n, t)\<in>set entries. t \<noteq> []"
  shows "if found = [] then \<exists>n. (n, t) \<in> set entries \<and> hasPrefix n key \<and>
      (\<forall>n' t'. (n', t') \<in> set entries \<and> hasPrefix n' key \<longrightarrow> n' = n)
    else t = found \<and> (\<forall>n' t'. (n', t') \<in> set entries \<longrightarrow> \<not> hasPrefix n' key)"
  using assms
proof (induction key found entries rule: prefixFrom.induct)
  case (2 key found normal title rest)
  have ne: "title \<noteq> []" "\<forall>(n, t)\<in>set rest. t \<noteq> []" using "2.prems"(3) by auto
  show ?case
  proof (cases "hasPrefix normal key")
    case True
    then have "found = []" "prefixFrom key title rest = t" using "2.prems"(1,2) by (auto split: if_splits)
    moreover have "t = title \<and> (\<forall>n' t'. (n', t') \<in> set rest \<longrightarrow> \<not> hasPrefix n' key)"
      using "2.IH"(2)[OF _ _ calculation(2) "2.prems"(2) ne(2)] True calculation(1) ne(1) by simp
    ultimately show ?thesis using True by auto
  next
    case False
    then have "prefixFrom key found rest = t" using "2.prems"(1) by simp
    from "2.IH"(1)[OF False this "2.prems"(2) ne(2)] False show ?thesis by (auto split: if_splits)
  qed
qed auto

lemma prefixTitle_unique:
  assumes "indexOK U titles index" and "prefixTitle index key = t" and "t \<noteq> []" and "[] \<notin> set titles"
  shows "t \<in> set titles \<and> 20 \<le> runeLen key \<and> hasPrefix (normalizeSessionName U t) key \<and>
    (\<forall>t'\<in>set titles. hasPrefix (normalizeSessionName U t') key \<longrightarrow> normalizeSessionName U t' = normalizeSessionName U t)"
proof -
  have p: "prefixFrom key [] (normalized index) = t" and long: "20 \<le> runeLen key"
    using assms(2,3) by (auto simp: prefixTitle_def workerCoverageTruncationMinPrefix_def split: if_splits)
  have "\<forall>(n, t)\<in>set (normalized index). t \<noteq> []" using assms(1,4) by (auto simp: indexOK_def)
  from prefixFrom_unique[OF p assms(3) this] obtain n where n: "(n, t) \<in> set (normalized index)" "hasPrefix n key"
    "\<And>n' t'. (n', t') \<in> set (normalized index) \<Longrightarrow> hasPrefix n' key \<Longrightarrow> n' = n" by auto
  have keys: "n' = n" if "n' \<in> normalizeSessionName U ` set titles" "hasPrefix n' key" for n'
  proof -
    have "n' \<in> fst ` set (normalized index)" using that(1) assms(1) by (simp add: indexOK_def)
    then show ?thesis using n(3) that(2) by fastforce
  qed
  have "t \<in> set titles" "n = normalizeSessionName U t" using n(1) assms(1) by (auto simp: indexOK_def)
  then show ?thesis using long n(2) keys by blast
qed

lemma exactTitle_title:
  "indexOK U titles index \<Longrightarrow> exactTitle U index cs = Some t \<Longrightarrow>
     t \<in> set titles \<and> (\<exists>c\<in>set cs. tt_ToLower U (TrimSpace c) = tt_ToLower U (TrimSpace t))"
  by (induction cs) (auto simp: indexOK_def split: option.splits)

text \<open>A session name is matched to a goal or topic without a guess: the title is one of the vault's, and the
  name, with or without its Manager suffix, is that title but for letter case and outer white space, or
  a prefix of at least twenty runes of its normal form and of no title's with another one.\<close>

theorem subject_never_guesses:
  assumes "subject U (newSubjectIndex U titles) name = t" and "t \<noteq> []" and "[] \<notin> set titles"
  shows "t \<in> set titles \<and> (\<exists>c\<in>{name, stripManager name}.
    tt_ToLower U (TrimSpace c) = tt_ToLower U (TrimSpace t) \<or>
    (20 \<le> runeLen (normalizeSessionName U c) \<and> hasPrefix (normalizeSessionName U t) (normalizeSessionName U c) \<and>
     (\<forall>t'\<in>set titles. hasPrefix (normalizeSessionName U t') (normalizeSessionName U c) \<longrightarrow>
        normalizeSessionName U t' = normalizeSessionName U t)))"
proof (cases "exactTitle U (newSubjectIndex U titles) [name, stripManager name]")
  case (Some title)
  then have "title = t" using assms(1) by (simp add: subject_def Let_def)
  then show ?thesis using exactTitle_title[OF newSubjectIndex_OK Some] by auto
next
  case None
  let ?index = "newSubjectIndex U titles"
  define hits where "hits = remdups (filter (\<lambda>title. title \<noteq> []) (map (\<lambda>key. prefixTitle ?index key)
    [normalizeSessionName U name, normalizeSessionName U (stripManager name)]))"
  have s: "subject U ?index name = (case hits of [title] \<Rightarrow> title | _ \<Rightarrow> [])"
    using None unfolding subject_def Let_def hits_def by (simp only: option.case)
  have "hits = [t]" using assms(1,2) unfolding s by (auto split: list.splits)
  then have "t \<in> set hits" by simp
  then obtain c where "c \<in> {name, stripManager name}" "prefixTitle ?index (normalizeSessionName U c) = t"
    unfolding hits_def set_remdups set_filter set_map list.set by blast
  then show ?thesis using prefixTitle_unique[OF newSubjectIndex_OK _ assms(2,3)] by blast
qed

section \<open>The verdicts\<close>

text \<open>The registry entries the loop reaches before the context ends.\<close>

fun entriesRead :: "(nat \<Rightarrow> bool) \<Rightarrow> nat \<Rightarrow> 'a list \<Rightarrow> 'a list" where
  "entriesRead ended i [] = []"
| "entriesRead ended i (e # es) = (if ended i then [] else e # entriesRead ended (i + 1) es)"

lemma entriesRead_sub: "set (entriesRead ended i es) \<subseteq> set es"
  by (induction ended i es rule: entriesRead.induct) auto

text \<open>A function of the state that keeps an invariant and always returns the same value.\<close>

definition steady :: "('s \<Rightarrow> bool) \<Rightarrow> ('s \<Rightarrow> 's \<times> 'a) \<Rightarrow> 'a \<Rightarrow> bool" where
  "steady I f v \<longleftrightarrow> (\<forall>s. I s \<longrightarrow> I (fst (f s)) \<and> snd (f s) = v)"

lemma steadyD: "steady I f v \<Longrightarrow> I s \<Longrightarrow> \<exists>s'. f s = (s', v) \<and> I s'"
  unfolding steady_def by (metis prod.collapse)

lemma managersFrom_exact:
  assumes live: "\<forall>sid. steady I (isLive sid) (L sid)" and "I s" and "distinct (map fst registry)"
    and "\<forall>sid\<in>fst ` set registry. subjects sid = None"
  shows "\<exists>s' managers. managersFrom U index isLive ended i subjects registry s = (s', managers) \<and> I s' \<and>
    (\<forall>m subj. managers m = Some subj \<longleftrightarrow> subjects m = Some subj \<or> (\<exists>name. (m, name) \<in> set (entriesRead ended i registry) \<and>
       L m \<and> subject U index name \<noteq> [] \<and> subj = tt_ToLower U (subject U index name)))"
  using assms(2-)
proof (induction registry arbitrary: i subjects s)
  case (Cons e registry)
  obtain sid name where e: "e = (sid, name)" by (cases e)
  have fresh: "sid \<notin> fst ` set registry" "distinct (map fst registry)" "subjects sid = None"
    using Cons.prems(2,3) e by auto
  have old: "\<forall>m\<in>fst ` set registry. subjects m = None" using Cons.prems(3) by simp
  consider "ended i" | "\<not> ended i" "subject U index name = [] \<or> \<not> L sid"
    | "\<not> ended i" "subject U index name \<noteq> []" "L sid" by blast
  then show ?case
  proof cases
    case 1
    then show ?thesis using Cons.prems(1) e by simp
  next
    case 2
    obtain s' where s': "isLive sid s = (s', L sid)" "I s'" using steadyD[OF assms(1)[rule_format] Cons.prems(1)] by blast
    obtain u where u: "I u" "managersFrom U index isLive ended i subjects (e # registry) s =
        managersFrom U index isLive ended (i + 1) subjects registry u"
      using 2 s' Cons.prems(1) e by (cases "subject U index name = []") (auto simp: Let_def)
    have skip: "(\<exists>n. (m, n) \<in> set (entriesRead ended i (e # registry)) \<and> L m \<and> subject U index n \<noteq> [] \<and> subj = tt_ToLower U (subject U index n)) \<longleftrightarrow>
        (\<exists>n. (m, n) \<in> set (entriesRead ended (i + 1) registry) \<and> L m \<and> subject U index n \<noteq> [] \<and> subj = tt_ToLower U (subject U index n))" for m subj
      using 2 e by auto
    show ?thesis unfolding u(2) skip by (rule Cons.IH[OF u(1) fresh(2) old])
  next
    case 3
    obtain s' where s': "isLive sid s = (s', True)" "I s'" using steadyD[OF assms(1)[rule_format] Cons.prems(1)] 3(3) by metis
    define sub where "sub = subjects(sid \<mapsto> tt_ToLower U (subject U index name))"
    have "\<forall>m\<in>fst ` set registry. sub m = None" using old fresh(1) by (auto simp: sub_def)
    from Cons.IH[OF s'(2) fresh(2) this, where i = "i + 1"] obtain t managers where
      r: "managersFrom U index isLive ended (i + 1) sub registry s' = (t, managers)" "I t"
      "\<And>m subj. managers m = Some subj \<longleftrightarrow> sub m = Some subj \<or> (\<exists>name. (m, name) \<in> set (entriesRead ended (i + 1) registry) \<and>
         L m \<and> subject U index name \<noteq> [] \<and> subj = tt_ToLower U (subject U index name))" by blast
    have "(sid, n) \<notin> set (entriesRead ended (i + 1) registry)" for n
      using fresh(1) entriesRead_sub[where ended = ended and i = "i + 1" and es = registry] by force
    then show ?thesis using r s' 3 e fresh(3) by (auto simp: Let_def sub_def)
  qed
qed simp

lemma verdictsFrom_exact:
  assumes "\<forall>sid. steady I (ct_Lookup T sid) (task sid)" and "I s"
  shows "snd (verdictsFrom U T registry index managers acc ids s) =
    acc \<union> {sid \<in> set ids. workerUncovered U sid (task sid) registry index managers}"
  using assms(2)
proof (induction ids arbitrary: acc s)
  case (Cons sid ids)
  obtain s' where "ct_Lookup T sid s = (s', task sid)" "I s'" using steadyD[OF assms(1)[rule_format] Cons.prems] by blast
  then show ?case using Cons.IH[OF \<open>I s'\<close>] by auto
qed simp

text \<open>The verdicts for any end of the context.\<close>

lemma Uncovered_exact:
  assumes "distinct (map fst registry)" and "I s" and "steady I (ct_SubjectTitles T) titles"
    and "\<forall>sid. steady I (ct_Lookup T sid) (task sid)" and "\<forall>sid. steady I (isLive sid) (L sid)"
  shows "snd (Uncovered U (Some \<lparr>wc_tasks = Some T, wc_IsLive = Some isLive\<rparr>) ended registry ids s) =
    (let names = subject U (newSubjectIndex U titles) in
     {sid \<in> set ids. sid \<noteq> [] \<and> registry \<noteq> [] \<and>
        ((\<exists>name. map_of registry sid = Some name \<and> names name \<noteq> []) \<or>
         \<not> (\<exists>m name t goal. (m, name) \<in> set (entriesRead ended 0 registry) \<and> m \<noteq> sid \<and> L m \<and> names name \<noteq> [] \<and>
              task sid = Some t \<and> goal \<in> set (task_Goals t) \<and> tt_ToLower U goal = tt_ToLower U (names name)))})"
proof (cases "ids = []")
  case False
  let ?index = "newSubjectIndex U titles"
  obtain s1 where s1: "ct_SubjectTitles T s = (s1, titles)" "I s1" using steadyD[OF assms(3,2)] by blast
  obtain s2 managers where
    m: "liveManagerSubjects U ?index isLive ended registry s1 = (s2, managers)" "I s2"
    "\<And>m subj. managers m = Some subj \<longleftrightarrow> (\<exists>name. (m, name) \<in> set (entriesRead ended 0 registry) \<and>
       L m \<and> subject U ?index name \<noteq> [] \<and> subj = tt_ToLower U (subject U ?index name))"
    using managersFrom_exact[where subjects = Map.empty and U = U and index = ?index and ended = ended and i = 0,
        OF assms(5) s1(2) assms(1)] by (auto simp: liveManagerSubjects_def)
  have keys: "managers c = Some subj \<Longrightarrow> c \<in> fst ` set registry" for c subj
    using m(3) entriesRead_sub[of ended 0 registry] by force
  have over: "list_ex (\<lambda>(candidate, _). (case managers candidate of None \<Rightarrow> False | Some subj \<Rightarrow> Q candidate subj)) registry \<longleftrightarrow>
      (\<exists>c subj. managers c = Some subj \<and> Q c subj)" for Q
    using keys by (force simp: list_ex_iff split: option.splits)
  have "workerUncovered U sid (task sid) registry ?index managers \<longleftrightarrow> sid \<noteq> [] \<and> registry \<noteq> [] \<and>
      ((\<exists>name. map_of registry sid = Some name \<and> subject U ?index name \<noteq> []) \<or>
       \<not> (\<exists>m name t goal. (m, name) \<in> set (entriesRead ended 0 registry) \<and> m \<noteq> sid \<and> L m \<and> subject U ?index name \<noteq> [] \<and>
            task sid = Some t \<and> goal \<in> set (task_Goals t) \<and> tt_ToLower U goal = tt_ToLower U (subject U ?index name)))" for sid
    unfolding workerUncovered_def over
    by (cases "task sid"; cases "map_of registry sid") (force simp: m(3) list_ex_iff)+
  then show ?thesis
    using False s1 m(1) verdictsFrom_exact[where acc = "{}" and U = U and T = T, OF assms(4) m(2)]
    by (simp add: Uncovered_def Let_def)
qed (simp add: Uncovered_def)

lemma entriesRead_all: "\<forall>j < length es. \<not> ended (i + j) \<Longrightarrow> entriesRead ended i es = es"
proof (induction es arbitrary: i)
  case (Cons e es)
  have "\<not> ended i" using Cons.prems by (metis add.right_neutral length_Cons zero_less_Suc)
  moreover have "\<forall>j < length es. \<not> ended (i + 1 + j)" using Cons.prems by auto
  ultimately show ?case using Cons.IH[of "i + 1"] by simp
qed simp

text \<open>C15: the coverage is exact: with the titles, the tasks and the liveness of one moment and a request that does
  not end while the managers are looked for, the uncovered of the asked sessions are, when the registry is not
  empty, those that are managers themselves and those no goal of whose task is the subject of another live
  session of the registry.\<close>

theorem coverage_exact:
  assumes "distinct (map fst registry)" and "I s" and "steady I (ct_SubjectTitles T) titles"
    and "\<forall>sid. steady I (ct_Lookup T sid) (task sid)" and "\<forall>sid. steady I (isLive sid) (L sid)"
    and "\<forall>i < length registry. \<not> ended i"
  shows "snd (Uncovered U (Some \<lparr>wc_tasks = Some T, wc_IsLive = Some isLive\<rparr>) ended registry ids s) =
    (let names = subject U (newSubjectIndex U titles) in
     {sid \<in> set ids. sid \<noteq> [] \<and> registry \<noteq> [] \<and>
        ((\<exists>name. map_of registry sid = Some name \<and> names name \<noteq> []) \<or>
         \<not> (\<exists>m name t goal. (m, name) \<in> set registry \<and> m \<noteq> sid \<and> L m \<and> names name \<noteq> [] \<and>
              task sid = Some t \<and> goal \<in> set (task_Goals t) \<and> tt_ToLower U goal = tt_ToLower U (names name)))})"
proof -
  have "entriesRead ended 0 registry = registry" using assms(6) by (intro entriesRead_all) simp
  then show ?thesis using Uncovered_exact[OF assms(1-5), of U ended ids] by simp
qed

text \<open>ASCII tables, a goal and its manager.\<close>

definition asciiTables :: textTables where
  "asciiTables = \<lparr>tt_NFKC = (\<lambda>s. s), tt_ToLower = map asciiLower,
     tt_IsLetter = (\<lambda>r. length r = 1 \<and> isWordChar (hd r) \<and> \<not> byteIn 48 57 (hd r) \<and> r \<noteq> ''_''),
     tt_IsDigit = (\<lambda>r. length r = 1 \<and> byteIn 48 57 (hd r))\<rparr>"

lemma demo_names:
  "TrimSpace ''S'' = ''S''" "TrimSpace ''S Manager'' = ''S Manager''" "stripManager ''S Manager'' = ''S''"
  "tt_ToLower asciiTables ''S'' = ''s''" "tt_ToLower asciiTables ''s'' = ''s''"
  "tt_ToLower asciiTables ''S Manager'' = ''s manager''"
  by code_simp+

lemma demo_subject: "subject asciiTables (newSubjectIndex asciiTables [''S'']) ''S Manager'' = ''S''"
  by (simp add: subject_def newSubjectIndex_def demo_names)

lemma subject_never_guesses_witness: "''S'' \<in> set [''S''] \<and> (\<exists>c\<in>{''S Manager'', stripManager ''S Manager''}.
    tt_ToLower asciiTables (TrimSpace c) = tt_ToLower asciiTables (TrimSpace ''S'') \<or>
    20 \<le> runeLen (normalizeSessionName asciiTables c))"
  using subject_never_guesses[OF demo_subject] by auto

definition shipTask :: Task where
  "shipTask = \<lparr>task_Name = ''T'', task_Path = [], task_GoalName = [], task_GoalPath = [], task_Goals = [''s''],
     task_TopicName = [], task_TopicPath = [], task_ProductionTouching = False\<rparr>"

definition shipTasks :: "unit coverageTasks" where
  "shipTasks = \<lparr>ct_Lookup = (\<lambda>sid s. (s, if sid = ''w'' then Some shipTask else None)), ct_SubjectTitles = (\<lambda>s. (s, [''S'']))\<rparr>"

lemma coverage_exact_witness:
  "snd (Uncovered asciiTables (Some \<lparr>wc_tasks = Some shipTasks, wc_IsLive = Some (\<lambda>_ s. (s, True))\<rparr>)
     (\<lambda>_. False) [(''m'', ''S Manager'')] [''w'', ''m'', ''x''] ()) = {''m'', ''x''}"
proof -
  let ?registry = "[(''m'', ''S Manager'')]"
  define names where "names = subject asciiTables (newSubjectIndex asciiTables [''S''])"
  have n: "names ''S Manager'' = ''S''" unfolding names_def by (rule demo_subject)
  let ?task = "\<lambda>sid. if sid = ''w'' then Some shipTask else None"
  have st: "steady (\<lambda>_. True) (ct_SubjectTitles shipTasks) [''S'']" "\<forall>sid. steady (\<lambda>_. True) (ct_Lookup shipTasks sid) (?task sid)"
    by (simp_all add: steady_def shipTasks_def)
  have lv: "\<forall>sid :: string. steady (\<lambda>_. True) (\<lambda>s :: unit. (s, True)) True" by (simp add: steady_def)
  have d: "distinct (map fst ?registry)" by simp
  have live: "\<forall>i < length ?registry. \<not> (\<lambda>_. False) i" by simp
  have "snd (Uncovered asciiTables (Some \<lparr>wc_tasks = Some shipTasks, wc_IsLive = Some (\<lambda>_ s. (s, True))\<rparr>)
      (\<lambda>_. False) ?registry [''w'', ''m'', ''x''] ()) =
    {sid \<in> set [''w'', ''m'', ''x'']. sid \<noteq> [] \<and> ?registry \<noteq> [] \<and>
        ((\<exists>name. map_of ?registry sid = Some name \<and> names name \<noteq> []) \<or>
         \<not> (\<exists>m name t goal. (m, name) \<in> set ?registry \<and> m \<noteq> sid \<and> True \<and> names name \<noteq> [] \<and>
              ?task sid = Some t \<and> goal \<in> set (task_Goals t) \<and> tt_ToLower asciiTables goal = tt_ToLower asciiTables (names name)))}"
    unfolding names_def
    by (rule coverage_exact[where I = "\<lambda>_. True" and T = shipTasks and isLive = "\<lambda>_ s. (s, True)" and L = "\<lambda>_. True",
        OF d TrueI st lv live, unfolded Let_def])
  also have "\<dots> = {''m'', ''x''}"
  proof -
    have "goal \<in> set (task_Goals shipTask) \<longleftrightarrow> goal = ''s''" for goal by (simp add: shipTask_def)
    then show ?thesis using n by (auto simp: demo_names split: if_splits)
  qed
  finally show ?thesis .
qed

end
