(* ===== verification/Spec2Isabelle.thy ===== *)
theory Spec2Isabelle
  imports ViewProperties PeerProperties LedgerProperties HeartbeatProperties TaskProperties PageProperties
    ProvenanceProperties StreamProperties JumpProperties MisrouteProperties CoverageProperties
begin

text \<open>
  A model of attention-controller: the store of the asks that coding sessions, hooks and
  other producers raise for an operator, the HTTP API in front of it, and the federation
  with a peer store.

  \<^bold>\<open>The program and its parts.\<close> A producer pushes an ask (\<open>PushRequest\<close>) and the store keeps it as
  an \<open>Item\<close> that moves from open to answered to closed. Arms (the board, a terminal, a
  phone) read the open items and answer, escalate, flag, rate or close them; the store
  checks with the session registry and heartbeat files which producers are still alive and
  drops what nobody waits for. Beside the items the store keeps four derived indexes and
  the delivery attempts, all buckets of one key-value database. A notifier wakes the live
  views after a write. A federating store shows a peer's items too and sends a write to
  the store that holds the item. \<open>main.go\<close> composes them as federation over notifier over
  store. Beside the asks it keeps three things about sessions: the heartbeats they report, as files in a
  directory with a snapshot in memory; the ledger of spawned sessions, a bucket with a cached
  list; and the index of the vault's task notes by session, built at start and kept current
  by a watcher. The board page draws the items with what is proven about their producers: the
  resolver joins each item with the event log of its hook, the session registry, the terminal panes, the task index and
  the worker coverage, the check for a live manager that could relay a worker's ask. A stream keeps an open page current: all connections
  share one renderer, and each sends the rows that differ from the board it sent last. From a row the
  operator jumps to the producer's pane, or has the ask read aloud. A weekly report counts the
  items flagged as misrouted.

  \<^bold>\<open>Theories, bottom up.\<close>
  \<^item> \<open>Prelude\<close>: the sentinel errors of \<open>pkg/errors.go\<close>, results as \<open>error + 'a\<close>, clock readings
    (nanoseconds) and the saturating subtraction of Go's \<open>time\<close>, maps read in key order, shared lemmas.
    \<open>Runtime\<close>: the validation and collection libraries as parameters (locale \<open>runtime_lib\<close>).
    \<open>Vocabulary\<close>, \<open>Answers\<close>, \<open>GoText\<close>, \<open>ItemModel\<close>: the closed vocabularies, answers, questions and
    options, the text functions, the item, the push request and the risk rules.
    \<open>TimeKey\<close>: the civil calendar and the fixed-width time format of the history keys.
  \<^item> \<open>Kv\<close>: the key-value library as parameters with its laws (locales \<open>kv_lib\<close> and, in \<open>StoreSpec\<close>,
    \<open>store_lib\<close>) and an in-memory database that satisfies them. Bucket entries are decoded values:
    the JSON of an item is taken to read back as the item, which holds for strings of valid UTF-8.
  \<^item> \<open>StoreIndex\<close>, \<open>StoreCore\<close>, \<open>StoreWrite\<close>, \<open>StoreRead\<close>, \<open>Liveness\<close>: the operations of
    \<open>attention-store-impl.go\<close>, \<open>-index.go\<close>, \<open>-flag.go\<close>, \<open>-rate.go\<close>, \<open>-attempt.go\<close>, one definition per
    function. A transaction is a function of the database value; an error returns the value before.
  \<^item> \<open>StoreSpec\<close>, \<open>WriteSpec\<close>, \<open>ReadSpec\<close>: the abstract store (maps from ids to items and
    attempts, and the indexes as maps), the abstract operations, and the refinement of each
    operation to its abstract one. \<open>IndexLaws\<close>: the index invariant. \<open>StoreMachine\<close>, \<open>Lifecycle\<close>,
    \<open>StoreLaws\<close>: the step relation of all calls, its reachable states, the invariants by rule induction, and
    what a run shows to its callers.
  \<^item> \<open>History\<close>: the filters, the reverse walk and the pages of \<open>History\<close>; locale \<open>cursor_lib\<close> states
    what a cursor shows. \<open>Registry\<close>, \<open>RegistryLaws\<close>: the caching session checker of
    \<open>session-liveness-checker.go\<close> and the runs of its calls.
  \<^item> \<open>Ops\<close>: the interface \<open>AttentionStore\<close> as a record with its contract (locale \<open>store_contract\<close>);
    \<open>Notify\<close>: the notifier and the notifying decorator; \<open>Handlers\<close>: the HTTP handlers of
    \<open>pkg/handler/attention-*.go\<close>; \<open>Remote\<close>: the bearer gate, the route table, the peer client and what
    of an error survives the wire (locale \<open>http_codes\<close>); \<open>Federation\<close>: the federating decorator.
  \<^item> \<open>Paths\<close>: the string and path functions of the file-based parts. \<open>Ledger\<close>, \<open>PatchLaws\<close>,
    \<open>LedgerStore\<close>, \<open>LedgerApi\<close>, \<open>LedgerLaws\<close>: \<open>session-ledger*.go\<close>, their handlers and
    \<open>cmd/import-spawn-ledger\<close>; the JSON row and its patch with the decoder's rule for names (locale
    \<open>time_json\<close>), the store and its list cache, and its interleaved runs (locales \<open>ledger_lib\<close>, \<open>ledger_run\<close>).
    \<open>Heartbeat\<close>, \<open>HeartbeatLaws\<close>: \<open>session-heartbeat*.go\<close> and their handlers, with the directory as a value.
    \<open>TaskText\<close>, \<open>TaskIndex\<close>, \<open>TaskLaws\<close>, \<open>TaskSync\<close>: \<open>task-index.go\<close>, with the vault as a value, and the
    runs of the index.
  \<^item> \<open>EventLog\<close>, \<open>EventLogLaws\<close>, \<open>PaneOwnership\<close>, \<open>Provenance\<close>, \<open>ProvenanceLaws\<close>: \<open>event-log-reader.go\<close>,
    \<open>session-registry-reader.go\<close>, \<open>pane-ownership.go\<close> and \<open>provenance.go\<close>: the incremental log reader, the host
    state and its refresh, the resolver. \<open>Words\<close>, \<open>WorkerCoverage\<close>: \<open>worker-coverage.go\<close>. Files, pane listings
    and decoded lines are values; the Unicode tables are parameters.
  \<^item> \<open>CardText\<close>, \<open>CardLaws\<close>: the renderer of a card's text (\<open>card-text.go\<close>), whose loop is a
    \<open>while_option\<close>. \<open>BoardPage\<close>: the page, its rows, links and counts (\<open>attention-page*.go\<close>), up to the template, a
    parameter. \<open>BoardStream\<close>, \<open>BoardLaws\<close>: the shared renderer and the connections of \<open>attention-stream.go\<close>, as a step
    relation over the notifier of \<open>Notify\<close> and any store. \<open>Jump\<close>: \<open>attention-jump.go\<close>, \<open>legacy-jump.go\<close>,
    \<open>jump-token.go\<close>, \<open>pane-lister.go\<close>, \<open>pane-activator.go\<close>, \<open>attention-speak.go\<close> and \<open>attention-cancel.go\<close>; what is done to
    panes is a list of actions. \<open>Misroute\<close>: \<open>misroute-count.go\<close> and its endpoint, the time zone a parameter.
  \<^item> \<open>Demo\<close>: a concrete run for the witnesses. \<open>ViewProperties\<close>, \<open>PeerProperties\<close>, \<open>LedgerProperties\<close>,
    \<open>HeartbeatProperties\<close>, \<open>TaskProperties\<close>, \<open>PageProperties\<close>, \<open>ProvenanceProperties\<close>, \<open>StreamProperties\<close>,
    \<open>BoardPageProperties\<close>, \<open>JumpProperties\<close>, \<open>MisrouteProperties\<close>, \<open>CoverageProperties\<close> and this theory: the
    properties, each after a text that states it.

  \<^bold>\<open>What the lemmas show.\<close> Index coherence and item validity on every reachable state; the effect and
  the errors of every write; that an indexed read is a scan of all items and removes only what is
  dead; that history pages are exact slices of the time order; that a subscriber misses no
  change; that a session is called gone only on recent evidence, over every run of its checker; that a federated write touches one store and a call to a peer is
  the call on the peer's store. A ledger list answered from the cache is the list of the rows
  whatever reads and writes interleave; a patch changes what it names; a heartbeat list is what the
  directory holds; the task index kept current is the index built anew. The card renderer returns and emits
  no markup but its own anchors; every field of a resolved page is what the item's own sources say, and the
  incremental log reader answers what a full scan does; a waiting stream has sent the current board, with at
  most one render per change, and the rows a page draws are rows the stream sends; the page draws or counts every item; a
  jump reaches only the pane the item's sources name; misroutes are counted exactly, each in one
  week; the worker coverage is exact. Where the code departs from
  what it states, the departure is itself a theorem: a re-push that stores an invalid item, a history
  prefix that ends inside a rune, a refused close that arrives as an unavailable peer, a patch key
  in another letter case, a prune that removes a fresh heartbeat or a file elsewhere, a reconcile
  that drops a new note.

  \<^bold>\<open>Loops and bounds.\<close> Every loop of the modelled code runs over a finite list or forward through a text
  (the frontmatter scan), and is a total function, but for the card renderer, a \<open>while_option\<close> that is proved to
  return; no fuel is used. Go's \<open>int\<close> values that count items or index pages are unbounded here; the
  notifier's generation, the stream's sequence and the task index's sequence are 64-bit words (the stream's
  claims are about runs in which the generation has not wrapped around), a random id is made of 8-bit words, and a duration
  saturates as Go's does. History keys are exact for the years 0 to 9999.

  \<^bold>\<open>Clocks and interleaving.\<close> What a call reads from outside (clock, files, registry, random bytes) is
  an argument, so a statement holds for every such reading. A call of the store is one step:
  the database serialises its transactions, and a read's snapshot and its later prune are two
  transactions of one call, the second of which rechecks each item. Where a call of the ledger, the
  heartbeats or the task index reads before it locks, the reading and the installing are separate
  steps or separate arguments.

  \<^bold>\<open>Not modelled.\<close> The encoding of JSON beyond the strings the history filter searches, logging and
  metrics; the page's markup, styles and browser script, which the template executes; the event loops over the operating
  system's file notifications, whose reactions are modelled where they act; the probes, build identity and
  constructors; flags, listeners and process lifecycle of \<open>main.go\<close>; the text and number helpers of
  \<open>pkg/textwrap\<close> and \<open>pkg/mathutil\<close>, which no other package uses.
\<close>

section \<open>Invariants of a run\<close>

text \<open>C1: on every state a run of the store reaches, the derived indexes agree with the items bucket:
  a built live or open index holds exactly the items that belong in it, a built history index holds every
  item under its time-ordered key and nothing else, and every dedup entry is a stored open item under the
  key of its own producer and dedup key.\<close>

theorem index_coherence:
  assumes "store_lib K ib ab R" and "store_run K ib ab R w s"
  shows "let a = absStore ib ab s in
     (built (aLive a) \<longrightarrow> entries (aLive a) = worthyItems liveIndexWorthy (aItems a)) \<and>
     (built (aOpen a) \<longrightarrow> entries (aOpen a) = worthyItems openIndexWorthy (aItems a)) \<and>
     (built (aHist a) \<longrightarrow> (\<forall>k i. entries (aHist a) k = Some i \<longleftrightarrow>
        aItems a (ItemID i) = Some i \<and> k = timeOrderedIndexKey (ItemID i) i)) \<and>
     (\<forall>k i. entries (aDedup a) k = Some i \<longrightarrow>
        aItems a (ItemID i) = Some i \<and> State i = OpenState \<and>
        k = dedupIndexKeyOf (ProducerID i) (DedupKey i))"
proof -
  let ?a = "absStore ib ab s"
  have inv: "storeInv ?a" and wf: "wfItems (aItems ?a)"
    by (rule store_lib.store_run_inv[OF assms])+
  have "built (aLive ?a) \<Longrightarrow> entries (aLive ?a) = worthyItems liveIndexWorthy (aItems ?a)"
    "built (aOpen ?a) \<Longrightarrow> entries (aOpen ?a) = worthyItems openIndexWorthy (aItems ?a)"
    using inv by (auto simp: storeInv_def intro!: index_is_worthyItems)
  moreover have "entries (aHist ?a) k = Some i \<longleftrightarrow> aItems ?a (ItemID i) = Some i \<and> k = timeOrderedIndexKey (ItemID i) i"
    if "built (aHist ?a)" for k i
    using inv that idxSoundD[of "\<lambda>_. True" hkey "aItems ?a" "aHist ?a" k i]
    by (auto simp: storeInv_def idxComplete_def hkey_def timeOrderedIndexKey_def)
  moreover have "entries (aDedup ?a) k = Some i \<Longrightarrow> aItems ?a (ItemID i) = Some i \<and> State i = OpenState \<and>
      k = dedupIndexKeyOf (ProducerID i) (DedupKey i)" for k i
    using inv idxSoundD[of openIndexWorthy dkey "aItems ?a" "aDedup ?a" k i]
    by (simp add: storeInv_def dkey_def openIndexWorthy_def)
  ultimately show ?thesis by (simp add: Let_def)
qed

lemma index_coherence_witness:
  "entries (aDedup (demo_abs demo_s1)) (dedupIndexKeyOf ''p'' ''d'') \<noteq> Some demo_closed"
proof
  assume "entries (aDedup (demo_abs demo_s1)) (dedupIndexKeyOf ''p'' ''d'') = Some demo_closed"
  then have "State demo_closed = OpenState"
    using index_coherence[OF demo_store_lib demo_runs(2)] unfolding Let_def by blast
  then show False by simp
qed

text \<open>C2: every item a run stores is well formed: it is stored under its own id, its required fields and
  its liveness reference are valid, its state is one of the three and carries exactly the stamps of that
  state (no answer, decision or close time on an open item), the escalation, flag and rating pairs are set
  and cleared together, and its answer passes the answer validators.\<close>

theorem stored_items_ok:
  assumes "store_lib K ib ab R" and "store_run K ib ab R w s" and "aItems (absStore ib ab s) k = Some i"
  shows "ItemID i = k \<and> itemOK R i"
  using store_lib.store_run_inv(2,3)[OF assms(1,2)] assms(3) wfItemsD by (auto simp: itemsOK_def)

lemma stored_items_ok_witness: "itemOK std_runtime demo_closed"
  using stored_items_ok[OF demo_store_lib demo_runs(4) demo_get(3)] by simp

text \<open>C3: an item that is answered or closed is never lost: whatever calls follow, it stays stored under
  its id, its state moves only along the schema's transitions, a recorded decision and (once no re-answer
  is admitted) the whole recorded answer stay as they are, and a closed item keeps its close time.\<close>

theorem settled_items_kept:
  assumes "store_lib K ib ab R" and "store_run K ib ab R w s"
    and "reachable R (NewAttentionStore K w) s s'"
    and "aItems (absStore ib ab s) k = Some i" and "State i \<noteq> OpenState"
  shows "\<exists>j. aItems (absStore ib ab s') k = Some j \<and> evolves i j"
  using asteps_settled[OF store_lib.reachable_asteps[OF assms(1,3)] _ assms(4,5)]
    store_lib.store_run_inv(1)[OF assms(1,2)] by blast

lemma settled_items_kept_witness: "evolves demo_answered demo_closed"
proof -
  have "reachable std_runtime (NewAttentionStore mem_kv 0) demo_s2 demo_s3"
    using demo_step3 reachable.start reachable.step by (metis demo_A_def)
  then show ?thesis
    using settled_items_kept[OF demo_store_lib demo_runs(3) _ demo_get(2), of demo_s3] demo_get(3) by simp
qed

section \<open>Answering and closing\<close>

text \<open>C4: the first answer wins: an answer to an item already answered is refused with
  \<open>ErrAlreadyAnswered\<close> and changes nothing, unless the item is a permission ask and the caller names
  the arm that resolved it.\<close>

theorem second_answer_refused:
  assumes "store_lib K ib ab R" and "store_run K ib ab R w s"
    and "aItems (absStore ib ab s) k = Some i" and "State i = AnsweredState"
    and "AnswerMechanism i \<noteq> PermissionAnswerMechanism \<or> rby = []"
  shows "store_Answer R (NewAttentionStore K w) now k by rby d a as client route s = (s, Inl ErrAlreadyAnswered)"
  using assms(3-5)
  by (simp add: store_Answer_def store_lib.getItem_abs[OF assms(1)] Let_def)

lemma second_answer_refused_witness:
  "store_Answer std_runtime (NewAttentionStore mem_kv 0) 9 demo_id ''other'' [] [] None [] None [] demo_s2
     = (demo_s2, Inl ErrAlreadyAnswered)"
  by (rule second_answer_refused[OF demo_store_lib demo_runs(3) demo_get(2)]) simp_all

text \<open>C5: an answer to an open item whose content passes the answer validators succeeds, and its whole
  effect on the items is that this one item becomes the answered item it returns: answered now, by the
  given arm, with the given decision, answer and client; what identifies the ask is unchanged.\<close>

theorem answer_open_item:
  assumes "store_lib K ib ab R" and "store_run K ib ab R w s"
    and "aItems (absStore ib ab s) k = Some i" and "State i = OpenState"
    and "j = answeredItem now who rby d a as client (firstRoute route) i"
    and "validateAnswer R j = None" and "validateAnswers R j = None"
  shows "\<exists>s'. store_Answer R (NewAttentionStore K w) now k who rby d a as client route s = (s', Inr (Some j)) \<and>
     aItems (absStore ib ab s') = (aItems (absStore ib ab s))(k \<mapsto> j) \<and>
     State j = AnsweredState \<and> AnsweredAt j = Some now \<and> AnsweredBy j = who \<and> ResolvedBy j = rby \<and>
     Decision j = d \<and> Answer j = a \<and> Answers j = as \<and> sameAsk i j"
proof -
  have wf: "wfItems (aItems (absStore ib ab s))" and ok: "itemsOK R (absStore ib ab s)"
    using store_lib.store_run_inv[OF assms(1,2)] by simp_all
  have same: "sameAsk i j" unfolding assms(5) by (rule sameAsk_answeredItem)
  have "ItemID j = k" using wfItemsD[OF wf assms(3)] sameAskD(1)[OF same] by simp
  moreover have "Decision i = []" using ok assms(3,4) by (simp add: itemsOK_def itemOK_def)
  moreover have "answerVerdict R now who rby d a as client route i = Write j"
    using assms(4-7) by (simp add: answerVerdict_def Let_def)
  moreover note store_lib.store_Answer_refines[OF assms(1) wf, of w now k who rby d a as client route]
  ultimately show ?thesis
    using assms(3) same
    by (cases "store_Answer R (NewAttentionStore K w) now k who rby d a as client route s")
       (auto simp: spec_update_def assms(5))
qed

lemma answer_open_item_witness:
  "\<exists>s'. store_Answer std_runtime (NewAttentionStore mem_kv 0) 2 demo_id ''arm'' [] [] None [] None [] demo_s1
     = (s', Inr (Some demo_answered))"
proof -
  have j: "demo_answered = answeredItem 2 ''arm'' [] [] None [] None (firstRoute []) demo_item"
    by (simp add: demo_answered_def firstRoute_def)
  have "validateAnswer std_runtime demo_answered = None" "validateAnswers std_runtime demo_answered = None"
    by (simp_all add: validateAnswer_def validateAnswers_def demo_answered_def)
  then show ?thesis
    using answer_open_item[OF demo_store_lib demo_runs(2) demo_get(1) demo_item_simps(2) j] by blast
qed

text \<open>A permission ask cannot be closed by an arm without a decision: a close of an open permission
  item that names who closed it is refused and changes nothing.\<close>

theorem permission_close_refused:
  assumes "store_lib K ib ab R" and "aItems (absStore ib ab s) k = Some i"
    and "State i = OpenState" and "AnswerMechanism i = PermissionAnswerMechanism" and "who \<noteq> []"
  shows "store_Close (NewAttentionStore K w) now k who client s = (s, Inl ErrPermissionCloseWithoutDecision)"
  using assms(2-5) by (simp add: store_Close_def store_lib.getItem_abs[OF assms(1)] Let_def)

lemma permission_close_refused_witness:
  "store_Close (NewAttentionStore mem_kv 0) 4 demo_id ''arm'' None demo_p1 =
     (demo_p1, Inl ErrPermissionCloseWithoutDecision)"
  by (rule permission_close_refused[OF demo_store_lib demo_get(4)]) simp_all

text \<open>C31: closing an item is total: a closed item is refused with \<open>ErrIllegalTransition\<close> and nothing changes;
  an open one (unless it is a permission ask closed by a named arm) and an answered one become the closed
  item, which keeps its answer when it had one, and no other item changes.\<close>

theorem close_effect:
  assumes "store_lib K ib ab R" and "store_run K ib ab R w s" and "aItems (absStore ib ab s) k = Some i"
  shows "(State i = ClosedState \<and>
      store_Close (NewAttentionStore K w) now k who client s = (s, Inl ErrIllegalTransition)) \<or>
    (State i = OpenState \<and> AnswerMechanism i = PermissionAnswerMechanism \<and> who \<noteq> [] \<and>
      store_Close (NewAttentionStore K w) now k who client s = (s, Inl ErrPermissionCloseWithoutDecision)) \<or>
    (State i \<noteq> ClosedState \<and> \<not> (State i = OpenState \<and> AnswerMechanism i = PermissionAnswerMechanism \<and> who \<noteq> []) \<and>
     (\<exists>s' j. store_Close (NewAttentionStore K w) now k who client s = (s', Inr j) \<and>
      aItems (absStore ib ab s') = (aItems (absStore ib ab s))(k \<mapsto> j) \<and>
      State j = ClosedState \<and> ClosedAt j = Some now \<and> Answer j = Answer i \<and> Answers j = Answers i \<and>
      Decision j = Decision i \<and> AnsweredAt j = AnsweredAt i \<and> sameAsk i j))"
proof -
  have wf: "wfItems (aItems (absStore ib ab s))" and ok: "itemsOK R (absStore ib ab s)"
    using store_lib.store_run_inv[OF assms(1,2)] by simp_all
  have state: "State i = OpenState \<or> State i = AnsweredState \<or> State i = ClosedState"
    using ok assms(3) by (simp add: itemsOK_def itemOK_def)
  have k: "ItemID i = k" using wfItemsD[OF wf assms(3)] by simp
  note get = store_lib.getItem_abs[OF assms(1)]
  let ?j = "closedItem now who client i"
  have fields: "State ?j = ClosedState" "ClosedAt ?j = Some now" "Answer ?j = Answer i" "Answers ?j = Answers i"
    "Decision ?j = Decision i" "AnsweredAt ?j = AnsweredAt i" "sameAsk i ?j" "ItemID ?j = k"
    by (simp_all add: closedItem_def sameAsk_def k)
  show ?thesis
  proof (cases "closeVerdict now who client i")
    case (Write j)
    then have "j = ?j" "State i \<noteq> ClosedState"
      "\<not> (State i = OpenState \<and> AnswerMechanism i = PermissionAnswerMechanism \<and> who \<noteq> [])"
      by (auto simp: closeVerdict_def split: if_splits)
    then show ?thesis
      using store_lib.store_Close_refines[OF assms(1) wf, of w now k who client] assms(3) Write fields
      by (cases "store_Close (NewAttentionStore K w) now k who client s") (auto simp: spec_update_def)
  next
    case (Refuse e)
    then show ?thesis
      using state assms(3)
      by (auto simp: closeVerdict_def store_Close_def get Let_def split: if_splits)
  qed (simp add: closeVerdict_def split: if_splits)
qed

lemma close_effect_witness:
  "store_Close (NewAttentionStore mem_kv 0) 4 demo_id [] None demo_s3 = (demo_s3, Inl ErrIllegalTransition)"
  using close_effect[OF demo_store_lib demo_runs(4) demo_get(3), of 4 "[]" None] by auto

section \<open>Reading\<close>

text \<open>C6: an indexed read is the reference read: on every reachable state it returns what a scan of all
  items with no index returns, and leaves the abstract store the reference read leaves.\<close>

theorem read_equals_reference_scan:
  assumes "store_lib K ib ab R" and "store_run K ib ab R w s"
  shows "map_prod (absStore ib ab) id (store_read R (NewAttentionStore K w) b rd rdP s) =
     spec_read R w b rd rdP (absStore ib ab s)"
  by (rule store_lib.store_read_refines[OF assms(1) store_lib.store_run_inv(1)[OF assms]])

lemma read_equals_reference_scan_witness:
  "map_prod demo_abs id (store_read std_runtime (NewAttentionStore mem_kv 0) True demo_readings demo_readings demo_s2)
     = spec_read std_runtime 0 True demo_readings demo_readings (demo_abs demo_s2)"
  by (rule read_equals_reference_scan[OF demo_store_lib demo_runs(3)])



text \<open>C8: a read loses no ask that is still wanted: whatever the two readings of clock and registry it
  takes, every item it removes is an open one that, when the prune checked it again, was expired or had a
  producer the strongest view of the registry calls gone; every other item stays unchanged, and a read
  adds none.\<close>

theorem read_removes_only_dead:
  assumes "store_lib K ib ab R" and "store_run K ib ab R w s"
    and "s' = fst (store_read R (NewAttentionStore K w) b rd rdP s)"
    and "aItems (absStore ib ab s) k = Some i"
  shows "(aItems (absStore ib ab s') k = Some i \<or>
     (aItems (absStore ib ab s') k = None \<and> State i = OpenState \<and>
      (isExpired i (rd_now rdP) \<or> \<not> alive R w (rd_probes rdP) (rd_checker rdP) i))) \<and>
    dom (aItems (absStore ib ab s')) \<subseteq> dom (aItems (absStore ib ab s))"
proof -
  obtain keys where "pruned R w rdP keys (absStore ib ab s) (absStore ib ab s')"
    using store_lib.store_read_ok[OF assms(1) store_lib.store_run_inv(1,2)[OF assms(1,2)], of w b rd rdP]
    by (auto simp: assms(3))
  then show ?thesis using prunedD[OF _ assms(4)] pruned_dom by blast
qed

lemma read_removes_only_dead_witness:
  "aItems (demo_abs (fst (store_read std_runtime (NewAttentionStore mem_kv 0) False demo_readings demo_readings demo_s1)))
     demo_id = Some demo_item"
proof -
  have "\<not> isExpired demo_item (rd_now demo_readings)" by code_simp
  moreover have "alive std_runtime 0 (rd_probes demo_readings) (rd_checker demo_readings) demo_item" by code_simp
  ultimately show ?thesis
    using read_removes_only_dead[OF demo_store_lib demo_runs(2) refl demo_get(1)] by blast
qed

section \<open>Sweeping\<close>

text \<open>C9: the sweep always succeeds. It closes exactly the answered items whose answer is older than the
  cutoff and then the open items that raise again an ask some remaining answered item has answered, leaves
  every other item as it was, and returns how many it closed.\<close>

theorem sweep_closes_exactly:
  assumes "store_lib K ib ab R" and "store_run K ib ab R w s"
    and "cutoff = now + negDuration maxAge" and "items = aItems (absStore ib ab s)"
  shows "\<exists>s'. store_SweepAnswered R (NewAttentionStore K w) now nowA nowO maxAge s =
      (s', Inr (card {k. \<exists>i. items k = Some i \<and> isDue cutoff i} +
        card {k. \<exists>i. items k = Some i \<and>
          isReraise (answeredAsks (worthyItems (\<lambda>i. \<not> isDue cutoff i) items)) i})) \<and>
     aItems (absStore ib ab s') = (\<lambda>k. map_option (sweptItem cutoff nowA nowO items k) (items k))"
  by (rule store_lib.sweep_ok[OF assms(1) store_lib.store_run_inv(1)[OF assms(1,2)] assms(3,4)])

lemma sweep_closes_exactly_witness:
  "\<exists>s'. aItems (demo_abs s') demo_id = Some (closedNow 100 demo_answered) \<and>
     s' = fst (store_SweepAnswered std_runtime (NewAttentionStore mem_kv 0) 50 (\<lambda>_. 100) (\<lambda>_. 100) 10 demo_s2)"
proof -
  have "sweptItem 40 (\<lambda>_. 100) (\<lambda>_. 100) items demo_id demo_answered = closedNow 100 demo_answered" for items
    by (simp add: sweptItem_def isDue_def) (simp add: demo_answered_def)
  then show ?thesis
    using sweep_closes_exactly[OF demo_store_lib demo_runs(3), of 40 50 10 _ "\<lambda>_. 100" "\<lambda>_. 100"] demo_get(2)
    by (auto simp: negDuration_def minDuration_def)
qed

section \<open>Pushing\<close>

text \<open>A push whose dedup key is taken by an open item with a live producer updates that item in place:
  the item keeps its id, lifecycle, answer mechanism and dedup identity, only the content fields of the
  request and the creation time are replaced, and no other item changes.\<close>

theorem repush_updates_in_place:
  assumes "store_lib K ib ab R" and "store_run K ib ab R w s" and "PushRequest_Validate R req = None"
    and "a = absStore ib ab s"
    and "spec_build openIndexWorthy dedupIndexKey (aItems a) (aDedup a)
           (dedupIndexKeyOf (req_ProducerID req) (req_DedupKey req)) = Some i"
    and "isProducerLive R w P c i = Inr True"
  shows "\<exists>s'. store_Push R (NewAttentionStore K w) P c generated now req s = (s', Inr (repushed req now i)) \<and>
     aItems a (ItemID i) = Some i \<and> State i = OpenState \<and>
     aItems (absStore ib ab s') = (aItems a)(ItemID i \<mapsto> repushed req now i) \<and> evolves i (repushed req now i)"
proof -
  have inv: "storeInv a" and wf: "wfItems (aItems a)" and fin: "finite (dom (aItems a))"
    unfolding assms(4) by (rule store_lib.store_run_inv[OF assms(1,2)])+
  have sound: "idxSound openIndexWorthy dkey (aItems a) (aDedup a)" using inv by (simp add: storeInv_def)
  let ?idx = "spec_build openIndexWorthy dedupIndexKey (aItems a) (aDedup a)"
  have "entries ?idx (dedupIndexKeyOf (req_ProducerID req) (req_DedupKey req)) = Some i"
    using assms(5) by (simp add: entries_at)
  then have i: "aItems a (ItemID i) = Some i" "State i = OpenState"
    using idxSoundD[OF dedup_build_sound[OF fin wf sound]] by (auto simp: openIndexWorthy_def)
  then show ?thesis
    using store_lib.store_Push_refines[OF assms(1) wf[unfolded assms(4)] sound[unfolded assms(4)],
        of w P c generated now req, folded assms(4)] assms(3,5,6) repushed_evolves
    by (cases "store_Push R (NewAttentionStore K w) P c generated now req s")
       (auto simp: spec_Push_def Let_def)
qed

lemma repush_updates_in_place_witness:
  "\<exists>s'. store_Push std_runtime (NewAttentionStore mem_kv 0) demo_probes demo_checker (Inr demo_id) 8 demo_req demo_s1
     = (s', Inr (repushed demo_req 8 demo_item))"
proof -
  have "isProducerLive std_runtime 0 demo_probes demo_checker demo_item = Inr True" by code_simp
  then show ?thesis
    using repush_updates_in_place[OF demo_store_lib demo_runs(2) demo_valid refl, of demo_item] demo_dedup
    by (fastforce simp: spec_build_def)
qed



text \<open>A re-push may leave the board with an item \<open>Item.Validate\<close> refuses: there is a run that pushes an
  acknowledgement ask and pushes the same dedup key again as a choice, and ends with a stored item that
  carries the options of the second push under the answer mechanism of the first.\<close>

theorem repush_can_store_invalid_item:
  "\<exists>s i. store_run mem_kv mem_ib mem_ab std_runtime 0 s \<and> aItems (demo_abs s) demo_id = Some i \<and>
     State i = OpenState \<and> Item_Validate std_runtime i = Some ValidationError"
proof -
  have "Item_Validate std_runtime (repushed demo_optreq 8 demo_ackitem) = Some ValidationError"
    "State (repushed demo_optreq 8 demo_ackitem) = OpenState"
    by code_simp+
  then show ?thesis using demo_ack_run(2) demo_a2_items by blast
qed

section \<open>Refinement and rebuild\<close>

text \<open>C10: every call of every operation is a sequence of the primitive steps of the abstract store: item
  updates along their verdicts, creations, removals of open items, attempts and index builds.\<close>

theorem calls_refine_primitive_steps:
  assumes "store_lib K ib ab R" and "store_run K ib ab R w s"
    and "store_step R (NewAttentionStore K w) s s'"
  shows "asteps R (absStore ib ab s) (absStore ib ab s')"
  by (rule store_lib.store_step_asteps[OF assms(1,3) store_lib.store_run_inv(1)[OF assms(1,2)]])

lemma calls_refine_primitive_steps_witness:
  "asteps std_runtime (demo_abs demo_s1) (demo_abs demo_s2)"
  by (rule calls_refine_primitive_steps[OF demo_store_lib demo_runs(2) demo_step2[unfolded demo_A_def]])

text \<open>C28: whatever an index bucket held before its marker was written (entries of an older binary, of a
  store that was moved, of items gone since), building it leaves exactly the items that belong in it, and
  touches no item.\<close>

theorem rebuild_repairs_drift:
  assumes "store_lib K ib ab R" and "a = absStore ib ab s" and "wfItems (aItems a)"
    and "\<not> built (aLive a)" and "\<not> built (aOpen a)"
  shows "\<exists>s1 s2. ensureLiveIndex R (NewAttentionStore K w) s = (s1, Inr ()) \<and>
      entries (aLive (absStore ib ab s1)) = worthyItems liveIndexWorthy (aItems a) \<and>
      aItems (absStore ib ab s1) = aItems a \<and>
    ensureOpenIndex R (NewAttentionStore K w) s = (s2, Inr ()) \<and>
      entries (aOpen (absStore ib ab s2)) = worthyItems openIndexWorthy (aItems a) \<and>
      aItems (absStore ib ab s2) = aItems a"
  using store_lib.ensure_exact[OF assms(1), of s w] assms(3-5) unfolding assms(2) by blast

definition demo_drifted :: memdb where
  "demo_drifted = mem_empty\<lparr>mem_items := (mem_items mem_empty)(attentionLiveIndexBucketName \<mapsto> [(''x'', demo_item)])\<rparr>"

lemma rebuild_repairs_drift_witness:
  "\<exists>s1. entries (aLive (demo_abs demo_drifted)) ''x'' = Some demo_item \<and>
     ensureLiveIndex std_runtime (NewAttentionStore mem_kv 0) demo_drifted = (s1, Inr ()) \<and>
     entries (aLive (demo_abs s1)) = Map.empty"
proof -
  have a: "aItems (demo_abs demo_drifted) = Map.empty" "aOpen (demo_abs demo_drifted) = Map.empty"
    "aLive (demo_abs demo_drifted) = [''x'' \<mapsto> demo_item]"
    by (simp_all add: demo_drifted_def absStore_def mem_ib_def mem_empty_def fun_eq_iff)
  have "wfItems (aItems (demo_abs demo_drifted))" "\<not> built (aLive (demo_abs demo_drifted))"
    "\<not> built (aOpen (demo_abs demo_drifted))"
    by (simp_all add: a wfItems_def built_def liveIndexMarkerKey_def)
  moreover have "entries (aLive (demo_abs demo_drifted)) ''x'' = Some demo_item"
    by (simp add: a entries_def liveIndexMarkerKey_def)
  moreover have "worthyItems liveIndexWorthy Map.empty = Map.empty"
    by (simp add: worthyItems_def fun_eq_iff)
  ultimately show ?thesis
    using rebuild_repairs_drift[OF demo_store_lib refl, of demo_drifted 0] by (auto simp: a(1))
qed

section \<open>Keys\<close>

text \<open>The history index is in time order: the key of an item created earlier sorts before the key of
  one created later, for every creation time in the years 0 to 9999, whatever the item ids.\<close>

theorem history_keys_sort_by_time:
  assumes "CreatedAt i < CreatedAt j" and "0 \<le> yearOf (CreatedAt i)" and "yearOf (CreatedAt j) \<le> 9999"
    and "yearOf (CreatedAt i) \<le> 9999" and "0 \<le> yearOf (CreatedAt j)"
  shows "timeOrderedIndexKey k i < timeOrderedIndexKey k' j"
proof -
  have "formatHistoryKey (CreatedAt i) < formatHistoryKey (CreatedAt j)"
    by (rule formatHistoryKey_less) (use assms in simp_all)
  moreover have "length (formatHistoryKey (CreatedAt i)) = length (formatHistoryKey (CreatedAt j))"
    using assms by (simp add: length_formatHistoryKey)
  ultimately show ?thesis by (simp add: timeOrderedIndexKey_def lex_append_left)
qed

lemma history_keys_sort_by_time_witness:
  "timeOrderedIndexKey [] (demo_item\<lparr>CreatedAt := 1700000000999999999\<rparr>)
     < timeOrderedIndexKey [] (demo_item\<lparr>CreatedAt := 1700000001000000000\<rparr>)"
proof (rule history_keys_sort_by_time)
  show "0 \<le> yearOf (CreatedAt (demo_item\<lparr>CreatedAt := 1700000000999999999\<rparr>))" by code_simp
  show "yearOf (CreatedAt (demo_item\<lparr>CreatedAt := 1700000001000000000\<rparr>)) \<le> 9999" by code_simp
  show "yearOf (CreatedAt (demo_item\<lparr>CreatedAt := 1700000000999999999\<rparr>)) \<le> 9999" by code_simp
  show "0 \<le> yearOf (CreatedAt (demo_item\<lparr>CreatedAt := 1700000001000000000\<rparr>))" by code_simp
qed simp

section \<open>Escalation, flags and ratings\<close>

text \<open>The first escalation of an open item wins: after it succeeded, escalating again from the same
  session returns the item unchanged and from another session is refused, and neither changes the
  database.\<close>

theorem first_escalation_wins:
  assumes "store_lib K ib ab R" and "store_run K ib ab R w s"
    and "store_Escalate (NewAttentionStore K w) now k who s = (s', Inr i)"
  shows "EscalatedBy i = who \<and> aItems (absStore ib ab s') k = Some i \<and>
     store_Escalate (NewAttentionStore K w) now' k who s' = (s', Inr i) \<and>
     (other = who \<or> SessionID_Validate other \<noteq> None \<or>
       store_Escalate (NewAttentionStore K w) now' k other s' = (s', Inl ErrAlreadyEscalated))"
proof -
  have wf: "wfItems (aItems (absStore ib ab s))" using store_lib.store_run_inv(3)[OF assms(1,2)] .
  have v: "SessionID_Validate who = None"
    using assms(3) by (auto simp: store_Escalate_def split: option.splits)
  have up: "spec_update k (escalateVerdict now who) (absStore ib ab s) = (absStore ib ab s', Inr i)"
    using store_lib.store_Escalate_refines[OF assms(1) wf, of w now k who] by (simp add: assms(3) v)
  then obtain i0 where i0: "aItems (absStore ib ab s) k = Some i0" by (auto simp: spec_update_def split: option.splits)
  have "ItemID i0 = k" using wfItemsD[OF wf i0] by simp
  then have "absStore ib ab s' = spec_put i (absStore ib ab s) \<or> (absStore ib ab s' = absStore ib ab s \<and> i = i0)"
    and i: "EscalatedBy i = who" "State i = OpenState" "ItemID i = k"
    using up i0 by (auto simp: spec_update_def escalateVerdict_def split: if_splits)
  then have s': "aItems (absStore ib ab s') k = Some i" using i0 by auto
  have "who \<noteq> []" using v by (rule SessionID_nonempty)
  then show ?thesis
    using i v s'
    by (cases "SessionID_Validate other")
       (auto simp: store_Escalate_def store_lib.getItem_abs[OF assms(1)] db_Update_def
        kv_lib.commit_ok[OF store_lib.axioms(1)[OF assms(1)]])
qed

definition demo_session :: string where "demo_session = ''01234567-89ab-cdef-0123-456789abcdef''"

lemma first_escalation_wins_witness:
  "\<exists>s' i. store_Escalate (NewAttentionStore mem_kv 0) 2 demo_id demo_session demo_s1 = (s', Inr i) \<and>
     store_Escalate (NewAttentionStore mem_kv 0) 3 demo_id (''f'' @ tl demo_session) s' = (s', Inl ErrAlreadyEscalated)"
proof -
  have v: "SessionID_Validate demo_session = None" "SessionID_Validate (''f'' @ tl demo_session) = None"
    "''f'' @ tl demo_session \<noteq> demo_session" "EscalatedBy demo_item = []"
    by code_simp+
  have "wfItems (aItems (demo_abs demo_s1))" by (rule mem_store.store_run_inv(3)[OF demo_runs(2)])
  from mem_store.store_Escalate_refines[OF this, of 0 2 demo_id demo_session]
  obtain s' i where e: "store_Escalate (NewAttentionStore mem_kv 0) 2 demo_id demo_session demo_s1 = (s', Inr i)"
    by (cases "store_Escalate (NewAttentionStore mem_kv 0) 2 demo_id demo_session demo_s1")
       (auto simp: v spec_update_def demo_get(1) escalateVerdict_def)
  then show ?thesis
    using first_escalation_wins[OF demo_store_lib demo_runs(2) e, of 3 "''f'' @ tl demo_session"] v by auto
qed

section \<open>Delivery attempts\<close>

text \<open>A recorded attempt is what the delivery report shows: after a successful \<open>RecordAttempt\<close> the report
  of that item carries the carrier, the time and the status of its outcome, and the report of every other
  item is what it was.\<close>

theorem attempt_shows_in_report:
  assumes "store_lib K ib ab R" and "store_run K ib ab R w s"
    and "store_RecordAttempt R (NewAttentionStore K w) now k carrier outcome s = (s', Inr attempt)"
  shows "store_Delivery (NewAttentionStore K w) k s' =
      Inr \<lparr>rep_ItemID = k,
           rep_Status = (if outcome = DeliveredOutcome then DeliveredStatus
                         else if outcome = HeldOutcome then HeldStatus else FailedStatus),
           rep_Carrier = carrier, rep_AttemptedAt = Some now\<rparr> \<and>
    (k' = k \<or> store_Delivery (NewAttentionStore K w) k' s' = store_Delivery (NewAttentionStore K w) k' s)"
proof -
  have wf: "wfItems (aItems (absStore ib ab s))" using store_lib.store_run_inv(3)[OF assms(1,2)] .
  have "spec_RecordAttempt R now k carrier outcome (absStore ib ab s) = (absStore ib ab s', Inr attempt)"
    using store_lib.store_RecordAttempt_refines[OF assms(1) wf, of w now k carrier outcome] by (simp add: assms(3))
  then have eq: "absStore ib ab s' = (absStore ib ab s)\<lparr>aAttempts := (aAttempts (absStore ib ab s))(k \<mapsto> attempt)\<rparr>"
    and a: "attempt = \<lparr>att_ItemID = k, att_Carrier = carrier, att_Outcome = outcome, att_AttemptedAt = now\<rparr>"
    and k: "aItems (absStore ib ab s) k \<noteq> None"
    by (auto simp: spec_RecordAttempt_def Let_def split: if_splits option.splits)
  note rep = store_lib.store_Delivery_refines[OF assms(1), of w]
  have "k' \<noteq> k \<Longrightarrow> spec_Delivery k' (absStore ib ab s') = spec_Delivery k' (absStore ib ab s)"
  proof -
    assume "k' \<noteq> k"
    then have "aAttempts (absStore ib ab s') k' = aAttempts (absStore ib ab s) k'"
      "aItems (absStore ib ab s') = aItems (absStore ib ab s)" by (simp_all add: eq)
    then show ?thesis by (simp only: spec_Delivery_def)
  qed
  then show ?thesis
    unfolding rep using k by (auto simp: spec_Delivery_def deliveryStatus_def eq a)
qed

lemma attempt_shows_in_report_witness:
  "store_Delivery (NewAttentionStore mem_kv 0) demo_id demo_d1 =
     Inr \<lparr>rep_ItemID = demo_id, rep_Status = HeldStatus, rep_Carrier = ''tmux'', rep_AttemptedAt = Some 6\<rparr>"
  using attempt_shows_in_report[OF demo_store_lib demo_runs(3) demo_attempt_call(1), of demo_id] by simp

text \<open>An attempt never outlives its item: on every reachable state each recorded attempt is stored under
  the id of an item that is still stored, and names that item.\<close>

theorem attempts_name_stored_items:
  assumes "store_lib K ib ab R" and "store_run K ib ab R w s"
    and "aAttempts (absStore ib ab s) k = Some attempt"
  shows "att_ItemID attempt = k \<and> aItems (absStore ib ab s) k \<noteq> None"
  using store_lib.store_run_inv(1)[OF assms(1,2)] assms(3) by (auto simp: storeInv_def)

lemma attempts_name_stored_items_witness: "aItems (demo_abs demo_d1) demo_id \<noteq> None"
  using attempts_name_stored_items[OF demo_store_lib demo_attempt_run demo_attempt_call(2)] by simp

section \<open>Vocabularies and validation\<close>

text \<open>An answer is accepted exactly in the shape its kind declares: an option answer carries one
  value or a list of non-empty values and never both, a text answer a value, a skip or hidden answer
  nothing, and an answer without a kind no list.\<close>

theorem answer_shapes:
  assumes "runtime_lib R"
  shows "Answer_Validate R a = None \<longleftrightarrow>
     (ans_Kind a = [] \<and> ans_Values a = []) \<or>
     (ans_Kind a = OptionAnswerKind \<and>
        ((ans_Values a = [] \<and> ans_Value a \<noteq> []) \<or>
         (ans_Values a \<noteq> [] \<and> ans_Value a = [] \<and> [] \<notin> set (ans_Values a)))) \<or>
     (ans_Kind a = TextAnswerKind \<and> ans_Value a \<noteq> [] \<and> ans_Values a = []) \<or>
     ((ans_Kind a = SkipAnswerKind \<or> ans_Kind a = HiddenAnswerKind) \<and>
        ans_Value a = [] \<and> ans_Values a = [])"
  by (rule runtime_lib.Answer_Validate_None[OF assms])

lemma answer_shapes_witness:
  "Answer_Validate std_runtime \<lparr>ans_Kind = OptionAnswerKind, ans_Value = ''a'', ans_Values = [''a'']\<rparr> \<noteq> None"
proof -
  have d: "OptionAnswerKind \<noteq> []" "OptionAnswerKind \<noteq> TextAnswerKind" "OptionAnswerKind \<noteq> SkipAnswerKind"
    "OptionAnswerKind \<noteq> HiddenAnswerKind"
    by (simp_all add: AnswerKind_defs)
  show ?thesis
    unfolding answer_shapes[OF std_rt.runtime_lib_axioms] by (simp add: d)
qed

text \<open>A liveness reference is valid exactly when it is one of the three models, a colon and a non-empty
  value, and parsing gives those two parts back, colons in the value included.\<close>

theorem liveness_ref_roundtrip:
  assumes "runtime_lib R"
  shows "LivenessRef_Parse R ref = Inr (m, v) \<longleftrightarrow>
     ref = m @ '':'' @ v \<and> v \<noteq> [] \<and>
     (m = SessionLivenessModel \<or> m = HeartbeatLivenessModel \<or> m = OwnerLivenessModel)"
  by (rule runtime_lib.LivenessRef_Parse_Inr[OF assms])

lemma liveness_ref_roundtrip_witness:
  "LivenessRef_Parse std_runtime ''heartbeat:/tmp/a:b'' = Inr (HeartbeatLivenessModel, ''/tmp/a:b'')"
  unfolding liveness_ref_roundtrip[OF std_rt.runtime_lib_axioms] by (simp add: HeartbeatLivenessModel_def)

text \<open>An option list is valid for a cardinality exactly when every option has a label, at most one is
  recommended unless several may be picked, and at most one is exclusive.\<close>

theorem option_list_rules:
  assumes "runtime_lib R"
  shows "ValidateForCardinality R ops c = None \<longleftrightarrow>
     (\<forall>op\<in>set ops. opt_Label op \<noteq> []) \<and>
     (c \<noteq> MultipleAnswerCardinality \<longrightarrow> length (filter opt_Recommended ops) \<le> 1) \<and>
     length (filter opt_Exclusive ops) \<le> 1"
  by (rule runtime_lib.ValidateForCardinality_None[OF assms])

lemma option_list_rules_witness:
  "ValidateForCardinality std_runtime
     [\<lparr>opt_Label = ''a'', opt_Description = [], opt_Recommended = True, opt_Exclusive = False\<rparr>,
      \<lparr>opt_Label = ''b'', opt_Description = [], opt_Recommended = True, opt_Exclusive = False\<rparr>]
     MultipleAnswerCardinality = None"
  unfolding option_list_rules[OF std_rt.runtime_lib_axioms] by simp

text \<open>The computed risk only escalates: it is the elevated risk whenever the declared risk is, the ask
  touches production, or the payload or the context names an irreversible verb at the start of a word in
  any case; otherwise it is the declared risk, or its default.\<close>

theorem risk_only_escalates:
  "(RiskOf i p = ElevatedRisk \<longleftrightarrow>
     Risk i = ElevatedRisk \<or> p \<or> irreversibleRiskVerbPattern (Payload i) \<or> irreversibleRiskVerbPattern (Context i)) \<and>
   (RiskOf i p = ElevatedRisk \<or> RiskOf i p = OrDefault (Risk i))"
proof -
  have "OrDefault (Risk i) = ElevatedRisk \<longleftrightarrow> Risk i = ElevatedRisk"
    by (simp add: OrDefault_def DecisionRisk_def ElevatedRisk_def)
  then show ?thesis by (auto simp: RiskOf_def Let_def)
qed

end
